(* ===== verification/Prelude.thy ===== *)
theory Prelude
  imports Main "HOL-Library.Multiset" "HOL-Library.Char_ord" "HOL-Library.List_Lexorder"
begin

text \<open>
  Shared vocabulary of the development: the exceptions of the service as values, sequencing of
  fallible computations, database tables as lists of rows with a key column, stable ordering for
  \<open>ORDER BY\<close>, and the locales for the contracts several components share (a checked state
  machine, a machine that refines another, an exclusive lease).
\<close>

section \<open>Collections of facts\<close>

named_theorems frame_simps \<open>which tables an operation leaves alone\<close>
named_theorems op_defs \<open>definitions of the operations, for unfolding a handler\<close>

section \<open>Errors as values\<close>

text \<open>
  The codes of \<open>ERROR_HTTP_STATUS\<close> in
  \<open>src/backend/app/modules/review_contracts/generated.py\<close>, in its order.
\<close>

datatype error_code =
    VALIDATION_ERROR | RESOURCE_NOT_FOUND | METHOD_NOT_ALLOWED | ENTRY_CAPABILITY_DENIED
  | PRINCIPAL_AUTHENTICATION_REQUIRED | PRINCIPAL_PERMISSION_DENIED | WRITE_GUARD_REQUIRED
  | WRITE_GUARD_INVALID | RESOURCE_STATE_CONFLICT | PORT_OPERATION_NOT_SUPPORTED
  | PLAYBACK_NOT_READY | VERSION_NOT_CURRENT | REVIEW_IN_PROGRESS | REVIEW_ITEM_FINALIZED
  | UNRESOLVED_ISSUES_EXIST | NO_UNRESOLVED_ISSUE | VERSION_FILE_NOT_READY
  | PROJECT_FRAME_RATE_REQUIRED | PROJECT_FRAME_RATE_LOCKED | MEDIA_FRAME_RATE_UNKNOWN
  | MEDIA_VARIABLE_FRAME_RATE | MEDIA_FRAME_RATE_NOT_ALLOWED | MEDIA_FRAME_RATE_MISMATCH
  | RESPONSIBLE_EDITOR_REQUIRED | RESPONSIBLE_EDITOR_NOT_FOUND | DELETION_OUTCOME_UNKNOWN
  | FILE_HASH_MISMATCH | UPLOAD_INCOMPLETE | IDEMPOTENCY_CONFLICT | OPTIMISTIC_LOCK_CONFLICT
  | PACKAGE_NO_FINALIZED_FILES | PACKAGE_SOURCE_MISSING | PACKAGE_NOT_READY | PACKAGE_EXPIRED
  | FILE_TYPE_NOT_ALLOWED | FILE_TOO_LARGE | STORAGE_UNAVAILABLE | INTERNAL_SERVER_ERROR

text \<open>
  The exceptions that cross a function boundary: the service's own error class with its code
  (the human-readable message is dropped), the integrity error of the database layer, Python's
  built-in errors, and the errors of the storage layer.
\<close>

datatype exn = ReviewError error_code | IntegrityError | KeyError | ValueError | TypeError | UnsafeFilePathError | OSError

abbreviation raise :: "error_code \<Rightarrow> exn + 'a" where
  "raise c \<equiv> Inl (ReviewError c)"

text \<open>Sequencing: the exception of the first computation ends the whole.\<close>

definition ebind :: "'e + 'a \<Rightarrow> ('a \<Rightarrow> 'e + 'b) \<Rightarrow> 'e + 'b" where
  "ebind m f = (case m of Inl e \<Rightarrow> Inl e | Inr x \<Rightarrow> f x)"

text \<open>An \<open>if cond: raise\<close> statement.\<close>

definition guard :: "bool \<Rightarrow> 'e \<Rightarrow> 'e + unit" where
  "guard ok e = (if ok then Inr () else Inl e)"

text \<open>A \<open>for\<close> loop whose body may raise and threads a state.\<close>

fun efold :: "('x \<Rightarrow> 's \<Rightarrow> 'e + 's) \<Rightarrow> 'x list \<Rightarrow> 's \<Rightarrow> 'e + 's" where
  "efold f [] s = Inr s"
| "efold f (x # xs) s = ebind (f x s) (efold f xs)"

definition of_option :: "'e \<Rightarrow> 'a option \<Rightarrow> 'e + 'a" where
  "of_option e x = (case x of None \<Rightarrow> Inl e | Some y \<Rightarrow> Inr y)"

section \<open>Tables\<close>

text \<open>
  A table is the list of its rows in insertion order; \<open>key\<close> reads the primary key. A
  \<open>SELECT\<close> by key is \<open>row_get\<close>, writing a changed object back is \<open>row_put\<close>, an
  \<open>INSERT\<close> is \<open>row_insert\<close>, which raises when the primary key is taken or a
  unique constraint (\<open>clash new old\<close>) is violated, and a \<open>DELETE\<close> is a filter.
\<close>

definition row_get :: "('r \<Rightarrow> 'k) \<Rightarrow> 'k \<Rightarrow> 'r list \<Rightarrow> 'r option" where
  "row_get key k rows = List.find (\<lambda>r. key r = k) rows"

definition row_put :: "('r \<Rightarrow> 'k) \<Rightarrow> 'r \<Rightarrow> 'r list \<Rightarrow> 'r list" where
  "row_put key r rows = map (\<lambda>q. if key q = key r then r else q) rows"

definition row_insert :: "('r \<Rightarrow> 'k) \<Rightarrow> ('r \<Rightarrow> 'r \<Rightarrow> bool) \<Rightarrow> 'r \<Rightarrow> 'r list \<Rightarrow> exn + 'r list" where
  "row_insert key clash r rows =
     (if list_ex (\<lambda>q. key q = key r \<or> clash r q) rows then Inl IntegrityError
      else Inr (rows @ [r]))"

definition count_rows :: "('r \<Rightarrow> bool) \<Rightarrow> 'r list \<Rightarrow> int" where
  "count_rows P rows = int (length (filter P rows))"

text \<open>\<open>SELECT max(col)\<close> with Python's \<open>or 0\<close>.\<close>

definition max0 :: "int list \<Rightarrow> int" where
  "max0 xs = fold max xs 0"

text \<open>\<open>ORDER BY\<close> a key: a stable insertion sort.\<close>

definition order_by :: "('r \<Rightarrow> 'k::linorder) \<Rightarrow> 'r list \<Rightarrow> 'r list" where
  "order_by f rows = sort_key f rows"

section \<open>Facts about sequencing\<close>

lemma ebind_simps [simp]: "ebind (Inl e) f = Inl e" "ebind (Inr x) f = f x"
  by (simp_all add: ebind_def)

lemma ebind_Inr_iff [simp]: "ebind m f = Inr y \<longleftrightarrow> (\<exists>x. m = Inr x \<and> f x = Inr y)"
  by (cases m) auto

lemma ebind_Inl_iff: "ebind m f = Inl e \<longleftrightarrow> m = Inl e \<or> (\<exists>x. m = Inr x \<and> f x = Inl e)"
  by (cases m) auto

lemma guard_Inr_iff [simp]: "guard ok e = Inr u \<longleftrightarrow> ok"
  by (simp add: guard_def)

lemma guard_Inl_iff [simp]: "guard ok e = Inl e' \<longleftrightarrow> \<not> ok \<and> e' = e"
  by (auto simp: guard_def)

lemma guard_simps [simp]: "guard True e = Inr ()" "guard False e = Inl e"
  by (simp_all add: guard_def)

lemma of_option_Inr_iff [simp]: "of_option e x = Inr y \<longleftrightarrow> x = Some y"
  by (auto simp: of_option_def split: option.splits)

lemma of_option_Inl_iff [simp]: "of_option e x = Inl e' \<longleftrightarrow> x = None \<and> e' = e"
  by (auto simp: of_option_def split: option.splits)

lemma of_option_simps [simp]: "of_option e (Some y) = Inr y" "of_option e None = Inl e"
  by (simp_all add: of_option_def)

lemma efold_append: "efold f (xs @ ys) s = ebind (efold f xs s) (efold f ys)"
  by (induction xs arbitrary: s) (auto simp: ebind_def split: sum.splits)

text \<open>An invariant kept by every iteration holds after the loop.\<close>

lemma efold_invariant:
  assumes "efold f xs s = Inr s'" and "I s"
    and "\<And>x s t. x \<in> set xs \<Longrightarrow> I s \<Longrightarrow> f x s = Inr t \<Longrightarrow> I t"
  shows "I s'"
  using assms by (induction xs arbitrary: s) auto

text \<open>A relation between the state before and after, kept by every iteration.\<close>

lemma efold_relation:
  assumes "efold f xs s = Inr s'" and "\<And>s. R s s" and "\<And>s t u. R s t \<Longrightarrow> R t u \<Longrightarrow> R s u"
    and "\<And>x s t. x \<in> set xs \<Longrightarrow> f x s = Inr t \<Longrightarrow> R s t"
  shows "R s s'"
  using assms(1) assms(4)
proof (induction xs arbitrary: s)
  case Nil
  then show ?case using assms(2) by simp
next
  case (Cons x xs)
  from Cons.prems(1) obtain t where t: "f x s = Inr t" and rest: "efold f xs t = Inr s'" by auto
  have "R s t" by (rule Cons.prems(2) [OF _ t]) simp
  moreover have "R t s'" by (rule Cons.IH [OF rest]) (rule Cons.prems(2), simp_all)
  ultimately show ?case by (rule assms(3))
qed

section \<open>Facts about tables\<close>

lemma row_get_Nil [simp]: "row_get key k [] = None"
  by (simp add: row_get_def)

lemma row_get_Cons [simp]: "row_get key k (r # rows) = (if key r = k then Some r else row_get key k rows)"
  by (simp add: row_get_def)

lemma row_get_SomeD: "row_get key k rows = Some r \<Longrightarrow> r \<in> set rows \<and> key r = k"
  by (induction rows) (auto split: if_splits)

lemma row_get_None_iff: "row_get key k rows = None \<longleftrightarrow> k \<notin> key ` set rows"
  by (induction rows) auto

lemma row_get_mem:
  "distinct (map key rows) \<Longrightarrow> r \<in> set rows \<Longrightarrow> row_get key (key r) rows = Some r"
  by (induction rows) (auto simp: rev_image_eqI)

lemma row_get_iff:
  "distinct (map key rows) \<Longrightarrow> row_get key k rows = Some r \<longleftrightarrow> r \<in> set rows \<and> key r = k"
  using row_get_SomeD row_get_mem by metis

lemma row_get_append: "row_get key k (xs @ ys) = (case row_get key k xs of Some r \<Rightarrow> Some r | None \<Rightarrow> row_get key k ys)"
  by (induction xs) auto

lemma map_key_row_put [simp]: "map key (row_put key r rows) = map key rows"
  by (induction rows) (auto simp: row_put_def)

lemma key_set_row_put [simp]: "key ` set (row_put key r rows) = key ` set rows"
  by (metis map_key_row_put list.set_map)

lemma length_row_put [simp]: "length (row_put key r rows) = length rows"
  by (simp add: row_put_def)

lemma row_get_put:
  "row_get key k (row_put key r rows) =
     (if k = key r then map_option (\<lambda>_. r) (row_get key k rows) else row_get key k rows)"
  by (induction rows) (auto simp: row_put_def)

lemma row_get_put_same [simp]:
  "row_get key (key r) rows = Some q \<Longrightarrow> row_get key (key r) (row_put key r rows) = Some r"
  by (simp add: row_get_put)

lemma row_get_put_other [simp]:
  "k \<noteq> key r \<Longrightarrow> row_get key k (row_put key r rows) = row_get key k rows"
  by (simp add: row_get_put)

lemma set_row_put:
  "distinct (map key rows) \<Longrightarrow> q0 \<in> set rows \<Longrightarrow> key q0 = key r \<Longrightarrow>
     set (row_put key r rows) = insert r (set rows - {q0})"
  by (induction rows) (auto simp: row_put_def image_iff)

lemma in_set_row_putD: "q \<in> set (row_put key r rows) \<Longrightarrow> q = r \<or> (q \<in> set rows \<and> key q \<noteq> key r)"
  by (auto simp: row_put_def split: if_splits)

lemma in_set_row_put_other: "q \<in> set rows \<Longrightarrow> key q \<noteq> key r \<Longrightarrow> q \<in> set (row_put key r rows)"
  by (force simp: row_put_def)

lemma in_set_row_put_same: "q \<in> set rows \<Longrightarrow> key q = key r \<Longrightarrow> r \<in> set (row_put key r rows)"
  by (force simp: row_put_def)

lemma in_set_row_put_iff:
  "q0 \<in> set rows \<Longrightarrow> key q0 = key r \<Longrightarrow>
     q \<in> set (row_put key r rows) \<longleftrightarrow> q = r \<or> (q \<in> set rows \<and> key q \<noteq> key r)"
  using in_set_row_putD in_set_row_put_other in_set_row_put_same by metis

lemma row_put_fresh: "key r \<notin> key ` set rows \<Longrightarrow> row_put key r (rows @ [q]) = rows @ (if key q = key r then [r] else [q])"
  by (auto simp: row_put_def intro!: map_idI) (metis rev_image_eqI)+

lemma row_put_id: "(\<And>q. q \<in> set rows \<Longrightarrow> key q = key r \<Longrightarrow> q = r) \<Longrightarrow> row_put key r rows = rows"
  unfolding row_put_def by (rule map_idI) metis

lemma map_row_put:
  "(\<And>q. key' (f q) = key q) \<Longrightarrow> map f (row_put key r rows) = row_put key' (f r) (map f rows)"
  by (induction rows) (auto simp: row_put_def)

lemma row_insert_Inr_iff:
  "row_insert key clash r rows = Inr rows' \<longleftrightarrow>
     rows' = rows @ [r] \<and> (\<forall>q\<in>set rows. key q \<noteq> key r \<and> \<not> clash r q)"
  by (auto simp: row_insert_def list_ex_iff)

lemma row_insert_Inl: "row_insert key clash r rows = Inl e \<Longrightarrow> e = IntegrityError"
  by (auto simp: row_insert_def split: if_splits)

lemma distinct_row_insert:
  "distinct (map key rows) \<Longrightarrow> row_insert key clash r rows = Inr rows' \<Longrightarrow> distinct (map key rows')"
  by (auto simp: row_insert_Inr_iff)

lemma distinct_map_filterI: "distinct (map key rows) \<Longrightarrow> distinct (map key (filter P rows))"
  by (induction rows) auto

lemma row_get_filter:
  "distinct (map key rows) \<Longrightarrow>
     row_get key k (filter P rows) =
       (case row_get key k rows of Some r \<Rightarrow> if P r then Some r else None | None \<Rightarrow> None)"
proof (induction rows)
  case (Cons a rows)
  have "key a = k \<Longrightarrow> row_get key k rows = None" using Cons.prems by (auto simp: row_get_None_iff)
  with Cons show ?case by auto
qed simp

lemma count_rows_zero_iff: "count_rows P rows = 0 \<longleftrightarrow> (\<forall>r\<in>set rows. \<not> P r)"
  by (auto simp: count_rows_def filter_empty_conv)

lemma count_rows_pos_iff: "0 < count_rows P rows \<longleftrightarrow> (\<exists>r\<in>set rows. P r)"
  using count_rows_zero_iff [of P rows] by (auto simp: count_rows_def)

lemma count_rows_nonneg [simp]: "0 \<le> count_rows P rows"
  by (simp add: count_rows_def)

lemma fold_max_ge: "(n::int) \<le> fold max xs n" and fold_max_mem: "x \<in> set xs \<Longrightarrow> x \<le> fold max xs n"
  by (induction xs arbitrary: n) (auto intro: order_trans [OF max.cobounded1] order_trans [OF max.cobounded2])

lemma max0_nonneg [simp]: "0 \<le> max0 xs" and max0_ge: "x \<in> set xs \<Longrightarrow> x \<le> max0 xs"
  by (auto simp: max0_def fold_max_ge fold_max_mem)

lemma set_order_by [simp]: "set (order_by f rows) = set rows"
  by (simp add: order_by_def)

lemma distinct_order_by [simp]: "distinct (map key (order_by f rows)) = distinct (map key rows)"
proof -
  have "mset (map key (order_by f rows)) = mset (map key rows)"
    by (simp add: order_by_def)
  then show ?thesis by (rule mset_eq_imp_distinct_iff)
qed

section \<open>Interfaces\<close>

text \<open>
  A machine whose operations may be refused: a refused operation leaves the state as it was (the
  surrounding transaction is rolled back). \<open>run_ops\<close> is the state after a sequence of
  operations, \<open>reachable_by\<close> the states any such sequence leads to.
\<close>

definition apply_op :: "('op \<Rightarrow> 's \<Rightarrow> 'e + 's) \<Rightarrow> 'op \<Rightarrow> 's \<Rightarrow> 's" where
  "apply_op step x s = (case step x s of Inl _ \<Rightarrow> s | Inr s' \<Rightarrow> s')"

definition run_ops :: "('op \<Rightarrow> 's \<Rightarrow> 'e + 's) \<Rightarrow> 'op list \<Rightarrow> 's \<Rightarrow> 's" where
  "run_ops step xs s = fold (apply_op step) xs s"

inductive reachable_by :: "('op \<Rightarrow> 's \<Rightarrow> 'e + 's) \<Rightarrow> 's \<Rightarrow> 's \<Rightarrow> bool" for step s0 where
  reach_start: "reachable_by step s0 s0"
| reach_step: "reachable_by step s0 s \<Longrightarrow> step x s = Inr s' \<Longrightarrow> reachable_by step s0 s'"

locale checked_machine =
  fixes step :: "'op \<Rightarrow> 's \<Rightarrow> 'e + 's" and invar :: "'s \<Rightarrow> bool"
  assumes step_invar: "invar s \<Longrightarrow> step x s = Inr s' \<Longrightarrow> invar s'"
begin

lemma apply_op_invar: "invar s \<Longrightarrow> invar (apply_op step x s)"
  by (auto simp: apply_op_def split: sum.splits intro: step_invar)

lemma run_ops_invar: "invar s \<Longrightarrow> invar (run_ops step xs s)"
  unfolding run_ops_def by (induction xs arbitrary: s) (auto intro: apply_op_invar)

lemma reachable_invar: "reachable_by step s0 s \<Longrightarrow> invar s0 \<Longrightarrow> invar s"
  by (induction rule: reachable_by.induct) (auto intro: step_invar)

end

text \<open>A machine whose every step is, seen through \<open>abs\<close>, a sequence of abstract steps.\<close>

locale refined_machine = checked_machine step invar
  for step :: "'op \<Rightarrow> 's \<Rightarrow> 'e + 's" and invar :: "'s \<Rightarrow> bool" +
  fixes abs :: "'s \<Rightarrow> 'a" and astep :: "'a \<Rightarrow> 'a \<Rightarrow> bool"
  assumes step_refines: "invar s \<Longrightarrow> step x s = Inr s' \<Longrightarrow> astep\<^sup>*\<^sup>* (abs s) (abs s')"
begin

lemma reachable_refines: "reachable_by step s0 s \<Longrightarrow> invar s0 \<Longrightarrow> astep\<^sup>*\<^sup>* (abs s0) (abs s)"
proof (induction rule: reachable_by.induct)
  case (reach_step s x s')
  have "invar s" using reachable_invar reach_step by blast
  then show ?case using reach_step step_refines by (meson rtranclp_trans)
qed simp

text \<open>What the abstract machine keeps in every run, the concrete one keeps.\<close>

lemma abstract_property:
  assumes "reachable_by step s0 s" and "invar s0" and "P (abs s0)" and "\<And>a b. P a \<Longrightarrow> astep a b \<Longrightarrow> P b"
  shows "P (abs s)"
proof -
  have "astep\<^sup>*\<^sup>* (abs s0) (abs s)" by (rule reachable_refines [OF assms(1,2)])
  then show ?thesis by (induction rule: rtranclp_induct) (use assms(3,4) in auto)
qed

end

lemma run_ops_reachable: "reachable_by step s0 (run_ops step xs s0)"
proof -
  have "reachable_by step s0 s \<Longrightarrow> reachable_by step s0 (fold (apply_op step) xs s)" for s
  proof (induction xs arbitrary: s)
    case (Cons x xs)
    then have "reachable_by step s0 (apply_op step x s)"
      by (auto simp: apply_op_def split: sum.splits intro: reach_step)
    then show ?case using Cons.IH by simp
  qed simp
  then show ?thesis by (simp add: run_ops_def reach_start)
qed

text \<open>
  An exclusive, expiring lease on a slot: \<open>holder s\<close> is the identity on record,
  \<open>alive now s\<close> says that the lease has not run out. Taking it is refused while a lease
  is alive, and only the identity on record can give it back.
\<close>

locale exclusive_lease =
  fixes holder :: "'s \<Rightarrow> 'h option"
    and alive :: "int \<Rightarrow> 's \<Rightarrow> bool"
    and acquire :: "int \<Rightarrow> 'h \<Rightarrow> 's \<Rightarrow> 's option"
    and release :: "int \<Rightarrow> 'h \<Rightarrow> 's \<Rightarrow> 's option"
  assumes alive_held: "alive now s \<Longrightarrow> holder s \<noteq> None"
    and acquire_free: "acquire now h s = Some s' \<Longrightarrow> \<not> alive now s"
    and acquire_holds: "acquire now h s = Some s' \<Longrightarrow> holder s' = Some h"
    and release_holder: "release now h s = Some s' \<Longrightarrow> holder s = Some h"
    and release_frees: "release now h s = Some s' \<Longrightarrow> holder s' = None"
begin

lemma acquire_exclusive:
  assumes "alive now s"
  shows "acquire now h s = None"
  using acquire_free assms by (cases "acquire now h s") auto

lemma stale_release_refused:
  assumes "acquire now h s = Some s'" and "h' \<noteq> h"
  shows "release now' h' s' = None"
proof (cases "release now' h' s'")
  case (Some s'')
  then show ?thesis using release_holder acquire_holds [OF assms(1)] assms(2) by fastforce
qed

lemma released_free:
  assumes "release now h s = Some s'"
  shows "\<not> alive now' s'" and "release now' h' s' = None"
proof -
  have free: "holder s' = None" by (rule release_frees [OF assms])
  then show "\<not> alive now' s'" using alive_held by blast
  show "release now' h' s' = None" using release_holder free by (cases "release now' h' s'") fastforce+
qed

end

end
