(* ===== verification/Text.thy ===== *)
theory Text
  imports Prelude "HOL-Library.Sublist"
begin

text \<open>
  Python strings as their UTF-8 byte sequences (a \<open>char\<close> is a byte): decimal rendering of
  integers, \<open>str.strip\<close>, the identifier patterns \<open>[0-9a-f]\<close> of the storage
  contract, \<open>Path.suffix\<close>, and the archive-name checks of
  \<open>src/backend/app/modules/final_cut_review/infra/repositories.py\<close>. The length of a string
  is the length of its encoding, so no encoding step can fail; lone surrogates, which Python
  strings can hold and UTF-8 cannot, do not exist here.
\<close>

section \<open>Decimal rendering\<close>

definition digit_char :: "nat \<Rightarrow> char" where
  "digit_char d = char_of (48 + d)"

fun dec_nat :: "nat \<Rightarrow> string" where
  "dec_nat n = (if n < 10 then [digit_char n] else dec_nat (n div 10) @ [digit_char (n mod 10)])"

declare dec_nat.simps [simp del]

text \<open>\<open>str(n)\<close>, and the format \<open>{n:02d}\<close> for the non-negative numbers it is used on.\<close>

definition py_str :: "int \<Rightarrow> string" where
  "py_str n = (if n < 0 then CHR ''-'' # dec_nat (nat (- n)) else dec_nat (nat n))"

definition pad2 :: "int \<Rightarrow> string" where
  "pad2 n = (if 0 \<le> n \<and> n < 10 then CHR ''0'' # py_str n else py_str n)"

definition is_digit :: "char \<Rightarrow> bool" where
  "is_digit c \<longleftrightarrow> 48 \<le> (of_char c :: nat) \<and> (of_char c :: nat) \<le> 57"

section \<open>Whitespace\<close>

text \<open>The UTF-8 encodings of the characters for which \<open>str.isspace\<close> holds.\<close>

definition ws_seqs :: "string list" where
  "ws_seqs =
     map (\<lambda>n. [char_of n]) [9, 10, 11, 12, 13, 28, 29, 30, 31, 32 :: nat]
     @ [[char_of (194::nat), char_of (133::nat)], [char_of (194::nat), char_of (160::nat)],
        [char_of (225::nat), char_of (154::nat), char_of (128::nat)]]
     @ map (\<lambda>n. [char_of (226::nat), char_of (128::nat), char_of n])
         [128, 129, 130, 131, 132, 133, 134, 135, 136, 137, 138, 168, 169, 175 :: nat]
     @ [[char_of (226::nat), char_of (129::nat), char_of (159::nat)],
        [char_of (227::nat), char_of (128::nat), char_of (128::nat)]]"

fun lstrip_fuel :: "nat \<Rightarrow> string \<Rightarrow> string" where
  "lstrip_fuel 0 s = s"
| "lstrip_fuel (Suc n) s =
     (case List.find (\<lambda>w. prefix w s) ws_seqs of
        None \<Rightarrow> s
      | Some w \<Rightarrow> lstrip_fuel n (drop (length w) s))"

definition lstrip :: "string \<Rightarrow> string" where
  "lstrip s = lstrip_fuel (length s) s"

fun rstrip_fuel :: "nat \<Rightarrow> string \<Rightarrow> string" where
  "rstrip_fuel 0 s = s"
| "rstrip_fuel (Suc n) s =
     (case List.find (\<lambda>w. suffix w s) ws_seqs of
        None \<Rightarrow> s
      | Some w \<Rightarrow> rstrip_fuel n (take (length s - length w) s))"

definition rstrip :: "string \<Rightarrow> string" where
  "rstrip s = rstrip_fuel (length s) s"

definition py_strip :: "string \<Rightarrow> string" where
  "py_strip s = rstrip (lstrip s)"

section \<open>Code points\<close>

text \<open>A string is a sequence of bytes in UTF-8; \<open>len\<close>, indexing and iteration of the
  source work on its code points: a byte that is no continuation byte starts a new one.\<close>

definition continuation :: "char \<Rightarrow> bool" where
  "continuation c \<longleftrightarrow> 128 \<le> (of_char c :: nat) \<and> (of_char c :: nat) < 192"

function code_points :: "string \<Rightarrow> string list" where
  "code_points [] = []"
| "code_points (c # s) = (c # takeWhile continuation s) # code_points (dropWhile continuation s)"
  by pat_completeness auto

termination code_points
  by (relation "measure length") (simp_all add: le_imp_less_Suc length_dropWhile_le)

definition py_len :: "string \<Rightarrow> int" where
  "py_len s = int (length (code_points s))"

section \<open>Identifiers of the storage contract\<close>

definition is_hex :: "char \<Rightarrow> bool" where
  "is_hex c \<longleftrightarrow> is_digit c \<or> (97 \<le> (of_char c :: nat) \<and> (of_char c :: nat) \<le> 102)"

definition hex_run :: "nat \<Rightarrow> string \<Rightarrow> bool" where
  "hex_run n s \<longleftrightarrow> length s = n \<and> list_all is_hex s"

text \<open>\<open>re.fullmatch(prefix + "_[0-9a-f]{32}")\<close>.\<close>

definition hex_id :: "string \<Rightarrow> string \<Rightarrow> bool" where
  "hex_id p s \<longleftrightarrow> prefix (p @ ''_'') s \<and> hex_run 32 (drop (length p + 1) s)"

definition is_sha256 :: "string \<Rightarrow> bool" where
  "is_sha256 s \<longleftrightarrow> hex_run 64 s"

definition managed_file_id :: "string \<Rightarrow> bool" where
  "managed_file_id s \<longleftrightarrow> hex_id ''file'' s \<or> hex_id ''media'' s"

section \<open>File names\<close>

fun rfind_dot :: "string \<Rightarrow> nat option" where
  "rfind_dot [] = None"
| "rfind_dot (c # s) =
     (case rfind_dot s of
        Some i \<Rightarrow> Some (Suc i)
      | None \<Rightarrow> (if c = CHR ''.'' then Some 0 else None))"

text \<open>\<open>Path(name).suffix\<close> for a name without a separator.\<close>

definition path_suffix :: "string \<Rightarrow> string" where
  "path_suffix name =
     (case rfind_dot name of
        None \<Rightarrow> ''''
      | Some i \<Rightarrow> if 0 < i \<and> Suc i < length name then drop i name else '''')"

text \<open>\<open>filename.replace("\\\\", "/").rsplit("/", 1)[-1]\<close>.\<close>

definition is_sep :: "char \<Rightarrow> bool" where
  "is_sep c \<longleftrightarrow> c = CHR ''/'' \<or> c = char_of (92::nat)"

fun base_name :: "string \<Rightarrow> string" where
  "base_name [] = []"
| "base_name (c # s) = (if list_ex is_sep s then base_name s else if is_sep c then s else c # s)"

text \<open>The number of bytes of the code point that a byte starts.\<close>

definition utf8_len :: "char \<Rightarrow> nat" where
  "utf8_len c = (let n = of_char c :: nat in if n < 192 then 1 else if n < 224 then 2 else if n < 240 then 3 else 4)"

text \<open>\<open>PureWindowsPath(value).drive\<close> is non-empty for a value with no separator: the second
  code point is a colon.\<close>

definition has_drive :: "string \<Rightarrow> bool" where
  "has_drive s = (case s of [] \<Rightarrow> False | c # _ \<Rightarrow> take 1 (drop (utf8_len c) s) = '':'')"

definition package_name_has_path_semantics :: "string \<Rightarrow> bool" where
  "package_name_has_path_semantics value \<longleftrightarrow>
     value = '''' \<or> char_of (0::nat) \<in> set value \<or> CHR ''/'' \<in> set value
     \<or> char_of (92::nat) \<in> set value
     \<or> value \<in> {''.'', ''..''}
     \<or> has_drive value"

definition validate_package_unified_name :: "string option \<Rightarrow> exn + string" where
  "validate_package_unified_name value =
     (case value of
        None \<Rightarrow> raise VALIDATION_ERROR
      | Some v \<Rightarrow>
          if v = '''' \<or> py_strip v = '''' then raise VALIDATION_ERROR
          else if package_name_has_path_semantics v then raise VALIDATION_ERROR
          else Inr v)"

definition package_original_extension :: "string \<Rightarrow> exn + string" where
  "package_original_extension filename =
     (let sfx = path_suffix (base_name filename)
      in if sfx = '''' \<or> package_name_has_path_semantics sfx then raise RESOURCE_STATE_CONFLICT
         else Inr sfx)"

definition ZIP_MAX_ARCHIVE_NAME_BYTES :: int where
  "ZIP_MAX_ARCHIVE_NAME_BYTES = 65535"

definition validate_package_archive_name :: "string \<Rightarrow> error_code \<Rightarrow> exn + string" where
  "validate_package_archive_name value error_code =
     (if package_name_has_path_semantics value then raise error_code
      else if int (length value) > ZIP_MAX_ARCHIVE_NAME_BYTES then raise FILE_TOO_LARGE
      else Inr value)"

definition package_archive_name_is_safe :: "string \<Rightarrow> bool" where
  "package_archive_name_is_safe value \<longleftrightarrow>
     \<not> package_name_has_path_semantics value \<and> int (length value) \<le> ZIP_MAX_ARCHIVE_NAME_BYTES"

text \<open>The archive entry of an episode: \<open>f"{unified_name}-\<close>(di)\<open>{episode_no}\<close>(ji)\<open>{extension}"\<close>
  with the two ideographs of the source in UTF-8.\<close>

definition CHAR_DI :: string where
  "CHAR_DI = [char_of (231::nat), char_of (172::nat), char_of (172::nat)]"

definition CHAR_JI :: string where
  "CHAR_JI = [char_of (233::nat), char_of (155::nat), char_of (134::nat)]"

definition episode_tail :: "int \<Rightarrow> string \<Rightarrow> string" where
  "episode_tail episode_no extension = ''-'' @ CHAR_DI @ py_str episode_no @ CHAR_JI @ extension"

definition archive_name_for :: "string \<Rightarrow> int \<Rightarrow> string \<Rightarrow> string" where
  "archive_name_for unified_name episode_no extension = unified_name @ episode_tail episode_no extension"

section \<open>Integers in text\<close>

text \<open>\<open>int(text)\<close> : surrounding white space, an optional sign and digits, which single
  underscores may separate.\<close>

fun int_digits :: "int \<Rightarrow> string \<Rightarrow> int option" where
  "int_digits acc [] = Some acc"
| "int_digits acc (c # s) =
     (if is_digit c then int_digits (10 * acc + (of_char c - 48)) s
      else if c = CHR ''_'' then (case s of d # _ \<Rightarrow> if is_digit d then int_digits acc s else None | [] \<Rightarrow> None)
      else None)"

definition unsigned_int :: "string \<Rightarrow> int option" where
  "unsigned_int s = (case s of c # _ \<Rightarrow> if is_digit c then int_digits 0 s else None | [] \<Rightarrow> None)"

definition py_int :: "string \<Rightarrow> int option" where
  "py_int text =
     (case py_strip text of
        c # s \<Rightarrow>
          if c = CHR ''-'' then map_option uminus (unsigned_int s)
          else if c = CHR ''+'' then unsigned_int s
          else unsigned_int (c # s)
      | [] \<Rightarrow> None)"

section \<open>Facts\<close>

lemma of_char_digit: "d < 10 \<Longrightarrow> (of_char (digit_char d) :: nat) = 48 + d"
  by (simp add: digit_char_def of_char_of)

lemma is_digit_digit_char: "d < 10 \<Longrightarrow> is_digit (digit_char d)"
  by (simp add: is_digit_def of_char_digit)

lemma digit_char_inj: "d < 10 \<Longrightarrow> d' < 10 \<Longrightarrow> digit_char d = digit_char d' \<Longrightarrow> d = d'"
  by (metis of_char_digit add_left_cancel)

lemma dec_nat_digits: "list_all is_digit (dec_nat n)"
proof (induction n rule: dec_nat.induct)
  case (1 n)
  then show ?case by (subst dec_nat.simps) (auto simp: is_digit_digit_char)
qed

lemma dec_nat_nonempty [simp]: "dec_nat n \<noteq> []"
  by (subst dec_nat.simps) simp

lemma dec_nat_inj: "dec_nat m = dec_nat n \<Longrightarrow> m = n"
proof (induction m arbitrary: n rule: dec_nat.induct)
  case (1 m)
  have eq: "(if m < 10 then [digit_char m] else dec_nat (m div 10) @ [digit_char (m mod 10)]) =
     (if n < 10 then [digit_char n] else dec_nat (n div 10) @ [digit_char (n mod 10)])"
    using "1.prems" by (simp add: dec_nat.simps)
  consider "m < 10" "n < 10" | "m < 10" "\<not> n < 10" | "\<not> m < 10" "n < 10" | "\<not> m < 10" "\<not> n < 10"
    by blast
  then show ?case
  proof cases
    case 1
    then show ?thesis using eq digit_char_inj by simp
  next
    case 2
    then show ?thesis using eq by (cases "dec_nat (n div 10)") auto
  next
    case 3
    then show ?thesis using eq by (cases "dec_nat (m div 10)") auto
  next
    case 4
    with eq have a: "dec_nat (m div 10) = dec_nat (n div 10)"
      and b: "digit_char (m mod 10) = digit_char (n mod 10)" by auto
    have "m div 10 = n div 10" using "1.IH" 4(1) a by blast
    moreover have "m mod 10 = n mod 10" using b by (rule digit_char_inj [rotated 2]) simp_all
    ultimately show ?thesis by (metis mult_div_mod_eq)
  qed
qed

lemma py_str_pos_digits: "0 \<le> n \<Longrightarrow> list_all is_digit (py_str n)"
  by (simp add: py_str_def dec_nat_digits)

lemma py_str_inj_pos: "0 \<le> m \<Longrightarrow> 0 \<le> n \<Longrightarrow> py_str m = py_str n \<Longrightarrow> m = n"
  using dec_nat_inj by (fastforce simp: py_str_def)

text \<open>A digit run followed by a non-digit is read back uniquely.\<close>

lemma digit_run_unique:
  "list_all P xs \<Longrightarrow> list_all P ys \<Longrightarrow> \<not> P c \<Longrightarrow> xs @ c # us = ys @ c # vs \<Longrightarrow> xs = ys \<and> us = vs"
proof (induction xs arbitrary: ys)
  case Nil
  then show ?case by (cases ys) auto
next
  case (Cons x xs)
  then show ?case by (cases ys) auto
qed

lemma CHAR_JI_Cons: "CHAR_JI = char_of (233::nat) # [char_of (155::nat), char_of (134::nat)]"
  by (simp add: CHAR_JI_def)

lemma not_digit_JI: "\<not> is_digit (char_of (233::nat))"
  by (simp add: is_digit_def of_char_of)

lemma archive_name_for_inj:
  assumes "archive_name_for u m e = archive_name_for u n e'" and "0 \<le> m" and "0 \<le> n"
  shows "m = n \<and> e = e'"
proof -
  from assms(1) have "py_str m @ CHAR_JI @ e = py_str n @ CHAR_JI @ e'"
    by (simp add: archive_name_for_def episode_tail_def)
  then have "py_str m @ char_of (233::nat) # ([char_of (155::nat), char_of (134::nat)] @ e) =
      py_str n @ char_of (233::nat) # ([char_of (155::nat), char_of (134::nat)] @ e')"
    by (simp add: CHAR_JI_Cons)
  from digit_run_unique [OF py_str_pos_digits py_str_pos_digits not_digit_JI this] assms(2,3)
  have "py_str m = py_str n" and "e = e'" by auto
  then show ?thesis using py_str_inj_pos assms(2,3) by blast
qed

text \<open>The fuel of the strip loops is enough: what they return starts (ends) with no whitespace.\<close>

lemma ws_seqs_nonempty: "w \<in> set ws_seqs \<Longrightarrow> w \<noteq> []"
  by (auto simp: ws_seqs_def)

lemma lstrip_fuel_done:
  "length s \<le> n \<Longrightarrow> w \<in> set ws_seqs \<Longrightarrow> \<not> prefix w (lstrip_fuel n s)"
proof (induction n arbitrary: s)
  case 0
  then show ?case using ws_seqs_nonempty by auto
next
  case (Suc n)
  show ?case
  proof (cases "List.find (\<lambda>w. prefix w s) ws_seqs")
    case None
    then have "\<not> prefix w s" using Suc.prems(2) by (auto simp: find_None_iff)
    then show ?thesis using None by simp
  next
    case (Some v)
    then have "v \<in> set ws_seqs" by (auto simp: find_Some_iff)
    then have "0 < length v" using ws_seqs_nonempty by blast
    then have "length (drop (length v) s) \<le> n"
      using Suc.prems(1) unfolding length_drop by linarith
    then show ?thesis using Some Suc by simp
  qed
qed

lemma lstrip_done: "w \<in> set ws_seqs \<Longrightarrow> \<not> prefix w (lstrip s)"
  by (simp add: lstrip_def lstrip_fuel_done)

lemma hex_id_length: "hex_id p s \<Longrightarrow> length s = length p + 33"
  by (auto simp: hex_id_def hex_run_def dest!: prefix_length_le)

lemma hex_not_sep: "is_hex c \<Longrightarrow> c \<noteq> CHR ''/''"
  by (auto simp: is_hex_def is_digit_def)

lemma hex_id_no_slash: "CHR ''/'' \<notin> set p \<Longrightarrow> hex_id p s \<Longrightarrow> CHR ''/'' \<notin> set s"
proof -
  assume p: "CHR ''/'' \<notin> set p" and h: "hex_id p s"
  obtain t where s: "s = (p @ ''_'') @ t" using h by (auto simp: hex_id_def prefix_def)
  have "list_all is_hex t" using h s by (auto simp: hex_id_def hex_run_def)
  then have "CHR ''/'' \<notin> set t" using hex_not_sep by (auto simp: list_all_iff)
  then show ?thesis using p s by simp
qed

lemma archive_name_safe_iff:
  "(\<exists>v. validate_package_archive_name value c = Inr v) \<longleftrightarrow> package_archive_name_is_safe value"
  by (auto simp: validate_package_archive_name_def package_archive_name_is_safe_def)

lemma validate_package_archive_name_Inr:
  "validate_package_archive_name value c = Inr v \<Longrightarrow> v = value \<and> package_archive_name_is_safe value"
  by (auto simp: validate_package_archive_name_def package_archive_name_is_safe_def split: if_splits)

lemma validate_package_unified_name_Inr:
  "validate_package_unified_name v = Inr u \<Longrightarrow> v = Some u \<and> u \<noteq> '''' \<and> \<not> package_name_has_path_semantics u"
  by (auto simp: validate_package_unified_name_def split: option.splits if_splits)

lemma base_name_no_sep: "\<not> list_ex is_sep (base_name s)"
  by (induction s) auto

lemma package_original_extension_Inr:
  "package_original_extension f = Inr e \<Longrightarrow> e \<noteq> '''' \<and> \<not> package_name_has_path_semantics e"
  by (auto simp: package_original_extension_def Let_def split: if_splits)

end
