(* ===== verification/Timecode.thy ===== *)
theory Timecode
  imports Text
begin

text \<open>
  \<open>src/backend/app/modules/final_cut_review/domain/timecode.py\<close>: the conversion between
  milliseconds and frames at a rational frame rate, and the displayed timecode. Python's integers
  and its floor division are \<open>int\<close> and \<open>div\<close>.
\<close>

definition frame_from_timestamp_ms :: "int \<Rightarrow> int \<Rightarrow> int \<Rightarrow> exn + int" where
  "frame_from_timestamp_ms timestamp_ms fps_num fps_den =
     (if timestamp_ms < 0 \<or> fps_num \<le> 0 \<or> fps_den \<le> 0 then Inl ValueError
      else Inr ((timestamp_ms * fps_num) div (1000 * fps_den)))"

definition timestamp_ms_from_frame :: "int \<Rightarrow> int \<Rightarrow> int \<Rightarrow> exn + int" where
  "timestamp_ms_from_frame frame_number fps_num fps_den =
     (if frame_number < 0 \<or> fps_num \<le> 0 \<or> fps_den \<le> 0 then Inl ValueError
      else Inr ((frame_number * 1000 * fps_den) div fps_num))"

definition effective_fps :: "int \<Rightarrow> int \<Rightarrow> int" where
  "effective_fps fps_num fps_den = max 1 (fps_num div fps_den)"

definition format_review_timecode :: "int \<Rightarrow> int \<Rightarrow> int \<Rightarrow> exn + string" where
  "format_review_timecode frame_number fps_num fps_den =
     (if frame_number < 0 \<or> fps_num \<le> 0 \<or> fps_den \<le> 0 then Inl ValueError
      else
        let fps = effective_fps fps_num fps_den;
            total_seconds = frame_number div fps;
            frames = frame_number mod fps;
            hours = total_seconds div 3600;
            minutes = (total_seconds mod 3600) div 60;
            seconds = total_seconds mod 60
        in Inr (pad2 hours @ '':'' @ pad2 minutes @ '':'' @ pad2 seconds @ '':'' @ pad2 frames))"

text \<open>\<open>ALLOWED_FRAME_RATE_PAIRS\<close> of \<open>review_contracts/generated.py\<close>.\<close>

definition ALLOWED_FRAME_RATE_PAIRS :: "(int \<times> int) list" where
  "ALLOWED_FRAME_RATE_PAIRS =
     [(24000, 1001), (24, 1), (25, 1), (30000, 1001), (30, 1), (50, 1), (60000, 1001), (60, 1)]"

section \<open>Rounding\<close>

lemma timestamp_bounds:
  assumes "timestamp_ms_from_frame f n d = Inr t"
  shows "t * n \<le> f * 1000 * d \<and> f * 1000 * d < (t + 1) * n"
proof -
  from assms have n: "0 < n" and t: "t = (f * 1000 * d) div n"
    by (auto simp: timestamp_ms_from_frame_def split: if_splits)
  let ?a = "f * 1000 * d"
  have "t * n = ?a - ?a mod n" by (simp add: t minus_mod_eq_div_mult)
  moreover have "0 \<le> ?a mod n" "?a mod n < n" using n by simp_all
  ultimately show ?thesis by (simp add: algebra_simps)
qed

text \<open>
  C40. Seeking to a frame and back: the frame recovered from the millisecond timestamp that was
  derived from a frame is that frame or the one just before it, whenever a frame lasts at least
  one millisecond. It is the frame itself exactly when the timestamp is exact, that is when the
  frame starts on a whole millisecond.
\<close>

theorem frame_timestamp_roundtrip:
  assumes "timestamp_ms_from_frame f n d = Inr t" and "n \<le> 1000 * d"
  shows "frame_from_timestamp_ms t n d = Inr (if n dvd f * 1000 * d then f else f - 1)"
proof -
  from assms(1) have pos: "0 \<le> f" "0 < n" "0 < d" and tdef: "t = (f * 1000 * d) div n"
    by (auto simp: timestamp_ms_from_frame_def split: if_splits)
  have t0: "0 \<le> t" using pos by (simp add: tdef pos_imp_zdiv_nonneg_iff)
  let ?k = "1000 * d"
  have k: "0 < ?k" using pos by simp
  have frame: "frame_from_timestamp_ms t n d = Inr ((t * n) div ?k)"
    using pos t0 by (simp add: frame_from_timestamp_ms_def)
  show ?thesis
  proof (cases "n dvd f * 1000 * d")
    case True
    then have "t * n = f * ?k" by (simp add: tdef)
    then show ?thesis using frame True k by simp
  next
    case False
    then have ne: "t * n \<noteq> f * ?k" by (metis dvd_triv_right mult.assoc)
    have lo: "f * ?k < (t + 1) * n" and hi: "t * n \<le> f * ?k"
      using timestamp_bounds [OF assms(1)] by (simp_all add: mult.assoc)
    have "(f - 1) * ?k \<le> t * n" using lo assms(2) by (simp add: algebra_simps)
    moreover have "t * n < f * ?k" using hi ne by simp
    ultimately have "(t * n) div ?k = f - 1"
      using k by (intro int_div_pos_eq [of _ _ _ "t * n - (f - 1) * ?k"]) (auto simp: algebra_simps)
    then show ?thesis using frame False by simp
  qed
qed

theorem frame_timestamp_roundtrip_witness:
  "timestamp_ms_from_frame 1 30000 1001 = Inr 33 \<and> (30000::int) \<le> 1000 * 1001
     \<and> frame_from_timestamp_ms 33 30000 1001 = Inr 0"
proof -
  have a: "timestamp_ms_from_frame 1 30000 1001 = Inr 33" by (simp add: timestamp_ms_from_frame_def)
  have b: "(30000::int) \<le> 1000 * 1001" by simp
  show ?thesis using frame_timestamp_roundtrip [OF a b] a by simp
qed

section \<open>The displayed timecode\<close>

lemma is_digit_colon: "\<not> is_digit (CHR '':'')"
  by (simp add: is_digit_def)

lemma pad2_digits: "0 \<le> n \<Longrightarrow> list_all is_digit (pad2 n)"
  by (auto simp: pad2_def is_digit_def py_str_pos_digits)

lemma py_str_small: "0 \<le> n \<Longrightarrow> n < 10 \<Longrightarrow> length (py_str n) = 1"
  by (simp add: py_str_def dec_nat.simps nat_less_iff)

lemma dec_nat_no_leading_zero: "10 \<le> n \<Longrightarrow> hd (dec_nat n) \<noteq> CHR ''0''"
proof (induction n rule: dec_nat.induct)
  case (1 n)
  let ?m = "n div 10"
  have eq: "dec_nat n = dec_nat ?m @ [digit_char (n mod 10)]"
    using "1.prems" by (subst dec_nat.simps) simp
  show ?case
  proof (cases "10 \<le> ?m")
    case True
    then have "hd (dec_nat ?m) \<noteq> CHR ''0''" using "1" by simp
    then show ?thesis by (simp add: eq)
  next
    case False
    have "(of_char (digit_char ?m) :: nat) = 48 + ?m" using False by (simp add: of_char_digit)
    moreover have "0 < ?m" using "1.prems" by simp
    ultimately have "digit_char ?m \<noteq> CHR ''0''" by fastforce
    moreover have "dec_nat ?m = [digit_char ?m]" using False by (subst dec_nat.simps) simp
    ultimately show ?thesis by (simp add: eq)
  qed
qed

lemma pad2_inj:
  assumes "0 \<le> m" and "0 \<le> n" and "pad2 m = pad2 n"
  shows "m = n"
proof -
  have big: "10 \<le> k \<Longrightarrow> hd (py_str k) \<noteq> CHR ''0''" for k
    using dec_nat_no_leading_zero [of "nat k"] by (simp add: py_str_def)
  consider "m < 10" "n < 10" | "m < 10" "10 \<le> n" | "10 \<le> m" "n < 10" | "10 \<le> m" "10 \<le> n" by linarith
  then show ?thesis
  proof cases
    case 1
    then show ?thesis using assms py_str_inj_pos by (simp add: pad2_def)
  next
    case 2
    then have "CHR ''0'' # py_str m = py_str n" using assms by (simp add: pad2_def)
    then have "hd (py_str n) = CHR ''0''" by (metis list.sel(1))
    then show ?thesis using big 2 by blast
  next
    case 3
    then have "CHR ''0'' # py_str n = py_str m" using assms by (simp add: pad2_def)
    then have "hd (py_str m) = CHR ''0''" by (metis list.sel(1))
    then show ?thesis using big 3 by blast
  next
    case 4
    then show ?thesis using assms py_str_inj_pos by (simp add: pad2_def)
  qed
qed

lemma pad2_colon_inj:
  assumes "pad2 m @ CHR '':'' # u = pad2 n @ CHR '':'' # v" and "0 \<le> m" and "0 \<le> n"
  shows "m = n \<and> u = v"
  using digit_run_unique [OF pad2_digits pad2_digits is_digit_colon assms(1)] assms(2,3) pad2_inj
  by blast

lemma seconds_split: "(s::int) = 3600 * (s div 3600) + 60 * ((s mod 3600) div 60) + s mod 60"
proof -
  have "s mod 3600 mod 60 = s mod 60" by (simp add: mod_mod_cancel)
  then have "s mod 3600 = 60 * ((s mod 3600) div 60) + s mod 60"
    by (metis mult_div_mod_eq)
  then show ?thesis by (metis mult_div_mod_eq add.assoc)
qed

text \<open>
  The displayed timecode identifies the frame: at one frame rate two frames are displayed alike
  only if they are the same frame.
\<close>

theorem format_review_timecode_inj:
  assumes "format_review_timecode f n d = Inr s" and "format_review_timecode g n d = Inr s"
  shows "f = g"
proof -
  from assms have pos: "0 \<le> f" "0 \<le> g" "0 < n" "0 < d"
    by (auto simp: format_review_timecode_def split: if_splits)
  define fps where "fps = effective_fps n d"
  have fps: "0 < fps" by (simp add: fps_def effective_fps_def)
  let ?S = "\<lambda>x. x div fps"
  have nn: "0 \<le> ?S f" "0 \<le> ?S g" using pos fps by (simp_all add: pos_imp_zdiv_nonneg_iff)
  have "pad2 (?S f div 3600) @ '':'' @ pad2 (?S f mod 3600 div 60) @ '':'' @ pad2 (?S f mod 60) @ '':'' @ pad2 (f mod fps)
      = pad2 (?S g div 3600) @ '':'' @ pad2 (?S g mod 3600 div 60) @ '':'' @ pad2 (?S g mod 60) @ '':'' @ pad2 (g mod fps)"
    using assms pos by (simp add: format_review_timecode_def Let_def fps_def)
  then have eq: "pad2 (?S f div 3600) @ CHR '':'' # pad2 (?S f mod 3600 div 60) @ CHR '':'' # pad2 (?S f mod 60) @ CHR '':'' # pad2 (f mod fps)
      = pad2 (?S g div 3600) @ CHR '':'' # pad2 (?S g mod 3600 div 60) @ CHR '':'' # pad2 (?S g mod 60) @ CHR '':'' # pad2 (g mod fps)"
    by simp
  note e1 = pad2_colon_inj [OF eq]
  note e2 = pad2_colon_inj [OF e1 [THEN conjunct2]]
  note e3 = pad2_colon_inj [OF e2 [THEN conjunct2]]
  have h: "?S f div 3600 = ?S g div 3600" and m: "?S f mod 3600 div 60 = ?S g mod 3600 div 60"
    and sec: "?S f mod 60 = ?S g mod 60" and fr: "pad2 (f mod fps) = pad2 (g mod fps)"
    using e1 e2 e3 nn by (simp_all add: pos_imp_zdiv_nonneg_iff)
  have "?S f = ?S g" using h m sec seconds_split [of "?S f"] seconds_split [of "?S g"] by linarith
  moreover have "f mod fps = g mod fps" using fr fps by (intro pad2_inj) simp_all
  ultimately show ?thesis by (metis mult_div_mod_eq)
qed

theorem format_review_timecode_inj_witness:
  "format_review_timecode 100 25 1 = Inr ''00:00:04:00'' \<and> (100::int) = 100"
proof -
  have a: "format_review_timecode 100 25 1 = Inr ''00:00:04:00''" by code_simp
  show ?thesis using format_review_timecode_inj [OF a a] a by simp
qed

end
