(* ===== verification/Frame_Timing.thy ===== *)
theory Frame_Timing
  imports Complex_Main Timecode
begin

text \<open>
  The frame timing check of \<open>src/backend/app/modules/review_media/service.py\<close>
  (\<open>validate_streamed_frame_timing\<close>): it reads one line per packet - presentation time,
  decoding time, duration - and accepts a video only when its presentation times, put in order, lie
  on the grid of the declared frame rate. Packets arrive in decoding order, so presentation times
  wait in a small heap. Fractions are rationals; a heap is the sorted list of its elements.
\<close>

section \<open>Times in text\<close>

definition digits_value :: "string \<Rightarrow> int" where
  "digits_value s = foldl (\<lambda>acc c. 10 * acc + (of_char c - 48)) 0 s"

definition whole_ok :: "string \<Rightarrow> bool" where
  "whole_ok w \<longleftrightarrow> w = ''0'' \<or> (w \<noteq> '''' \<and> hd w \<noteq> CHR ''0'' \<and> length w \<le> 12)"

text \<open>\<open>MEDIA_PROBE_TIME_RE\<close> and the fraction it denotes, for a text without its sign.\<close>

definition unsigned_time :: "string \<Rightarrow> rat option" where
  "unsigned_time s =
     (let w = takeWhile is_digit s; rest = dropWhile is_digit s
      in if \<not> whole_ok w then None
         else
           (case rest of
              [] \<Rightarrow> Some (of_int (digits_value w))
            | c # f \<Rightarrow>
                if c = CHR ''.'' \<and> f \<noteq> '''' \<and> length f \<le> 6 \<and> list_all is_digit f
                then Some (of_int (digits_value w) + of_int (digits_value f) / 10 ^ length f) else None))"

definition timing_fraction :: "bool \<Rightarrow> string \<Rightarrow> exn + rat" where
  "timing_fraction allow_negative value =
     (case py_strip value of
        [] \<Rightarrow> raise MEDIA_FRAME_RATE_UNKNOWN
      | c # s \<Rightarrow>
          if c = CHR ''-''
          then if \<not> allow_negative then raise MEDIA_FRAME_RATE_UNKNOWN
               else of_option (ReviewError MEDIA_FRAME_RATE_UNKNOWN) (map_option uminus (unsigned_time s))
          else of_option (ReviewError MEDIA_FRAME_RATE_UNKNOWN) (unsigned_time (c # s)))"

section \<open>Lines\<close>

definition MEDIA_PROBE_MAX_TIMING_LINE_BYTES :: nat where
  "MEDIA_PROBE_MAX_TIMING_LINE_BYTES = 128"

definition newline :: char where
  "newline = CHR 0x0A"

text \<open>\<open>stream.readline(limit)\<close>: up to and including the next newline, at most \<open>limit\<close> bytes.\<close>

definition readline :: "nat \<Rightarrow> string \<Rightarrow> string \<times> string" where
  "readline limit s =
     (let t = take limit s; k = length (takeWhile (\<lambda>c. c \<noteq> newline) t); n = (if k < length t then Suc k else k)
      in (take n s, drop n s))"

text \<open>\<open>line.rstrip(b"\\r\\n")\<close> and \<open>text.split("|")\<close>\<close>

definition strip_line :: "string \<Rightarrow> string" where
  "strip_line s = rev (dropWhile (\<lambda>c. c = newline \<or> c = CHR 0x0D) (rev s))"

fun split_bar :: "string \<Rightarrow> string list" where
  "split_bar [] = [[]]"
| "split_bar (c # s) =
     (if c = CHR ''|'' then [] # split_bar s
      else (case split_bar s of [] \<Rightarrow> [[c]] | w # ws \<Rightarrow> (c # w) # ws))"

type_synonym packet = "rat \<times> rat \<times> rat"

definition read_packet :: "string \<Rightarrow> exn + packet" where
  "read_packet raw_line =
     (let unknown = ReviewError MEDIA_FRAME_RATE_UNKNOWN
      in if length raw_line > MEDIA_PROBE_MAX_TIMING_LINE_BYTES \<or> last raw_line \<noteq> newline then Inl unknown
         else if list_ex (\<lambda>c. 128 \<le> (of_char c :: nat)) (strip_line raw_line) then Inl unknown
         else
           (case split_bar (strip_line raw_line) of
              [a, b, c] \<Rightarrow>
                if a = '''' \<or> b = '''' \<or> c = '''' then Inl unknown
                else
                  ebind (timing_fraction False a) (\<lambda>pts.
                  ebind (timing_fraction True b) (\<lambda>dts.
                  ebind (timing_fraction False c) (\<lambda>duration.
                  Inr (pts, dts, duration))))
            | _ \<Rightarrow> Inl unknown))"

section \<open>The check\<close>

definition MEDIA_PROBE_MIN_PACKET_EVIDENCE :: int where
  "MEDIA_PROBE_MIN_PACKET_EVIDENCE = 3"

definition MEDIA_PROBE_TIMESTAMP_TOLERANCE :: rat where
  "MEDIA_PROBE_TIMESTAMP_TOLERANCE = 2 / 1000000"

definition MEDIA_PROBE_MAX_FRAME_COUNT_TOLERANCE :: int where
  "MEDIA_PROBE_MAX_FRAME_COUNT_TOLERANCE = 2"

text \<open>The fields of \<open>MediaProbeResult\<close> the check reads.\<close>

record timing_metadata =
  tm_fps_num :: int
  tm_fps_den :: int
  tm_start_time :: "rat option"
  tm_duration :: "rat option"
  tm_frame_count :: "int option"
  tm_packet_count :: "int option"
  tm_reorder_depth :: "int option"

definition nearest_fraction_integer :: "rat \<Rightarrow> int" where
  "nearest_fraction_integer value = \<lfloor>value\<rfloor> + (if value - of_int \<lfloor>value\<rfloor> \<ge> 1 / 2 then 1 else 0)"

text \<open>What is fixed while the packets are read.\<close>

record grid =
  g_start :: rat
  g_interval :: rat
  g_latest :: rat
  g_max_count :: int
  g_depth :: int

definition grid_pts :: "grid \<Rightarrow> int \<Rightarrow> rat" where
  "grid_pts g k = g_start g + of_int k * g_interval g"

record timing_state =
  ts_count :: int
  ts_previous_dts :: "rat option"
  ts_index :: int
  ts_heap :: "rat list"

definition accept_next_presentation_timestamp :: "grid \<Rightarrow> int \<Rightarrow> rat list \<Rightarrow> exn + int \<times> rat list" where
  "accept_next_presentation_timestamp g k heap =
     (case heap of
        [] \<Rightarrow> raise MEDIA_FRAME_RATE_UNKNOWN
      | actual_pts # rest \<Rightarrow>
          let tol = MEDIA_PROBE_TIMESTAMP_TOLERANCE; expected_pts = grid_pts g k
          in if actual_pts > expected_pts + tol
             then
               let nearest = nearest_fraction_integer ((actual_pts - g_start g) / g_interval g)
               in if \<bar>actual_pts - grid_pts g nearest\<bar> > tol then raise MEDIA_VARIABLE_FRAME_RATE
                  else raise MEDIA_FRAME_RATE_UNKNOWN
             else if actual_pts < expected_pts - tol then raise MEDIA_VARIABLE_FRAME_RATE
             else Inr (k + 1, rest))"

text \<open>The inner loop, which accepts while the smallest time waiting is the one expected.\<close>

fun settle :: "grid \<Rightarrow> int \<Rightarrow> rat list \<Rightarrow> exn + int \<times> rat list" where
  "settle g k [] = Inr (k, [])"
| "settle g k (a # rest) =
     (if \<bar>a - grid_pts g k\<bar> > MEDIA_PROBE_TIMESTAMP_TOLERANCE then Inr (k, a # rest)
      else ebind (accept_next_presentation_timestamp g k (a # rest)) (\<lambda>(k', _). settle g k' rest))"

text \<open>The last loop, which accepts everything that is left.\<close>

fun drain :: "grid \<Rightarrow> int \<Rightarrow> rat list \<Rightarrow> exn + int" where
  "drain g k [] = Inr k"
| "drain g k (a # rest) = ebind (accept_next_presentation_timestamp g k (a # rest)) (\<lambda>(k', _). drain g k' rest)"

definition packet_step :: "grid \<Rightarrow> packet \<Rightarrow> timing_state \<Rightarrow> exn + timing_state" where
  "packet_step g p st =
     (case p of (pts, dts, duration) \<Rightarrow>
        let tol = MEDIA_PROBE_TIMESTAMP_TOLERANCE; unknown = ReviewError MEDIA_FRAME_RATE_UNKNOWN;
            variable_rate = ReviewError MEDIA_VARIABLE_FRAME_RATE
        in ebind (guard (\<not> (pts < g_start g \<or> pts > g_latest g \<or> dts > pts + tol \<or> duration \<le> 0)) unknown) (\<lambda>_.
           ebind (guard (case ts_previous_dts st of None \<Rightarrow> True | Some q \<Rightarrow> \<not> \<bar>(dts - q) - g_interval g\<bar> > tol) variable_rate) (\<lambda>_.
           ebind (guard (\<not> \<bar>duration - g_interval g\<bar> > tol) variable_rate) (\<lambda>_.
             let count = ts_count st + 1
             in ebind (guard (\<not> count > g_max_count g) unknown) (\<lambda>_.
                ebind (settle g (ts_index st) (insort pts (ts_heap st))) (\<lambda>(k, heap).
                ebind (guard (\<not> int (length heap) > g_depth g + 1) unknown) (\<lambda>_.
                ebind (guard (heap = [] \<or> \<not> hd heap < grid_pts g k - tol) variable_rate) (\<lambda>_.
                ebind (guard (heap = [] \<or> \<not> last heap > grid_pts g (k + g_depth g * 2) + tol) unknown) (\<lambda>_.
                Inr \<lparr>ts_count = count, ts_previous_dts = Some dts, ts_index = k, ts_heap = heap\<rparr>)))))))))"

lemma readline_shorter: "s \<noteq> [] \<Longrightarrow> 0 < n \<Longrightarrow> length (snd (readline n s)) < length s"
  by (cases s; cases n) (auto simp: readline_def Let_def)

text \<open>The loop over the lines.\<close>

function read_packets :: "grid \<Rightarrow> string \<Rightarrow> timing_state \<Rightarrow> exn + timing_state" where
  "read_packets g stream st =
     (if stream = [] then Inr st
      else
        ebind (read_packet (fst (readline (MEDIA_PROBE_MAX_TIMING_LINE_BYTES + 1) stream))) (\<lambda>p.
        ebind (packet_step g p st) (\<lambda>st.
        read_packets g (snd (readline (MEDIA_PROBE_MAX_TIMING_LINE_BYTES + 1) stream)) st)))"
  by pat_completeness auto

termination read_packets
  by (relation "measure (\<lambda>(_, s, _). length s)") (simp_all add: readline_shorter)

declare read_packets.simps [simp del]

definition max_allowed_rate :: rat where
  "max_allowed_rate = fold max (map (\<lambda>(n, d). of_int n / of_int d) ALLOWED_FRAME_RATE_PAIRS) 0"

definition frame_rate_of :: "timing_metadata \<Rightarrow> rat" where
  "frame_rate_of m = of_int (tm_fps_num m) / of_int (tm_fps_den m)"

definition timing_grid :: "timing_metadata \<Rightarrow> rat \<Rightarrow> rat \<Rightarrow> int \<Rightarrow> grid" where
  "timing_grid m start_time duration depth =
     \<lparr>g_start = start_time, g_interval = 1 / frame_rate_of m,
      g_latest = start_time + duration + MEDIA_PROBE_TIMESTAMP_TOLERANCE,
      g_max_count = \<lceil>duration * max_allowed_rate\<rceil> + MEDIA_PROBE_MAX_FRAME_COUNT_TOLERANCE, g_depth = depth\<rparr>"

definition validate_streamed_frame_timing :: "string \<Rightarrow> timing_metadata \<Rightarrow> exn + int" where
  "validate_streamed_frame_timing stream m =
     (let unknown = ReviewError MEDIA_FRAME_RATE_UNKNOWN
      in if quotient_of (frame_rate_of m) \<notin> set ALLOWED_FRAME_RATE_PAIRS then raise MEDIA_FRAME_RATE_NOT_ALLOWED
         else
           (case (tm_start_time m, tm_duration m, tm_packet_count m, tm_reorder_depth m) of
              (Some start_time, Some duration, Some packets, Some depth) \<Rightarrow>
                if duration \<le> 0 then Inl unknown
                else
                  let g = timing_grid m start_time duration depth
                  in if packets > g_max_count g then Inl unknown
                     else
                       ebind (read_packets g stream \<lparr>ts_count = 0, ts_previous_dts = None, ts_index = 0, ts_heap = []\<rparr>) (\<lambda>st.
                       ebind (guard (\<not> ts_count st < MEDIA_PROBE_MIN_PACKET_EVIDENCE) unknown) (\<lambda>_.
                       ebind (guard (ts_count st = packets) unknown) (\<lambda>_.
                       ebind (guard (case tm_frame_count m of None \<Rightarrow> True | Some n \<Rightarrow> ts_count st = n) unknown) (\<lambda>_.
                       ebind (drain g (ts_index st) (ts_heap st)) (\<lambda>k.
                       ebind (guard (k = ts_count st) unknown) (\<lambda>_.
                       ebind (guard (\<not> \<bar>of_int (ts_count st) - duration * frame_rate_of m\<bar> > of_int MEDIA_PROBE_MAX_FRAME_COUNT_TOLERANCE)
                               unknown) (\<lambda>_.
                       Inr (ts_count st))))))))
            | _ \<Rightarrow> Inl unknown))"

section \<open>The packets of a stream\<close>

function packets_of :: "string \<Rightarrow> packet list option" where
  "packets_of stream =
     (if stream = [] then Some []
      else (case read_packet (fst (readline (MEDIA_PROBE_MAX_TIMING_LINE_BYTES + 1) stream)) of
              Inl _ \<Rightarrow> None
            | Inr p \<Rightarrow> map_option ((#) p) (packets_of (snd (readline (MEDIA_PROBE_MAX_TIMING_LINE_BYTES + 1) stream)))))"
  by pat_completeness auto

termination packets_of
  by (relation "measure length") (simp_all add: readline_shorter)

declare packets_of.simps [simp del]

section \<open>Accepted times lie on the grid\<close>

definition on_grid :: "grid \<Rightarrow> rat list \<Rightarrow> bool" where
  "on_grid g ts \<longleftrightarrow> (\<forall>k < length ts. \<bar>ts ! k - grid_pts g (int k)\<bar> \<le> MEDIA_PROBE_TIMESTAMP_TOLERANCE)"

lemma on_grid_Nil [simp]: "on_grid g []"
  by (simp add: on_grid_def)

lemma on_grid_snoc: "on_grid g (ts @ [a]) \<longleftrightarrow> on_grid g ts \<and> \<bar>a - grid_pts g (int (length ts))\<bar> \<le> MEDIA_PROBE_TIMESTAMP_TOLERANCE"
  by (auto simp: on_grid_def nth_append less_Suc_eq)

lemma accept_Inr:
  "accept_next_presentation_timestamp g k (a # rest) = Inr (k', r) \<Longrightarrow>
   k' = k + 1 \<and> \<bar>a - grid_pts g k\<bar> \<le> MEDIA_PROBE_TIMESTAMP_TOLERANCE"
  by (auto simp: accept_next_presentation_timestamp_def Let_def split: if_splits)

lemma settle_grid:
  assumes "settle g (int (length acc)) heap = Inr (k, heap')" and "on_grid g acc"
  shows "\<exists>more. heap = more @ heap' \<and> on_grid g (acc @ more) \<and> k = int (length (acc @ more))"
  using assms
proof (induction heap arbitrary: acc)
  case Nil
  then show ?case by auto
next
  case (Cons a rest)
  show ?case
  proof (cases "\<bar>a - grid_pts g (int (length acc))\<bar> > MEDIA_PROBE_TIMESTAMP_TOLERANCE")
    case True
    then show ?thesis using Cons.prems by auto
  next
    case False
    then obtain k' r where acc: "accept_next_presentation_timestamp g (int (length acc)) (a # rest) = Inr (k', r)"
      and rest: "settle g k' rest = Inr (k, heap')" using Cons.prems(1) by auto
    have k': "k' = int (length (acc @ [a]))" and "on_grid g (acc @ [a])"
      using accept_Inr [OF acc] Cons.prems(2) by (auto simp: on_grid_snoc)
    then obtain more where "rest = more @ heap'" "on_grid g ((acc @ [a]) @ more)" "k = int (length ((acc @ [a]) @ more))"
      using Cons.IH [of "acc @ [a]"] rest by auto
    then show ?thesis by (intro exI [of _ "a # more"]) simp
  qed
qed

lemma drain_grid:
  assumes "drain g (int (length acc)) heap = Inr k" and "on_grid g acc"
  shows "on_grid g (acc @ heap) \<and> k = int (length (acc @ heap))"
  using assms
proof (induction heap arbitrary: acc)
  case (Cons a rest)
  obtain k' r where acc: "accept_next_presentation_timestamp g (int (length acc)) (a # rest) = Inr (k', r)"
    and rest: "drain g k' rest = Inr k" using Cons.prems(1) by auto
  have "k' = int (length (acc @ [a]))" "on_grid g (acc @ [a])"
    using accept_Inr [OF acc] Cons.prems(2) by (auto simp: on_grid_snoc)
  then show ?case using Cons.IH [of "acc @ [a]"] rest by auto
qed simp

lemma on_grid_sorted:
  assumes "on_grid g ts" and "2 * MEDIA_PROBE_TIMESTAMP_TOLERANCE \<le> g_interval g"
  shows "sorted ts"
proof -
  have "ts ! k \<le> ts ! Suc k" if "Suc k < length ts" for k
  proof -
    have "\<bar>ts ! k - grid_pts g (int k)\<bar> \<le> MEDIA_PROBE_TIMESTAMP_TOLERANCE"
      "\<bar>ts ! Suc k - grid_pts g (int (Suc k))\<bar> \<le> MEDIA_PROBE_TIMESTAMP_TOLERANCE"
      using assms(1) that by (simp_all add: on_grid_def del: of_nat_Suc)
    moreover have "grid_pts g (int (Suc k)) = grid_pts g (int k) + g_interval g" by (simp add: grid_pts_def algebra_simps)
    ultimately show ?thesis using assms(2) by linarith
  qed
  then show ?thesis by (simp add: sorted_iff_nth_Suc)
qed

section \<open>The loop\<close>

definition spaced :: "grid \<Rightarrow> packet list \<Rightarrow> bool" where
  "spaced g ps \<longleftrightarrow> (\<forall>k. Suc k < length ps \<longrightarrow>
     \<bar>fst (snd (ps ! Suc k)) - fst (snd (ps ! k)) - g_interval g\<bar> \<le> MEDIA_PROBE_TIMESTAMP_TOLERANCE)"

lemma spaced_snoc:
  "spaced g (ps @ [p]) \<longleftrightarrow> spaced g ps
     \<and> (ps \<noteq> [] \<longrightarrow> \<bar>fst (snd p) - fst (snd (last ps)) - g_interval g\<bar> \<le> MEDIA_PROBE_TIMESTAMP_TOLERANCE)"
proof (cases "ps = []")
  case False
  then obtain n where n: "length ps = Suc n" by (cases ps) auto
  then show ?thesis using False
    by (auto simp: spaced_def nth_append last_conv_nth less_Suc_eq)
qed (simp add: spaced_def)

definition timing_inv :: "grid \<Rightarrow> packet list \<Rightarrow> timing_state \<Rightarrow> bool" where
  "timing_inv g ps st \<longleftrightarrow> ts_count st = int (length ps) \<and> spaced g ps
     \<and> ts_previous_dts st = (if ps = [] then None else Some (fst (snd (last ps))))
     \<and> (\<exists>acc. ts_index st = int (length acc) \<and> on_grid g acc \<and> mset acc + mset (ts_heap st) = mset (map fst ps))"

lemma packet_step_inv:
  assumes "timing_inv g ps st" and "packet_step g p st = Inr st'"
  shows "timing_inv g (ps @ [p]) st'"
proof -
  obtain pts dts duration where p: "p = (pts, dts, duration)" by (cases p)
  obtain acc where acc: "ts_index st = int (length acc)" "on_grid g acc" "mset acc + mset (ts_heap st) = mset (map fst ps)"
    using assms(1) by (auto simp: timing_inv_def)
  obtain k heap where run: "settle g (int (length acc)) (insort pts (ts_heap st)) = Inr (k, heap)"
    and dts: "case ts_previous_dts st of None \<Rightarrow> True | Some q \<Rightarrow> \<not> \<bar>(dts - q) - g_interval g\<bar> > MEDIA_PROBE_TIMESTAMP_TOLERANCE"
    and st': "st' = \<lparr>ts_count = ts_count st + 1, ts_previous_dts = Some dts, ts_index = k, ts_heap = heap\<rparr>"
    using assms(2) acc(1) by (auto simp: packet_step_def p Let_def)
  obtain more where more: "insort pts (ts_heap st) = more @ heap" "on_grid g (acc @ more)" "k = int (length (acc @ more))"
    using settle_grid [OF run acc(2)] by blast
  have "mset (acc @ more) + mset heap = mset acc + mset (insort pts (ts_heap st))" by (simp add: more(1))
  also have "\<dots> = mset (map fst (ps @ [p]))" using acc(3) by (simp add: p)
  finally show ?thesis using assms(1) more dts st' unfolding timing_inv_def
    by (auto simp: spaced_snoc p split: if_splits intro!: exI [of _ "acc @ more"])
qed

lemma read_packets_inv:
  assumes "read_packets g s st = Inr st'" and "timing_inv g ps st"
  shows "\<exists>qs. packets_of s = Some qs \<and> timing_inv g (ps @ qs) st'"
  using assms
proof (induction g s st arbitrary: ps rule: read_packets.induct)
  case (1 g s st)
  show ?case
  proof (cases "s = []")
    case True
    then show ?thesis using "1.prems" by (simp add: read_packets.simps packets_of.simps)
  next
    case False
    let ?r = "readline (MEDIA_PROBE_MAX_TIMING_LINE_BYTES + 1) s"
    obtain p st1 where p: "read_packet (fst ?r) = Inr p" "packet_step g p st = Inr st1" "read_packets g (snd ?r) st1 = Inr st'"
      using "1.prems"(1) False by (subst (asm) read_packets.simps) auto
    obtain qs where "packets_of (snd ?r) = Some qs" "timing_inv g ((ps @ [p]) @ qs) st'"
      using "1.IH" [OF False p(3)] packet_step_inv [OF "1.prems"(2) p(2)] by blast
    then show ?thesis using False p(1) by (subst packets_of.simps) simp
  qed
qed

lemma allowed_interval:
  assumes "quotient_of r \<in> set ALLOWED_FRAME_RATE_PAIRS"
  shows "2 * MEDIA_PROBE_TIMESTAMP_TOLERANCE \<le> 1 / r"
proof -
  obtain n d where q: "(n, d) \<in> set ALLOWED_FRAME_RATE_PAIRS" "quotient_of r = (n, d)" using assms by (metis surj_pair)
  have r: "r = of_int n / of_int d" by (rule quotient_of_div [OF q(2)])
  show ?thesis using q(1) unfolding r by (auto simp: ALLOWED_FRAME_RATE_PAIRS_def MEDIA_PROBE_TIMESTAMP_TOLERANCE_def)
qed

text \<open>
  C9. A video that passes the frame timing check has a constant frame rate: its packets are as many
  as declared, at least three; their presentation times in ascending order lie on the grid of the
  declared rate, the k-th within two microseconds of the k-th grid point; consecutive decoding times
  are one frame apart; and the number of frames agrees with the duration up to two frames - even
  though the check sees the packets in decoding order and never holds more of them than the declared
  reorder depth allows.
\<close>

theorem accepted_timing_is_constant_rate:
  assumes "validate_streamed_frame_timing stream m = Inr n"
  shows "\<exists>ps start duration. packets_of stream = Some ps \<and> tm_start_time m = Some start \<and> tm_duration m = Some duration
    \<and> n = int (length ps) \<and> 3 \<le> n \<and> tm_packet_count m = Some n \<and> quotient_of (frame_rate_of m) \<in> set ALLOWED_FRAME_RATE_PAIRS
    \<and> (\<forall>k < length ps. \<bar>sort (map fst ps) ! k - (start + of_nat k / frame_rate_of m)\<bar> \<le> 2 / 1000000)
    \<and> (\<forall>k. Suc k < length ps \<longrightarrow> \<bar>fst (snd (ps ! Suc k)) - fst (snd (ps ! k)) - 1 / frame_rate_of m\<bar> \<le> 2 / 1000000)
    \<and> \<bar>of_int n - duration * frame_rate_of m\<bar> \<le> 2"
proof -
  obtain start duration packets depth where m: "tm_start_time m = Some start" "tm_duration m = Some duration"
      "tm_packet_count m = Some packets" "tm_reorder_depth m = Some depth"
    and rate: "quotient_of (frame_rate_of m) \<in> set ALLOWED_FRAME_RATE_PAIRS"
    using assms by (auto simp: validate_streamed_frame_timing_def Let_def split: if_splits option.splits)
  define g where "g = timing_grid m start duration depth"
  have g: "g_start g = start" "g_interval g = 1 / frame_rate_of m" by (simp_all add: g_def timing_grid_def)
  let ?init = "\<lparr>ts_count = 0, ts_previous_dts = None, ts_index = 0, ts_heap = []\<rparr>"
  obtain st where run: "read_packets g stream ?init = Inr st" and n: "n = ts_count st" "3 \<le> n" "packets = n"
    and d: "drain g (ts_index st) (ts_heap st) = Inr n" and dur: "\<bar>of_int n - duration * frame_rate_of m\<bar> \<le> 2"
    using assms m rate by (auto simp: validate_streamed_frame_timing_def Let_def g_def MEDIA_PROBE_MIN_PACKET_EVIDENCE_def
        MEDIA_PROBE_MAX_FRAME_COUNT_TOLERANCE_def split: if_splits)
  have "timing_inv g [] ?init" by (simp add: timing_inv_def spaced_def)
  then obtain ps where ps: "packets_of stream = Some ps" "timing_inv g ps st"
    using read_packets_inv [OF run, of "[]"] by auto
  then obtain acc where acc: "ts_index st = int (length acc)" "on_grid g acc" "mset acc + mset (ts_heap st) = mset (map fst ps)"
    by (auto simp: timing_inv_def)
  have grid: "on_grid g (acc @ ts_heap st)" using drain_grid [of g acc] d acc by simp
  have "sorted (acc @ ts_heap st)" by (rule on_grid_sorted [OF grid]) (simp add: g allowed_interval [OF rate])
  then have sorted: "sort (map fst ps) = acc @ ts_heap st" using acc(3) by (metis mset_append properties_for_sort)
  have len: "length (acc @ ts_heap st) = length ps" using acc(3) by (metis length_map mset_append size_mset)
  have "\<forall>k < length ps. \<bar>sort (map fst ps) ! k - (start + of_nat k / frame_rate_of m)\<bar> \<le> 2 / 1000000"
    using grid unfolding sorted on_grid_def len by (simp add: grid_pts_def g MEDIA_PROBE_TIMESTAMP_TOLERANCE_def)
  moreover have "\<forall>k. Suc k < length ps \<longrightarrow> \<bar>fst (snd (ps ! Suc k)) - fst (snd (ps ! k)) - 1 / frame_rate_of m\<bar> \<le> 2 / 1000000"
    using ps(2) by (simp add: timing_inv_def spaced_def g MEDIA_PROBE_TIMESTAMP_TOLERANCE_def)
  ultimately show ?thesis using ps m n dur rate by (auto simp: timing_inv_def)
qed

text \<open>Four packets at 25 frames per second, the second and third in reverse presentation order.\<close>

definition ex_timing_line :: "string \<Rightarrow> string \<Rightarrow> string" where
  "ex_timing_line pts dts = pts @ ''|'' @ dts @ ''|0.04'' @ [newline]"

definition ex_timing_stream :: string where
  "ex_timing_stream = ex_timing_line ''0'' ''-0.04'' @ ex_timing_line ''0.08'' ''0'' @ ex_timing_line ''0.04'' ''0.04'' @ ex_timing_line ''0.12'' ''0.08''"

definition ex_timing :: timing_metadata where
  "ex_timing = \<lparr>tm_fps_num = 25, tm_fps_den = 1, tm_start_time = Some 0, tm_duration = Some (4 / 25), tm_frame_count = None,
     tm_packet_count = Some 4, tm_reorder_depth = Some 1\<rparr>"

lemma read_packets_step:
  "s \<noteq> [] \<Longrightarrow> readline (MEDIA_PROBE_MAX_TIMING_LINE_BYTES + 1) s = (line, rest) \<Longrightarrow> read_packet line = Inr p \<Longrightarrow>
   packet_step g p st = Inr st' \<Longrightarrow> read_packets g s st = read_packets g rest st'"
  by (subst read_packets.simps) simp

definition ex_grid :: grid where
  "ex_grid = timing_grid ex_timing 0 (4 / 25) 1"

definition ex_state :: "int \<Rightarrow> rat option \<Rightarrow> int \<Rightarrow> rat list \<Rightarrow> timing_state" where
  "ex_state n d k h = \<lparr>ts_count = n, ts_previous_dts = d, ts_index = k, ts_heap = h\<rparr>"

lemma ex_times:
  "unsigned_time ''0'' = Some 0" "unsigned_time ''0.04'' = Some (1 / 25)" "unsigned_time ''0.08'' = Some (2 / 25)"
  "unsigned_time ''0.12'' = Some (3 / 25)"
  by (simp_all add: unsigned_time_def is_digit_def whole_ok_def digits_value_def)

lemma ex_strips: "py_strip ''0'' = ''0''" "py_strip ''0.04'' = ''0.04''" "py_strip ''0.08'' = ''0.08''" "py_strip ''0.12'' = ''0.12''"
  "py_strip ''-0.04'' = ''-0.04''"
  by code_simp+

lemma ex_fractions:
  "timing_fraction b ''0'' = Inr 0" "timing_fraction b ''0.04'' = Inr (1 / 25)" "timing_fraction b ''0.08'' = Inr (2 / 25)"
  "timing_fraction b ''0.12'' = Inr (3 / 25)" "timing_fraction True ''-0.04'' = Inr (- 1 / 25)"
  by (simp_all add: timing_fraction_def ex_strips ex_times)

lemma read_packet_fields:
  assumes "length line \<le> 128 \<and> last line = newline \<and> \<not> list_ex (\<lambda>c. 128 \<le> (of_char c :: nat)) (strip_line line)
      \<and> split_bar (strip_line line) = [a, b, c] \<and> a \<noteq> '''' \<and> b \<noteq> '''' \<and> c \<noteq> ''''"
    and "timing_fraction False a = Inr x" and "timing_fraction True b = Inr y" and "timing_fraction False c = Inr z"
  shows "read_packet line = Inr (x, y, z)"
  using assms by (simp add: read_packet_def MEDIA_PROBE_MAX_TIMING_LINE_BYTES_def Let_def)

lemma ex_packets:
  "read_packet (ex_timing_line ''0'' ''-0.04'') = Inr (0, - 1 / 25, 1 / 25)"
  "read_packet (ex_timing_line ''0.08'' ''0'') = Inr (2 / 25, 0, 1 / 25)"
  "read_packet (ex_timing_line ''0.04'' ''0.04'') = Inr (1 / 25, 1 / 25, 1 / 25)"
  "read_packet (ex_timing_line ''0.12'' ''0.08'') = Inr (3 / 25, 2 / 25, 1 / 25)"
  by (rule read_packet_fields [OF _ ex_fractions(1) ex_fractions(5) ex_fractions(2)], code_simp)
     (rule read_packet_fields [OF _ ex_fractions(3) ex_fractions(1) ex_fractions(2)], code_simp,
      rule read_packet_fields [OF _ ex_fractions(2) ex_fractions(2) ex_fractions(2)], code_simp,
      rule read_packet_fields [OF _ ex_fractions(4) ex_fractions(3) ex_fractions(2)], code_simp)

lemma ex_grid_sel: "g_start ex_grid = 0" "g_interval ex_grid = 1 / 25" "g_latest ex_grid = 4 / 25 + 2 / 1000000" "g_max_count ex_grid = 12"
  "g_depth ex_grid = 1"
  using ceiling_unique [of 10 "48 / 5 :: rat"]
  by (simp_all add: ex_grid_def timing_grid_def ex_timing_def frame_rate_of_def MEDIA_PROBE_TIMESTAMP_TOLERANCE_def
      MEDIA_PROBE_MAX_FRAME_COUNT_TOLERANCE_def max_allowed_rate_def ALLOWED_FRAME_RATE_PAIRS_def max_def)

lemma ex_steps:
  "packet_step ex_grid (0, - 1 / 25, 1 / 25) (ex_state 0 None 0 []) = Inr (ex_state 1 (Some (- 1 / 25)) 1 [])"
  "packet_step ex_grid (2 / 25, 0, 1 / 25) (ex_state 1 (Some (- 1 / 25)) 1 []) = Inr (ex_state 2 (Some 0) 1 [2 / 25])"
  "packet_step ex_grid (1 / 25, 1 / 25, 1 / 25) (ex_state 2 (Some 0) 1 [2 / 25]) = Inr (ex_state 3 (Some (1 / 25)) 3 [])"
  "packet_step ex_grid (3 / 25, 2 / 25, 1 / 25) (ex_state 3 (Some (1 / 25)) 3 []) = Inr (ex_state 4 (Some (2 / 25)) 4 [])"
  by (simp_all add: packet_step_def ex_grid_sel ex_state_def grid_pts_def accept_next_presentation_timestamp_def MEDIA_PROBE_TIMESTAMP_TOLERANCE_def Let_def)

lemma readline_line:
  assumes "newline \<notin> set w" and "length w < n"
  shows "readline n (w @ newline # rest) = (w @ [newline], rest)"
proof -
  have t: "take n (w @ newline # rest) = w @ newline # take (n - Suc (length w)) rest"
    using assms(2) by (simp add: Suc_diff_Suc [symmetric])
  have "takeWhile (\<lambda>c. c \<noteq> newline) (w @ newline # take (n - Suc (length w)) rest) = w"
    using assms(1) by (subst takeWhile_append2) auto
  then show ?thesis unfolding readline_def t Let_def by simp
qed

lemma ex_step_line:
  assumes "line = w @ [newline]" and "newline \<notin> set w \<and> length w < 129" and "read_packet line = Inr p" and "packet_step g p st = Inr st'"
  shows "read_packets g (line @ rest) st = read_packets g rest st'"
  using read_packets_step [of "line @ rest" line rest p g st st'] readline_line [of w 129 rest] assms
  by (simp add: MEDIA_PROBE_MAX_TIMING_LINE_BYTES_def)

lemma ex_line: "ex_timing_line a b = (a @ ''|'' @ b @ ''|0.04'') @ [newline]"
  by (simp add: ex_timing_line_def)

lemma ex_read: "read_packets ex_grid ex_timing_stream (ex_state 0 None 0 []) = Inr (ex_state 4 (Some (2 / 25)) 4 [])"
proof -
  have "read_packets ex_grid ex_timing_stream (ex_state 0 None 0 []) = read_packets ex_grid [] (ex_state 4 (Some (2 / 25)) 4 [])"
    unfolding ex_timing_stream_def
    using ex_step_line [OF ex_line _ ex_packets(1) ex_steps(1)] ex_step_line [OF ex_line _ ex_packets(2) ex_steps(2)]
      ex_step_line [OF ex_line _ ex_packets(3) ex_steps(3)] ex_step_line [OF ex_line _ ex_packets(4) ex_steps(4), of "[]"]
    by (simp add: newline_def)
  then show ?thesis by (simp add: read_packets.simps)
qed

theorem accepted_timing_is_constant_rate_witness:
  "validate_streamed_frame_timing ex_timing_stream ex_timing = Inr 4
   \<and> (\<exists>ps. packets_of ex_timing_stream = Some ps \<and> (\<forall>k < length ps. \<bar>sort (map fst ps) ! k - of_nat k / 25\<bar> \<le> 2 / 1000000))"
proof -
  have allowed: "quotient_of (frame_rate_of ex_timing) \<in> set ALLOWED_FRAME_RATE_PAIRS" by code_simp
  have run: "validate_streamed_frame_timing ex_timing_stream ex_timing = Inr 4"
    using allowed ex_read ex_grid_sel
    by (simp add: validate_streamed_frame_timing_def ex_timing_def ex_grid_def ex_state_def Let_def
        MEDIA_PROBE_MIN_PACKET_EVIDENCE_def MEDIA_PROBE_MAX_FRAME_COUNT_TOLERANCE_def frame_rate_of_def)
  have "frame_rate_of ex_timing = 25" "tm_start_time ex_timing = Some 0" by (simp_all add: frame_rate_of_def ex_timing_def)
  then show ?thesis using accepted_timing_is_constant_rate [OF run] run by auto
qed

end
