(* ===== verification/Safe_Paths.thy ===== *)
theory Safe_Paths
  imports Text
begin

text \<open>
  The lexical part of \<open>src/backend/app/safe_files.py\<close>: \<open>_absolute_path\<close> and
  \<open>_contained_path\<close>, which decide whether a stored path names a file below a managed
  root, and \<open>contained_storage_path\<close> of
  \<open>src/backend/app/modules/final_cut_review/infra/repositories.py\<close>. A managed root is an
  absolute, normalised path: the list of its components. That the root itself can be opened
  without following a link (\<open>pin_managed_root\<close>) is an observation of the file system and
  not part of this theory.
\<close>

section \<open>Definitions\<close>

type_synonym path = "string list"

fun split_slash :: "string \<Rightarrow> string list" where
  "split_slash [] = [[]]"
| "split_slash (c # s) =
     (if c = CHR ''/'' then [] # split_slash s
      else (case split_slash s of [] \<Rightarrow> [[c]] | w # ws \<Rightarrow> (c # w) # ws))"

text \<open>\<open>Path(value).parts\<close> without the root: empty and single-dot parts are dropped.\<close>

definition path_parts :: "string \<Rightarrow> path" where
  "path_parts s = filter (\<lambda>w. w \<noteq> '''' \<and> w \<noteq> ''.'') (split_slash s)"

text \<open>
  How a path string starts: relative, absolute, or with exactly two slashes. POSIX keeps the last
  apart, and so does \<open>pathlib\<close>: such a path is never below a root with one slash.
\<close>

datatype path_root = Relative | Absolute | Double_Slash

definition path_root_of :: "string \<Rightarrow> path_root" where
  "path_root_of s =
     (if \<not> prefix ''/'' s then Relative
      else if prefix ''//'' s \<and> \<not> prefix ''///'' s then Double_Slash
      else Absolute)"

text \<open>\<open>os.path.normpath\<close> of an absolute path: a double dot removes the component before it.\<close>

definition norm_step :: "string \<Rightarrow> path \<Rightarrow> path" where
  "norm_step w acc =
     (if w = '''' \<or> w = ''.'' then acc
      else if w = ''..'' then butlast acc
      else acc @ [w])"

definition normalise :: "path \<Rightarrow> path" where
  "normalise ws = fold norm_step ws []"

definition contained_path :: "string \<Rightarrow> path \<Rightarrow> exn + path" where
  "contained_path value root =
     (case path_root_of value of
        Double_Slash \<Rightarrow> Inl UnsafeFilePathError
      | r \<Rightarrow>
         (let candidate = (if r = Absolute then path_parts value else root @ path_parts value);
              normalized = normalise candidate
          in if \<not> prefix root normalized then Inl UnsafeFilePathError
             else
               let relative = drop (length root) normalized
               in if relative = [] \<or> list_ex (\<lambda>w. w \<in> {'''', ''.'', ''..''}) relative
                  then Inl UnsafeFilePathError
                  else Inr normalized))"

text \<open>\<open>str(path)\<close> of an absolute path.\<close>

definition path_str :: "path \<Rightarrow> string" where
  "path_str ws = concat (map (\<lambda>w. CHR ''/'' # w) ws)"

definition unsafe_to_storage :: "exn + 'a \<Rightarrow> exn + 'a" where
  "unsafe_to_storage m =
     (case m of Inl UnsafeFilePathError \<Rightarrow> raise STORAGE_UNAVAILABLE | other \<Rightarrow> other)"

definition contained_storage_path :: "string \<Rightarrow> path \<Rightarrow> string option \<Rightarrow> exn + path" where
  "contained_storage_path path_value root file_id =
     ebind (unsafe_to_storage (contained_path path_value root)) (\<lambda>path.
       case file_id of
         None \<Rightarrow> Inr path
       | Some fid \<Rightarrow>
           if \<not> managed_file_id fid then raise STORAGE_UNAVAILABLE
           else
             ebind (contained_path (''files/'' @ fid) root) (\<lambda>expected.
               if path \<noteq> expected then raise STORAGE_UNAVAILABLE else Inr path))"

section \<open>Normalised paths\<close>

definition plain :: "string \<Rightarrow> bool" where
  "plain w \<longleftrightarrow> w \<notin> {'''', ''.'', ''..''} \<and> CHR ''/'' \<notin> set w"

definition normal :: "path \<Rightarrow> bool" where
  "normal ws \<longleftrightarrow> list_all plain ws"

lemma split_slash_no_slash: "w \<in> set (split_slash s) \<Longrightarrow> CHR ''/'' \<notin> set w"
  by (induction s arbitrary: w) (auto split: if_splits list.splits)

lemma norm_step_normal:
  "normal acc \<Longrightarrow> CHR ''/'' \<notin> set w \<Longrightarrow> normal (norm_step w acc)"
  by (auto simp: norm_step_def normal_def plain_def list_all_iff dest: in_set_butlastD)

lemma fold_norm_normal:
  "(\<forall>w\<in>set ws. CHR ''/'' \<notin> set w) \<Longrightarrow> normal acc \<Longrightarrow> normal (fold norm_step ws acc)"
  by (induction ws arbitrary: acc) (auto simp: norm_step_normal)

lemma fold_norm_plain: "list_all plain ws \<Longrightarrow> fold norm_step ws acc = acc @ ws"
  by (induction ws arbitrary: acc) (auto simp: norm_step_def plain_def)

lemma normalise_normal: "normal ws \<Longrightarrow> normalise ws = ws"
  by (simp add: normalise_def normal_def fold_norm_plain)

lemma path_parts_no_slash: "w \<in> set (path_parts s) \<Longrightarrow> CHR ''/'' \<notin> set w"
  by (auto simp: path_parts_def dest: split_slash_no_slash)

lemma split_slash_plain: "CHR ''/'' \<notin> set w \<Longrightarrow> split_slash w = [w]"
  by (induction w) auto

lemma split_slash_append: "CHR ''/'' \<notin> set w \<Longrightarrow> split_slash (w @ CHR ''/'' # s) = w # split_slash s"
  by (induction w) auto

lemma plain_relative: "plain w \<Longrightarrow> path_root_of (w @ s) = Relative"
  by (cases w) (auto simp: plain_def path_root_of_def)

lemma contained_path_Inr:
  assumes "normal root" and "contained_path value root = Inr p"
  shows "\<exists>rel. p = root @ rel \<and> rel \<noteq> [] \<and> normal rel"
proof -
  define cand where "cand = (if path_root_of value = Absolute then path_parts value else root @ path_parts value)"
  have p: "p = normalise cand" "prefix root (normalise cand)" "drop (length root) (normalise cand) \<noteq> []"
    using assms(2) by (auto simp: contained_path_def Let_def cand_def split: path_root.splits if_splits)
  have "\<forall>w\<in>set cand. CHR ''/'' \<notin> set w"
    using assms(1) by (auto simp: cand_def normal_def list_all_iff plain_def dest: path_parts_no_slash)
  then have "normal p" unfolding p normalise_def by (rule fold_norm_normal) (simp add: normal_def)
  moreover obtain rel where "p = root @ rel" using p by (auto simp: prefix_def)
  ultimately show ?thesis using p by (auto simp: normal_def)
qed

lemma contained_path_relative:
  assumes "normal root" and "path_root_of s = Relative" and "normal (path_parts s)" and "path_parts s \<noteq> []"
  shows "contained_path s root = Inr (root @ path_parts s)"
proof -
  have "normalise (root @ path_parts s) = root @ path_parts s"
    using assms(1,3) by (simp add: normalise_normal normal_def)
  then show ?thesis using assms(2-4)
    by (auto simp: contained_path_def normal_def list_all_iff list_ex_iff plain_def)
qed

lemma contained_path_name:
  "normal root \<Longrightarrow> plain w \<Longrightarrow> contained_path w root = Inr (root @ [w])"
  using contained_path_relative [of root w] plain_relative [of w "[]"]
  by (simp add: path_parts_def split_slash_plain normal_def plain_def)

lemma managed_file_id_plain: "managed_file_id fid \<Longrightarrow> plain fid"
proof -
  assume m: "managed_file_id fid"
  have "length fid > 2" using m by (auto simp: managed_file_id_def dest!: hex_id_length)
  moreover have "CHR ''/'' \<notin> set fid" using m by (auto simp: managed_file_id_def dest!: hex_id_no_slash [rotated])
  ultimately show ?thesis by (auto simp: plain_def)
qed

lemma contained_path_files:
  assumes "normal root" and "managed_file_id fid"
  shows "contained_path (''files/'' @ fid) root = Inr (root @ [''files'', fid])"
proof -
  have pl: "plain fid" using assms(2) by (rule managed_file_id_plain)
  have "split_slash (''files'' @ CHR ''/'' # fid) = ''files'' # split_slash fid"
    by (rule split_slash_append) simp
  then have parts: "path_parts (''files/'' @ fid) = [''files'', fid]"
    using pl by (simp add: path_parts_def split_slash_plain plain_def)
  show ?thesis using contained_path_relative [of root "''files/'' @ fid"] assms(1) pl parts
    by (simp add: path_root_of_def normal_def plain_def)
qed

lemma path_str_split: "normal ws \<Longrightarrow> split_slash (path_str ws) = [] # ws \<or> ws = []"
proof (induction ws)
  case (Cons w ws)
  then have w: "CHR ''/'' \<notin> set w" and ws: "normal ws" by (auto simp: normal_def plain_def)
  show ?case
  proof (cases ws)
    case Nil
    then show ?thesis using w by (simp add: path_str_def split_slash_plain)
  next
    case (Cons v vs)
    then have "split_slash (path_str ws) = [] # ws" using Cons.IH ws by simp
    moreover have "path_str (w # ws) = CHR ''/'' # w @ CHR ''/'' # tl (path_str ws)" "path_str ws = CHR ''/'' # tl (path_str ws)"
      using \<open>ws = v # vs\<close> by (simp_all add: path_str_def)
    ultimately show ?thesis using split_slash_append [OF w, of "tl (path_str ws)"]
      by (metis list.inject split_slash.simps(2))
  qed
qed simp

lemma path_root_of_path_str: "normal ws \<Longrightarrow> ws \<noteq> [] \<Longrightarrow> path_root_of (path_str ws) = Absolute"
  by (cases ws; cases "hd ws") (auto simp: path_root_of_def path_str_def normal_def plain_def)

text \<open>
  A path accepted by the storage layer lies strictly below the managed root it was checked
  against, and contains no parent reference: every accepted path is the root followed by a
  non-empty list of plain components.
\<close>

theorem contained_path_below_root:
  assumes "normal root" and "contained_path value root = Inr p"
  shows "strict_prefix root p \<and> ''..'' \<notin> set p"
proof -
  obtain rel where "p = root @ rel" "rel \<noteq> []" "normal rel"
    using contained_path_Inr [OF assms] by blast
  then show ?thesis using assms(1) by (auto simp: normal_def list_all_iff plain_def strict_prefix_def)
qed

theorem contained_path_below_root_witness:
  "normal [''data'', ''storage''] \<and> contained_path ''a/../files/x'' [''data'', ''storage''] = Inr [''data'', ''storage'', ''files'', ''x'']
   \<and> strict_prefix [''data'', ''storage''] [''data'', ''storage'', ''files'', ''x'']"
proof -
  have a: "normal [''data'', ''storage'']" by code_simp
  have b: "contained_path ''a/../files/x'' [''data'', ''storage''] = Inr [''data'', ''storage'', ''files'', ''x'']"
    by code_simp
  show ?thesis using contained_path_below_root [OF a b] a b by simp
qed

text \<open>
  Writing an accepted path to the database and checking it again gives the same path: the
  stored form \<open>str(path)\<close> is accepted below the same root and denotes the same file.
\<close>

theorem contained_path_roundtrip:
  assumes "normal root" and "contained_path value root = Inr p"
  shows "contained_path (path_str p) root = Inr p"
proof -
  obtain rel where p: "p = root @ rel" "rel \<noteq> []" "normal rel"
    using contained_path_Inr [OF assms] by blast
  then have n: "normal p" using assms(1) by (simp add: normal_def)
  then have "path_parts (path_str p) = p"
    using p path_str_split [OF n] by (auto simp: path_parts_def normal_def list_all_iff plain_def intro!: filter_True)
  moreover have "path_root_of (path_str p) = Absolute" using n p path_root_of_path_str by blast
  ultimately show ?thesis
    using p n by (auto simp: contained_path_def Let_def normalise_normal normal_def list_ex_iff list_all_iff plain_def)
qed

theorem contained_path_roundtrip_witness:
  "contained_path ''./pkg.zip'' [''srv''] = Inr [''srv'', ''pkg.zip''] \<and> contained_path ''/srv/pkg.zip'' [''srv''] = Inr [''srv'', ''pkg.zip'']"
proof -
  have a: "normal [''srv'']" by code_simp
  have b: "contained_path ''./pkg.zip'' [''srv''] = Inr [''srv'', ''pkg.zip'']" by code_simp
  have c: "path_str [''srv'', ''pkg.zip''] = ''/srv/pkg.zip''" by code_simp
  show ?thesis using contained_path_roundtrip [OF a b] b c by simp
qed

text \<open>
  A file object is accepted only at its canonical location: when the recorded path is checked
  against a file identity, it is accepted only if that identity is well formed and the path is
  \<open>files/<id>\<close> below the storage root.
\<close>

theorem contained_storage_path_canonical:
  assumes "normal root" and "contained_storage_path value root (Some fid) = Inr p"
  shows "managed_file_id fid \<and> p = root @ [''files'', fid]"
  using assms contained_path_files [OF assms(1), of fid]
  by (auto simp: contained_storage_path_def split: if_splits)

theorem contained_storage_path_canonical_witness:
  "contained_storage_path ''files/file_0123456789abcdef0123456789abcdef'' [''s''] (Some ''file_0123456789abcdef0123456789abcdef'')
     = Inr [''s'', ''files'', ''file_0123456789abcdef0123456789abcdef'']
   \<and> managed_file_id ''file_0123456789abcdef0123456789abcdef''"
proof -
  have a: "normal [''s'']" by code_simp
  have b: "contained_storage_path ''files/file_0123456789abcdef0123456789abcdef'' [''s''] (Some ''file_0123456789abcdef0123456789abcdef'')
     = Inr [''s'', ''files'', ''file_0123456789abcdef0123456789abcdef'']" by code_simp
  show ?thesis using contained_storage_path_canonical [OF a b] b by simp
qed

end
