(* ===== verification/Media_Files.thy ===== *)
theory Media_Files
  imports Safe_Paths
begin

text \<open>
  The checks on the bytes and names of media files in
  \<open>src/backend/app/modules/review_media/service.py\<close>: the ISO-BMFF \<open>ftyp\<close> box at the start
  of a file, the agreement of file name and declared type, and the \<open>Range\<close> header of a playback
  request.
\<close>

section \<open>The file type box\<close>

text \<open>\<open>data[a:b]\<close> for non-negative bounds, and \<open>int.from_bytes(data, "big")\<close>.\<close>

definition slice :: "nat \<Rightarrow> nat \<Rightarrow> string \<Rightarrow> string" where
  "slice a b s = drop a (take b s)"

definition be_nat :: "string \<Rightarrow> nat" where
  "be_nat s = foldl (\<lambda>acc c. 256 * acc + of_char c) 0 s"

definition ISO_BMFF_FTYP_MAX_BYTES :: nat where
  "ISO_BMFF_FTYP_MAX_BYTES = 64 * 1024"

definition valid_iso_bmff_brand :: "string \<Rightarrow> bool" where
  "valid_iso_bmff_brand brand \<longleftrightarrow>
     length brand = 4 \<and> list_all (\<lambda>c. 0x20 \<le> (of_char c :: nat) \<and> (of_char c :: nat) \<le> 0x7E) brand"

fun four_byte_words :: "string \<Rightarrow> string list" where
  "four_byte_words [] = []"
| "four_byte_words (a # b # c # d # s) = [a, b, c, d] # four_byte_words s"
| "four_byte_words s = [s]"

definition iso_bmff_brands :: "string \<Rightarrow> exn + string set" where
  "iso_bmff_brands data =
     (if length data < 16 \<or> slice 4 8 data \<noteq> ''ftyp'' then raise FILE_TYPE_NOT_ALLOWED
      else
        let short_size = be_nat (slice 0 4 data)
        in if short_size = 0 then raise FILE_TYPE_NOT_ALLOWED
           else if short_size = 1 \<and> length data < 24 then raise FILE_TYPE_NOT_ALLOWED
           else
             let (box_size, brand_offset) = (if short_size = 1 then (be_nat (slice 8 16 data), 16) else (short_size, 8));
                 minimum_size = brand_offset + 8
             in if box_size < minimum_size \<or> box_size > ISO_BMFF_FTYP_MAX_BYTES \<or> box_size > length data
                then raise FILE_TYPE_NOT_ALLOWED
                else
                  let brand_payload = slice brand_offset box_size data;
                      compatible_brand_bytes = drop 8 brand_payload
                  in if length compatible_brand_bytes mod 4 \<noteq> 0 then raise FILE_TYPE_NOT_ALLOWED
                     else
                       let brands = slice 0 4 brand_payload # four_byte_words compatible_brand_bytes
                       in if list_all valid_iso_bmff_brand brands then Inr (set brands) else raise FILE_TYPE_NOT_ALLOWED)"

definition detect_magic :: "string \<Rightarrow> exn + string" where
  "detect_magic data = ebind (iso_bmff_brands data) (\<lambda>_. Inr ''iso-bmff'')"

section \<open>Names and types\<close>

definition MEDIA_SIGNATURES :: "(string list \<times> string list) list" where
  "MEDIA_SIGNATURES =
     [([''.mp4'', ''.m4v''], [''video/mp4'', ''application/octet-stream'']),
      ([''.mov'', ''.qt''], [''video/quicktime'', ''application/octet-stream''])]"

definition ALLOWED_MIME :: "string list" where
  "ALLOWED_MIME = concat (map snd MEDIA_SIGNATURES)"

text \<open>\<open>str.lower\<close>, of which only the result on ASCII letters can make a suffix an allowed one.\<close>

definition lower :: "string \<Rightarrow> string" where
  "lower s = map (\<lambda>c. if 65 \<le> (of_char c :: nat) \<and> (of_char c :: nat) \<le> 90 then char_of ((of_char c :: nat) + 32) else c) s"

text \<open>\<open>Path(filename).suffix\<close>\<close>

definition file_suffix :: "string \<Rightarrow> string" where
  "file_suffix filename = (case path_parts filename of [] \<Rightarrow> '''' | ws \<Rightarrow> path_suffix (last ws))"

definition media_name_matches :: "string \<Rightarrow> string \<Rightarrow> bool" where
  "media_name_matches filename mime =
     list_ex (\<lambda>(extensions, mimes). lower (file_suffix filename) \<in> set extensions \<and> mime \<in> set mimes) MEDIA_SIGNATURES"

definition validate_media_identity :: "string \<Rightarrow> string \<Rightarrow> string \<Rightarrow> exn + unit" where
  "validate_media_identity filename declared_mime data =
     ebind (detect_magic data) (\<lambda>_.
     guard (media_name_matches filename declared_mime) (ReviewError FILE_TYPE_NOT_ALLOWED))"

section \<open>Range headers\<close>

definition partition_dash :: "string \<Rightarrow> string \<times> string" where
  "partition_dash s = (takeWhile (\<lambda>c. c \<noteq> CHR ''-'') s, tl (dropWhile (\<lambda>c. c \<noteq> CHR ''-'') s))"

definition py_int_or :: "int \<Rightarrow> string \<Rightarrow> exn + int" where
  "py_int_or d s = (if s = '''' then Inr d else of_option (ReviewError VALIDATION_ERROR) (py_int s))"

definition parse_range_header :: "string option \<Rightarrow> int \<Rightarrow> exn + int \<times> int \<times> int" where
  "parse_range_header range_header file_bytes =
     (case range_header of
        None \<Rightarrow> Inr (0, file_bytes - 1, 200)
      | Some h \<Rightarrow>
          if h = '''' then Inr (0, file_bytes - 1, 200)
          else if \<not> prefix ''bytes='' h then raise VALIDATION_ERROR
          else
            let (start_s, end_s) = partition_dash (drop 6 h)
            in ebind
                 (if start_s = '''' \<and> end_s \<noteq> ''''
                  then ebind (of_option (ReviewError VALIDATION_ERROR) (py_int end_s)) (\<lambda>suffix_len.
                       ebind (guard (\<not> suffix_len \<le> 0) (ReviewError VALIDATION_ERROR)) (\<lambda>_.
                       Inr (max 0 (file_bytes - suffix_len), file_bytes - 1)))
                  else ebind (py_int_or 0 start_s) (\<lambda>start.
                       ebind (py_int_or (file_bytes - 1) end_s) (\<lambda>stop.
                       Inr (start, stop))))
                 (\<lambda>(start, stop).
                    if start < 0 \<or> stop < start \<or> stop \<ge> file_bytes then raise VALIDATION_ERROR else Inr (start, stop, 206)))"

section \<open>Properties\<close>

text \<open>
  Whatever \<open>Range\<close> header a client sends, the answer is either an error or a non-empty range
  that lies inside the file; without a header it is the whole file.
\<close>

theorem range_inside_file:
  assumes "parse_range_header h file_bytes = Inr (start, stop, status)" and "0 < file_bytes"
  shows "0 \<le> start \<and> start \<le> stop \<and> stop < file_bytes
    \<and> (status = 200 \<and> start = 0 \<and> stop = file_bytes - 1 \<and> (h = None \<or> h = Some '''')
       \<or> status = 206 \<and> (\<exists>t. h = Some (''bytes='' @ t)))"
  using assms by (auto simp: parse_range_header_def Let_def prefix_def split: option.splits if_splits prod.splits)

theorem range_inside_file_witness:
  "parse_range_header (Some ''bytes=-500'') 1000 = Inr (500, 999, 206)
   \<and> (0::int) \<le> 500 \<and> (500::int) \<le> 999 \<and> (999::int) < 1000"
proof -
  have run: "parse_range_header (Some ''bytes=-500'') 1000 = Inr (500, 999, 206)" by code_simp
  show ?thesis using range_inside_file [OF run] run by simp
qed

text \<open>A file type box as a writer lays it out.\<close>

definition be_bytes4 :: "nat \<Rightarrow> string" where
  "be_bytes4 n = map (\<lambda>k. char_of (n div 256 ^ k)) [3, 2, 1, 0]"

definition ftyp_box :: "string \<Rightarrow> string \<Rightarrow> string list \<Rightarrow> string" where
  "ftyp_box major minor compatible =
     be_bytes4 (16 + 4 * length compatible) @ ''ftyp'' @ major @ minor @ concat compatible"

lemma be_nat_bytes4: "n < 2 ^ 32 \<Longrightarrow> be_nat (be_bytes4 n) = n"
proof -
  assume n: "n < 2 ^ 32"
  define a b c where "a = n div 256" and "b = a div 256" and "c = b div 256"
  have d: "n div 65536 = b" "n div 16777216 = c" by (simp_all add: a_def b_def c_def div_mult2_eq [symmetric])
  have "c < 256" using n unfolding d(2) [symmetric] by (simp add: less_mult_imp_div_less)
  then have c: "c mod 256 = c" by simp
  have "be_nat (be_bytes4 n) = 256 * (256 * (256 * c + b mod 256) + a mod 256) + n mod 256"
    by (simp add: be_nat_def be_bytes4_def d a_def [symmetric] c)
  also have "256 * c + b mod 256 = b" unfolding c_def by simp
  also have "256 * b + a mod 256 = a" unfolding b_def by simp
  also have "256 * a + n mod 256 = n" unfolding a_def by simp
  finally show ?thesis .
qed

lemma slice_mid: "length a = m \<Longrightarrow> length b = k \<Longrightarrow> slice m (m + k) (a @ b @ r) = b"
  by (simp add: slice_def)

lemma length_bytes4 [simp]: "length (be_bytes4 n) = 4"
  by (simp add: be_bytes4_def)

lemma valid_brand_four: "valid_iso_bmff_brand w \<Longrightarrow> \<exists>a b c d. w = [a, b, c, d]"
  by (auto simp: valid_iso_bmff_brand_def length_Suc_conv numeral_eq_Suc)

lemma four_byte_words_concat: "list_all valid_iso_bmff_brand ws \<Longrightarrow> four_byte_words (concat ws) = ws"
  by (induction ws) (auto dest!: valid_brand_four)

lemma length_concat_brands: "list_all valid_iso_bmff_brand ws \<Longrightarrow> length (concat ws) = 4 * length ws"
  by (induction ws) (auto simp: valid_iso_bmff_brand_def)

text \<open>
  A well-formed file type box of at most 64 KiB is recognised whatever follows it, and the brands
  read from it are exactly the major brand and the compatible brands it was written with.
\<close>

theorem ftyp_box_recognised:
  assumes "list_all valid_iso_bmff_brand (major # compatible)" and "length minor = 4"
    and "16 + 4 * length compatible \<le> ISO_BMFF_FTYP_MAX_BYTES"
  shows "iso_bmff_brands (ftyp_box major minor compatible @ rest) = Inr (set (major # compatible))"
proof -
  let ?n = "16 + 4 * length compatible" and ?d = "ftyp_box major minor compatible @ rest"
  have m: "length major = 4" using assms(1) by (simp add: valid_iso_bmff_brand_def)
  have c: "length (concat compatible) = 4 * length compatible" using assms(1) length_concat_brands by simp
  have n: "?n < 2 ^ 32" "?n \<noteq> 0" "?n \<noteq> 1" using assms(3) by (simp_all add: ISO_BMFF_FTYP_MAX_BYTES_def)
  have len: "length ?d = ?n + length rest" using m assms(2) c by (simp add: ftyp_box_def)
  have body: "length (major @ minor @ concat compatible) = 8 + 4 * length compatible" using m assms(2) c by simp
  have s: "slice 0 4 ?d = be_bytes4 ?n" "slice 4 8 ?d = ''ftyp''" by (simp_all add: slice_def ftyp_box_def)
  have s8: "slice 8 ?n ?d = major @ minor @ concat compatible"
    using slice_mid [OF _ body, of "be_bytes4 ?n @ ''ftyp''" 8 rest] by (simp add: ftyp_box_def)
  have w: "slice 0 4 (major @ minor @ concat compatible) = major" "drop 8 (major @ minor @ concat compatible) = concat compatible"
    using m assms(2) by (simp_all add: slice_def)
  have words: "four_byte_words (concat compatible) = compatible" using assms(1) four_byte_words_concat by simp
  show ?thesis
    using len n assms m c by (simp add: iso_bmff_brands_def s s8 be_nat_bytes4 w words Let_def del: set_simps)
qed

theorem ftyp_box_recognised_witness:
  "iso_bmff_brands (ftyp_box ''isom'' ''0000'' [''mp42'', ''avc1''] @ ''moov'') = Inr {''isom'', ''mp42'', ''avc1''}"
proof -
  have a: "list_all valid_iso_bmff_brand [''isom'', ''mp42'', ''avc1'']" by code_simp
  show ?thesis using ftyp_box_recognised [OF a, of "''0000''" "''moov''"] by (simp add: ISO_BMFF_FTYP_MAX_BYTES_def)
qed

end
