(* ===== verification/Schema.thy ===== *)
theory Schema
  imports Safe_Paths Timecode
begin

text \<open>
  The database of the service: one record per table of
  \<open>src/backend/app/modules/final_cut_review/infra/sqlalchemy_models.py\<close> (column names carry
  a table prefix), the unique constraints that an \<open>INSERT\<close> can violate, and the record
  \<open>db\<close> of all tables. String columns that a \<open>CHECK\<close> constraint limits to an
  enumeration are datatypes. Instants are microseconds since the epoch.
\<close>

section \<open>Values\<close>

datatype json = JNull | JBool bool | JInt int | JStr string | JList "json list" | JObj "(string \<times> json) list"

definition jget :: "json \<Rightarrow> string \<Rightarrow> json option" where
  "jget j k = (case j of JObj kvs \<Rightarrow> map_of kvs k | _ \<Rightarrow> None)"

definition jget_str :: "json \<Rightarrow> string \<Rightarrow> string option" where
  "jget_str j k = (case jget j k of Some (JStr s) \<Rightarrow> Some s | _ \<Rightarrow> None)"

datatype lifecycle_status = lifecycle_active | lifecycle_archived
datatype workflow_status = pending_review | in_review | changes_requested | finalized
datatype issue_status = unresolved | resolved
datatype finalization_status = fin_active | fin_revoked
datatype upload_status = initiated | receiving | finalizing | completed | aborted
datatype package_status = preparing | ready | failed | expired | invalidated
datatype derivative_kind = playback_faststart | thumbnail
datatype task_status = task_queued | task_running | task_ready | task_failed
datatype qc_status = qc_queued | qc_running | qc_complete | qc_failed
datatype cleanup_status = cleanup_pending | cleanup_failed | cleanup_complete
datatype outbox_status = outbox_pending | outbox_publishing | outbox_failed | outbox_dispatched
datatype intent_status = intent_pending | intent_cleaning | intent_failed | intent_complete
datatype artifact_status = artifact_pending | artifact_quarantined | artifact_failed | artifact_deleted
datatype artifact_kind = original_media | playback_derivative | thumbnail_artifact | project_package

section \<open>Tables\<close>

text \<open>The media columns that a file, a version and a finalization share.\<close>

record media =
  original_filename :: string
  mime_type :: string
  file_size :: int
  sha256 :: string
  duration_ms :: int
  width :: int
  height :: int
  fps_num :: int
  fps_den :: int
  media_probe_version :: string

record project =
  prj_id :: string
  prj_code :: string
  prj_name :: string
  prj_description :: string
  prj_source_host :: bool
  prj_external_project_id :: "string option"
  prj_lifecycle_status :: lifecycle_status
  prj_deleted_at :: "int option"
  prj_fps_num :: "int option"
  prj_fps_den :: "int option"
  prj_lock_version :: int
  prj_created_at :: int
  prj_updated_at :: int

record editor =
  edt_id :: string
  edt_display_name :: string
  edt_lock_version :: int
  edt_created_at :: int
  edt_updated_at :: int

record file_object =
  fil_id :: string
  fil_media :: media
  fil_storage_path :: string
  fil_owner_principal_id :: string
  fil_owner_principal_kind :: string
  fil_created_at :: int

text \<open>
  The JSON column \<open>received_parts\<close> maps a part number to the size and the path of the
  part; the keys, decimal strings in the column, are integers here.
\<close>

record upload_part =
  part_size :: int
  part_path :: string

record upload_session =
  upl_id :: string
  upl_original_filename :: string
  upl_mime_type :: string
  upl_declared_size :: int
  upl_expected_sha256 :: string
  upl_status :: upload_status
  upl_temp_path :: string
  upl_owner_principal_id :: string
  upl_owner_principal_kind :: string
  upl_received_parts :: "(int \<times> upload_part) list"
  upl_reserved_bytes :: int
  upl_parts_cleanup_confirmed_at :: "int option"
  upl_finalization_lease_id :: "string option"
  upl_finalization_lease_expires_at :: "int option"
  upl_finalization_file_id :: "string option"
  upl_finalization_idempotency_key_hash :: "string option"
  upl_finalization_request_hash :: "string option"
  upl_file_id :: "string option"
  upl_duration_ms :: int
  upl_width :: int
  upl_height :: int
  upl_fps_num :: int
  upl_fps_den :: int
  upl_created_at :: int
  upl_updated_at :: int

record review_item =
  itm_id :: string
  itm_project_ref_id :: string
  itm_item_code :: string
  itm_episode_no :: "int option"
  itm_title :: string
  itm_workflow_status :: workflow_status
  itm_current_version_id :: "string option"
  itm_active_finalization_id :: "string option"
  itm_lock_version :: int
  itm_created_at :: int
  itm_updated_at :: int

record review_version =
  ver_id :: string
  ver_project_ref_id :: string
  ver_review_item_id :: string
  ver_previous_version_id :: "string option"
  ver_version_no :: int
  ver_version_label :: string
  ver_is_current :: bool
  ver_original_file_id :: string
  ver_media :: media
  ver_responsible_editor_id :: "string option"
  ver_responsible_editor_name_snapshot :: "string option"
  ver_playback_asset_id :: "string option"
  ver_thumbnail_asset_id :: "string option"
  ver_version_note :: "string option"
  ver_change_summary :: "string option"
  ver_lock_version :: int
  ver_created_at :: int

record derivative_task =
  mdt_id :: string
  mdt_project_ref_id :: string
  mdt_review_item_id :: string
  mdt_version_id :: string
  mdt_kind :: derivative_kind
  mdt_status :: task_status
  mdt_attempts :: int
  mdt_next_attempt_at :: "int option"
  mdt_lease_id :: "string option"
  mdt_lease_expires_at :: "int option"
  mdt_output_file_id :: "string option"
  mdt_error_code :: "string option"
  mdt_failure_details :: "json option"
  mdt_result_details :: "json option"
  mdt_created_at :: int
  mdt_updated_at :: int

record qc_task =
  qct_id :: string
  qct_project_ref_id :: string
  qct_review_item_id :: string
  qct_version_id :: string
  qct_input_file_id :: string
  qct_status :: qc_status
  qct_claim_id :: "string option"
  qct_lease_expires_at :: "int option"
  qct_processed_ms :: int
  qct_total_ms :: int
  qct_video_frame_count :: "int option"
  qct_video_duration_ms :: "int option"
  qct_container_duration_ms :: "int option"
  qct_error_code :: "string option"
  qct_rule_version :: string
  qct_attempts :: int
  qct_next_attempt_at :: "int option"
  qct_created_at :: int
  qct_updated_at :: int
  qct_started_at :: "int option"
  qct_completed_at :: "int option"

record qc_finding =
  qcf_id :: string
  qcf_task_id :: string
  qcf_project_ref_id :: string
  qcf_review_item_id :: string
  qcf_version_id :: string
  qcf_identity_hash :: string
  qcf_issue_id :: "string option"
  qcf_start_frame :: int
  qcf_end_frame :: int
  qcf_start_ms :: int
  qcf_end_ms :: int
  qcf_reason_codes :: "string list"
  qcf_value_details :: json
  qcf_created_at :: int
  qcf_updated_at :: int

record issue =
  iss_id :: string
  iss_project_ref_id :: string
  iss_review_item_id :: string
  iss_version_id :: string
  iss_issue_no :: int
  iss_status :: issue_status
  iss_current_revision_id :: string
  iss_timestamp_ms :: int
  iss_frame_number :: int
  iss_lock_version :: int
  iss_deleted_at :: "int option"
  iss_created_at :: int
  iss_updated_at :: int

record revision =
  rev_id :: string
  rev_project_ref_id :: string
  rev_review_item_id :: string
  rev_version_id :: string
  rev_issue_id :: string
  rev_revision_no :: int
  rev_content :: string
  rev_annotation_set_id :: "string option"
  rev_created_at :: int

record annotation_set =
  ann_id :: string
  ann_project_ref_id :: string
  ann_review_item_id :: string
  ann_version_id :: string
  ann_issue_id :: string
  ann_timestamp_ms :: int
  ann_frame_number :: int
  ann_canvas_width :: int
  ann_canvas_height :: int
  ann_video_width :: int
  ann_video_height :: int
  ann_shapes :: "json list"
  ann_created_at :: int

record thread_message =
  msg_id :: string
  msg_project_ref_id :: string
  msg_review_item_id :: string
  msg_version_id :: string
  msg_issue_id :: string
  msg_content :: string
  msg_created_at :: int

record decision =
  dec_id :: string
  dec_project_ref_id :: string
  dec_review_item_id :: string
  dec_version_id :: string
  dec_decision_type :: string
  dec_summary :: "string option"
  dec_created_at :: int

record finalization =
  fin_id :: string
  fin_project_ref_id :: string
  fin_review_item_id :: string
  fin_version_id :: string
  fin_version_no :: int
  fin_original_file_id :: string
  fin_media :: media
  fin_status :: finalization_status
  fin_finalized_at :: int
  fin_revoked_at :: "int option"

record package =
  pkg_id :: string
  pkg_project_ref_id :: string
  pkg_status :: package_status
  pkg_package_filename :: string
  pkg_storage_path :: string
  pkg_expires_at :: int
  pkg_total_bytes :: int
  pkg_storage_bytes :: int
  pkg_sha256 :: "string option"
  pkg_build_attempts :: int
  pkg_next_build_attempt_at :: "int option"
  pkg_build_lease_id :: "string option"
  pkg_build_lease_expires_at :: "int option"
  pkg_download_session_hash :: "string option"
  pkg_download_session_expires_at :: "int option"
  pkg_download_lease_id :: "string option"
  pkg_download_lease_expires_at :: "int option"
  pkg_last_download_finished_at :: "int option"
  pkg_storage_reclaimed_at :: "int option"
  pkg_failure_details :: "json option"
  pkg_items :: "json list"
  pkg_created_at :: int
  pkg_updated_at :: int

record invalidation =
  inv_id :: string
  inv_project_ref_id :: string
  inv_review_item_id :: string
  inv_finalization_id :: string
  inv_package_id :: string
  inv_cleanup_status :: cleanup_status
  inv_cleanup_attempts :: int
  inv_last_error_code :: "string option"
  inv_created_at :: int
  inv_updated_at :: int

section \<open>Responses\<close>

text \<open>
  What a command returns: the data-transfer objects of \<open>review_contracts/generated.py\<close>.
  A field copied from a row is the row itself; a computed field is a field of the view.
\<close>

datatype completion_status = completion_empty | completion_completed | completion_in_progress
datatype asset_status = asset_ready | asset_processing | asset_pending | asset_failed
datatype ui_status = UI workflow_status | UI_pending_re_review
datatype revocation_status = revocation_none | revocation_pending | revocation_failed | revocation_complete
datatype lock_reason = project_read_only | workflow_locked | version_history | issue_history | finalization_history

record item_view =
  iv_item :: review_item
  iv_current_version_no :: int
  iv_ui_status :: ui_status
  iv_unresolved_current_version_count :: int
  iv_resolved_current_version_count :: int
  iv_historical_version_count :: int
  iv_is_finalized :: bool

record version_view =
  vv_version :: review_version
  vv_playback_status :: asset_status
  vv_thumbnail_status :: asset_status

record issue_view =
  sv_issue :: issue
  sv_revision :: revision
  sv_annotation :: "annotation_set option"

record package_view =
  pv_package :: package
  pv_file_count :: nat
  pv_download_token :: "string option"
  pv_download_token_expires_at :: "int option"

record summary_item =
  si_item :: review_item
  si_version :: review_version
  si_playback_status :: asset_status
  si_thumbnail_status :: asset_status
  si_unresolved_current_version_count :: int
  si_finalization :: "finalization option"
  si_revocation_cleanup_status :: revocation_status
  si_bulk_delete_reason :: "lock_reason option"

datatype deletion_outcome = outcome_deleted | outcome_failed error_code

record upload_view =
  uv_upload_id :: string
  uv_status :: upload_status
  uv_original_filename :: string
  uv_mime_type :: string
  uv_declared_size :: int
  uv_received_size :: int
  uv_file_id :: "string option"

datatype response =
    R_Reserved
  | R_Project project completion_status
  | R_Editor editor
  | R_Item item_view
  | R_Version version_view
  | R_Issue issue_view
  | R_Message thread_message
  | R_Finalization finalization
  | R_Revoked finalization item_view cleanup_status "string list"
  | R_Cleanup string string cleanup_status "string list"
  | R_Summary project completion_status "summary_item list"
  | R_Package package_view
  | R_QcRerun string nat
  | R_ProjectDeleted string
  | R_ItemDeleted string string
  | R_ItemsDeleted string "(string \<times> deletion_outcome) list"
  | R_Upload upload_view

section \<open>Outbox, idempotency and deletion tables\<close>

record outbox_event =
  evt_id :: int
  evt_event_id :: string
  evt_event_type :: string
  evt_event_version :: int
  evt_aggregate_type :: string
  evt_aggregate_id :: string
  evt_aggregate_version :: int
  evt_sequence :: int
  evt_project_ref_id :: string
  evt_review_item_id :: "string option"
  evt_version_id :: "string option"
  evt_issue_id :: "string option"
  evt_finalization_id :: "string option"
  evt_package_id :: "string option"
  evt_correlation_id :: string
  evt_causation_id :: "string option"
  evt_metadata :: json
  evt_payload :: json
  evt_status :: outbox_status
  evt_attempts :: int
  evt_occurred_at :: int

record consumer_receipt =
  rcp_event_id :: string
  rcp_consumer_name :: string
  rcp_consumed_at :: int

record idempotency_record =
  idm_key :: string
  idm_command_type :: string
  idm_request_hash :: string
  idm_principal_hash :: string
  idm_response :: response
  idm_status_code :: int
  idm_created_at :: int

record operation_log =
  olg_request_id :: string
  olg_entry_source :: string
  olg_command_type :: string
  olg_capability :: "string option"
  olg_principal_kind :: string
  olg_principal_id :: "string option"
  olg_idempotency_key_hash :: "string option"
  olg_operation_identity_hash :: string
  olg_resource_type :: string
  olg_resource_id :: "string option"
  olg_result :: string
  olg_error_code :: "string option"
  olg_failure_stage :: "string option"
  olg_created_at :: int

record deletion_intent =
  dli_id :: string
  dli_command_type :: string
  dli_operation_identity_hash :: string
  dli_subject_project :: bool
  dli_project_ref_id_snapshot :: string
  dli_review_item_id_snapshot :: "string option"
  dli_status :: intent_status
  dli_attempts :: int
  dli_last_error_code :: "string option"
  dli_cleanup_claim_id :: "string option"
  dli_cleanup_claim_expires_at :: "int option"
  dli_completed_at :: "int option"
  dli_created_at :: int
  dli_updated_at :: int

record deletion_artifact =
  dla_id :: string
  dla_deletion_intent_id :: string
  dla_artifact_kind :: artifact_kind
  dla_relative_logical_target :: string
  dla_expected_device :: int
  dla_expected_inode :: int
  dla_expected_ctime_ns :: int
  dla_expected_size :: int
  dla_expected_sha256 :: string
  dla_status :: artifact_status
  dla_attempts :: int
  dla_last_error_code :: "string option"
  dla_quarantined_at :: "int option"
  dla_deleted_at :: "int option"
  dla_created_at :: int
  dla_updated_at :: int

text \<open>
  All tables, with the part of the session that outlives a statement: how many random identifiers
  have been drawn, and the three post-commit queues of \<open>session.info\<close>.
\<close>

record db =
  db_projects :: "project list"
  db_editors :: "editor list"
  db_files :: "file_object list"
  db_uploads :: "upload_session list"
  db_items :: "review_item list"
  db_versions :: "review_version list"
  db_tasks :: "derivative_task list"
  db_qc_tasks :: "qc_task list"
  db_qc_findings :: "qc_finding list"
  db_issues :: "issue list"
  db_revisions :: "revision list"
  db_annotations :: "annotation_set list"
  db_messages :: "thread_message list"
  db_decisions :: "decision list"
  db_finalizations :: "finalization list"
  db_packages :: "package list"
  db_invalidations :: "invalidation list"
  db_events :: "outbox_event list"
  db_receipts :: "consumer_receipt list"
  db_idempotency :: "idempotency_record list"
  db_logs :: "operation_log list"
  db_intents :: "deletion_intent list"
  db_artifacts :: "deletion_artifact list"
  db_drawn :: nat
  db_post_file_deletions :: "string list"
  db_post_package_deletions :: "(string \<times> int \<times> int) list"
  db_post_intents :: "string list"

definition empty_db :: db where
  "empty_db =
     \<lparr>db_projects = [], db_editors = [], db_files = [], db_uploads = [], db_items = [],
      db_versions = [], db_tasks = [], db_qc_tasks = [], db_qc_findings = [], db_issues = [],
      db_revisions = [], db_annotations = [], db_messages = [], db_decisions = [],
      db_finalizations = [], db_packages = [], db_invalidations = [], db_events = [],
      db_receipts = [], db_idempotency = [], db_logs = [], db_intents = [], db_artifacts = [], db_drawn = 0,
      db_post_file_deletions = [], db_post_package_deletions = [], db_post_intents = []\<rparr>"

end
