(* ===== verification/Store.thy ===== *)
theory Store
  imports Schema
begin

text \<open>
  What the repository of
  \<open>src/backend/app/modules/final_cut_review/infra/repositories.py\<close> is built from: the
  execution context and the settings, the environment of one command (the instant, the random
  identifiers, what the storage layer observes), the row lookups with their not-found errors, the
  inserts with the unique constraints of the tables, and the outbox append \<open>_event\<close>.
\<close>

section \<open>Context, settings, environment\<close>

text \<open>\<open>application/context.py\<close>.\<close>

record principal_ref =
  pr_kind :: string
  pr_id :: "string option"
  pr_project_ref_ids :: "string list"

definition can_access_project :: "principal_ref \<Rightarrow> string \<Rightarrow> bool" where
  "can_access_project p project_ref_id \<longleftrightarrow>
     ''*'' \<in> set (pr_project_ref_ids p) \<or> project_ref_id \<in> set (pr_project_ref_ids p)"

record execution_context =
  ctx_entry_source :: string
  ctx_request_id :: string
  ctx_principal :: principal_ref
  ctx_write_guard_verified :: bool

text \<open>The settings of \<open>src/backend/app/settings.py\<close> that the modelled code reads.\<close>

record settings =
  cfg_storage_root :: path
  cfg_package_root :: path
  cfg_max_upload_bytes :: int
  cfg_max_upload_part_bytes :: int
  cfg_max_upload_parts :: int
  cfg_max_active_upload_sessions_global :: int
  cfg_max_active_upload_sessions_per_principal :: int
  cfg_max_reserved_upload_bytes_global :: int
  cfg_max_reserved_upload_bytes_per_principal :: int
  cfg_upload_storage_low_watermark_bytes :: int
  cfg_upload_finalization_lease_seconds :: int
  cfg_upload_session_ttl_seconds :: int
  cfg_media_worker_max_attempts :: int
  cfg_media_worker_retry_delay_seconds :: int
  cfg_media_worker_lease_seconds :: int
  cfg_technical_qc_worker_concurrency :: int
  cfg_technical_qc_per_project_concurrency :: int
  cfg_technical_qc_lease_seconds :: int
  cfg_technical_qc_worker_max_attempts :: int
  cfg_technical_qc_worker_retry_delay_seconds :: int
  cfg_package_ttl_seconds :: int
  cfg_max_package_files :: nat
  cfg_max_package_bytes :: int
  cfg_max_pending_package_builds :: int
  cfg_max_package_storage_bytes :: int
  cfg_package_worker_max_attempts :: int
  cfg_package_worker_retry_delay_seconds :: int
  cfg_package_download_token_ttl_seconds :: int
  cfg_package_download_session_ttl_seconds :: int
  cfg_package_download_lease_seconds :: int
  cfg_package_download_cooldown_seconds :: int
  cfg_write_guard_mode :: string
  cfg_write_guard_code :: "string option"
  cfg_write_guard_max_failures :: int
  cfg_write_guard_failure_window_seconds :: int
  cfg_write_guard_lockout_seconds :: int

text \<open>What \<open>pin_regular_file\<close> reports for a path: an unsafe path, another operating
  system error, no file, or the identity and content digest of a regular file.\<close>

record file_identity =
  fid_device :: int
  fid_inode :: int
  fid_ctime_ns :: int
  fid_mtime_ns :: int
  fid_size :: int
  fid_sha256 :: string
  fid_readable :: bool

datatype pin = Pin_Unsafe | Pin_OSError | Pin_Missing | Pin_File file_identity

record media_probe =
  prb_duration_ms :: int
  prb_width :: int
  prb_height :: int
  prb_fps_num :: int
  prb_fps_den :: int

text \<open>
  One command runs at one instant. The random identifiers (\<open>uuid4\<close>,
  \<open>secrets\<close>), the digest function, the token signer, the media probe and the storage
  observations are parameters: code the service calls and does not contain.
\<close>

record env =
  env_now :: int
  env_now_stamp :: string
  env_uuid_hex :: "nat \<Rightarrow> string"
  env_token :: "nat \<Rightarrow> string"
  env_printable :: "string \<Rightarrow> bool"
  env_sha256_hex :: "string \<Rightarrow> string"
  env_download_token :: "string \<Rightarrow> string \<Rightarrow> string"
  env_pin_storage :: "path \<Rightarrow> pin"
  env_pin_package :: "path \<Rightarrow> pin"
  env_probe_media :: "path \<Rightarrow> exn + media_probe \<times> file_identity"
  env_publish_rename :: "path \<Rightarrow> path \<Rightarrow> bool"
  env_package_disk_free :: "int option"
  env_storage_disk_free :: "int option"
  env_roots_share_filesystem :: "bool option"
  env_settings :: settings

definition seconds :: "int \<Rightarrow> int" where
  "seconds n = n * 1000000"

section \<open>Identifiers\<close>

definition new_id :: "env \<Rightarrow> string \<Rightarrow> db \<Rightarrow> string \<times> db" where
  "new_id env pfx db =
     (pfx @ ''_'' @ env_uuid_hex env (db_drawn db), db\<lparr>db_drawn := Suc (db_drawn db)\<rparr>)"

section \<open>Lookups\<close>

definition get_project :: "db \<Rightarrow> string \<Rightarrow> exn + project" where
  "get_project db project_ref_id =
     of_option (ReviewError RESOURCE_NOT_FOUND) (row_get prj_id project_ref_id (db_projects db))"

definition get_item :: "db \<Rightarrow> string \<Rightarrow> string \<Rightarrow> exn + review_item" where
  "get_item db project_ref_id review_item_id =
     of_option (ReviewError RESOURCE_NOT_FOUND)
       (List.find (\<lambda>i. itm_id i = review_item_id \<and> itm_project_ref_id i = project_ref_id) (db_items db))"

definition get_version :: "db \<Rightarrow> string \<Rightarrow> string \<Rightarrow> string \<Rightarrow> exn + review_version" where
  "get_version db project_ref_id review_item_id version_id =
     of_option (ReviewError RESOURCE_NOT_FOUND)
       (List.find (\<lambda>v. ver_id v = version_id \<and> ver_project_ref_id v = project_ref_id
                     \<and> ver_review_item_id v = review_item_id) (db_versions db))"

text \<open>The current version of an item: \<open>_get_version(.., item.current_version_id or "")\<close>.\<close>

definition or_empty :: "string option \<Rightarrow> string" where
  "or_empty x = (case x of None \<Rightarrow> '''' | Some s \<Rightarrow> s)"

definition get_issue :: "db \<Rightarrow> string \<Rightarrow> string \<Rightarrow> string \<Rightarrow> string \<Rightarrow> bool \<Rightarrow> exn + issue" where
  "get_issue db project_ref_id review_item_id version_id issue_id include_deleted =
     ebind
       (of_option (ReviewError RESOURCE_NOT_FOUND)
         (List.find (\<lambda>s. iss_id s = issue_id \<and> iss_project_ref_id s = project_ref_id
                       \<and> iss_review_item_id s = review_item_id \<and> iss_version_id s = version_id) (db_issues db)))
       (\<lambda>issue.
         if iss_deleted_at issue \<noteq> None \<and> \<not> include_deleted then raise RESOURCE_NOT_FOUND
         else Inr issue)"

definition get_revision :: "db \<Rightarrow> string \<Rightarrow> string \<Rightarrow> exn + revision" where
  "get_revision db issue_id revision_id =
     of_option (ReviewError RESOURCE_NOT_FOUND)
       (List.find (\<lambda>r. rev_id r = revision_id \<and> rev_issue_id r = issue_id) (db_revisions db))"

definition get_annotation ::
  "db \<Rightarrow> string \<Rightarrow> string \<Rightarrow> string \<Rightarrow> string \<Rightarrow> string option \<Rightarrow> exn + annotation_set option" where
  "get_annotation db project_ref_id review_item_id version_id issue_id annotation_set_id =
     (case annotation_set_id of
        None \<Rightarrow> Inr None
      | Some aid \<Rightarrow>
          if aid = '''' then Inr None
          else
            ebind
              (of_option (ReviewError RESOURCE_NOT_FOUND)
                (List.find (\<lambda>a. ann_id a = aid \<and> ann_project_ref_id a = project_ref_id
                     \<and> ann_review_item_id a = review_item_id \<and> ann_version_id a = version_id
                     \<and> ann_issue_id a = issue_id) (db_annotations db)))
              (\<lambda>a. Inr (Some a)))"

definition get_responsible_editor :: "db \<Rightarrow> string \<Rightarrow> exn + editor" where
  "get_responsible_editor db editor_id =
     of_option (ReviewError RESPONSIBLE_EDITOR_NOT_FOUND) (row_get edt_id editor_id (db_editors db))"

definition get_file :: "db \<Rightarrow> string \<Rightarrow> file_object option" where
  "get_file db file_id = row_get fil_id file_id (db_files db)"

section \<open>Guards\<close>

definition expect_lock :: "int \<Rightarrow> int option \<Rightarrow> exn + unit" where
  "expect_lock lock_version expected_version =
     (case expected_version of
        None \<Rightarrow> Inr ()
      | Some v \<Rightarrow> guard (lock_version = v) (ReviewError OPTIMISTIC_LOCK_CONFLICT))"

definition assert_project_active :: "project \<Rightarrow> exn + unit" where
  "assert_project_active project =
     (if prj_deleted_at project \<noteq> None then raise RESOURCE_STATE_CONFLICT
      else if prj_lifecycle_status project \<noteq> lifecycle_active then raise RESOURCE_STATE_CONFLICT
      else Inr ())"

definition assert_project_visible :: "project \<Rightarrow> exn + unit" where
  "assert_project_visible project =
     guard (prj_deleted_at project = None) (ReviewError RESOURCE_NOT_FOUND)"

text \<open>\<open>domain/invariants.py\<close>.\<close>

definition ensure_not_finalized :: "workflow_status \<Rightarrow> exn + unit" where
  "ensure_not_finalized status = guard (status \<noteq> finalized) (ReviewError REVIEW_ITEM_FINALIZED)"

definition ensure_can_upload_version :: "workflow_status \<Rightarrow> int \<Rightarrow> exn + unit" where
  "ensure_can_upload_version status current_issue_count =
     ebind (ensure_not_finalized status) (\<lambda>_.
       guard (\<not> current_issue_count < 1) (ReviewError RESOURCE_STATE_CONFLICT))"

definition ensure_current_version :: "string \<Rightarrow> string \<Rightarrow> exn + unit" where
  "ensure_current_version target_version_id current_version_id =
     guard (target_version_id = current_version_id) (ReviewError VERSION_NOT_CURRENT)"

definition ensure_finalizable :: "workflow_status \<Rightarrow> exn + unit" where
  "ensure_finalizable status =
     ebind (ensure_not_finalized status) (\<lambda>_.
       guard (status \<in> {pending_review, in_review, changes_requested}) (ReviewError RESOURCE_STATE_CONFLICT))"

section \<open>Writing rows\<close>

definition put_project :: "project \<Rightarrow> db \<Rightarrow> db" where
  "put_project r db = db\<lparr>db_projects := row_put prj_id r (db_projects db)\<rparr>"

definition put_editor :: "editor \<Rightarrow> db \<Rightarrow> db" where
  "put_editor r db = db\<lparr>db_editors := row_put edt_id r (db_editors db)\<rparr>"

definition put_item :: "review_item \<Rightarrow> db \<Rightarrow> db" where
  "put_item r db = db\<lparr>db_items := row_put itm_id r (db_items db)\<rparr>"

definition put_version :: "review_version \<Rightarrow> db \<Rightarrow> db" where
  "put_version r db = db\<lparr>db_versions := row_put ver_id r (db_versions db)\<rparr>"

definition put_issue :: "issue \<Rightarrow> db \<Rightarrow> db" where
  "put_issue r db = db\<lparr>db_issues := row_put iss_id r (db_issues db)\<rparr>"

definition put_finalization :: "finalization \<Rightarrow> db \<Rightarrow> db" where
  "put_finalization r db = db\<lparr>db_finalizations := row_put fin_id r (db_finalizations db)\<rparr>"

definition put_package :: "package \<Rightarrow> db \<Rightarrow> db" where
  "put_package r db = db\<lparr>db_packages := row_put pkg_id r (db_packages db)\<rparr>"

definition put_task :: "derivative_task \<Rightarrow> db \<Rightarrow> db" where
  "put_task r db = db\<lparr>db_tasks := row_put mdt_id r (db_tasks db)\<rparr>"

definition put_qc_task :: "qc_task \<Rightarrow> db \<Rightarrow> db" where
  "put_qc_task r db = db\<lparr>db_qc_tasks := row_put qct_id r (db_qc_tasks db)\<rparr>"

definition put_invalidation :: "invalidation \<Rightarrow> db \<Rightarrow> db" where
  "put_invalidation r db = db\<lparr>db_invalidations := row_put inv_id r (db_invalidations db)\<rparr>"

text \<open>The unique constraints and partial unique indexes of each table, besides its primary key.\<close>

definition project_clash :: "project \<Rightarrow> project \<Rightarrow> bool" where
  "project_clash r q \<longleftrightarrow> prj_code r = prj_code q
     \<or> (prj_external_project_id r \<noteq> None \<and> prj_external_project_id r = prj_external_project_id q
        \<and> prj_source_host r = prj_source_host q)"

definition item_clash :: "review_item \<Rightarrow> review_item \<Rightarrow> bool" where
  "item_clash r q \<longleftrightarrow> itm_project_ref_id r = itm_project_ref_id q \<and> itm_item_code r = itm_item_code q"

definition version_clash :: "review_version \<Rightarrow> review_version \<Rightarrow> bool" where
  "version_clash r q \<longleftrightarrow>
     (ver_review_item_id r = ver_review_item_id q \<and> ver_version_no r = ver_version_no q)
     \<or> ver_original_file_id r = ver_original_file_id q
     \<or> (ver_review_item_id r = ver_review_item_id q \<and> ver_is_current r \<and> ver_is_current q)"

definition issue_clash :: "issue \<Rightarrow> issue \<Rightarrow> bool" where
  "issue_clash r q \<longleftrightarrow> iss_review_item_id r = iss_review_item_id q \<and> iss_issue_no r = iss_issue_no q"

definition revision_clash :: "revision \<Rightarrow> revision \<Rightarrow> bool" where
  "revision_clash r q \<longleftrightarrow> rev_issue_id r = rev_issue_id q \<and> rev_revision_no r = rev_revision_no q"

definition finalization_clash :: "finalization \<Rightarrow> finalization \<Rightarrow> bool" where
  "finalization_clash r q \<longleftrightarrow> fin_review_item_id r = fin_review_item_id q
     \<and> fin_status r = fin_active \<and> fin_status q = fin_active"

definition package_clash :: "package \<Rightarrow> package \<Rightarrow> bool" where
  "package_clash r q \<longleftrightarrow> pkg_project_ref_id r = pkg_project_ref_id q
     \<and> pkg_status r = preparing \<and> pkg_status q = preparing"

definition invalidation_clash :: "invalidation \<Rightarrow> invalidation \<Rightarrow> bool" where
  "invalidation_clash r q \<longleftrightarrow>
     inv_finalization_id r = inv_finalization_id q \<and> inv_package_id r = inv_package_id q"

definition task_clash :: "derivative_task \<Rightarrow> derivative_task \<Rightarrow> bool" where
  "task_clash r q \<longleftrightarrow> mdt_version_id r = mdt_version_id q \<and> mdt_kind r = mdt_kind q"

definition qc_task_clash :: "qc_task \<Rightarrow> qc_task \<Rightarrow> bool" where
  "qc_task_clash r q \<longleftrightarrow> qct_version_id r = qct_version_id q"

definition event_clash :: "outbox_event \<Rightarrow> outbox_event \<Rightarrow> bool" where
  "event_clash r q \<longleftrightarrow> evt_event_id r = evt_event_id q \<or> evt_sequence r = evt_sequence q"

definition no_clash :: "'r \<Rightarrow> 'r \<Rightarrow> bool" where
  "no_clash r q \<longleftrightarrow> False"

definition insert_project :: "project \<Rightarrow> db \<Rightarrow> exn + db" where
  "insert_project r db =
     ebind (row_insert prj_id project_clash r (db_projects db)) (\<lambda>rows. Inr (db\<lparr>db_projects := rows\<rparr>))"

definition insert_editor :: "editor \<Rightarrow> db \<Rightarrow> exn + db" where
  "insert_editor r db =
     ebind (row_insert edt_id no_clash r (db_editors db)) (\<lambda>rows. Inr (db\<lparr>db_editors := rows\<rparr>))"

definition insert_item :: "review_item \<Rightarrow> db \<Rightarrow> exn + db" where
  "insert_item r db =
     ebind (row_insert itm_id item_clash r (db_items db)) (\<lambda>rows. Inr (db\<lparr>db_items := rows\<rparr>))"

definition insert_version :: "review_version \<Rightarrow> db \<Rightarrow> exn + db" where
  "insert_version r db =
     ebind (row_insert ver_id version_clash r (db_versions db)) (\<lambda>rows. Inr (db\<lparr>db_versions := rows\<rparr>))"

definition insert_task :: "derivative_task \<Rightarrow> db \<Rightarrow> exn + db" where
  "insert_task r db =
     ebind (row_insert mdt_id task_clash r (db_tasks db)) (\<lambda>rows. Inr (db\<lparr>db_tasks := rows\<rparr>))"

definition insert_qc_task :: "qc_task \<Rightarrow> db \<Rightarrow> exn + db" where
  "insert_qc_task r db =
     ebind (row_insert qct_id qc_task_clash r (db_qc_tasks db)) (\<lambda>rows. Inr (db\<lparr>db_qc_tasks := rows\<rparr>))"

definition insert_issue :: "issue \<Rightarrow> db \<Rightarrow> exn + db" where
  "insert_issue r db =
     ebind (row_insert iss_id issue_clash r (db_issues db)) (\<lambda>rows. Inr (db\<lparr>db_issues := rows\<rparr>))"

definition insert_revision :: "revision \<Rightarrow> db \<Rightarrow> exn + db" where
  "insert_revision r db =
     ebind (row_insert rev_id revision_clash r (db_revisions db)) (\<lambda>rows. Inr (db\<lparr>db_revisions := rows\<rparr>))"

definition insert_annotation :: "annotation_set \<Rightarrow> db \<Rightarrow> exn + db" where
  "insert_annotation r db =
     ebind (row_insert ann_id no_clash r (db_annotations db)) (\<lambda>rows. Inr (db\<lparr>db_annotations := rows\<rparr>))"

definition insert_message :: "thread_message \<Rightarrow> db \<Rightarrow> exn + db" where
  "insert_message r db =
     ebind (row_insert msg_id no_clash r (db_messages db)) (\<lambda>rows. Inr (db\<lparr>db_messages := rows\<rparr>))"

definition insert_finalization :: "finalization \<Rightarrow> db \<Rightarrow> exn + db" where
  "insert_finalization r db =
     ebind (row_insert fin_id finalization_clash r (db_finalizations db))
       (\<lambda>rows. Inr (db\<lparr>db_finalizations := rows\<rparr>))"

definition insert_package :: "package \<Rightarrow> db \<Rightarrow> exn + db" where
  "insert_package r db =
     ebind (row_insert pkg_id package_clash r (db_packages db)) (\<lambda>rows. Inr (db\<lparr>db_packages := rows\<rparr>))"

definition insert_invalidation :: "invalidation \<Rightarrow> db \<Rightarrow> exn + db" where
  "insert_invalidation r db =
     ebind (row_insert inv_id invalidation_clash r (db_invalidations db))
       (\<lambda>rows. Inr (db\<lparr>db_invalidations := rows\<rparr>))"

definition insert_event :: "outbox_event \<Rightarrow> db \<Rightarrow> exn + db" where
  "insert_event r db =
     ebind (row_insert evt_id event_clash r (db_events db)) (\<lambda>rows. Inr (db\<lparr>db_events := rows\<rparr>))"

section \<open>The outbox append\<close>

definition DOMAIN_EVENT_TYPES :: "string list" where
  "DOMAIN_EVENT_TYPES =
     [''review.project.created'', ''review.project.updated'', ''review.project.archived'',
      ''review.project.restored'', ''review.project.deleted'', ''review.item.created'',
      ''review.item.updated'', ''review.item.deleted'', ''review.version.uploaded'',
      ''review.session.started'', ''review.issue.created'', ''review.issue.updated'',
      ''review.issue.message_added'', ''review.issue.resolved'', ''review.issue.reopened'',
      ''review.issue.deleted'', ''review.version.finalized'', ''review.finalization.revoked'',
      ''review.finalized_original.download_requested'', ''review.package.requested'',
      ''review.package.ready'', ''review.package.failed'']"

text \<open>
  \<open>validate_domain_event_payload\<close> at the schemas of
  \<open>DOMAIN_EVENT_PAYLOAD_SCHEMAS\<close>: two event types carry one required non-empty string,
  every other payload is the empty object.
\<close>

definition event_payload_ok :: "string \<Rightarrow> json \<Rightarrow> bool" where
  "event_payload_ok event_type payload =
     (let required =
        (if event_type = ''review.project.created'' then Some ''project_code''
         else if event_type = ''review.package.failed'' then Some ''error_code''
         else None)
      in case payload of
           JObj kvs \<Rightarrow>
             (case required of
                None \<Rightarrow> kvs = []
              | Some k \<Rightarrow>
                  (case kvs of
                     [(k', v)] \<Rightarrow>
                       k' = k \<and> (case v of JStr s \<Rightarrow> s \<noteq> '''' | JNull \<Rightarrow> True | _ \<Rightarrow> False)
                   | _ \<Rightarrow> False))
         | _ \<Rightarrow> False)"

record event_ids =
  ei_review_item_id :: "string option"
  ei_version_id :: "string option"
  ei_issue_id :: "string option"
  ei_finalization_id :: "string option"
  ei_package_id :: "string option"

definition no_ids :: event_ids where
  "no_ids = \<lparr>ei_review_item_id = None, ei_version_id = None, ei_issue_id = None,
             ei_finalization_id = None, ei_package_id = None\<rparr>"

definition event_metadata :: "execution_context \<Rightarrow> json" where
  "event_metadata context =
     JObj [(''entry_source'', JStr (ctx_entry_source context)),
           (''principal_kind'', JStr (pr_kind (ctx_principal context))),
           (''principal_id'', (case pr_id (ctx_principal context) of None \<Rightarrow> JNull | Some i \<Rightarrow> JStr i)),
           (''request_id'', JStr (ctx_request_id context))]"

definition next_outbox_sequence_base :: "db \<Rightarrow> int" where
  "next_outbox_sequence_base db = max0 (map evt_sequence (db_events db))"

definition add_event ::
  "env \<Rightarrow> string \<Rightarrow> execution_context \<Rightarrow> string \<Rightarrow> string \<Rightarrow> string \<Rightarrow> int \<Rightarrow> event_ids \<Rightarrow> json
   \<Rightarrow> db \<Rightarrow> exn + db" where
  "add_event env event_type context project_ref_id aggregate_type aggregate_id aggregate_version ids payload db =
     (if event_type \<notin> set DOMAIN_EVENT_TYPES then Inl ValueError
      else if \<not> event_payload_ok event_type payload then Inl ValueError
      else
        let (eid, db) = new_id env ''evt'' db
        in insert_event
             \<lparr>evt_id = max0 (map evt_id (db_events db)) + 1, evt_event_id = eid, evt_event_type = event_type, evt_event_version = 1,
              evt_aggregate_type = aggregate_type, evt_aggregate_id = aggregate_id,
              evt_aggregate_version = aggregate_version, evt_sequence = next_outbox_sequence_base db + 1,
              evt_project_ref_id = project_ref_id, evt_review_item_id = ei_review_item_id ids,
              evt_version_id = ei_version_id ids, evt_issue_id = ei_issue_id ids,
              evt_finalization_id = ei_finalization_id ids, evt_package_id = ei_package_id ids,
              evt_correlation_id = ctx_request_id context, evt_causation_id = None, evt_metadata = event_metadata context,
              evt_payload = payload, evt_status = outbox_pending, evt_attempts = 0,
              evt_occurred_at = env_now env\<rparr> db)"

section \<open>Facts about the store\<close>

lemmas put_defs = put_project_def put_editor_def put_item_def put_version_def put_issue_def
  put_finalization_def put_package_def put_task_def put_qc_task_def put_invalidation_def

lemmas insert_defs = insert_project_def insert_editor_def insert_item_def insert_version_def
  insert_task_def insert_qc_task_def insert_issue_def insert_revision_def insert_annotation_def
  insert_message_def insert_finalization_def insert_package_def insert_invalidation_def insert_event_def

lemma find_SomeD: "List.find P xs = Some x \<Longrightarrow> x \<in> set xs \<and> P x"
  by (auto simp: find_Some_iff)

lemma get_project_Inr:
  "get_project db pid = Inr p \<longleftrightarrow> row_get prj_id pid (db_projects db) = Some p"
  by (simp add: get_project_def)

lemma get_item_InrD: "get_item db pid iid = Inr i \<Longrightarrow> i \<in> set (db_items db) \<and> itm_id i = iid \<and> itm_project_ref_id i = pid"
  by (auto simp: get_item_def dest!: find_SomeD)

lemma get_version_InrD:
  "get_version db pid iid vid = Inr v \<Longrightarrow>
     v \<in> set (db_versions db) \<and> ver_id v = vid \<and> ver_project_ref_id v = pid \<and> ver_review_item_id v = iid"
  by (auto simp: get_version_def dest!: find_SomeD)

lemma get_issue_InrD:
  "get_issue db pid iid vid sid d = Inr s \<Longrightarrow>
     s \<in> set (db_issues db) \<and> iss_id s = sid \<and> iss_project_ref_id s = pid \<and> iss_review_item_id s = iid
     \<and> iss_version_id s = vid \<and> (\<not> d \<longrightarrow> iss_deleted_at s = None)"
  by (auto simp: get_issue_def dest!: find_SomeD split: if_splits)

lemma expect_lock_Inr [simp]: "expect_lock v e = Inr u \<longleftrightarrow> (e = None \<or> e = Some v)"
  by (cases e) (auto simp: expect_lock_def)

lemma assert_project_active_Inr [simp]:
  "assert_project_active p = Inr u \<longleftrightarrow> prj_deleted_at p = None \<and> prj_lifecycle_status p = lifecycle_active"
  by (auto simp: assert_project_active_def)

lemma assert_project_visible_Inr [simp]: "assert_project_visible p = Inr u \<longleftrightarrow> prj_deleted_at p = None"
  by (simp add: assert_project_visible_def)

lemma ensure_Inr [simp]:
  "ensure_not_finalized s = Inr u \<longleftrightarrow> s \<noteq> finalized"
  "ensure_can_upload_version s n = Inr u \<longleftrightarrow> s \<noteq> finalized \<and> 1 \<le> n"
  "ensure_current_version v w = Inr u \<longleftrightarrow> v = w"
  "ensure_finalizable s = Inr u \<longleftrightarrow> s \<noteq> finalized"
  by (cases s; auto simp: ensure_not_finalized_def ensure_can_upload_version_def
        ensure_current_version_def ensure_finalizable_def)+

text \<open>What a successful append to the outbox changes, and nothing else.\<close>

lemma add_event_Inr:
  assumes "add_event env et c pid aty aid av ids pl db = Inr db'"
  shows "\<exists>e. db' = db\<lparr>db_drawn := Suc (db_drawn db), db_events := db_events db @ [e]\<rparr>
           \<and> evt_sequence e = max0 (map evt_sequence (db_events db)) + 1
           \<and> evt_event_type e = et \<and> evt_aggregate_id e = aid \<and> evt_aggregate_version e = av
           \<and> evt_project_ref_id e = pid \<and> evt_status e = outbox_pending \<and> evt_attempts e = 0"
  using assms
  by (auto simp: add_event_def new_id_def insert_event_def row_insert_Inr_iff
        next_outbox_sequence_base_def split: if_splits)

lemma add_event_frame:
  assumes "add_event env et c pid aty aid av ids pl db = Inr db'"
  shows "db_projects db' = db_projects db" "db_items db' = db_items db" "db_versions db' = db_versions db"
    "db_finalizations db' = db_finalizations db" "db_issues db' = db_issues db"
    "db_packages db' = db_packages db" "db_tasks db' = db_tasks db" "db_revisions db' = db_revisions db"
    "db_invalidations db' = db_invalidations db" "db_files db' = db_files db" "db_uploads db' = db_uploads db"
    "db_qc_findings db' = db_qc_findings db" "db_qc_tasks db' = db_qc_tasks db"
    "db_annotations db' = db_annotations db" "db_messages db' = db_messages db" "db_editors db' = db_editors db"
    "db_idempotency db' = db_idempotency db"
  using add_event_Inr [OF assms] by auto

text \<open>Outbox sequence numbers: an append keeps them strictly increasing in table order.\<close>

definition outbox_ordered :: "db \<Rightarrow> bool" where
  "outbox_ordered db \<longleftrightarrow> sorted_wrt (<) (map evt_sequence (db_events db))"

lemma add_event_ordered:
  assumes "add_event env et c pid aty aid av ids pl db = Inr db'" and "outbox_ordered db"
  shows "outbox_ordered db'"
proof -
  obtain e where e: "db_events db' = db_events db @ [e]"
    and s: "evt_sequence e = max0 (map evt_sequence (db_events db)) + 1"
    using add_event_Inr [OF assms(1)] by auto
  have "\<forall>x\<in>set (map evt_sequence (db_events db)). x < evt_sequence e"
    using max0_ge s by fastforce
  then show ?thesis using assms(2) by (simp add: outbox_ordered_def e sorted_wrt_append)
qed

end
