(* ===== verification/Samples.thy ===== *)
theory Samples
  imports Store
begin

text \<open>
  A small concrete installation: settings, an environment whose random identifiers are the decimal
  numbers, a caller, and the rows of one project with one item and one version. The concrete
  instances of the properties run on it.
\<close>

definition ex_settings :: settings where
  "ex_settings =
     \<lparr>cfg_storage_root = [''srv'', ''storage''], cfg_package_root = [''srv'', ''packages''],
      cfg_max_upload_bytes = 1000000, cfg_max_upload_part_bytes = 1000, cfg_max_upload_parts = 256,
      cfg_max_active_upload_sessions_global = 8, cfg_max_active_upload_sessions_per_principal = 4,
      cfg_max_reserved_upload_bytes_global = 10000000, cfg_max_reserved_upload_bytes_per_principal = 5000000,
      cfg_upload_storage_low_watermark_bytes = 0, cfg_upload_finalization_lease_seconds = 7200,
      cfg_upload_session_ttl_seconds = 900, cfg_media_worker_max_attempts = 3,
      cfg_media_worker_retry_delay_seconds = 30, cfg_media_worker_lease_seconds = 3600,
      cfg_technical_qc_worker_concurrency = 4, cfg_technical_qc_per_project_concurrency = 2,
      cfg_technical_qc_lease_seconds = 900, cfg_technical_qc_worker_max_attempts = 3,
      cfg_technical_qc_worker_retry_delay_seconds = 30, cfg_package_ttl_seconds = 3600,
      cfg_max_package_files = 500, cfg_max_package_bytes = 1000000,
      cfg_max_pending_package_builds = 4, cfg_max_package_storage_bytes = 100000000,
      cfg_package_worker_max_attempts = 3, cfg_package_worker_retry_delay_seconds = 60,
      cfg_package_download_token_ttl_seconds = 300, cfg_package_download_session_ttl_seconds = 300,
      cfg_package_download_lease_seconds = 120, cfg_package_download_cooldown_seconds = 10,
      cfg_write_guard_mode = ''none'', cfg_write_guard_code = None, cfg_write_guard_max_failures = 5,
      cfg_write_guard_failure_window_seconds = 300, cfg_write_guard_lockout_seconds = 900\<rparr>"

definition ex_identity :: file_identity where
  "ex_identity =
     \<lparr>fid_device = 1, fid_inode = 7, fid_ctime_ns = 5, fid_mtime_ns = 5, fid_size = 100,
      fid_sha256 = replicate 64 (CHR ''a''), fid_readable = True\<rparr>"

definition ex_probe :: media_probe where
  "ex_probe = \<lparr>prb_duration_ms = 60000, prb_width = 1920, prb_height = 1080, prb_fps_num = 25, prb_fps_den = 1\<rparr>"

definition ex_env :: env where
  "ex_env =
     \<lparr>env_now = 1000000, env_now_stamp = ''20240101'', env_uuid_hex = dec_nat,
      env_token = dec_nat, env_printable = (\<lambda>c. c \<noteq> [CHR 0x0A]), env_sha256_hex = (\<lambda>s. s), env_download_token = (\<lambda>a b. a @ b),
      env_pin_storage = (\<lambda>_. Pin_File ex_identity), env_pin_package = (\<lambda>_. Pin_Missing),
      env_probe_media = (\<lambda>_. Inr (ex_probe, ex_identity)), env_publish_rename = (\<lambda>_ _. True), env_package_disk_free = Some 1000000000, env_storage_disk_free = Some 1000000000,
      env_roots_share_filesystem = Some False, env_settings = ex_settings\<rparr>"

definition ex_principal :: principal_ref where
  "ex_principal = \<lparr>pr_kind = ''service'', pr_id = Some ''u1'', pr_project_ref_ids = [''*'']\<rparr>"

definition ex_context :: execution_context where
  "ex_context =
     \<lparr>ctx_entry_source = ''edit'', ctx_request_id = ''r1'', ctx_principal = ex_principal,
      ctx_write_guard_verified = True\<rparr>"

definition ex_media :: media where
  "ex_media =
     \<lparr>original_filename = ''a.mp4'', mime_type = ''video/mp4'', file_size = 100,
      sha256 = replicate 64 (CHR ''a''), duration_ms = 60000, width = 1920, height = 1080, fps_num = 25,
      fps_den = 1, media_probe_version = ''v1''\<rparr>"

definition ex_project :: project where
  "ex_project =
     \<lparr>prj_id = ''p1'', prj_code = ''P1'', prj_name = ''Film'', prj_description = '''',
      prj_source_host = False, prj_external_project_id = None, prj_lifecycle_status = lifecycle_active,
      prj_deleted_at = None, prj_fps_num = Some 25, prj_fps_den = Some 1, prj_lock_version = 1,
      prj_created_at = 0, prj_updated_at = 0\<rparr>"

definition ex_item :: review_item where
  "ex_item =
     \<lparr>itm_id = ''i1'', itm_project_ref_id = ''p1'', itm_item_code = ''E01'', itm_episode_no = Some 1,
      itm_title = ''One'', itm_workflow_status = pending_review, itm_current_version_id = Some ''v1'',
      itm_active_finalization_id = None, itm_lock_version = 1, itm_created_at = 0, itm_updated_at = 0\<rparr>"

definition ex_version :: review_version where
  "ex_version =
     \<lparr>ver_id = ''v1'', ver_project_ref_id = ''p1'', ver_review_item_id = ''i1'',
      ver_previous_version_id = None, ver_version_no = 1, ver_version_label = ''V1'',
      ver_is_current = True, ver_original_file_id = ''f1'', ver_media = ex_media,
      ver_responsible_editor_id = None, ver_responsible_editor_name_snapshot = None,
      ver_playback_asset_id = None, ver_thumbnail_asset_id = None, ver_version_note = None,
      ver_change_summary = None, ver_lock_version = 1, ver_created_at = 0\<rparr>"

definition ex_task :: derivative_task where
  "ex_task =
     \<lparr>mdt_id = ''t1'', mdt_project_ref_id = ''p1'', mdt_review_item_id = ''i1'', mdt_version_id = ''v1'',
      mdt_kind = thumbnail, mdt_status = task_ready, mdt_attempts = 1, mdt_next_attempt_at = None,
      mdt_lease_id = None, mdt_lease_expires_at = None, mdt_output_file_id = Some ''f0'',
      mdt_error_code = None, mdt_failure_details = None, mdt_result_details = None, mdt_created_at = 0,
      mdt_updated_at = 0\<rparr>"

definition ex_db :: db where
  "ex_db = empty_db\<lparr>db_projects := [ex_project], db_items := [ex_item], db_versions := [ex_version]\<rparr>"

text \<open>The same project with the item finalized and its file in place.\<close>

definition ex_file_id :: string where
  "ex_file_id = ''file_'' @ replicate 32 (CHR ''0'')"

definition ex_file :: file_object where
  "ex_file =
     \<lparr>fil_id = ex_file_id, fil_media = ex_media, fil_storage_path = ''files/'' @ ex_file_id,
      fil_owner_principal_id = ''u1'', fil_owner_principal_kind = ''service'', fil_created_at = 0\<rparr>"

definition ex_ready_version :: review_version where
  "ex_ready_version =
     ex_version\<lparr>ver_original_file_id := ex_file_id, ver_playback_asset_id := Some ex_file_id\<rparr>"

definition ex_finalization :: finalization where
  "ex_finalization =
     \<lparr>fin_id = ''fin1'', fin_project_ref_id = ''p1'', fin_review_item_id = ''i1'', fin_version_id = ''v1'',
      fin_version_no = 1, fin_original_file_id = ex_file_id, fin_media = ex_media, fin_status = fin_active,
      fin_finalized_at = 0, fin_revoked_at = None\<rparr>"

definition ex_final_item :: review_item where
  "ex_final_item =
     ex_item\<lparr>itm_workflow_status := finalized, itm_active_finalization_id := Some ''fin1''\<rparr>"

definition ex_ready_db :: db where
  "ex_ready_db = ex_db\<lparr>db_versions := [ex_ready_version], db_files := [ex_file]\<rparr>"

definition ex_final_db :: db where
  "ex_final_db = ex_ready_db\<lparr>db_items := [ex_final_item], db_finalizations := [ex_finalization]\<rparr>"

text \<open>A package in preparation and an environment whose identifiers have the canonical form.\<close>

definition ex_hex_env :: env where
  "ex_hex_env = ex_env\<lparr>env_uuid_hex := (\<lambda>n. replicate 32 (CHR ''0''))\<rparr>"

definition ex_package_id :: string where
  "ex_package_id = ''pkg_'' @ replicate 32 (CHR ''0'')"

definition ex_package :: package where
  "ex_package =
     \<lparr>pkg_id = ex_package_id, pkg_project_ref_id = ''p1'', pkg_status = preparing, pkg_package_filename = ''p.zip'',
      pkg_storage_path = ''/srv/packages/'' @ ex_package_id @ ''.zip'', pkg_expires_at = 3000000000,
      pkg_total_bytes = 100, pkg_storage_bytes = 2000, pkg_sha256 = None, pkg_build_attempts = 0,
      pkg_next_build_attempt_at = None, pkg_build_lease_id = None, pkg_build_lease_expires_at = None,
      pkg_download_session_hash = None, pkg_download_session_expires_at = None, pkg_download_lease_id = None,
      pkg_download_lease_expires_at = None, pkg_last_download_finished_at = None, pkg_storage_reclaimed_at = None,
      pkg_failure_details = None, pkg_items = [JObj [(''finalization_id'', JStr ''fin1'')]], pkg_created_at = 0,
      pkg_updated_at = 0\<rparr>"

definition ex_package_db :: db where
  "ex_package_db = ex_final_db\<lparr>db_packages := [ex_package]\<rparr>"

text \<open>A concrete run that does not raise.\<close>

definition succeeds :: "exn + 'a \<Rightarrow> bool" where
  "succeeds m = (case m of Inl _ \<Rightarrow> False | Inr _ \<Rightarrow> True)"

lemma succeedsE: "succeeds m \<Longrightarrow> (\<And>x. m = Inr x \<Longrightarrow> P) \<Longrightarrow> P"
  by (auto simp: succeeds_def split: sum.splits)

lemma succeeds_pairE: "succeeds m \<Longrightarrow> (\<And>x y. m = Inr (x, y) \<Longrightarrow> P) \<Longrightarrow> P"
  by (cases m) (auto simp: succeeds_def)

lemma answersE: "map_sum id fst m = Inr r \<Longrightarrow> (\<And>s. m = Inr (r, s) \<Longrightarrow> P) \<Longrightarrow> P"
  by (cases m) auto

lemmas ex_defs = ex_settings_def ex_identity_def ex_probe_def ex_env_def ex_principal_def ex_context_def
  ex_media_def ex_project_def ex_item_def ex_version_def ex_task_def ex_db_def empty_db_def ex_file_def ex_file_id_def
  ex_ready_version_def ex_finalization_def ex_final_item_def ex_ready_db_def ex_final_db_def
  ex_hex_env_def ex_package_id_def ex_package_def ex_package_db_def

end
