(* ===== verification/Union_Find.thy ===== *)
theory Union_Find
  imports Prelude "HOL-Library.Monad_Syntax"
begin

text \<open>
  The union-find of \<open>reconcile_project_thumbnail_groups\<close> in
  \<open>src/backend/app/thumbnail_similarity.py\<close>: the nested functions \<open>find\<close> (with
  path halving, a loop that has no a priori bound) and \<open>union\<close> over the dictionary
  \<open>parents\<close>, and the loop over all pairs. \<open>find\<close> is a partial function: not
  returning, or a missing key, is \<open>None\<close>; that it does return is proved.
\<close>

section \<open>Definitions\<close>

type_synonym 'a parents = "'a \<rightharpoonup> 'a"

partial_function (option) uf_find :: "'a parents \<Rightarrow> 'a \<Rightarrow> ('a \<times> 'a parents) option" where
  "uf_find p x =
     (case p x of
        None \<Rightarrow> None
      | Some y \<Rightarrow>
          if y = x then Some (x, p)
          else (case p y of
                  None \<Rightarrow> None
                | Some z \<Rightarrow> uf_find (p(x \<mapsto> z)) z))"

definition uf_union :: "'a \<Rightarrow> 'a \<Rightarrow> 'a parents \<Rightarrow> 'a parents option" where
  "uf_union left right p =
     do {
       (left_root, p) \<leftarrow> uf_find p left;
       (right_root, p) \<leftarrow> uf_find p right;
       Some (if left_root \<noteq> right_root then p(right_root \<mapsto> left_root) else p)
     }"

fun uf_unions :: "('a \<times> 'a) list \<Rightarrow> 'a parents \<Rightarrow> 'a parents option" where
  "uf_unions [] p = Some p"
| "uf_unions ((l, r) # es) p = do { p \<leftarrow> uf_union l r p; uf_unions es p }"

text \<open>\<open>parents = {task_id: task_id for task_id in signatures}\<close>.\<close>

definition uf_init :: "'a list \<Rightarrow> 'a parents" where
  "uf_init xs = map_of (map (\<lambda>x. (x, x)) xs)"

text \<open>The loop \<open>component_sizes[root] = component_sizes.get(root, 0) + 1\<close>.\<close>

fun component_sizes :: "'a list \<Rightarrow> 'a parents \<Rightarrow> ('a \<rightharpoonup> nat) \<Rightarrow> ('a parents \<times> ('a \<rightharpoonup> nat)) option" where
  "component_sizes [] p m = Some (p, m)"
| "component_sizes (x # xs) p m =
     do {
       (root, p) \<leftarrow> uf_find p x;
       component_sizes xs p (m(root \<mapsto> Suc (case m root of None \<Rightarrow> 0 | Some n \<Rightarrow> n)))
     }"

text \<open>The comprehension \<open>component_sizes[find(task_id)] > 1 for task_id in signatures\<close>.\<close>

fun grouped_flags :: "'a list \<Rightarrow> 'a parents \<Rightarrow> ('a \<rightharpoonup> nat) \<Rightarrow> ('a \<times> bool) list option" where
  "grouped_flags [] p m = Some []"
| "grouped_flags (x # xs) p m =
     do {
       (root, p) \<leftarrow> uf_find p x;
       n \<leftarrow> m root;
       rest \<leftarrow> grouped_flags xs p m;
       Some ((x, n > 1) # rest)
     }"

section \<open>Forests and roots\<close>

definition ranked :: "('a \<Rightarrow> nat) \<Rightarrow> 'a parents \<Rightarrow> bool" where
  "ranked rank p \<longleftrightarrow> (\<forall>x y. p x = Some y \<and> y \<noteq> x \<longrightarrow> rank y < rank x)"

definition closed :: "'a parents \<Rightarrow> bool" where
  "closed p \<longleftrightarrow> ran p \<subseteq> dom p"

definition forest :: "'a parents \<Rightarrow> bool" where
  "forest p \<longleftrightarrow> closed p \<and> (\<exists>rank. ranked rank p)"

inductive root_of :: "'a parents \<Rightarrow> 'a \<Rightarrow> 'a \<Rightarrow> bool" for p where
  root_self: "p x = Some x \<Longrightarrow> root_of p x x"
| root_step: "p x = Some y \<Longrightarrow> y \<noteq> x \<Longrightarrow> root_of p y r \<Longrightarrow> root_of p x r"

lemma root_of_self_iff: "p x = Some x \<Longrightarrow> root_of p x r \<longleftrightarrow> r = x"
  by (rule iffI, erule root_of.cases) (simp_all add: root_self)

lemma root_of_step_iff: "p x = Some y \<Longrightarrow> y \<noteq> x \<Longrightarrow> root_of p x r \<longleftrightarrow> root_of p y r"
  by (rule iffI, erule root_of.cases) (simp_all add: root_step)

lemma root_of_fun: "root_of p x r \<Longrightarrow> root_of p x s \<Longrightarrow> r = s"
  by (induction rule: root_of.induct) (simp_all add: root_of_self_iff root_of_step_iff)

lemma root_of_root: "root_of p x r \<Longrightarrow> p r = Some r"
  by (induction rule: root_of.induct)

lemma root_of_dom: "root_of p x r \<Longrightarrow> x \<in> dom p"
  by (erule root_of.cases) auto

lemma ranked_two: "ranked rank p \<Longrightarrow> p x = Some y \<Longrightarrow> y \<noteq> x \<Longrightarrow> p y = Some z \<Longrightarrow> rank z < rank x"
  unfolding ranked_def by (metis order.strict_trans)

lemma root_exists:
  assumes "closed p" and "ranked rank p" and "x \<in> dom p"
  shows "\<exists>r. root_of p x r"
  using assms(3)
proof (induction "rank x" arbitrary: x rule: less_induct)
  case less
  then obtain y where y: "p x = Some y" by auto
  show ?case
  proof (cases "y = x")
    case True
    then show ?thesis using y root_self by metis
  next
    case False
    then have "rank y < rank x" using y assms(2) by (simp add: ranked_def)
    moreover have "y \<in> dom p" using y assms(1) by (auto simp: closed_def ran_def)
    ultimately obtain r where "root_of p y r" using less.hyps by blast
    then have "root_of p x r" using y False by (simp add: root_of_step_iff)
    then show ?thesis by blast
  qed
qed

text \<open>One halving step keeps every root. The updated map is given by its equations.\<close>

lemma halve_root:
  assumes rk: "ranked rank p" and x: "p x = Some y" "y \<noteq> x" and z: "p y = Some z"
    and q: "q x = Some z" "\<And>w. w \<noteq> x \<Longrightarrow> q w = p w"
  shows "root_of q w r \<longleftrightarrow> root_of p w r"
proof -
  have zx: "z \<noteq> x" using ranked_two [OF rk x z] by auto
  have yz: "root_of p y r \<longleftrightarrow> root_of p z r" for r
    using z by (cases "z = y") (simp_all add: root_of_step_iff)
  have qyz: "root_of q y r \<longleftrightarrow> root_of q z r" for r
    using z q(2) [OF x(2)] by (cases "z = y") (simp_all add: root_of_step_iff)
  show ?thesis
  proof
    assume "root_of q w r"
    then show "root_of p w r"
    proof (induction rule: root_of.induct)
      case (root_self w)
      then have "w \<noteq> x" using q(1) zx by auto
      then show ?case using root_self q(2) by (simp add: root_of.root_self)
    next
      case (root_step w v r)
      show ?case
      proof (cases "w = x")
        case True
        then have "v = z" using root_step.hyps(1) q(1) by simp
        then show ?thesis using root_step.IH True x yz by (simp add: root_of_step_iff)
      next
        case False
        then have "p w = Some v" using root_step.hyps(1) q(2) by simp
        then show ?thesis using root_step by (simp add: root_of_step_iff)
      qed
    qed
  next
    assume "root_of p w r"
    then show "root_of q w r"
    proof (induction rule: root_of.induct)
      case (root_self w)
      then have "w \<noteq> x" using x by auto
      then show ?case using root_self q(2) by (simp add: root_of.root_self)
    next
      case (root_step w v r)
      show ?case
      proof (cases "w = x")
        case True
        then have "v = y" using root_step.hyps(1) x(1) by simp
        then have "root_of q z r" using root_step.IH qyz by simp
        then show ?thesis using True zx q(1) by (simp add: root_of_step_iff)
      next
        case False
        then have "q w = Some v" using root_step.hyps(1) q(2) by simp
        then show ?thesis using root_step by (simp add: root_of_step_iff)
      qed
    qed
  qed
qed

lemma halve_forest:
  assumes cl: "closed p" and rk: "ranked rank p" and x: "p x = Some y" "y \<noteq> x" and z: "p y = Some z"
    and q: "q x = Some z" "\<And>w. w \<noteq> x \<Longrightarrow> q w = p w"
  shows "closed q" "ranked rank q" "dom q = dom p"
proof -
  have "w \<in> dom q \<longleftrightarrow> w \<in> dom p" for w using x(1) q by (cases "w = x") auto
  then show d: "dom q = dom p" by blast
  have "v \<in> dom p" if "q w = Some v" for w v
  proof (cases "w = x")
    case True
    then show ?thesis using that q(1) z cl by (auto simp: closed_def ran_def)
  next
    case False
    then show ?thesis using that q(2) cl by (auto simp: closed_def ran_def)
  qed
  then show "closed q" using d by (auto simp: closed_def ran_def)
  have "rank v < rank w" if "q w = Some v" "v \<noteq> w" for w v
    using that q rk ranked_two [OF rk x z] by (cases "w = x") (auto simp: ranked_def)
  then show "ranked rank q" by (simp add: ranked_def)
qed

text \<open>\<open>find\<close> returns, and what it returns is the root; it changes no root.\<close>

lemma uf_find_correct:
  assumes "closed p" and "ranked rank p" and "x \<in> dom p"
  shows "\<exists>r p'. uf_find p x = Some (r, p') \<and> root_of p x r \<and> closed p' \<and> ranked rank p'
           \<and> dom p' = dom p \<and> (\<forall>w s. root_of p' w s \<longleftrightarrow> root_of p w s)"
  using assms
proof (induction "rank x" arbitrary: x p rule: less_induct)
  case less
  obtain y where y: "p x = Some y" using less.prems(3) by auto
  show ?case
  proof (cases "y = x")
    case True
    then have "uf_find p x = Some (x, p)" using y by (subst uf_find.simps) simp
    then show ?thesis using True y less.prems root_self by metis
  next
    case False
    obtain z where z: "p y = Some z" using y less.prems(1) by (auto simp: closed_def ran_def)
    define q where "q = p(x \<mapsto> z)"
    have q: "q x = Some z" "\<And>w. w \<noteq> x \<Longrightarrow> q w = p w" by (simp_all add: q_def)
    note f = halve_forest [OF less.prems(1,2) y False z q]
    note hr = halve_root [OF less.prems(2) y False z q]
    have lt: "rank z < rank x" by (rule ranked_two [OF less.prems(2) y False z])
    have "z \<in> dom q" using z less.prems(1) f(3) by (auto simp: closed_def ran_def)
    then obtain r p' where r: "uf_find q z = Some (r, p')" "root_of q z r" "closed p'" "ranked rank p'"
      "dom p' = dom q" "\<forall>w s. root_of p' w s \<longleftrightarrow> root_of q w s"
      using less.hyps [OF lt f(1,2)] by blast
    have "z \<noteq> x" using lt by auto
    then have "root_of p x r" using r(2) q(1) hr by (metis root_of_step_iff)
    moreover have "uf_find p x = Some (r, p')"
      using y z False r(1) by (subst uf_find.simps) (simp add: q_def)
    ultimately show ?thesis using r f hr by metis
  qed
qed

lemma uf_find_forest:
  assumes "forest p" and "x \<in> dom p"
  shows "\<exists>r p'. uf_find p x = Some (r, p') \<and> root_of p x r \<and> forest p' \<and> dom p' = dom p
           \<and> (\<forall>w s. root_of p' w s \<longleftrightarrow> root_of p w s)"
proof -
  obtain rank where rank: "ranked rank p" "closed p" using assms(1) by (auto simp: forest_def)
  show ?thesis using uf_find_correct [OF rank(2,1) assms(2)] unfolding forest_def by blast
qed

text \<open>Linking one root below another.\<close>

lemma link_root:
  assumes a: "p a = Some a" and b: "p b = Some b" and ab: "a \<noteq> b"
    and q: "q b = Some a" "\<And>w. w \<noteq> b \<Longrightarrow> q w = p w"
  shows "root_of q w r \<longleftrightarrow> (\<exists>s. root_of p w s \<and> r = (if s = b then a else s))"
proof
  have qa: "q a = Some a" using a q(2) [OF ab] by simp
  assume "root_of q w r"
  then show "\<exists>s. root_of p w s \<and> r = (if s = b then a else s)"
  proof (induction rule: root_of.induct)
    case (root_self w)
    then have "w \<noteq> b" using q(1) ab by auto
    then have "p w = Some w" using root_self q(2) by simp
    then show ?case using \<open>w \<noteq> b\<close> root_of.root_self by metis
  next
    case (root_step w v r)
    show ?case
    proof (cases "w = b")
      case True
      then have "v = a" using root_step.hyps(1) q(1) by simp
      then have "r = a" using root_step.hyps(3) qa by (simp add: root_of_self_iff)
      then show ?thesis using True b root_of.root_self by metis
    next
      case False
      then have "p w = Some v" using root_step.hyps(1) q(2) by simp
      then show ?thesis using root_step by (simp add: root_of_step_iff)
    qed
  qed
next
  have qa: "q a = Some a" using a q(2) [OF ab] by simp
  have qb: "root_of q b a" using q(1) ab qa by (simp add: root_of_step_iff root_of_self_iff)
  assume "\<exists>s. root_of p w s \<and> r = (if s = b then a else s)"
  then obtain s where s: "root_of p w s" and r: "r = (if s = b then a else s)" by blast
  from s have "root_of q w (if s = b then a else s)"
  proof (induction rule: root_of.induct)
    case (root_self w)
    show ?case
    proof (cases "w = b")
      case True
      then show ?thesis using qb by simp
    next
      case False
      then have "q w = Some w" using root_self q(2) by simp
      then show ?thesis using False by (simp add: root_of.root_self)
    qed
  next
    case (root_step w v s)
    have "w \<noteq> b" using root_step.hyps(1,2) b by auto
    then have "q w = Some v" using root_step.hyps(1) q(2) by simp
    then show ?case using root_step by (simp add: root_of_step_iff)
  qed
  then show "root_of q w r" using r by simp
qed

lemma link_forest:
  assumes fo: "forest p" and a: "p a = Some a" and b: "p b = Some b" and ab: "a \<noteq> b"
    and q: "q b = Some a" "\<And>w. w \<noteq> b \<Longrightarrow> q w = p w"
  shows "forest q" "dom q = dom p"
proof -
  obtain rank where rank: "ranked rank p" "closed p" using fo by (auto simp: forest_def)
  define rk where "rk x = (if root_of p x b then Suc (rank a + rank x) else rank x)" for x
  have "rk y < rk x" if "q x = Some y" "y \<noteq> x" for x y
  proof (cases "x = b")
    case True
    then have "y = a" using that q(1) by simp
    moreover have "\<not> root_of p a b" "root_of p b b" using a b ab by (simp_all add: root_of_self_iff)
    ultimately show ?thesis using True by (simp add: rk_def)
  next
    case False
    then have p: "p x = Some y" using that q(2) by simp
    then have "root_of p x b \<longleftrightarrow> root_of p y b" using that(2) by (simp add: root_of_step_iff)
    moreover have "rank y < rank x" using rank(1) p that(2) by (simp add: ranked_def)
    ultimately show ?thesis by (simp add: rk_def)
  qed
  then have r: "ranked rk q" by (simp add: ranked_def)
  have "w \<in> dom q \<longleftrightarrow> w \<in> dom p" for w using b q by (cases "w = b") auto
  then show d: "dom q = dom p" by blast
  have "v \<in> dom p" if "q w = Some v" for w v
    using that q a rank(2) by (cases "w = b") (auto simp: closed_def ran_def)
  then have "closed q" using d by (auto simp: closed_def ran_def)
  then show "forest q" using r by (auto simp: forest_def)
qed

section \<open>Classes\<close>

definition same_class :: "'a parents \<Rightarrow> 'a \<Rightarrow> 'a \<Rightarrow> bool" where
  "same_class p x y \<longleftrightarrow> (\<exists>r. root_of p x r \<and> root_of p y r)"

lemma uf_union_correct:
  assumes "forest p" and "l \<in> dom p" and "r \<in> dom p"
  shows "\<exists>p'. uf_union l r p = Some p' \<and> forest p' \<and> dom p' = dom p
     \<and> (\<forall>x\<in>dom p. \<forall>y\<in>dom p. same_class p' x y \<longleftrightarrow>
           same_class p x y \<or> (same_class p x l \<and> same_class p y r) \<or> (same_class p x r \<and> same_class p y l))"
proof -
  obtain a p1 where a: "uf_find p l = Some (a, p1)" "root_of p l a" "forest p1" "dom p1 = dom p"
    "\<forall>w s. root_of p1 w s \<longleftrightarrow> root_of p w s"
    using uf_find_forest assms by metis
  obtain b p2 where b: "uf_find p1 r = Some (b, p2)" "root_of p1 r b" "forest p2" "dom p2 = dom p1"
    "\<forall>w s. root_of p2 w s \<longleftrightarrow> root_of p1 w s"
    using uf_find_forest [OF a(3), of r] assms(3) a(4) by metis
  have same: "\<forall>w s. root_of p2 w s \<longleftrightarrow> root_of p w s" using a b by blast
  have ra: "p2 a = Some a" and rb: "p2 b = Some b" using a b same root_of_root by metis+
  have ex: "\<exists>s. root_of p x s" if "x \<in> dom p" for x
    using root_exists that assms(1) unfolding forest_def by metis
  show ?thesis
  proof (cases "a = b")
    case True
    have l: "root_of p l s \<longleftrightarrow> s = a" and r: "root_of p r s \<longleftrightarrow> s = a" for s
      using True a(2,5) b(2) root_of_fun by metis+
    have "same_class p2 x y \<longleftrightarrow> same_class p x y \<or> (same_class p x l \<and> same_class p y r) \<or> (same_class p x r \<and> same_class p y l)"
      for x y
      by (auto simp: same_class_def same l r)
    moreover have "uf_union l r p = Some p2" using True a(1) b(1) by (simp add: uf_union_def)
    ultimately show ?thesis using a(4) b(3,4) by simp
  next
    case False
    define q where "q = p2(b \<mapsto> a)"
    have q: "q b = Some a" "\<And>w. w \<noteq> b \<Longrightarrow> q w = p2 w" by (simp_all add: q_def)
    have lk: "root_of q w s \<longleftrightarrow> (\<exists>t. root_of p w t \<and> s = (if t = b then a else t))" for w s
      using link_root [OF ra rb False q] same by simp
    have rl: "root_of p l a" and rr: "root_of p r b" using a b by auto
    have cl: "same_class q x y \<longleftrightarrow> same_class p x y \<or> (same_class p x l \<and> same_class p y r) \<or> (same_class p x r \<and> same_class p y l)"
      if x: "x \<in> dom p" and y: "y \<in> dom p" for x y
    proof -
      obtain s t where st: "root_of p x s" "root_of p y t" using ex x y by blast
      have u: "root_of p x s' \<longleftrightarrow> s' = s" "root_of p y t' \<longleftrightarrow> t' = t" "root_of p l l' \<longleftrightarrow> l' = a" "root_of p r r' \<longleftrightarrow> r' = b"
        for s' t' l' r'
        using st rl rr root_of_fun by metis+
      show ?thesis using False by (auto simp: same_class_def lk u)
    qed
    have "uf_union l r p = Some q" using False a(1) b(1) by (simp add: uf_union_def q_def)
    then show ?thesis using cl link_forest [OF b(3) ra rb False q] a(4) b(4) by simp
  qed
qed

lemma uf_init_props:
  "forest (uf_init xs)" "dom (uf_init xs) = set xs"
  "x \<in> set xs \<Longrightarrow> same_class (uf_init xs) x y \<longleftrightarrow> x = y"
proof -
  have eq: "uf_init xs x = (if x \<in> set xs then Some x else None)" for x
    by (induction xs) (auto simp: uf_init_def)
  show "dom (uf_init xs) = set xs" by (auto simp: eq split: if_splits)
  then show "forest (uf_init xs)"
    by (auto simp: forest_def closed_def ranked_def ran_def eq split: if_splits)
  show "x \<in> set xs \<Longrightarrow> same_class (uf_init xs) x y \<longleftrightarrow> x = y"
  proof -
    assume x: "x \<in> set xs"
    have "root_of (uf_init xs) w r \<longleftrightarrow> w \<in> set xs \<and> r = w" for w r
    proof
      assume "root_of (uf_init xs) w r"
      then show "w \<in> set xs \<and> r = w"
        by (induction rule: root_of.induct) (auto simp: eq split: if_splits)
    qed (simp add: eq root_self)
    then show ?thesis using x by (auto simp: same_class_def)
  qed
qed

text \<open>
  After the pair loop: joined nodes share a class, and a node that shares its class with another
  one has been joined with some node.
\<close>

lemma uf_unions_correct:
  assumes "forest p" and "set (map fst es) \<union> set (map snd es) \<subseteq> dom p"
  shows "\<exists>p'. uf_unions es p = Some p' \<and> forest p' \<and> dom p' = dom p
     \<and> (\<forall>x\<in>dom p. \<forall>y\<in>dom p. same_class p x y \<longrightarrow> same_class p' x y)
     \<and> (\<forall>(l, r)\<in>set es. same_class p' l r)
     \<and> (\<forall>x\<in>dom p. \<forall>y\<in>dom p. same_class p' x y \<and> x \<noteq> y \<longrightarrow>
           (\<exists>z\<in>dom p. z \<noteq> x \<and> same_class p x z) \<or> x \<in> set (map fst es) \<union> set (map snd es))"
  using assms
proof (induction es arbitrary: p)
  case Nil
  have "\<forall>x\<in>dom p. \<forall>y\<in>dom p. same_class p x y \<and> x \<noteq> y \<longrightarrow> (\<exists>z\<in>dom p. z \<noteq> x \<and> same_class p x z)"
    by metis
  then show ?case using Nil by simp
next
  case (Cons e es)
  obtain l r where e: "e = (l, r)" by (cases e)
  have lr: "l \<in> dom p" "r \<in> dom p" using Cons.prems(2) e by auto
  obtain q where q: "uf_union l r p = Some q" "forest q" "dom q = dom p"
    "\<forall>x\<in>dom p. \<forall>y\<in>dom p. same_class q x y \<longleftrightarrow>
       same_class p x y \<or> (same_class p x l \<and> same_class p y r) \<or> (same_class p x r \<and> same_class p y l)"
    using uf_union_correct [OF Cons.prems(1) lr] by blast
  obtain p' where p': "uf_unions es q = Some p'" "forest p'" "dom p' = dom q"
    "\<forall>x\<in>dom q. \<forall>y\<in>dom q. same_class q x y \<longrightarrow> same_class p' x y"
    "\<forall>(l, r)\<in>set es. same_class p' l r"
    "\<forall>x\<in>dom q. \<forall>y\<in>dom q. same_class p' x y \<and> x \<noteq> y \<longrightarrow>
       (\<exists>z\<in>dom q. z \<noteq> x \<and> same_class q x z) \<or> x \<in> set (map fst es) \<union> set (map snd es)"
    using Cons.IH [OF q(2)] Cons.prems(2) q(3) e by auto
  have refl: "same_class p x x" if "x \<in> dom p" for x
    using root_exists that Cons.prems(1) unfolding forest_def same_class_def by metis
  have "same_class p' l r" using p'(4) q(3,4) lr refl by simp
  moreover have "(\<exists>z\<in>dom p. z \<noteq> x \<and> same_class p x z) \<or> x \<in> set (map fst (e # es)) \<union> set (map snd (e # es))"
    if x: "x \<in> dom p" and y: "y \<in> dom p" and xy: "same_class p' x y" "x \<noteq> y" for x y
  proof (rule ccontr)
    assume no: "\<not> ?thesis"
    then have nz: "\<not> same_class p x z" if "z \<in> dom p" "z \<noteq> x" for z using that by blast
    have ne: "x \<noteq> l" "x \<noteq> r" using no e by auto
    have "x \<notin> set (map fst es) \<union> set (map snd es)" using no e by auto
    then obtain z where z: "z \<in> dom p" "z \<noteq> x" "same_class q x z"
      using p'(6) [unfolded q(3)] x y xy by blast
    then show False using q(4) x nz lr ne by blast
  qed
  ultimately show ?case using p' q e by simp blast
qed

section \<open>Component sizes\<close>

lemma component_sizes_correct:
  assumes "forest p" and "set xs \<subseteq> dom p"
  shows "\<exists>p' m'. component_sizes xs p m = Some (p', m') \<and> forest p' \<and> dom p' = dom p
     \<and> (\<forall>w s. root_of p' w s \<longleftrightarrow> root_of p w s)
     \<and> (\<forall>r. (case m' r of None \<Rightarrow> 0 | Some n \<Rightarrow> n) =
            (case m r of None \<Rightarrow> 0 | Some n \<Rightarrow> n) + length (filter (\<lambda>x. root_of p x r) xs))
     \<and> dom m \<subseteq> dom m' \<and> (\<forall>x\<in>set xs. \<forall>r. root_of p x r \<longrightarrow> r \<in> dom m')"
  using assms
proof (induction xs arbitrary: p m)
  case Nil
  then show ?case by auto
next
  case (Cons x xs)
  obtain a q where q: "uf_find p x = Some (a, q)" "root_of p x a" "forest q" "dom q = dom p"
    "\<forall>w s. root_of q w s \<longleftrightarrow> root_of p w s"
    using uf_find_forest [OF Cons.prems(1)] Cons.prems(2) by (metis list.set_intros(1) subsetD)
  define m1 where "m1 = m(a \<mapsto> Suc (case m a of None \<Rightarrow> 0 | Some n \<Rightarrow> n))"
  have m1: "dom m \<subseteq> dom m1" "a \<in> dom m1" by (auto simp: m1_def)
  have m1a: "(case m1 r of None \<Rightarrow> 0 | Some n \<Rightarrow> n) = (case m r of None \<Rightarrow> 0 | Some n \<Rightarrow> n) + (if r = a then 1 else 0)" for r
    by (simp add: m1_def)
  have sub: "set xs \<subseteq> dom q" using Cons.prems(2) q(4) by simp
  have xa: "root_of p x r \<longleftrightarrow> r = a" for r using q(2) root_of_fun by metis
  obtain p' m' where r: "component_sizes xs q m1 = Some (p', m')" "forest p'" "dom p' = dom q"
    "\<forall>w s. root_of p' w s \<longleftrightarrow> root_of q w s"
    "\<forall>r. (case m' r of None \<Rightarrow> 0 | Some n \<Rightarrow> n) =
         (case m1 r of None \<Rightarrow> 0 | Some n \<Rightarrow> n) + length (filter (\<lambda>x. root_of q x r) xs)"
    "dom m1 \<subseteq> dom m'" "\<forall>x\<in>set xs. \<forall>r. root_of q x r \<longrightarrow> r \<in> dom m'"
    using Cons.IH [OF q(3) sub, of m1] by blast
  have "(case m' r of None \<Rightarrow> 0 | Some n \<Rightarrow> n) =
      (case m r of None \<Rightarrow> 0 | Some n \<Rightarrow> n) + length (filter (\<lambda>x. root_of p x r) (x # xs))" for r
    using r(5) q(5) xa m1a by simp
  moreover have "component_sizes (x # xs) p m = Some (p', m')"
    using q(1) r(1) by (simp add: m1_def)
  moreover have "\<forall>y\<in>set (x # xs). \<forall>r. root_of p y r \<longrightarrow> r \<in> dom m'"
    using r(6,7) q(5) xa m1(2) by auto
  ultimately show ?case using r(2,3,4) r(6) q(4,5) m1(1) by (metis subset_trans)
qed

lemma grouped_flags_correct:
  assumes "forest p" and "set xs \<subseteq> dom p" and "\<forall>x\<in>set xs. \<forall>r. root_of p x r \<longrightarrow> r \<in> dom m"
  shows "\<exists>fs. grouped_flags xs p m = Some fs \<and> map fst fs = xs
     \<and> (\<forall>(x, b)\<in>set fs. \<exists>r n. root_of p x r \<and> m r = Some n \<and> b = (n > 1))"
  using assms
proof (induction xs arbitrary: p)
  case Nil
  then show ?case by auto
next
  case (Cons x xs)
  obtain a q where q: "uf_find p x = Some (a, q)" "root_of p x a" "forest q" "dom q = dom p"
    "\<forall>w s. root_of q w s \<longleftrightarrow> root_of p w s"
    using uf_find_forest [OF Cons.prems(1)] Cons.prems(2) by (metis list.set_intros(1) subsetD)
  obtain n where n: "m a = Some n" using Cons.prems(3) q(2) by auto
  obtain fs where "grouped_flags xs q m = Some fs" "map fst fs = xs"
    "\<forall>(x, b)\<in>set fs. \<exists>r n. root_of q x r \<and> m r = Some n \<and> b = (n > 1)"
    using Cons.IH [OF q(3)] Cons.prems q by auto
  then show ?case using q n by fastforce
qed

text \<open>
  The whole computation over distinct nodes: the flag of a node is set exactly when the node was
  joined with another node of the list.
\<close>

definition grouped :: "'a list \<Rightarrow> ('a \<times> 'a) list \<Rightarrow> ('a \<times> bool) list option" where
  "grouped xs es =
     do {
       p \<leftarrow> uf_unions es (uf_init xs);
       (p, m) \<leftarrow> component_sizes xs p Map.empty;
       grouped_flags xs p m
     }"

lemma length_filter_gt_1:
  assumes "distinct xs" and "x \<in> set xs" and "P x"
  shows "1 < length (filter P xs) \<longleftrightarrow> (\<exists>y\<in>set xs. y \<noteq> x \<and> P y)"
proof -
  obtain us vs where xs: "xs = us @ x # vs" using assms(2) by (meson split_list)
  have "1 < length (filter P xs) \<longleftrightarrow> filter P us \<noteq> [] \<or> filter P vs \<noteq> []"
    using assms(3) by (simp add: xs)
  then show ?thesis using assms(1) by (auto simp: xs filter_empty_conv)
qed

lemma grouped_correct:
  assumes d: "distinct xs" and e: "\<forall>(l, r)\<in>set es. l \<in> set xs \<and> r \<in> set xs \<and> l \<noteq> r"
  shows "\<exists>fs. grouped xs es = Some fs \<and> map fst fs = xs
     \<and> (\<forall>(x, b)\<in>set fs. b \<longleftrightarrow> (\<exists>y. (x, y) \<in> set es \<or> (y, x) \<in> set es))"
proof -
  let ?p0 = "uf_init xs"
  have dom0: "dom ?p0 = set xs" and fo0: "forest ?p0" by (simp_all add: uf_init_props)
  have "set (map fst es) \<union> set (map snd es) \<subseteq> dom ?p0" using e dom0 by auto
  from uf_unions_correct [OF fo0 this] obtain p where p: "uf_unions es ?p0 = Some p" "forest p" "dom p = set xs"
    "\<forall>(l, r)\<in>set es. same_class p l r"
    and p5: "\<forall>x\<in>set xs. \<forall>y\<in>set xs. same_class p x y \<and> x \<noteq> y \<longrightarrow>
      (\<exists>z\<in>set xs. z \<noteq> x \<and> same_class ?p0 x z) \<or> x \<in> set (map fst es) \<union> set (map snd es)"
    unfolding dom0 by blast
  have p5: "x \<in> fst ` set es \<union> snd ` set es" if "x \<in> set xs" "y \<in> set xs" "same_class p x y" "x \<noteq> y" for x y
    using that p5 uf_init_props(3) [of x xs] by (metis set_map)
  obtain q m where q: "component_sizes xs p Map.empty = Some (q, m)" "forest q" "dom q = dom p"
    "\<forall>w s. root_of q w s \<longleftrightarrow> root_of p w s"
    "\<forall>r. (case m r of None \<Rightarrow> 0 | Some n \<Rightarrow> n) = length (filter (\<lambda>x. root_of p x r) xs)"
    "\<forall>x\<in>set xs. \<forall>r. root_of p x r \<longrightarrow> r \<in> dom m"
    using component_sizes_correct [OF p(2) eq_refl [OF p(3) [symmetric]], of Map.empty] by auto
  obtain fs where fs: "grouped_flags xs q m = Some fs" "map fst fs = xs"
    "\<forall>(x, b)\<in>set fs. \<exists>r n. root_of q x r \<and> m r = Some n \<and> b = (n > 1)"
    using grouped_flags_correct [OF q(2), of xs m] q(3,4,6) p(3) by auto
  have "b \<longleftrightarrow> (\<exists>y. (x, y) \<in> set es \<or> (y, x) \<in> set es)" if xb: "(x, b) \<in> set fs" for x b
  proof -
    obtain r n where r: "root_of p x r" "m r = Some n" "b = (n > 1)" using fs(3) xb q(4) by blast
    have x: "x \<in> set xs" using xb fs(2) by (metis fst_conv image_eqI list.set_map)
    have "n = length (filter (\<lambda>x. root_of p x r) xs)" using q(5) r(2) by (metis option.simps(5))
    then have "b \<longleftrightarrow> (\<exists>y\<in>set xs. y \<noteq> x \<and> root_of p y r)"
      using length_filter_gt_1 [OF d x, of "\<lambda>x. root_of p x r"] r by simp
    also have "\<dots> \<longleftrightarrow> (\<exists>y\<in>set xs. y \<noteq> x \<and> same_class p x y)"
      using r(1) root_of_fun unfolding same_class_def by metis
    also have "\<dots> \<longleftrightarrow> (\<exists>y. (x, y) \<in> set es \<or> (y, x) \<in> set es)"
    proof
      assume "\<exists>y\<in>set xs. y \<noteq> x \<and> same_class p x y"
      then show "\<exists>y. (x, y) \<in> set es \<or> (y, x) \<in> set es" using p5 [OF x] by force
    next
      assume "\<exists>y. (x, y) \<in> set es \<or> (y, x) \<in> set es"
      then obtain y where y: "(x, y) \<in> set es \<or> (y, x) \<in> set es" by blast
      then have "same_class p x y" using p(4) by (auto simp: same_class_def)
      moreover have "y \<in> set xs" "y \<noteq> x" using y e by auto
      ultimately show "\<exists>y\<in>set xs. y \<noteq> x \<and> same_class p x y" by metis
    qed
    finally show ?thesis .
  qed
  moreover have "grouped xs es = Some fs" using p(1) q(1) fs(1) by (simp add: grouped_def)
  ultimately show ?thesis using fs(2) by auto
qed

end
