(* ===== verification/Thumbnails.thy ===== *)
theory Thumbnails
  imports Samples Union_Find "HOL-Library.Product_Lexorder"
begin

text \<open>
  \<open>src/backend/app/thumbnail_similarity.py\<close>: which frame of a video becomes its thumbnail.
  Videos of one project whose first frames look alike (64-bit difference hashes that agree in more
  than 85% of the bits) use the frame at three seconds instead. The module keeps the tasks of the
  project's current versions reconciled, either by building the groups with a union-find or, when
  one signature is new, by comparing only that one. Signatures are ASCII strings; JSON
  \<open>false\<close>, which Python identifies with 0, is read as the number.
\<close>

section \<open>Signatures\<close>

definition THUMBNAIL_FRAME_ZERO_MS :: int where
  "THUMBNAIL_FRAME_ZERO_MS = 0"

definition THUMBNAIL_FALLBACK_FRAME_MS :: int where
  "THUMBNAIL_FALLBACK_FRAME_MS = 3000"

text \<open>Python's \<open>int(value, 16)\<close> on an ASCII string; \<open>None\<close> is \<open>ValueError\<close>.\<close>

definition is_c_space :: "char \<Rightarrow> bool" where
  "is_c_space c \<longleftrightarrow> (of_char c :: nat) \<in> {9, 10, 11, 12, 13, 32}"

definition hex_digit_value :: "char \<Rightarrow> int option" where
  "hex_digit_value c =
     (let n = of_char c in
      if 48 \<le> n \<and> n \<le> 57 then Some (n - 48)
      else if 97 \<le> n \<and> n \<le> 102 then Some (n - 87)
      else if 65 \<le> n \<and> n \<le> 70 then Some (n - 55)
      else None)"

fun hex_scan :: "bool \<Rightarrow> int \<Rightarrow> string \<Rightarrow> int option" where
  "hex_scan after_underscore acc [] = (if after_underscore then None else Some acc)"
| "hex_scan after_underscore acc (c # cs) =
     (if c = CHR ''_'' then (if after_underscore then None else hex_scan True acc cs)
      else case hex_digit_value c of None \<Rightarrow> None | Some d \<Rightarrow> hex_scan False (acc * 16 + d) cs)"

definition strip_hex_prefix :: "string \<Rightarrow> string" where
  "strip_hex_prefix s =
     (case s of
        c # x # rest \<Rightarrow>
          if c = CHR ''0'' \<and> (x = CHR ''x'' \<or> x = CHR ''X'')
          then (case rest of [] \<Rightarrow> [] | u # us \<Rightarrow> if u = CHR ''_'' then us else rest)
          else s
      | _ \<Rightarrow> s)"

definition int_base_16 :: "string \<Rightarrow> int option" where
  "int_base_16 value =
     (let s = rev (dropWhile is_c_space (rev (dropWhile is_c_space value)));
          (negative, s) = (case s of [] \<Rightarrow> (False, s)
             | c # cs \<Rightarrow> if c = CHR ''-'' then (True, cs) else if c = CHR ''+'' then (False, cs) else (False, s));
          s = strip_hex_prefix s
      in if s = [] \<or> hd s = CHR ''_'' then None
         else map_option (\<lambda>n. if negative then - n else n) (hex_scan False 0 s))"

definition is_ascii :: "char \<Rightarrow> bool" where
  "is_ascii c \<longleftrightarrow> (of_char c :: nat) < 128"

definition valid_signature :: "string \<Rightarrow> bool" where
  "valid_signature value \<longleftrightarrow>
     length value = 16 \<and> list_all is_ascii value \<and> int_base_16 value \<noteq> None"

fun bit_count_nat :: "nat \<Rightarrow> nat" where
  "bit_count_nat n = (if n = 0 then 0 else n mod 2 + bit_count_nat (n div 2))"

declare bit_count_nat.simps [simp del]

text \<open>Python's \<open>int.bit_count\<close>: the ones of the absolute value.\<close>

definition bit_count :: "int \<Rightarrow> int" where
  "bit_count n = int (bit_count_nat (nat \<bar>n\<bar>))"

definition thumbnail_signatures_are_similar :: "string \<Rightarrow> string \<Rightarrow> bool" where
  "thumbnail_signatures_are_similar left right =
     (if \<not> (valid_signature left \<and> valid_signature right) then False
      else
        let distance = bit_count (Bit_Operations.xor (the (int_base_16 left)) (the (int_base_16 right)));
            matching_bits = 64 - distance
        in matching_bits * 100 > 85 * 64)"

lemma bit_count_0 [simp]: "bit_count 0 = 0"
  by (simp add: bit_count_def bit_count_nat.simps)

lemma similar_sym: "thumbnail_signatures_are_similar s t = thumbnail_signatures_are_similar t s"
  by (simp add: thumbnail_signatures_are_similar_def xor.commute conj_commute)

lemma similar_refl: "valid_signature s \<Longrightarrow> thumbnail_signatures_are_similar s s"
  by (simp add: thumbnail_signatures_are_similar_def)

section \<open>Result details\<close>

record thumb_details =
  td_backfill_operation_id :: "string option"
  td_frame_signature :: "string option"
  td_variant_0 :: "string option"
  td_variant_3000 :: "string option"
  td_acceleration_0 :: "string option"
  td_acceleration_3000 :: "string option"
  td_source_video_codec_class :: "string option"
  td_desired_frame_ms :: int

definition opt_field :: "string \<Rightarrow> string option \<Rightarrow> (string \<times> json) list" where
  "opt_field k v = (case v of None \<Rightarrow> [] | Some s \<Rightarrow> [(k, JStr s)])"

text \<open>The dictionary that \<open>normalize_thumbnail_result_details\<close> returns.\<close>

definition details_json :: "thumb_details \<Rightarrow> json" where
  "details_json d =
     JObj (opt_field ''backfill_operation_id'' (td_backfill_operation_id d)
           @ opt_field ''frame_signature'' (td_frame_signature d)
           @ [(''variants'', JObj (opt_field ''0'' (td_variant_0 d) @ opt_field ''3000'' (td_variant_3000 d))),
              (''decode_acceleration_by_frame'',
               JObj (opt_field ''0'' (td_acceleration_0 d) @ opt_field ''3000'' (td_acceleration_3000 d)))]
           @ opt_field ''source_video_codec_class'' (td_source_video_codec_class d)
           @ [(''desired_frame_ms'', JInt (td_desired_frame_ms d))])"

definition ascii_alnum :: "char \<Rightarrow> bool" where
  "ascii_alnum c \<longleftrightarrow>
     (let n = (of_char c :: nat) in (48 \<le> n \<and> n \<le> 57) \<or> (65 \<le> n \<and> n \<le> 90) \<or> (97 \<le> n \<and> n \<le> 122))"

definition ascii_lower :: "char \<Rightarrow> char" where
  "ascii_lower c = (let n = (of_char c :: nat) in if 65 \<le> n \<and> n \<le> 90 then char_of (n + 32) else c)"

definition nonempty_str :: "json option \<Rightarrow> string option" where
  "nonempty_str v = (case v of Some (JStr s) \<Rightarrow> (if s = '''' then None else Some s) | _ \<Rightarrow> None)"

text \<open>\<open>value in frozenset\<close>: an unhashable value (a list or an object) raises.\<close>

definition str_in :: "string list \<Rightarrow> json option \<Rightarrow> exn + string option" where
  "str_in allowed v =
     (case v of
        Some (JStr s) \<Rightarrow> Inr (if s \<in> set allowed then Some s else None)
      | Some (JList _) \<Rightarrow> Inl TypeError
      | Some (JObj _) \<Rightarrow> Inl TypeError
      | _ \<Rightarrow> Inr None)"

definition THUMBNAIL_DECODE_ACCELERATIONS :: "string list" where
  "THUMBNAIL_DECODE_ACCELERATIONS = [''cuda'', ''cpu'', ''cpu_fallback'', ''existing'']"

definition THUMBNAIL_CODEC_CLASSES :: "string list" where
  "THUMBNAIL_CODEC_CLASSES = [''h264'', ''hevc'', ''prores'', ''other'']"

definition normalize_thumbnail_result_details :: "json option \<Rightarrow> string option \<Rightarrow> exn + thumb_details" where
  "normalize_thumbnail_result_details details existing_output_file_id =
     (let field = (\<lambda>k. case details of None \<Rightarrow> None | Some d \<Rightarrow> jget d k);
          backfill =
            (case field ''backfill_operation_id'' of
               Some (JStr s) \<Rightarrow>
                 if 1 \<le> length s \<and> length s \<le> 64
                    \<and> list_all (\<lambda>c. ascii_alnum c \<or> c = CHR ''-'' \<or> c = CHR ''_'') s
                 then Some s else None
             | _ \<Rightarrow> None);
          signature =
            (case field ''frame_signature'' of
               Some (JStr s) \<Rightarrow> if valid_signature s then Some (map ascii_lower s) else None
             | _ \<Rightarrow> None);
          variant = (\<lambda>k. case field ''variants'' of Some (JObj kvs) \<Rightarrow> nonempty_str (map_of kvs k) | _ \<Rightarrow> None);
          v0 = variant ''0'';
          v3000 = variant ''3000'';
          v0 = (if v0 = None \<and> v3000 = None
                then (case existing_output_file_id of
                        Some f \<Rightarrow> if f = '''' then None else Some f | None \<Rightarrow> None)
                else v0);
          acceleration =
            (\<lambda>k. case field ''decode_acceleration_by_frame'' of
               Some (JObj kvs) \<Rightarrow> str_in THUMBNAIL_DECODE_ACCELERATIONS (map_of kvs k)
             | _ \<Rightarrow> Inr None)
      in ebind (acceleration ''0'') (\<lambda>a0.
         ebind (acceleration ''3000'') (\<lambda>a3000.
         ebind (str_in THUMBNAIL_CODEC_CLASSES (field ''source_video_codec_class'')) (\<lambda>codec.
         ebind (case field ''desired_frame_ms'' of
                  Some (JInt n) \<Rightarrow> Inr (if n \<in> {THUMBNAIL_FRAME_ZERO_MS, THUMBNAIL_FALLBACK_FRAME_MS}
                                     then n else THUMBNAIL_FRAME_ZERO_MS)
                | Some (JList _) \<Rightarrow> Inl TypeError
                | Some (JObj _) \<Rightarrow> Inl TypeError
                | _ \<Rightarrow> Inr THUMBNAIL_FRAME_ZERO_MS) (\<lambda>desired.
         Inr \<lparr>td_backfill_operation_id = backfill, td_frame_signature = signature, td_variant_0 = v0,
              td_variant_3000 = v3000, td_acceleration_0 = a0, td_acceleration_3000 = a3000,
              td_source_video_codec_class = codec, td_desired_frame_ms = desired\<rparr>)))))"

definition thumbnail_variant_file_ids :: "json option \<Rightarrow> string list" where
  "thumbnail_variant_file_ids details =
     (case details of
        Some d \<Rightarrow>
          (case jget d ''variants'' of
             Some (JObj kvs) \<Rightarrow>
               List.map_filter (\<lambda>k. nonempty_str (map_of kvs k)) [''0'', ''3000'']
           | _ \<Rightarrow> [])
      | None \<Rightarrow> [])"

section \<open>Groups\<close>

text \<open>The signatures of the current versions, by task, in the order of the rows.\<close>

type_synonym signatures = "(string \<times> string) list"

fun similar_pairs :: "signatures \<Rightarrow> (string \<times> string) list" where
  "similar_pairs [] = []"
| "similar_pairs ((left_id, left_signature) # rest) =
     map (\<lambda>(right_id, _). (left_id, right_id))
       (filter (\<lambda>(_, right_signature). thumbnail_signatures_are_similar left_signature right_signature) rest)
     @ similar_pairs rest"

definition desired_by_groups :: "signatures \<Rightarrow> (string \<times> int) list option" where
  "desired_by_groups signatures =
     map_option
       (map (\<lambda>(task_id, grouped_with_another).
          (task_id, if grouped_with_another then THUMBNAIL_FALLBACK_FRAME_MS else THUMBNAIL_FRAME_ZERO_MS)))
       (grouped (map fst signatures) (similar_pairs (sort signatures)))"

definition matched_task_ids :: "string \<Rightarrow> string \<Rightarrow> signatures \<Rightarrow> string list" where
  "matched_task_ids changed_task_id changed_signature signatures =
     map fst (filter (\<lambda>(task_id, signature). task_id \<noteq> changed_task_id
        \<and> thumbnail_signatures_are_similar changed_signature signature) signatures)"

definition desired_by_change :: "string \<Rightarrow> string \<Rightarrow> signatures \<Rightarrow> (string \<times> int) list \<Rightarrow> (string \<times> int) list" where
  "desired_by_change changed_task_id changed_signature signatures prior =
     (let matched = matched_task_ids changed_task_id changed_signature signatures
      in map (\<lambda>(task_id, desired).
           (task_id,
            if task_id \<in> set matched then THUMBNAIL_FALLBACK_FRAME_MS
            else if task_id = changed_task_id
            then (if matched \<noteq> [] then THUMBNAIL_FALLBACK_FRAME_MS else THUMBNAIL_FRAME_ZERO_MS)
            else desired)) prior)"

text \<open>What the groups mean: some other task of the project has a similar first frame.\<close>

definition alike_another :: "signatures \<Rightarrow> string \<Rightarrow> bool" where
  "alike_another signatures t \<longleftrightarrow>
     (\<exists>s u r. (t, s) \<in> set signatures \<and> (u, r) \<in> set signatures \<and> u \<noteq> t
        \<and> thumbnail_signatures_are_similar s r)"

section \<open>Reconciliation\<close>

text \<open>The joined rows: current versions of the project with their thumbnail task, by version.\<close>

definition thumbnail_rows :: "db \<Rightarrow> string \<Rightarrow> (review_version \<times> derivative_task) list" where
  "thumbnail_rows db project_ref_id =
     concat (map
       (\<lambda>v. map (\<lambda>t. (v, t))
          (filter (\<lambda>t. mdt_version_id t = ver_id v \<and> mdt_project_ref_id t = ver_project_ref_id v
             \<and> mdt_review_item_id t = ver_review_item_id v \<and> mdt_kind t = thumbnail) (db_tasks db)))
       (order_by ver_id
         (filter (\<lambda>v. ver_project_ref_id v = project_ref_id \<and> ver_is_current v
            \<and> list_ex (\<lambda>i. itm_id i = ver_review_item_id v \<and> itm_project_ref_id i = ver_project_ref_id v
                 \<and> itm_current_version_id i = Some (ver_id v)) (db_items db)) (db_versions db))))"

fun normalize_rows ::
  "(review_version \<times> derivative_task) list \<Rightarrow> exn + (review_version \<times> derivative_task \<times> thumb_details) list" where
  "normalize_rows [] = Inr []"
| "normalize_rows ((v, t) # rows) =
     ebind (normalize_thumbnail_result_details (mdt_result_details t)
              (if mdt_output_file_id t \<noteq> None \<and> mdt_output_file_id t \<noteq> Some ''''
                  \<and> mdt_output_file_id t = ver_thumbnail_asset_id v
               then mdt_output_file_id t else None)) (\<lambda>d.
     ebind (normalize_rows rows) (\<lambda>rest. Inr ((v, t, d) # rest)))"

definition row_signatures :: "(review_version \<times> derivative_task \<times> thumb_details) list \<Rightarrow> signatures" where
  "row_signatures rows =
     List.map_filter (\<lambda>(_, t, d). map_option (Pair (mdt_id t)) (td_frame_signature d)) rows"

definition requeue_task :: "int \<Rightarrow> derivative_task \<Rightarrow> derivative_task" where
  "requeue_task now t =
     t\<lparr>mdt_status := task_queued, mdt_attempts := 0, mdt_next_attempt_at := None, mdt_lease_id := None,
       mdt_lease_expires_at := None, mdt_error_code := None, mdt_failure_details := None,
       mdt_updated_at := now\<rparr>"

text \<open>The body of the second loop: the task after it, and the pointer to publish, if any.\<close>

definition reconcile_unsigned :: "int \<Rightarrow> bool \<Rightarrow> thumb_details \<Rightarrow> derivative_task \<Rightarrow> derivative_task" where
  "reconcile_unsigned now discover d t =
     (let requeue = discover \<and> mdt_status t = task_ready \<and> td_variant_0 d \<noteq> None;
          d = (if requeue then d\<lparr>td_desired_frame_ms := THUMBNAIL_FRAME_ZERO_MS\<rparr> else d);
          t = (if requeue then requeue_task now t else t)
      in t\<lparr>mdt_result_details := Some (details_json d)\<rparr>)"

definition reconcile_signed ::
  "int \<Rightarrow> int \<Rightarrow> thumb_details \<Rightarrow> review_version \<Rightarrow> derivative_task \<Rightarrow> derivative_task \<times> string option" where
  "reconcile_signed now desired d v t =
     (let changed = (desired \<noteq> td_desired_frame_ms d);
          d = d\<lparr>td_desired_frame_ms := desired\<rparr>;
          t = t\<lparr>mdt_result_details := Some (details_json d)\<rparr>;
          file = (if desired = THUMBNAIL_FRAME_ZERO_MS then td_variant_0 d
                  else if desired = THUMBNAIL_FALLBACK_FRAME_MS then td_variant_3000 d else None)
      in case file of
           Some f \<Rightarrow>
             if mdt_status t \<noteq> task_running \<and> (mdt_status t = task_ready \<or> changed)
             then
               ((if mdt_status t \<noteq> task_ready \<or> mdt_output_file_id t \<noteq> Some f \<or> mdt_next_attempt_at t \<noteq> None
                    \<or> mdt_lease_id t \<noteq> None \<or> mdt_lease_expires_at t \<noteq> None \<or> mdt_error_code t \<noteq> None
                    \<or> mdt_failure_details t \<noteq> None
                 then t\<lparr>mdt_status := task_ready, mdt_output_file_id := Some f, mdt_next_attempt_at := None,
                        mdt_lease_id := None, mdt_lease_expires_at := None, mdt_error_code := None,
                        mdt_failure_details := None, mdt_updated_at := now\<rparr>
                 else t),
                (if ver_thumbnail_asset_id v \<noteq> Some f then Some f else None))
             else (t, None)
         | None \<Rightarrow>
             if changed \<and> mdt_status t \<noteq> task_running then (requeue_task now t, None) else (t, None))"

definition reconcile_row ::
  "int \<Rightarrow> bool \<Rightarrow> (string \<times> int) list \<Rightarrow> review_version \<times> derivative_task \<times> thumb_details \<Rightarrow> db \<Rightarrow> exn + db" where
  "reconcile_row now discover desired_by_task row db =
     (case row of (v, t, d) \<Rightarrow>
        (case td_frame_signature d of
           None \<Rightarrow> Inr (put_task (reconcile_unsigned now discover d t) db)
         | Some _ \<Rightarrow>
             ebind (of_option KeyError (map_of desired_by_task (mdt_id t))) (\<lambda>desired.
               let (t', pointer) = reconcile_signed now desired d v t; db = put_task t' db
               in Inr (case pointer of None \<Rightarrow> db
                       | Some f \<Rightarrow> put_version (v\<lparr>ver_thumbnail_asset_id := Some f\<rparr>) db))))"

definition reconcile_project_thumbnail_groups ::
  "env \<Rightarrow> string \<Rightarrow> bool \<Rightarrow> string option \<Rightarrow> db \<Rightarrow> exn + db" where
  "reconcile_project_thumbnail_groups env project_ref_id discover_legacy_signatures changed_task_id db =
     ebind (normalize_rows (thumbnail_rows db project_ref_id)) (\<lambda>rows.
       let signatures = row_signatures rows;
           prior = map (\<lambda>(_, t, d). (mdt_id t, td_desired_frame_ms d)) rows
       in ebind
            (case (case changed_task_id of None \<Rightarrow> None | Some c \<Rightarrow> map_option (Pair c) (map_of signatures c)) of
               Some (c, s) \<Rightarrow> Inr (desired_by_change c s signatures prior)
             | None \<Rightarrow> of_option KeyError (desired_by_groups signatures))
            (\<lambda>desired_by_task.
               efold (reconcile_row (env_now env) discover_legacy_signatures desired_by_task) rows db))"

section \<open>Correctness of the groups\<close>

lemma similar_pairs_iff:
  assumes "distinct (map fst sigs)"
  shows "(x, y) \<in> set (similar_pairs sigs) \<or> (y, x) \<in> set (similar_pairs sigs) \<longleftrightarrow>
    (\<exists>s r. (x, s) \<in> set sigs \<and> (y, r) \<in> set sigs \<and> x \<noteq> y \<and> thumbnail_signatures_are_similar s r)"
  using assms
proof (induction sigs rule: similar_pairs.induct)
  case (2 l ls rest)
  have fresh: "(l, w) \<notin> set rest" for w using 2(2) by (auto simp: rev_image_eqI)
  have sub: "a \<in> fst ` set rest \<and> b \<in> fst ` set rest" if "(a, b) \<in> set (similar_pairs rest)" for a b
    using that by (induction rest rule: similar_pairs.induct) (auto simp: rev_image_eqI)
  have l: "(l, w) \<notin> set (similar_pairs rest)" "(w, l) \<notin> set (similar_pairs rest)" for w
    using sub fresh by force+
  have head: "(a, b) \<in> set (similar_pairs ((l, ls) # rest)) \<longleftrightarrow>
      (a = l \<and> (\<exists>r. (b, r) \<in> set rest \<and> thumbnail_signatures_are_similar ls r)) \<or> (a, b) \<in> set (similar_pairs rest)" for a b
    by auto
  show ?case
  proof (cases "x = l \<or> y = l")
    case True
    then show ?thesis unfolding head using fresh l by (auto simp: similar_sym) metis+
  next
    case False
    then show ?thesis unfolding head using 2 by auto
  qed
qed simp

lemma desired_by_groups_correct:
  assumes "distinct (map fst sigs)"
  shows "\<exists>ds. desired_by_groups sigs = Some ds \<and> map fst ds = map fst sigs
     \<and> (\<forall>t\<in>fst ` set sigs. map_of ds t =
          Some (if alike_another sigs t then THUMBNAIL_FALLBACK_FRAME_MS else THUMBNAIL_FRAME_ZERO_MS))"
proof -
  have "mset (map fst (sort sigs)) = mset (map fst sigs)" by simp
  then have dso: "distinct (map fst (sort sigs))" using assms mset_eq_imp_distinct_iff by metis
  note pairs = similar_pairs_iff [OF dso, unfolded set_sort]
  have e: "\<forall>(l, r)\<in>set (similar_pairs (sort sigs)). l \<in> set (map fst sigs) \<and> r \<in> set (map fst sigs) \<and> l \<noteq> r"
  proof (rule ballI, clarify)
    fix l r assume "(l, r) \<in> set (similar_pairs (sort sigs))"
    then obtain s s' where "(l, s) \<in> set sigs" "(r, s') \<in> set sigs" "l \<noteq> r" using pairs by blast
    then show "l \<in> set (map fst sigs) \<and> r \<in> set (map fst sigs) \<and> l \<noteq> r" by force
  qed
  obtain fs where fs: "grouped (map fst sigs) (similar_pairs (sort sigs)) = Some fs" "map fst fs = map fst sigs"
    "\<forall>(x, b)\<in>set fs. b \<longleftrightarrow> (\<exists>y. (x, y) \<in> set (similar_pairs (sort sigs)) \<or> (y, x) \<in> set (similar_pairs (sort sigs)))"
    using grouped_correct [OF assms e] by blast
  define ds where "ds = map (\<lambda>(t, b). (t, if b then THUMBNAIL_FALLBACK_FRAME_MS else THUMBNAIL_FRAME_ZERO_MS)) fs"
  have dfst: "map fst ds = map fst sigs" using fs(2) by (simp add: ds_def case_prod_unfold comp_def)
  have "map_of ds t = Some (if alike_another sigs t then THUMBNAIL_FALLBACK_FRAME_MS else THUMBNAIL_FRAME_ZERO_MS)"
    if t: "t \<in> fst ` set sigs" for t
  proof -
    obtain b where b: "(t, b) \<in> set fs" using t fs(2) by (metis fst_conv imageE list.set_map prod.collapse)
    have "b \<longleftrightarrow> alike_another sigs t"
    proof -
      have "b \<longleftrightarrow> (\<exists>y. (t, y) \<in> set (similar_pairs (sort sigs)) \<or> (y, t) \<in> set (similar_pairs (sort sigs)))"
        using fs(3) b by blast
      then show ?thesis unfolding pairs alike_another_def by metis
    qed
    then have "(t, if alike_another sigs t then THUMBNAIL_FALLBACK_FRAME_MS else THUMBNAIL_FRAME_ZERO_MS) \<in> set ds"
      using b by (force simp: ds_def)
    then show ?thesis using assms dfst by (simp add: map_of_eq_Some_iff)
  qed
  then show ?thesis using fs(1) dfst by (auto simp: desired_by_groups_def ds_def)
qed

lemma distinct_remove_key:
  "distinct (map fst kvs) \<Longrightarrow> distinct (map fst (filter (\<lambda>(k, _). k \<noteq> c) kvs))"
  by (induction kvs) auto

lemma key_value_unique: "distinct (map fst kvs) \<Longrightarrow> (k, a) \<in> set kvs \<Longrightarrow> (k, b) \<in> set kvs \<Longrightarrow> a = b"
  by (metis map_of_eq_Some_iff option.inject)

text \<open>Adding one signature: who is alike another one afterwards.\<close>

lemma alike_another_add:
  assumes "distinct (map fst sigs)" and "(c, s) \<in> set sigs" and "(t, r) \<in> set sigs"
  shows "alike_another sigs t \<longleftrightarrow>
    (if t = c then \<exists>(u, q)\<in>set sigs. u \<noteq> c \<and> thumbnail_signatures_are_similar s q
     else thumbnail_signatures_are_similar s r \<or> alike_another (filter (\<lambda>(u, _). u \<noteq> c) sigs) t)"
proof (cases "t = c")
  case True
  have "(c, q) \<in> set sigs \<longleftrightarrow> q = s" for q using key_value_unique [OF assms(1) _ assms(2)] assms(2) by metis
  then show ?thesis using True by (simp add: alike_another_def Bex_def)
next
  case False
  have t: "q = r" if "(t, q) \<in> set sigs" for q using key_value_unique [OF assms(1) that assms(3)] .
  have c: "q = s" if "(c, q) \<in> set sigs" for q using key_value_unique [OF assms(1) that assms(2)] .
  have "alike_another sigs t \<longleftrightarrow> (\<exists>u q. (u, q) \<in> set sigs \<and> u \<noteq> t \<and> thumbnail_signatures_are_similar r q)"
    unfolding alike_another_def using t assms(3) by metis
  also have "\<dots> \<longleftrightarrow> thumbnail_signatures_are_similar r s
      \<or> (\<exists>u q. (u, q) \<in> set sigs \<and> u \<noteq> c \<and> u \<noteq> t \<and> thumbnail_signatures_are_similar r q)"
    using c assms(2) False by metis
  also have "(\<exists>u q. (u, q) \<in> set sigs \<and> u \<noteq> c \<and> u \<noteq> t \<and> thumbnail_signatures_are_similar r q)
      \<longleftrightarrow> alike_another (filter (\<lambda>(u, _). u \<noteq> c) sigs) t"
  proof -
    have "(t, q) \<in> set sigs \<longleftrightarrow> q = r" for q using t assms(3) by metis
    then have "(t, q) \<in> set (filter (\<lambda>(u, _). u \<noteq> c) sigs) \<longleftrightarrow> q = r" for q using False by simp
    then show ?thesis unfolding alike_another_def by (simp only:) simp
  qed
  finally show ?thesis using False by (simp add: similar_sym)
qed

lemma matched_iff:
  assumes "distinct (map fst sigs)" and "(t, r) \<in> set sigs"
  shows "t \<in> set (matched_task_ids c s sigs) \<longleftrightarrow> t \<noteq> c \<and> thumbnail_signatures_are_similar s r"
proof -
  have "q = r" if "(t, q) \<in> set sigs" for q using key_value_unique [OF assms(1) that assms(2)] .
  then have "(\<exists>q. (t, q) \<in> set sigs \<and> t \<noteq> c \<and> thumbnail_signatures_are_similar s q) \<longleftrightarrow> t \<noteq> c \<and> thumbnail_signatures_are_similar s r"
    using assms(2) by metis
  then show ?thesis by (simp add: matched_task_ids_def image_iff Bex_def)
qed

lemma map_of_desired_by_change:
  "map_of (desired_by_change c s sigs prior) t =
     (case map_of prior t of
        None \<Rightarrow> None
      | Some d \<Rightarrow>
          Some (if t \<in> set (matched_task_ids c s sigs) then THUMBNAIL_FALLBACK_FRAME_MS
                else if t = c then (if matched_task_ids c s sigs \<noteq> [] then THUMBNAIL_FALLBACK_FRAME_MS else THUMBNAIL_FRAME_ZERO_MS)
                else d))"
  by (induction prior) (auto simp: desired_by_change_def Let_def)

section \<open>Properties\<close>

text \<open>
  C25. Building the groups always ends, and the union-find answers the intended question: over any
  set of tasks with their signatures, every task gets an entry, and a task gets the three-second
  frame exactly when the signature of some other task is similar to its own.
\<close>

theorem thumbnail_groups_correct:
  assumes "distinct (map fst signatures)"
  shows "\<exists>desired. desired_by_groups signatures = Some desired
     \<and> map fst desired = map fst signatures
     \<and> (\<forall>t\<in>fst ` set signatures. map_of desired t =
          Some (if alike_another signatures t then THUMBNAIL_FALLBACK_FRAME_MS else THUMBNAIL_FRAME_ZERO_MS))"
  using desired_by_groups_correct [OF assms] .

theorem thumbnail_groups_correct_witness:
  "\<exists>desired. desired_by_groups [(''t1'', ''00000000000000ff''), (''t2'', ''00000000000000fe'')] = Some desired
     \<and> map fst desired = [''t1'', ''t2'']
     \<and> (\<forall>t\<in>{''t1'', ''t2''}. map_of desired t = Some (if
          alike_another [(''t1'', ''00000000000000ff''), (''t2'', ''00000000000000fe'')] t
          then THUMBNAIL_FALLBACK_FRAME_MS else THUMBNAIL_FRAME_ZERO_MS))"
  using thumbnail_groups_correct [of "[(''t1'', ''00000000000000ff''), (''t2'', ''00000000000000fe'')]"] by simp

text \<open>
  C26. The incremental path agrees with the full one. When the frames recorded for the other tasks
  are those of the groups without the changed task, comparing only the changed signature with the
  others gives every task with a signature the frame that rebuilding all groups would give it.
\<close>

theorem incremental_reconcile_equals_full:
  assumes "distinct (map fst signatures)" and "(c, s) \<in> set signatures"
    and "desired_by_groups (filter (\<lambda>(t, _). t \<noteq> c) signatures) = Some before"
    and "\<forall>t\<in>fst ` set signatures. t \<noteq> c \<longrightarrow> map_of prior t = map_of before t"
    and "c \<in> fst ` set prior"
    and "desired_by_groups signatures = Some full" and "t \<in> fst ` set signatures"
  shows "map_of (desired_by_change c s signatures prior) t = map_of full t"
proof -
  let ?rest = "filter (\<lambda>(t, _). t \<noteq> c) signatures"
  obtain r where r: "(t, r) \<in> set signatures" using assms(7) by auto
  have full: "map_of full t = Some (if alike_another signatures t then THUMBNAIL_FALLBACK_FRAME_MS else THUMBNAIL_FRAME_ZERO_MS)"
    using desired_by_groups_correct [OF assms(1)] assms(6,7) by auto
  note add = alike_another_add [OF assms(1,2) r]
  note m = matched_iff [OF assms(1) r, of c s]
  show ?thesis
  proof (cases "t = c")
    case True
    obtain d where "map_of prior c = Some d" using assms(5) by (metis domD dom_map_of_conv_image_fst)
    moreover have "matched_task_ids c s signatures \<noteq> [] \<longleftrightarrow>
        (\<exists>(u, q)\<in>set signatures. u \<noteq> c \<and> thumbnail_signatures_are_similar s q)"
      by (force simp: matched_task_ids_def filter_empty_conv)
    ultimately show ?thesis using True full add m by (simp add: map_of_desired_by_change)
  next
    case False
    have "t \<in> fst ` set ?rest" using r False by force
    then have "map_of before t = Some (if alike_another ?rest t then THUMBNAIL_FALLBACK_FRAME_MS else THUMBNAIL_FRAME_ZERO_MS)"
      using desired_by_groups_correct [OF distinct_remove_key [OF assms(1)], of c] assms(3) by auto
    then have "map_of prior t = Some (if alike_another ?rest t then THUMBNAIL_FALLBACK_FRAME_MS else THUMBNAIL_FRAME_ZERO_MS)"
      using bspec [OF assms(4,7)] False by simp
    then show ?thesis using False full add m by (simp add: map_of_desired_by_change)
  qed
qed

theorem incremental_reconcile_equals_full_witness:
  "\<exists>full. desired_by_groups [(''t1'', ''00000000000000ff''), (''t2'', ''00000000000000fe'')] = Some full
     \<and> map_of (desired_by_change ''t2'' ''00000000000000fe''
          [(''t1'', ''00000000000000ff''), (''t2'', ''00000000000000fe'')]
          [(''t1'', 0), (''t2'', 0)]) ''t1'' = map_of full ''t1''"
proof -
  let ?sigs = "[(''t1'', ''00000000000000ff''), (''t2'', ''00000000000000fe'')]"
  have one: "[x\<leftarrow>?sigs. case x of (t, _) \<Rightarrow> t \<noteq> ''t2''] = [(''t1'', ''00000000000000ff'')]" by simp
  obtain before where b: "desired_by_groups [x\<leftarrow>?sigs. case x of (t, _) \<Rightarrow> t \<noteq> ''t2''] = Some before"
    "map_of before ''t1'' = Some 0"
    using desired_by_groups_correct [of "[x\<leftarrow>?sigs. case x of (t, _) \<Rightarrow> t \<noteq> ''t2'']"]
    by (auto simp: one alike_another_def THUMBNAIL_FRAME_ZERO_MS_def)
  obtain full where f: "desired_by_groups ?sigs = Some full"
    using desired_by_groups_correct [of ?sigs] by auto
  have "map_of (desired_by_change ''t2'' ''00000000000000fe'' ?sigs [(''t1'', 0), (''t2'', 0)]) ''t1'' = map_of full ''t1''"
    by (rule incremental_reconcile_equals_full [OF _ _ b(1) _ _ f]) (simp_all add: b(2))
  then show ?thesis using f by blast
qed

text \<open>
  A thumbnail pointer is published only together with its authority: when the reconciliation of
  a row selects a file for the version, the row's task is ready with exactly that file as its
  output and holds no lease and no error; and a running task is never taken away from its worker.
\<close>

theorem published_thumbnail_has_ready_task:
  assumes "reconcile_signed now desired d v t = (t', pointer)"
  shows "(case pointer of
      Some f \<Rightarrow> mdt_status t' = task_ready \<and> mdt_output_file_id t' = Some f \<and> mdt_lease_id t' = None
        \<and> mdt_error_code t' = None \<and> mdt_status t \<noteq> task_running
    | None \<Rightarrow> mdt_status t \<noteq> task_running \<or> t' = t\<lparr>mdt_result_details := mdt_result_details t'\<rparr>)"
  using assms by (auto simp: reconcile_signed_def requeue_task_def Let_def split: option.splits if_splits)

theorem published_thumbnail_has_ready_task_witness:
  "snd (reconcile_signed 5 3000
      \<lparr>td_backfill_operation_id = None, td_frame_signature = Some ''00000000000000ff'', td_variant_0 = Some ''f0'',
       td_variant_3000 = Some ''f3'', td_acceleration_0 = None, td_acceleration_3000 = None,
       td_source_video_codec_class = None, td_desired_frame_ms = 0\<rparr> ex_version ex_task) = Some ''f3''
   \<and> mdt_output_file_id (fst (reconcile_signed 5 3000
      \<lparr>td_backfill_operation_id = None, td_frame_signature = Some ''00000000000000ff'', td_variant_0 = Some ''f0'',
       td_variant_3000 = Some ''f3'', td_acceleration_0 = None, td_acceleration_3000 = None,
       td_source_video_codec_class = None, td_desired_frame_ms = 0\<rparr> ex_version ex_task)) = Some ''f3''"
proof -
  let ?d = "\<lparr>td_backfill_operation_id = None, td_frame_signature = Some ''00000000000000ff'', td_variant_0 = Some ''f0'',
       td_variant_3000 = Some ''f3'', td_acceleration_0 = None, td_acceleration_3000 = None,
       td_source_video_codec_class = None, td_desired_frame_ms = 0\<rparr>"
  obtain t' pt where r: "reconcile_signed 5 3000 ?d ex_version ex_task = (t', pt)" by fastforce
  have "pt = Some ''f3''"
    using r by (auto simp: reconcile_signed_def ex_task_def ex_version_def THUMBNAIL_FRAME_ZERO_MS_def
        THUMBNAIL_FALLBACK_FRAME_MS_def Let_def split: if_splits)
  then show ?thesis using published_thumbnail_has_ready_task [OF r] r by simp
qed

end
