(* ===== verification/Json_Text.thy ===== *)
theory Json_Text
  imports Schema
begin

text \<open>
  \<open>json.dumps\<close> with compact separators, as the service uses it to build the texts it
  digests: \<open>canonical_request_hash\<close> and \<open>principal_fingerprint\<close> of
  \<open>src/backend/app/modules/final_cut_review/application/command_handlers.py\<close>,
  \<open>stable_hash\<close> of the repository and \<open>_stable_hash\<close> of the deletion coordinator
  (sorted keys, raw UTF-8), and the download session digest (ASCII escapes). The text determines
  the value up to the order of the keys of an object.
\<close>

section \<open>Strings\<close>

definition hex_char :: "nat \<Rightarrow> char" where
  "hex_char n = (if n < 10 then char_of (48 + n) else char_of (87 + n))"

text \<open>
  With \<open>ensure_ascii\<close> the characters are code points below 256, otherwise they are the
  bytes of the UTF-8 text.
\<close>

definition json_escape :: "bool \<Rightarrow> char \<Rightarrow> string" where
  "json_escape ensure_ascii c =
     (let n = of_char c :: nat
      in if n = 34 then [CHR 0x5C, c]
         else if n = 92 then [c, c]
         else if n = 10 then [CHR 0x5C, CHR ''n'']
         else if n = 13 then [CHR 0x5C, CHR ''r'']
         else if n = 9 then [CHR 0x5C, CHR ''t'']
         else if n = 12 then [CHR 0x5C, CHR ''f'']
         else if n = 8 then [CHR 0x5C, CHR ''b'']
         else if n < 32 \<or> (ensure_ascii \<and> 127 < n)
         then [CHR 0x5C, CHR ''u'', CHR ''0'', CHR ''0'', hex_char (n div 16), hex_char (n mod 16)]
         else [c])"

definition json_quote :: "bool \<Rightarrow> string \<Rightarrow> string" where
  "json_quote ensure_ascii s = [CHR 0x22] @ concat (map (json_escape ensure_ascii) s) @ [CHR 0x22]"

section \<open>Values\<close>

fun join_with :: "string \<Rightarrow> string list \<Rightarrow> string" where
  "join_with sep [] = []"
| "join_with sep [x] = x"
| "join_with sep (x # xs) = x @ sep @ join_with sep xs"

text \<open>\<open>sort_keys\<close>, at every level.\<close>

fun json_canon :: "json \<Rightarrow> json" where
  "json_canon (JList xs) = JList (map json_canon xs)"
| "json_canon (JObj kvs) = JObj (sort_key fst (map (\<lambda>(k, v). (k, json_canon v)) kvs))"
| "json_canon j = j"

text \<open>The text of a value in the order of its keys.\<close>

fun json_text :: "json \<Rightarrow> string" where
  "json_text JNull = ''null''"
| "json_text (JBool b) = (if b then ''true'' else ''false'')"
| "json_text (JInt n) = py_str n"
| "json_text (JStr s) = json_quote False s"
| "json_text (JList xs) = ''['' @ join_with '','' (map json_text xs) @ '']''"
| "json_text (JObj kvs) = ''{'' @ join_with '','' (map (\<lambda>(k, v). json_quote False k @ '':'' @ json_text v) kvs) @ ''}''"

definition json_dumps :: "json \<Rightarrow> string" where
  "json_dumps j = json_text (json_canon j)"

section \<open>The escapes can be read back\<close>

definition hex_value :: "char \<Rightarrow> nat" where
  "hex_value c = (let n = of_char c in if n < 58 then n - 48 else n - 87)"

definition json_unescape :: "string \<Rightarrow> char \<times> string" where
  "json_unescape s =
     (if hd s \<noteq> CHR 0x5C then (hd s, tl s)
      else
        let k = of_char (hd (tl s)) :: nat; r = tl (tl s)
        in if k = 110 then (char_of (10 :: nat), r)
           else if k = 114 then (char_of (13 :: nat), r)
           else if k = 116 then (char_of (9 :: nat), r)
           else if k = 102 then (char_of (12 :: nat), r)
           else if k = 98 then (char_of (8 :: nat), r)
           else if k = 117 then (char_of (hex_value (r ! 2) * 16 + hex_value (r ! 3)), drop 4 r)
           else (hd (tl s), r))"

lemma hex_value_char: "n < 16 \<Longrightarrow> hex_value (hex_char n) = n"
  by (simp add: hex_value_def hex_char_def)

lemma of_char_eqD: "(of_char c :: nat) = n \<Longrightarrow> c = char_of n"
  by auto

lemma special_chars: "char_of (92 :: nat) = CHR 0x5C" "char_of (34 :: nat) = CHR 0x22"
  by code_simp+

lemma json_unescape_escape: "json_unescape (json_escape a c @ r) = (c, r)"
proof -
  let ?n = "of_char c :: nat"
  have nib: "hex_value (hex_char (?n div 16)) = ?n div 16" "hex_value (hex_char (?n mod 16)) = ?n mod 16"
    using nat_of_char_less_256 [of c] by (intro hex_value_char; linarith)+
  have same: "char_of (?n div 16 * 16 + ?n mod 16) = c" by simp
  consider "?n \<in> {34, 92, 10, 13, 9, 12, 8}" | "?n \<notin> {34, 92, 10, 13, 9, 12, 8}" "?n < 32 \<or> (a \<and> 127 < ?n)"
    | "?n \<notin> {34, 92, 10, 13, 9, 12, 8}" "\<not> (?n < 32 \<or> (a \<and> 127 < ?n))"
    by blast
  then show ?thesis
  proof cases
    case 1
    then show ?thesis by (auto dest!: of_char_eqD simp: json_escape_def json_unescape_def special_chars)
  next
    case 2
    then have "json_escape a c = [CHR 0x5C, CHR ''u'', CHR ''0'', CHR ''0'', hex_char (?n div 16), hex_char (?n mod 16)]"
      by (simp add: json_escape_def Let_def)
    then show ?thesis using nib same by (simp add: json_unescape_def numeral_2_eq_2 numeral_3_eq_3)
  next
    case 3
    then have "json_escape a c = [c]" by (simp add: json_escape_def Let_def)
    moreover have "c \<noteq> CHR 0x5C" using 3(1) by auto
    ultimately show ?thesis by (simp add: json_unescape_def)
  qed
qed

lemma json_escape_prefix_free: "json_escape a c @ r = json_escape a c' @ r' \<Longrightarrow> c = c' \<and> r = r'"
  by (metis json_unescape_escape prod.inject)

lemma json_escape_head: "json_escape a c = x # xs \<Longrightarrow> x \<noteq> CHR 0x22"
  by (auto simp: json_escape_def Let_def special_chars split: if_splits)

lemma json_escape_nonempty [simp]: "json_escape a c \<noteq> []"
  by (simp add: json_escape_def Let_def)

text \<open>A quoted string ends at its closing quote, whatever follows.\<close>

lemma json_body_split:
  "concat (map (json_escape a) s) @ CHR 0x22 # r = concat (map (json_escape a) s') @ CHR 0x22 # r' \<Longrightarrow> s = s' \<and> r = r'"
proof (induction s arbitrary: s')
  case Nil
  show ?case
  proof (cases s')
    case (Cons c t)
    obtain x xs where e: "json_escape a c = x # xs" by (metis json_escape_nonempty neq_Nil_conv)
    then show ?thesis using Nil Cons json_escape_head [OF e] by simp
  qed (use Nil in simp)
next
  case (Cons c s)
  show ?case
  proof (cases s')
    case Nil
    obtain x xs where e: "json_escape a c = x # xs" by (metis json_escape_nonempty neq_Nil_conv)
    then show ?thesis using Cons.prems Nil json_escape_head [OF e] by simp
  next
    case (Cons c' t)
    with Cons.prems have "json_escape a c @ (concat (map (json_escape a) s) @ CHR 0x22 # r)
        = json_escape a c' @ (concat (map (json_escape a) t) @ CHR 0x22 # r')" by simp
    from json_escape_prefix_free [OF this] Cons.IH [of t] show ?thesis by (simp add: \<open>s' = c' # t\<close>)
  qed
qed

lemma json_quote_split: "json_quote a s @ r = json_quote a s' @ r' \<Longrightarrow> s = s' \<and> r = r'"
  using json_body_split [of a s r s' r'] by (simp add: json_quote_def)

lemma json_quote_inj: "json_quote a s = json_quote a s' \<Longrightarrow> s = s'"
  using json_quote_split [of a s "[]" s' "[]"] by simp

section \<open>The text determines the value\<close>

text \<open>What may follow a value: the end of the text or a separator.\<close>

definition delim :: "string \<Rightarrow> bool" where
  "delim r \<longleftrightarrow> r = [] \<or> hd r \<in> {CHR '','', CHR '']'', CHR ''}''}"

definition head_kind :: "string \<Rightarrow> nat" where
  "head_kind s =
     (let c = hd s
      in if c = CHR ''n'' then 0 else if c = CHR ''t'' then 1 else if c = CHR ''f'' then 2
         else if c = CHR 0x22 then 4 else if c = CHR ''['' then 5 else if c = CHR ''{'' then 6
         else if c = CHR '']'' then 7 else if c = CHR ''}'' then 8 else 3)"

fun json_kind :: "json \<Rightarrow> nat" where
  "json_kind JNull = 0"
| "json_kind (JBool b) = (if b then 1 else 2)"
| "json_kind (JInt _) = 3"
| "json_kind (JStr _) = 4"
| "json_kind (JList _) = 5"
| "json_kind (JObj _) = 6"

lemma py_str_head: "\<exists>c cs. py_str n = c # cs \<and> (is_digit c \<or> c = CHR ''-'')"
proof (cases "n < 0")
  case False
  then have d: "list_all is_digit (py_str n)" by (intro py_str_pos_digits) simp
  moreover have "py_str n \<noteq> []" using False by (simp add: py_str_def)
  ultimately show ?thesis by (cases "py_str n") auto
qed (simp add: py_str_def)

lemma head_kind_json: "head_kind (json_text j @ r) = json_kind j"
proof (cases j)
  case (JInt n)
  obtain c cs where c: "py_str n = c # cs" "is_digit c \<or> c = CHR ''-''" using py_str_head by blast
  have "c \<notin> {CHR ''n'', CHR ''t'', CHR ''f'', CHR 0x22, CHR ''['', CHR ''{'', CHR '']'', CHR ''}''}"
  proof (cases "c = CHR ''-''")
    case False
    then have "is_digit c" using c(2) by simp
    moreover have "\<not> is_digit x" if "x \<in> {CHR ''n'', CHR ''t'', CHR ''f'', CHR 0x22, CHR ''['', CHR ''{'', CHR '']'', CHR ''}''}" for x
      using that by (auto simp: is_digit_def)
    ultimately show ?thesis by blast
  qed simp
  then show ?thesis using JInt c(1) by (simp add: head_kind_def)
qed (auto simp: head_kind_def json_quote_def)

lemma json_text_nonempty: "json_text j \<noteq> []"
  by (cases j) (auto simp: json_quote_def py_str_def)

lemma py_str_split:
  assumes "py_str m @ r = py_str n @ r'" and "delim r" and "delim r'"
  shows "m = n \<and> r = r'"
proof -
  have nd: "r = [] \<or> \<not> is_digit (hd r)" "r' = [] \<or> \<not> is_digit (hd r')"
    using assms(2,3) by (auto simp: delim_def is_digit_def)
  have run: "a = b \<and> x = y" if "list_all is_digit a" "list_all is_digit b" "a @ x = b @ y"
    "x = [] \<or> \<not> is_digit (hd x)" "y = [] \<or> \<not> is_digit (hd y)" for a b x y
    using that
  proof (induction a arbitrary: b)
    case Nil
    then show ?case by (cases b) auto
  next
    case (Cons c a)
    then show ?case by (cases b) auto
  qed
  have dash: "\<not> is_digit (CHR ''-'')" by (simp add: is_digit_def)
  have neq: "CHR ''-'' # x \<noteq> dec_nat k @ y" for x k y
    using dec_nat_digits [of k] dash by (cases "dec_nat k") auto
  have same: "a = b \<and> r = r'" if "dec_nat a @ r = dec_nat b @ r'" for a b
    using run [OF dec_nat_digits dec_nat_digits that nd] dec_nat_inj by blast
  consider "m < 0" "n < 0" | "m < 0" "\<not> n < 0" | "\<not> m < 0" "n < 0" | "\<not> m < 0" "\<not> n < 0" by blast
  then show ?thesis
  proof cases
    case 1
    then show ?thesis using assms(1) same [of "nat (- m)" "nat (- n)"] by (simp add: py_str_def nat_eq_iff)
  next
    case 2
    then show ?thesis using assms(1) neq [of r' "nat n"] neq [of _ "nat n"] by (simp add: py_str_def)
  next
    case 3
    then show ?thesis using assms(1) neq [of _ "nat m" r, symmetric] by (simp add: py_str_def)
  next
    case 4
    then show ?thesis using assms(1) same [of "nat m" "nat n"] by (simp add: py_str_def nat_eq_iff)
  qed
qed

lemma join_with_split:
  assumes "join_with '','' (map f xs) @ c # r = join_with '','' (map f ys) @ c # r'"
    and "\<And>x y q q'. x \<in> set xs \<Longrightarrow> f x @ q = f y @ q' \<Longrightarrow> delim q \<Longrightarrow> delim q' \<Longrightarrow> x = y \<and> q = q'"
    and "c \<in> {CHR '']'', CHR ''}''}" and "\<And>x q. head_kind (f x @ q) < 7"
  shows "xs = ys \<and> r = r'"
  using assms
proof (induction xs arbitrary: ys)
  case Nil
  show ?case
  proof (cases ys)
    case (Cons y zs)
    then obtain q where "c # r = f y @ q" using Nil(1) by (cases zs) auto
    then have "head_kind (c # r) < 7" using Nil(4) by metis
    then show ?thesis using Nil(3) by (auto simp: head_kind_def)
  qed (use Nil in simp)
next
  case (Cons x xs)
  show ?case
  proof (cases ys)
    case Nil
    then obtain q where "f x @ q = c # r'" using Cons.prems(1) by (cases xs) auto
    then have "head_kind (c # r') < 7" using Cons.prems(4) [of x q] by simp
    then show ?thesis using Cons.prems(3) by (auto simp: head_kind_def)
  next
    case ys: (Cons y zs)
    define t where "t us = (if us = [] then [] else '','' @ join_with '','' (map f us))" for us
    have j: "join_with '','' (map f (u # us)) = f u @ t us" for u us
      by (cases us) (auto simp: t_def)
    have e: "f x @ (t xs @ c # r) = f y @ (t zs @ c # r')" using Cons.prems(1) ys by (simp only: j list.map append_assoc) (simp add: j [simplified])
    have d: "delim (t us @ c # q)" for us q using Cons.prems(3) by (auto simp: t_def delim_def)
    have "x = y" and rest: "t xs @ c # r = t zs @ c # r'" using Cons.prems(2) [OF _ e d d] by auto
    show ?thesis
    proof (cases "xs = [] \<or> zs = []")
      case True
      then show ?thesis using rest \<open>x = y\<close> ys Cons.prems(3) by (auto simp: t_def split: if_splits)
    next
      case False
      then have "join_with '','' (map f xs) @ c # r = join_with '','' (map f zs) @ c # r'" using rest by (simp add: t_def)
      then have "xs = zs \<and> r = r'" using Cons.IH Cons.prems(2-4) by (metis list.set_intros(2))
      then show ?thesis using ys \<open>x = y\<close> by simp
    qed
  qed
qed

lemma json_text_split: "json_text j @ r = json_text j' @ r' \<Longrightarrow> delim r \<Longrightarrow> delim r' \<Longrightarrow> j = j' \<and> r = r'"
proof (induction j arbitrary: j' r r')
  case JNull
  have "json_kind j' = 0" using head_kind_json [of JNull r] head_kind_json [of j' r'] JNull(1) by simp
  then have "j' = JNull" by (cases j') (auto split: if_splits)
  then show ?case using JNull by simp
next
  case (JBool b)
  have "json_kind j' = json_kind (JBool b)" using head_kind_json [of "JBool b" r] head_kind_json [of j' r'] JBool(1) by simp
  then have "j' = JBool b" by (cases j') (auto split: if_splits)
  then show ?case using JBool by simp
next
  case (JInt n)
  have "json_kind j' = 3" using head_kind_json [of "JInt n" r] head_kind_json [of j' r'] JInt(1) by simp
  then obtain m where "j' = JInt m" by (cases j') (auto split: if_splits)
  then show ?case using JInt py_str_split [of n r m r'] by simp
next
  case (JStr s)
  have "json_kind j' = 4" using head_kind_json [of "JStr s" r] head_kind_json [of j' r'] JStr(1) by simp
  then obtain t where "j' = JStr t" by (cases j') (auto split: if_splits)
  then show ?case using JStr json_quote_split [of False s r t r'] by simp
next
  case (JList xs)
  have "json_kind j' = 5" using head_kind_json [of "JList xs" r] head_kind_json [of j' r'] JList(2) by simp
  then obtain ys where j': "j' = JList ys" by (cases j') (auto split: if_splits)
  have "xs = ys \<and> r = r'"
  proof (rule join_with_split [where f = json_text and c = "CHR '']''"])
    show "join_with '','' (map json_text xs) @ CHR '']'' # r = join_with '','' (map json_text ys) @ CHR '']'' # r'"
      using JList(2) j' by simp
    show "head_kind (json_text x @ q) < 7" for x q by (cases x) (simp_all only: head_kind_json, simp_all)
  qed (use JList(1) in auto)
  then show ?case using j' by simp
next
  case (JObj xs)
  have "json_kind j' = 6" using head_kind_json [of "JObj xs" r] head_kind_json [of j' r'] JObj(2) by simp
  then obtain ys where j': "j' = JObj ys" by (cases j') (auto split: if_splits)
  let ?f = "\<lambda>(k, v). json_quote False k @ '':'' @ json_text v"
  have "xs = ys \<and> r = r'"
  proof (rule join_with_split [where f = ?f and c = "CHR ''}''"])
    show "join_with '','' (map ?f xs) @ CHR ''}'' # r = join_with '','' (map ?f ys) @ CHR ''}'' # r'"
      using JObj(2) j' by simp
    show "head_kind (?f x @ q) < 7" for x q by (cases x) (simp add: json_quote_def head_kind_def)
    show "x = y \<and> q = q'" if "x \<in> set xs" "?f x @ q = ?f y @ q'" "delim q" "delim q'" for x y q q'
    proof -
      obtain k v k' v' where xy: "x = (k, v)" "y = (k', v')" by (cases x; cases y) auto
      have "json_quote False k @ ('':'' @ json_text v @ q) = json_quote False k' @ ('':'' @ json_text v' @ q')"
        using that(2) xy by simp
      from json_quote_split [OF this] have k: "k = k'" and v: "json_text v @ q = json_text v' @ q'" by simp_all
      have "v = v' \<and> q = q'" by (rule JObj(1) [OF that(1) _ v that(3,4)]) (simp add: xy)
      then show ?thesis using k xy by simp
    qed
  qed simp
  then show ?case using j' by simp
qed

lemma json_text_inj: "json_text j = json_text j' \<Longrightarrow> j = j'"
  using json_text_split [of j "[]" j' "[]"] by (simp add: delim_def)


end
