(* ===== verification/Media_Containers.thy ===== *)
theory Media_Containers
  imports Media_Files Thumbnails Json_Text
begin

text \<open>
  The checks of \<open>src/backend/app/media_derivatives.py\<close> on the bytes of a derived file: the walk
  over the boxes of an MP4 file that accepts it for streaming (\<open>_read_box_header\<close>,
  \<open>_assert_faststart\<close>), the search for the dimensions of a JPEG file
  (\<open>_jpeg_dimensions\<close>) and the difference hash of a frame (\<open>_thumbnail_dhash\<close>). A file is
  the list of its bytes. The two walks are loops over an offset that the file itself dictates; they
  are partial functions here, so that a walk that never ends is the value \<open>None\<close>.
\<close>

section \<open>Boxes\<close>

text \<open>\<open>MediaDerivativeError\<close>: its code, its stage and whether the task may be tried again.\<close>

datatype media_error = MediaDerivativeError string string bool

text \<open>\<open>os.pread(descriptor, n, offset)\<close>.\<close>

definition pread :: "string \<Rightarrow> nat \<Rightarrow> nat \<Rightarrow> string" where
  "pread content n offset = take n (drop offset content)"

abbreviation faststart_invalid :: media_error where
  "faststart_invalid \<equiv> MediaDerivativeError ''MEDIA_FASTSTART_INVALID'' ''validate'' False"

definition read_box_header :: "string \<Rightarrow> nat \<Rightarrow> media_error + nat \<times> string" where
  "read_box_header content offset =
     (let header = pread content 16 offset; file_size = length content;
          short_size = be_nat (slice 0 4 header); box_type = slice 4 8 header
      in if length header < 8 then Inl faststart_invalid
         else
           ebind
             (if short_size = 0 then Inr (file_size - offset)
              else if short_size = 1
              then
                if length header < 16 then Inl faststart_invalid
                else
                  let box_size = be_nat (slice 8 16 header)
                  in if box_size < 16 then Inl faststart_invalid else Inr box_size
              else if short_size < 8 then Inl faststart_invalid
              else Inr short_size)
             (\<lambda>box_size. if box_size > file_size - offset then Inl faststart_invalid else Inr (box_size, box_type)))"

text \<open>The loop of \<open>_assert_faststart\<close>: the offset it stops at and the first \<open>moov\<close> and \<open>mdat\<close> box.\<close>

partial_function (option) walk_boxes ::
  "string \<Rightarrow> nat \<Rightarrow> nat option \<Rightarrow> nat option \<Rightarrow> (media_error + nat \<times> nat option \<times> nat option) option" where
  "walk_boxes content offset moov_offset mdat_offset =
     (if offset < length content
      then
        (case read_box_header content offset of
           Inl e \<Rightarrow> Some (Inl e)
         | Inr (box_size, box_type) \<Rightarrow>
             if box_type = ''moov'' \<and> moov_offset = None then walk_boxes content (offset + box_size) (Some offset) mdat_offset
             else if box_type = ''mdat'' \<and> mdat_offset = None then walk_boxes content (offset + box_size) moov_offset (Some offset)
             else walk_boxes content (offset + box_size) moov_offset mdat_offset)
      else Some (Inr (offset, moov_offset, mdat_offset)))"

declare walk_boxes.simps [code]

definition assert_faststart :: "string \<Rightarrow> (media_error + unit) option" where
  "assert_faststart content =
     (case walk_boxes content 0 None None of
        None \<Rightarrow> None
      | Some m \<Rightarrow>
          Some (ebind m (\<lambda>(offset, moov_offset, mdat_offset).
            case (moov_offset, mdat_offset) of
              (Some moov, Some mdat) \<Rightarrow> if offset \<noteq> length content \<or> moov \<ge> mdat then Inl faststart_invalid else Inr ()
            | _ \<Rightarrow> Inl faststart_invalid)))"

section \<open>JPEG dimensions\<close>

definition JPEG_SOF_MARKERS :: "nat list" where
  "JPEG_SOF_MARKERS = [0xC0, 0xC1, 0xC2, 0xC3, 0xC5, 0xC6, 0xC7, 0xC9, 0xCA, 0xCB, 0xCD, 0xCE, 0xCF]"

abbreviation thumbnail_invalid :: media_error where
  "thumbnail_invalid \<equiv> MediaDerivativeError ''MEDIA_THUMBNAIL_INVALID'' ''validate'' False"

text \<open>The inner loop skips fill bytes before a marker.\<close>

partial_function (option) skip_fill :: "string \<Rightarrow> nat \<Rightarrow> nat \<Rightarrow> (media_error + nat \<times> nat) option" where
  "skip_fill content marker offset =
     (if marker = 0xFF
      then
        (case pread content 1 offset of
           [] \<Rightarrow> Some (Inl thumbnail_invalid)
         | c # _ \<Rightarrow> skip_fill content (of_char c) (offset + 1))
      else Some (Inr (marker, offset)))"

declare skip_fill.simps [code]

partial_function (option) walk_segments :: "string \<Rightarrow> nat \<Rightarrow> (media_error + nat \<times> nat) option" where
  "walk_segments content offset =
     (if offset + 4 \<le> length content
      then
        let pair = pread content 2 offset
        in if length pair \<noteq> 2 \<or> (of_char (pair ! 0) :: nat) \<noteq> 0xFF then Some (Inl thumbnail_invalid)
           else
             Option.bind (skip_fill content (of_char (pair ! 1)) (offset + 2)) (\<lambda>m.
               case m of
                 Inl e \<Rightarrow> Some (Inl e)
               | Inr (marker, offset) \<Rightarrow>
                   if marker \<in> {0xD8, 0xD9} \<or> (0xD0 \<le> marker \<and> marker \<le> 0xD7) then walk_segments content offset
                   else
                     let length_bytes = pread content 2 offset; segment_length = be_nat length_bytes
                     in if length length_bytes \<noteq> 2 then Some (Inl thumbnail_invalid)
                        else if segment_length < 2 \<or> offset + segment_length > length content then Some (Inl thumbnail_invalid)
                        else if marker \<in> set JPEG_SOF_MARKERS
                        then
                          let dimensions = pread content 5 (offset + 2);
                              height = be_nat (slice 1 3 dimensions); width = be_nat (slice 3 5 dimensions)
                          in if length dimensions \<noteq> 5 \<or> width = 0 \<or> height = 0 then Some (Inl thumbnail_invalid)
                             else Some (Inr (width, height))
                        else if marker = 0xDA then Some (Inl thumbnail_invalid)
                        else walk_segments content (offset + segment_length))
      else Some (Inl thumbnail_invalid))"

declare walk_segments.simps [code]

definition jpeg_dimensions :: "string \<Rightarrow> (media_error + nat \<times> nat) option" where
  "jpeg_dimensions content =
     (let file_size = length content
      in if file_size < 12 \<or> pread content 2 0 \<noteq> [CHR 0xFF, CHR 0xD8] then Some (Inl thumbnail_invalid)
         else if pread content 2 (file_size - 2) \<noteq> [CHR 0xFF, CHR 0xD9] then Some (Inl thumbnail_invalid)
         else walk_segments content 2)"

section \<open>The difference hash of a frame\<close>

text \<open>A frame of nine by eight brightness values, compared with their right neighbours row by row.\<close>

definition comparisons :: "string \<Rightarrow> bool list" where
  "comparisons frame =
     concat (map (\<lambda>row. map (\<lambda>column. (of_char (frame ! (row * 9 + column)) :: nat) > of_char (frame ! (row * 9 + column + 1))) [0..<8]) [0..<8])"

fun hex_fixed :: "nat \<Rightarrow> nat \<Rightarrow> string" where
  "hex_fixed 0 n = []"
| "hex_fixed (Suc k) n = hex_fixed k (n div 16) @ [hex_char (n mod 16)]"

definition signature_of :: "bool list \<Rightarrow> nat" where
  "signature_of bits = foldl (\<lambda>signature b. 2 * signature + of_bool b) 0 bits"

definition thumbnail_dhash :: "string \<Rightarrow> media_error + string" where
  "thumbnail_dhash raw_frame =
     (if length raw_frame \<noteq> 72 then Inl (MediaDerivativeError ''MEDIA_THUMBNAIL_SIGNATURE_INVALID'' ''transform'' True)
      else Inr (hex_fixed 16 (signature_of (comparisons raw_frame))))"

section \<open>The walks end\<close>

lemma read_box_header_advances:
  assumes "read_box_header content offset = Inr (n, t)" and "offset < length content"
  shows "0 < n \<and> offset + n \<le> length content"
  using assms by (auto simp: read_box_header_def Let_def split: if_splits)

lemma walk_boxes_ends: "walk_boxes content offset a b \<noteq> None"
proof (induction "length content - offset" arbitrary: offset a b rule: less_induct)
  case less
  show ?case
  proof (cases "offset < length content")
    case True
    show ?thesis
    proof (cases "read_box_header content offset")
      case (Inr p)
      obtain n t where p: "p = (n, t)" by fastforce
      have "length content - (offset + n) < length content - offset"
        using read_box_header_advances [of content offset n t] Inr p True by (simp, linarith)
      then have "walk_boxes content (offset + n) a' b' \<noteq> None" for a' b' by (rule less)
      then show ?thesis using True Inr p by (subst walk_boxes.simps) auto
    qed (use True in \<open>subst walk_boxes.simps, simp\<close>)
  qed (subst walk_boxes.simps, simp)
qed

lemma skip_fill_ends:
  "\<exists>r. skip_fill content marker offset = Some r \<and> (\<forall>m off. r = Inr (m, off) \<longrightarrow> offset \<le> off)"
proof (induction "length content - offset" arbitrary: offset marker rule: less_induct)
  case less
  show ?case
  proof (cases "pread content 1 offset")
    case (Cons c cs)
    then have "drop offset content \<noteq> []" by (auto simp: pread_def)
    then have "offset < length content" by simp
    then have "length content - (offset + 1) < length content - offset" by simp
    then obtain r where r: "skip_fill content (of_char c) (offset + 1) = Some r" "\<forall>m off. r = Inr (m, off) \<longrightarrow> offset + 1 \<le> off"
      using less by blast
    then show ?thesis using Cons by (subst skip_fill.simps) (auto intro: Suc_leD)
  qed (subst skip_fill.simps, simp)
qed

lemma walk_segments_ends: "walk_segments content offset \<noteq> None"
proof (induction "length content - offset" arbitrary: offset rule: less_induct)
  case less
  obtain r where r: "skip_fill content (of_char (pread content 2 offset ! 1)) (offset + 2) = Some r"
    and bound: "\<forall>m off. r = Inr (m, off) \<longrightarrow> offset + 2 \<le> off"
    using skip_fill_ends by blast
  have next_ends: "walk_segments content off \<noteq> None" if "offset + 2 \<le> off" "offset + 4 \<le> length content" for off
    by (rule less) (use that in simp)
  show ?case
  proof (cases "offset + 4 \<le> length content")
    case True
    show ?thesis
    proof (cases r)
      case (Inr p)
      obtain marker off where p: "p = (marker, off)" by fastforce
      then have off: "offset + 2 \<le> off" using bound Inr by blast
      have "walk_segments content off \<noteq> None" "\<And>n. walk_segments content (off + n) \<noteq> None"
        using next_ends [OF off True] next_ends [OF _ True] off trans_le_add1 by blast+
      then show ?thesis using True r Inr p by (subst walk_segments.simps) (auto simp: Let_def)
    qed (use True r in \<open>subst walk_segments.simps, simp add: Let_def\<close>)
  qed (subst walk_segments.simps, simp)
qed

text \<open>
  C19. The checks on derived media files always end: whatever bytes a file holds - boxes that claim no
  length, lengths of 64 bits, markers drowned in fill bytes - both walks come to an answer.
\<close>

theorem media_checks_terminate: "(\<exists>r. assert_faststart content = Some r) \<and> (\<exists>r. jpeg_dimensions content = Some r)"
  using walk_boxes_ends [of content 0 None None] walk_segments_ends [of content 2]
  by (auto simp: assert_faststart_def jpeg_dimensions_def Let_def)

section \<open>What the box walk accepts\<close>

text \<open>
  A box: at least the eight bytes of length and type, with a length that is its own - as 32 bits, as
  64 bits after a one, or, for the last box of a file, left open as zero.
\<close>

definition is_box :: "bool \<Rightarrow> string \<Rightarrow> bool" where
  "is_box final box \<longleftrightarrow> 8 \<le> length box \<and>
     (let n = be_nat (take 4 box)
      in if n = 0 then final else if n = 1 then 16 \<le> length box \<and> be_nat (slice 8 16 box) = length box else n = length box)"

fun boxes :: "string list \<Rightarrow> bool" where
  "boxes [] = True"
| "boxes (b # bs) = (is_box (bs = []) b \<and> boxes bs)"

text \<open>The offset of the first box of a type.\<close>

fun first_box :: "string \<Rightarrow> nat \<Rightarrow> string list \<Rightarrow> nat option" where
  "first_box t offset [] = None"
| "first_box t offset (b # bs) = (if slice 4 8 b = t then Some offset else first_box t (offset + length b) bs)"

definition or_first :: "nat option \<Rightarrow> string \<Rightarrow> nat \<Rightarrow> string list \<Rightarrow> nat option" where
  "or_first x t offset bs = (case x of None \<Rightarrow> first_box t offset bs | Some n \<Rightarrow> Some n)"

lemma or_first_simps [simp]:
  "or_first None t offset bs = first_box t offset bs" "or_first (Some n) t offset bs = Some n" "or_first x t offset [] = x"
  by (simp_all add: or_first_def split: option.splits)

lemma slice_take: "b \<le> n \<Longrightarrow> slice a b (take n xs) = slice a b xs"
  by (simp add: slice_def min_absorb1)

lemma slice_append: "b \<le> length xs \<Longrightarrow> slice a b (xs @ ys) = slice a b xs"
  by (simp add: slice_def)

lemma read_box_header_of_box:
  assumes "is_box (rest = []) b"
  shows "read_box_header (pre @ b @ rest) (length pre) = Inr (length b, slice 4 8 b)"
proof -
  let ?h = "pread (pre @ b @ rest) 16 (length pre)"
  have h: "?h = take 16 (b @ rest)" by (simp add: pread_def)
  have len: "8 \<le> length b" and n: "be_nat (take 4 b) = 0 \<Longrightarrow> rest = []"
    "be_nat (take 4 b) = 1 \<Longrightarrow> 16 \<le> length b \<and> be_nat (slice 8 16 b) = length b"
    "1 < be_nat (take 4 b) \<Longrightarrow> be_nat (take 4 b) = length b"
    using assms by (auto simp: is_box_def Let_def split: if_splits)
  have parts: "slice 0 4 ?h = take 4 b" "slice 4 8 ?h = slice 4 8 b" "16 \<le> length b \<Longrightarrow> slice 8 16 ?h = slice 8 16 b"
    using len by (simp_all add: h slice_take slice_append) (simp add: slice_def)
  have lens: "8 \<le> length ?h" "16 \<le> length b \<Longrightarrow> length ?h = 16" using len by (simp_all add: h)
  define k where "k = be_nat (take 4 b)"
  have small: "\<not> length ?h < 8" using lens(1) by simp
  have unfolded: "read_box_header (pre @ b @ rest) (length pre) =
      ebind (if k = 0 then Inr (length b + length rest)
             else if k = 1 then if length ?h < 16 then Inl faststart_invalid
               else if be_nat (slice 8 16 ?h) < 16 then Inl faststart_invalid else Inr (be_nat (slice 8 16 ?h))
             else if k < 8 then Inl faststart_invalid else Inr k)
        (\<lambda>n. if n > length b + length rest then Inl faststart_invalid else Inr (n, slice 4 8 b))"
    unfolding read_box_header_def Let_def parts(1,2) k_def [symmetric] using small by simp
  consider "k = 0" | "k = 1" | "1 < k" by linarith
  then show ?thesis
  proof cases
    case 1
    then have "rest = []" using n(1) by (simp add: k_def)
    then show ?thesis unfolding unfolded using 1 by simp
  next
    case 2
    then have "16 \<le> length b" "be_nat (slice 8 16 b) = length b" using n(2) by (simp_all add: k_def)
    then show ?thesis unfolding unfolded using 2 parts(3) lens(2) by simp
  next
    case 3
    then have "k = length b" using n(3) by (simp add: k_def)
    moreover have "b \<noteq> []" using len by auto
    ultimately show ?thesis unfolding unfolded using 3 len by simp
  qed
qed

lemma walk_of_boxes:
  assumes "boxes bs"
  shows "walk_boxes (pre @ concat bs) (length pre) a b
    = Some (Inr (length (pre @ concat bs), or_first a ''moov'' (length pre) bs, or_first b ''mdat'' (length pre) bs))"
  using assms
proof (induction bs arbitrary: pre a b)
  case (Cons c bs)
  define all where "all = pre @ concat (c # bs)"
  have c: "is_box (bs = []) c" "0 < length c" using Cons.prems by (auto simp: is_box_def)
  have "is_box (concat bs = []) c"
  proof (cases bs)
    case (Cons d ds)
    then have "(concat bs = []) = (bs = [])" using Cons.prems by (auto simp: is_box_def)
    then show ?thesis using c(1) by simp
  qed (use c in simp)
  then have h: "read_box_header all (length pre) = Inr (length c, slice 4 8 c)"
    using read_box_header_of_box [of "concat bs" c pre] by (simp add: all_def)
  have IH: "walk_boxes all (length pre + length c) a' b'
      = Some (Inr (length all, or_first a' ''moov'' (length pre + length c) bs, or_first b' ''mdat'' (length pre + length c) bs))" for a' b'
    using Cons.IH [of "pre @ c" a' b'] Cons.prems by (simp add: all_def)
  have "length pre < length all" using c(2) by (simp add: all_def)
  then show ?case unfolding all_def [symmetric]
    by (subst walk_boxes.simps) (auto simp: h IH or_first_def split: option.splits)
qed (subst walk_boxes.simps, simp)

lemma box_of_read_box_header:
  assumes "read_box_header content offset = Inr (n, t)" and "offset < length content"
  shows "is_box (offset + n = length content) (take n (drop offset content)) \<and> length (take n (drop offset content)) = n"
proof -
  let ?b = "take n (drop offset content)"
  note adv = read_box_header_advances [OF assms]
  have len: "length ?b = n" using adv by (simp, linarith)
  have n8: "8 \<le> n" and size: "be_nat (slice 0 4 (pread content 16 offset)) = 0 \<and> n = length content - offset
      \<or> be_nat (slice 0 4 (pread content 16 offset)) = 1 \<and> 16 \<le> n \<and> n = be_nat (slice 8 16 (pread content 16 offset))
      \<or> 1 < be_nat (slice 0 4 (pread content 16 offset)) \<and> n = be_nat (slice 0 4 (pread content 16 offset))"
    using assms(1) by (auto simp: read_box_header_def Let_def pread_def split: if_splits)
  have parts: "slice 0 4 (pread content 16 offset) = take 4 ?b" "16 \<le> n \<Longrightarrow> slice 8 16 (pread content 16 offset) = slice 8 16 ?b"
    using n8 by (simp_all add: pread_def slice_take) (simp add: slice_def min_def)
  have "(offset + n = length content) = (n = length content - offset)" using assms(2) by linarith
  then have "if be_nat (take 4 ?b) = 0 then offset + n = length content
      else if be_nat (take 4 ?b) = 1 then 16 \<le> length ?b \<and> be_nat (slice 8 16 ?b) = length ?b else be_nat (take 4 ?b) = length ?b"
    using size parts(2) unfolding parts(1) len by auto
  then show ?thesis using n8 unfolding is_box_def Let_def len by blast
qed

lemma boxes_of_walk:
  assumes "walk_boxes content offset a b = Some (Inr r)" and "offset \<le> length content"
  shows "\<exists>bs. drop offset content = concat bs \<and> boxes bs"
  using assms
proof (induction "length content - offset" arbitrary: offset a b rule: less_induct)
  case less
  show ?case
  proof (cases "offset < length content")
    case True
    obtain n t where h: "read_box_header content offset = Inr (n, t)"
      using less.prems(1) True by (subst (asm) walk_boxes.simps) (auto split: sum.splits)
    note adv = read_box_header_advances [OF h True] and box = box_of_read_box_header [OF h True]
    obtain a' b' where "walk_boxes content (offset + n) a' b' = Some (Inr r)"
      using less.prems(1) True h by (subst (asm) walk_boxes.simps) (auto split: if_splits)
    then obtain bs where bs: "drop (offset + n) content = concat bs" "boxes bs"
      using less.hyps [of "offset + n" a' b'] adv True by (metis diff_less_mono2 less_add_same_cancel1 order_less_le_trans)
    have "offset + n = length content" if "bs = []" using bs(1) that adv by simp
    moreover have "bs = []" if "offset + n = length content"
    proof (cases bs)
      case (Cons c cs)
      then show ?thesis using bs that by (auto simp: is_box_def)
    qed
    ultimately have "(offset + n = length content) = (bs = [])" by blast
    then have "boxes (take n (drop offset content) # bs)" using box bs(2) by simp
    moreover have "drop offset content = concat (take n (drop offset content) # bs)"
      using bs(1) append_take_drop_id [of n "drop offset content"] by (simp add: add.commute)
    ultimately show ?thesis by blast
  qed (use less.prems in \<open>auto intro: exI [of _ "[]"]\<close>)
qed

lemma first_box_bounds: "first_box t offset bs = Some n \<Longrightarrow> offset \<le> n"
  by (induction bs arbitrary: offset) (auto split: if_splits dest: add_leD1)

lemma first_box_before:
  assumes "boxes bs" and "t \<noteq> u"
  shows "(\<exists>m d. first_box t offset bs = Some m \<and> first_box u offset bs = Some d \<and> m < d)
    \<longleftrightarrow> u \<in> set (map (slice 4 8) bs) \<and> t \<in> set (takeWhile (\<lambda>x. x \<noteq> u) (map (slice 4 8) bs))"
  using assms(1)
proof (induction bs arbitrary: offset)
  case (Cons b bs)
  have pos: "0 < length b" using Cons.prems by (auto simp: is_box_def)
  have some: "(\<exists>d. first_box u off bs = Some d) \<longleftrightarrow> u \<in> set (map (slice 4 8) bs)" for off
    by (induction bs arbitrary: off) auto
  consider "slice 4 8 b = u" | "slice 4 8 b = t" | "slice 4 8 b \<noteq> u" "slice 4 8 b \<noteq> t" by blast
  then show ?case
  proof cases
    case 1
    then show ?thesis using assms(2) pos by (auto dest!: first_box_bounds)
  next
    case 2
    have "offset < d" if "first_box u (offset + length b) bs = Some d" for d
      using first_box_bounds [OF that] pos by linarith
    then show ?thesis using 2 assms(2) some [of "offset + length b"] by auto
  next
    case 3
    then show ?thesis using Cons by simp
  qed
qed simp

text \<open>
  C20. The streaming check accepts a file exactly when its bytes are a sequence of boxes, nothing left
  over, in which some \<open>moov\<close> box precedes every \<open>mdat\<close> box and there is an \<open>mdat\<close> box.
\<close>

theorem faststart_exact:
  "assert_faststart content = Some (Inr ()) \<longleftrightarrow>
     (\<exists>bs. content = concat bs \<and> boxes bs \<and> ''mdat'' \<in> set (map (slice 4 8) bs)
        \<and> ''moov'' \<in> set (takeWhile (\<lambda>t. t \<noteq> ''mdat'') (map (slice 4 8) bs)))"
proof -
  have accept: "assert_faststart (concat bs) = Some (Inr ()) \<longleftrightarrow>
      ''mdat'' \<in> set (map (slice 4 8) bs) \<and> ''moov'' \<in> set (takeWhile (\<lambda>t. t \<noteq> ''mdat'') (map (slice 4 8) bs))" if "boxes bs" for bs
  proof -
    have w: "walk_boxes (concat bs) 0 None None = Some (Inr (length (concat bs), first_box ''moov'' 0 bs, first_box ''mdat'' 0 bs))"
      using walk_of_boxes [OF that, of "[]" None None] by simp
    have "assert_faststart (concat bs) = Some (Inr ()) \<longleftrightarrow>
        (\<exists>m d. first_box ''moov'' 0 bs = Some m \<and> first_box ''mdat'' 0 bs = Some d \<and> m < d)"
      by (auto simp: assert_faststart_def w split: option.splits if_splits)
    then show ?thesis using first_box_before [OF that, of "''moov''" "''mdat''" 0] by simp
  qed
  have "\<exists>bs. content = concat bs \<and> boxes bs" if ok: "assert_faststart content = Some (Inr ())"
  proof -
    obtain r where "walk_boxes content 0 None None = Some (Inr r)"
      using ok by (auto simp: assert_faststart_def split: option.splits)
    then show ?thesis using boxes_of_walk [of content 0 None None r] by simp
  qed
  then show ?thesis using accept by blast
qed

section \<open>Difference hashes\<close>

lemma hex_digit_value_char:
  assumes "n < 16"
  shows "hex_digit_value (hex_char n) = Some (int n)"
proof -
  have "list_all (\<lambda>n. hex_digit_value (hex_char n) = Some (int n)) [0..<16]" by code_simp
  moreover have "n \<in> set [0..<16]" using assms by simp
  ultimately show ?thesis unfolding list_all_iff by blast
qed

lemma hex_char_plain:
  assumes "n < 16"
  shows "hex_char n \<noteq> CHR ''_''" "hex_char n \<noteq> CHR ''x''" "hex_char n \<noteq> CHR ''X''" "hex_char n \<noteq> CHR ''-''"
    "hex_char n \<noteq> CHR ''+''" "\<not> is_c_space (hex_char n)" "is_ascii (hex_char n)"
proof -
  have "n \<in> set [0..<16]" using assms by simp
  moreover have "list_all (\<lambda>n. hex_char n \<notin> set ''_xX-+'' \<and> \<not> is_c_space (hex_char n) \<and> is_ascii (hex_char n)) [0..<16]"
    by code_simp
  ultimately have "hex_char n \<notin> set ''_xX-+'' \<and> \<not> is_c_space (hex_char n) \<and> is_ascii (hex_char n)"
    unfolding list_all_iff by blast
  then show "hex_char n \<noteq> CHR ''_''" "hex_char n \<noteq> CHR ''x''" "hex_char n \<noteq> CHR ''X''" "hex_char n \<noteq> CHR ''-''"
    "hex_char n \<noteq> CHR ''+''" "\<not> is_c_space (hex_char n)" "is_ascii (hex_char n)" by simp_all
qed

lemma hex_fixed_chars: "c \<in> set (hex_fixed k n) \<Longrightarrow> \<exists>d<16. c = hex_char d"
  by (induction k n rule: hex_fixed.induct) (auto intro: exI [of _ "n mod 16" for n])

lemma length_hex_fixed [simp]: "length (hex_fixed k n) = k"
  by (induction k n rule: hex_fixed.induct) auto

lemma hex_scan_append:
  assumes "CHR ''_'' \<notin> set xs"
  shows "hex_scan False acc (xs @ ys) = (case hex_scan False acc xs of None \<Rightarrow> None | Some a \<Rightarrow> hex_scan False a ys)"
  using assms by (induction xs arbitrary: acc) (auto split: option.splits)

lemma hex_scan_fixed: "hex_scan False 0 (hex_fixed k n) = Some (int (n mod 16 ^ k))"
proof (induction k n rule: hex_fixed.induct)
  case (2 k n)
  have "CHR ''_'' \<notin> set (hex_fixed k (n div 16))" using hex_fixed_chars hex_char_plain(1) by metis
  moreover have "int (n div 16 mod 16 ^ k) * 16 + int (n mod 16) = int (n mod (16 * 16 ^ k))"
    by (simp add: mod_mult2_eq flip: of_nat_mult of_nat_add)
  ultimately show ?case
    using 2 by (simp add: hex_scan_append hex_digit_value_char hex_char_plain)
qed simp

lemma dropWhile_none: "(\<And>c. c \<in> set s \<Longrightarrow> \<not> P c) \<Longrightarrow> dropWhile P s = s"
  by (cases s) auto

lemma int_base_16_fixed:
  assumes "2 \<le> k"
  shows "int_base_16 (hex_fixed k n) = Some (int (n mod 16 ^ k))"
proof -
  let ?s = "hex_fixed k n"
  have plain: "c \<noteq> CHR ''_'' \<and> c \<noteq> CHR ''x'' \<and> c \<noteq> CHR ''X'' \<and> c \<noteq> CHR ''-'' \<and> c \<noteq> CHR ''+'' \<and> \<not> is_c_space c"
    if "c \<in> set ?s" for c using hex_fixed_chars [OF that] hex_char_plain by auto
  obtain a b rest where s: "?s = a # b # rest" using assms length_hex_fixed [of k n] by (metis Suc_le_length_iff numeral_2_eq_2)
  have p: "a \<noteq> CHR ''_'' \<and> a \<noteq> CHR ''-'' \<and> a \<noteq> CHR ''+''" "b \<noteq> CHR ''x'' \<and> b \<noteq> CHR ''X''" using plain [of a] plain [of b] s by auto
  have strip: "rev (dropWhile is_c_space (rev (dropWhile is_c_space ?s))) = ?s"
    using plain by (subst (2) dropWhile_none, blast)+ (subst dropWhile_none, auto)
  have "strip_hex_prefix ?s = ?s" using p by (simp add: strip_hex_prefix_def s)
  then show ?thesis using strip p hex_scan_fixed [of k n] by (simp add: int_base_16_def Let_def s)
qed

lemma signature_snoc: "signature_of (bs @ [b]) = 2 * signature_of bs + of_bool b"
  by (simp add: signature_of_def)

lemma signature_bound: "signature_of bs < 2 ^ length bs"
  by (induction bs rule: rev_induct) (auto simp: signature_snoc, simp add: signature_of_def)

lemma bit_count_nat_double: "bit_count_nat (2 * n + of_bool b) = bit_count_nat n + of_bool b"
  by (subst bit_count_nat.simps) (auto simp: bit_count_nat.simps [of 0])

lemma xor_double:
  "Bit_Operations.xor (2 * x + of_bool a) (2 * y + of_bool b) = 2 * Bit_Operations.xor x y + (of_bool (a \<noteq> b) :: nat)"
  by (subst xor_rec) auto

lemma bit_count_signatures:
  assumes "length xs = length ys"
  shows "bit_count_nat (Bit_Operations.xor (signature_of xs) (signature_of ys)) = length (filter (\<lambda>(x, y). x \<noteq> y) (zip xs ys))"
  using assms
proof (induction xs arbitrary: ys rule: rev_induct)
  case (snoc x xs)
  then obtain zs y where "ys = zs @ [y]" "length zs = length xs" by (metis length_append_singleton length_Suc_conv_rev)
  then show ?case using snoc.IH [of zs] by (simp add: signature_snoc xor_double bit_count_nat_double)
qed (simp add: signature_of_def bit_count_nat.simps)

lemma length_comparisons: "length (comparisons frame) = 64"
  by (simp add: comparisons_def length_concat comp_def sum_list_triv)

lemma dhash_value:
  assumes "thumbnail_dhash frame = Inr s"
  shows "valid_signature s \<and> int_base_16 s = Some (int (signature_of (comparisons frame)))"
proof -
  have s: "s = hex_fixed 16 (signature_of (comparisons frame))"
    using assms by (simp add: thumbnail_dhash_def split: if_splits)
  have "signature_of (comparisons frame) < 16 ^ 16"
    using signature_bound [of "comparisons frame"] by (simp add: length_comparisons)
  then have "int_base_16 s = Some (int (signature_of (comparisons frame)))" using int_base_16_fixed [of 16] by (simp add: s)
  moreover have "list_all is_ascii s" using hex_fixed_chars hex_char_plain(7) unfolding s list_all_iff by blast
  ultimately show ?thesis by (simp add: valid_signature_def s)
qed

text \<open>
  Two frames are grouped as alike exactly when at most nine of their 64 brightness comparisons
  differ: the text form of the hashes, the reading of that text and the counting of bits in the
  grouping together compute that number, and the worker's signatures are always ones the grouping
  accepts.
\<close>

theorem alike_frames:
  assumes "thumbnail_dhash frame = Inr s" and "thumbnail_dhash frame' = Inr s'"
  shows "thumbnail_signatures_are_similar s s' \<longleftrightarrow>
    length (filter (\<lambda>(x, y). x \<noteq> y) (zip (comparisons frame) (comparisons frame'))) \<le> 9"
proof -
  define distance where "distance = length (filter (\<lambda>(x, y). x \<noteq> y) (zip (comparisons frame) (comparisons frame')))"
  have "bit_count (Bit_Operations.xor (int (signature_of (comparisons frame))) (int (signature_of (comparisons frame')))) = int distance"
    unfolding distance_def bit_count_def
    using bit_count_signatures [of "comparisons frame" "comparisons frame'"] by (simp add: length_comparisons flip: of_nat_xor_eq)
  moreover have "(64 - int distance) * 100 > 85 * 64 \<longleftrightarrow> distance \<le> 9" by presburger
  ultimately show ?thesis unfolding distance_def [symmetric]
    using dhash_value [OF assms(1)] dhash_value [OF assms(2)] by (simp add: thumbnail_signatures_are_similar_def)
qed

text \<open>A black and a white frame have no contrast at all and count as alike.\<close>

lemma plain_comparisons: "comparisons (replicate 72 c) = comparisons (replicate 72 d)"
proof -
  have "comparisons (replicate 72 c) = concat (map (\<lambda>row. map (\<lambda>column. False) [0..<8]) [0..<8])" for c
    unfolding comparisons_def by (intro arg_cong [where f = concat] map_cong refl) auto
  then show ?thesis by simp
qed

theorem alike_frames_witness:
  "\<exists>s s'. thumbnail_dhash (replicate 72 (CHR 0x00)) = Inr s \<and> thumbnail_dhash (replicate 72 (CHR 0xFF)) = Inr s'
     \<and> thumbnail_signatures_are_similar s s'"
proof -
  let ?f = "replicate 72 (CHR 0x00)" and ?g = "replicate 72 (CHR 0xFF)"
  obtain s s' where s: "thumbnail_dhash ?f = Inr s" "thumbnail_dhash ?g = Inr s'" by (simp add: thumbnail_dhash_def)
  have "filter (\<lambda>(x, y). x \<noteq> y) (zip (comparisons ?f) (comparisons ?g)) = []"
    unfolding plain_comparisons [of "CHR 0x00" "CHR 0xFF"] by (auto simp: filter_empty_conv zip_same)
  then show ?thesis using alike_frames [OF s] s by simp
qed

end
