(* ===== verification/Workflow.thy ===== *)
theory Workflow
  imports Store
begin

text \<open>
  The review workflow as an abstract machine: the part of the database that decides what may
  happen to a video (items, versions, finalizations, issues), the steps the domain allows on it,
  and the invariant every step keeps. The command handlers are shown to take only these steps.
\<close>

section \<open>The core of the database\<close>

record core =
  co_items :: "review_item list"
  co_versions :: "review_version list"
  co_finalizations :: "finalization list"
  co_issues :: "issue list"

text \<open>The asset pointers of a version follow the media workers and are not part of the core.\<close>

definition strip_assets :: "review_version \<Rightarrow> review_version" where
  "strip_assets v = v\<lparr>ver_playback_asset_id := None, ver_thumbnail_asset_id := None\<rparr>"

definition core_of :: "db \<Rightarrow> core" where
  "core_of db =
     \<lparr>co_items = db_items db, co_versions = map strip_assets (db_versions db),
      co_finalizations = db_finalizations db, co_issues = db_issues db\<rparr>"

lemma strip_assets_sel [simp]:
  "ver_id (strip_assets v) = ver_id v" "ver_project_ref_id (strip_assets v) = ver_project_ref_id v"
  "ver_review_item_id (strip_assets v) = ver_review_item_id v" "ver_is_current (strip_assets v) = ver_is_current v"
  "ver_version_no (strip_assets v) = ver_version_no v" "ver_previous_version_id (strip_assets v) = ver_previous_version_id v"
  "ver_original_file_id (strip_assets v) = ver_original_file_id v" "ver_media (strip_assets v) = ver_media v"
  by (simp_all add: strip_assets_def)

section \<open>Steps\<close>

definition on_current :: "review_item \<Rightarrow> issue \<Rightarrow> bool" where
  "on_current i s \<longleftrightarrow> iss_review_item_id s = itm_id i \<and> itm_current_version_id i = Some (iss_version_id s)"

definition open_issue :: "issue \<Rightarrow> bool" where
  "open_issue s \<longleftrightarrow> iss_status s = unresolved \<and> iss_deleted_at s = None"

text \<open>The same row of the item table, one lock version later.\<close>

definition next_item :: "review_item \<Rightarrow> review_item \<Rightarrow> bool" where
  "next_item i i' \<longleftrightarrow> itm_id i' = itm_id i \<and> itm_project_ref_id i' = itm_project_ref_id i
     \<and> itm_lock_version i' = itm_lock_version i + 1"

definition same_issue :: "issue \<Rightarrow> issue \<Rightarrow> bool" where
  "same_issue s s' \<longleftrightarrow> iss_id s' = iss_id s \<and> iss_project_ref_id s' = iss_project_ref_id s
     \<and> iss_review_item_id s' = iss_review_item_id s \<and> iss_version_id s' = iss_version_id s
     \<and> iss_issue_no s' = iss_issue_no s"

definition synced_status :: "issue list \<Rightarrow> review_item \<Rightarrow> workflow_status" where
  "synced_status issues i =
     (if list_ex (\<lambda>s. on_current i s \<and> open_issue s) issues then changes_requested else in_review)"

definition supersede :: "string \<Rightarrow> review_version \<Rightarrow> review_version" where
  "supersede review_item_id v =
     (if ver_review_item_id v = review_item_id \<and> ver_is_current v then v\<lparr>ver_is_current := False\<rparr> else v)"

text \<open>New open issues on the current version of an item.\<close>

definition new_issues :: "review_item \<Rightarrow> issue list \<Rightarrow> issue list \<Rightarrow> bool" where
  "new_issues i issues ss \<longleftrightarrow> distinct (map iss_id ss) \<and> iss_id ` set ss \<inter> iss_id ` set issues = {}
     \<and> (\<forall>s\<in>set ss. on_current i s \<and> open_issue s \<and> iss_project_ref_id s = itm_project_ref_id i)"

inductive review_step :: "core \<Rightarrow> core \<Rightarrow> bool" where
  item_created:
    "itm_id i \<notin> itm_id ` set (co_items c) \<Longrightarrow> ver_id v \<notin> ver_id ` set (co_versions c) \<Longrightarrow>
     itm_workflow_status i = pending_review \<Longrightarrow> itm_active_finalization_id i = None \<Longrightarrow>
     itm_current_version_id i = Some (ver_id v) \<Longrightarrow> ver_review_item_id v = itm_id i \<Longrightarrow>
     ver_project_ref_id v = itm_project_ref_id i \<Longrightarrow> ver_is_current v \<Longrightarrow> ver_version_no v = 1 \<Longrightarrow>
     review_step c (c\<lparr>co_items := co_items c @ [i], co_versions := co_versions c @ [v]\<rparr>)"
| item_edited:
    "i \<in> set (co_items c) \<Longrightarrow> itm_workflow_status i \<noteq> finalized \<Longrightarrow> next_item i i' \<Longrightarrow>
     itm_current_version_id i' = itm_current_version_id i \<Longrightarrow>
     itm_active_finalization_id i' = itm_active_finalization_id i \<Longrightarrow>
     itm_workflow_status i' = itm_workflow_status i
       \<or> (itm_workflow_status i = pending_review \<and> itm_workflow_status i' = in_review) \<Longrightarrow>
     review_step c (c\<lparr>co_items := row_put itm_id i' (co_items c)\<rparr>)"
| version_uploaded:
    "i \<in> set (co_items c) \<Longrightarrow> itm_workflow_status i \<noteq> finalized \<Longrightarrow> next_item i i' \<Longrightarrow>
     u \<in> set (co_versions c) \<Longrightarrow> itm_current_version_id i = Some (ver_id u) \<Longrightarrow>
     s \<in> set (co_issues c) \<Longrightarrow> on_current i s \<Longrightarrow> iss_deleted_at s = None \<Longrightarrow>
     ver_id v \<notin> ver_id ` set (co_versions c) \<Longrightarrow> ver_review_item_id v = itm_id i \<Longrightarrow>
     ver_project_ref_id v = itm_project_ref_id i \<Longrightarrow> ver_is_current v \<Longrightarrow>
     ver_version_no v = ver_version_no u + 1 \<Longrightarrow> ver_previous_version_id v = Some (ver_id u) \<Longrightarrow>
     itm_workflow_status i' = pending_review \<Longrightarrow> itm_current_version_id i' = Some (ver_id v) \<Longrightarrow>
     itm_active_finalization_id i' = itm_active_finalization_id i \<Longrightarrow>
     review_step c (c\<lparr>co_items := row_put itm_id i' (co_items c),
                      co_versions := map (supersede (itm_id i)) (co_versions c) @ [v]\<rparr>)"
| issues_raised:
    "i \<in> set (co_items c) \<Longrightarrow> itm_workflow_status i \<noteq> finalized \<Longrightarrow> next_item i i' \<Longrightarrow>
     itm_current_version_id i' = itm_current_version_id i \<Longrightarrow>
     itm_active_finalization_id i' = itm_active_finalization_id i \<Longrightarrow>
     new_issues i (co_issues c) ss \<Longrightarrow> itm_workflow_status i' = synced_status (co_issues c @ ss) i \<Longrightarrow>
     review_step c (c\<lparr>co_items := row_put itm_id i' (co_items c), co_issues := co_issues c @ ss\<rparr>)"
| issues_raised_finalized:
    "i \<in> set (co_items c) \<Longrightarrow> itm_workflow_status i = finalized \<Longrightarrow> new_issues i (co_issues c) ss \<Longrightarrow>
     review_step c (c\<lparr>co_issues := co_issues c @ ss\<rparr>)"
| issue_changed:
    "i \<in> set (co_items c) \<Longrightarrow> itm_workflow_status i \<noteq> finalized \<Longrightarrow> next_item i i' \<Longrightarrow>
     itm_current_version_id i' = itm_current_version_id i \<Longrightarrow>
     itm_active_finalization_id i' = itm_active_finalization_id i \<Longrightarrow>
     s \<in> set (co_issues c) \<Longrightarrow> same_issue s s' \<Longrightarrow> on_current i s \<Longrightarrow>
     itm_workflow_status i' = synced_status (row_put iss_id s' (co_issues c)) i \<Longrightarrow>
     review_step c (c\<lparr>co_items := row_put itm_id i' (co_items c),
                      co_issues := row_put iss_id s' (co_issues c)\<rparr>)"
| issue_revised:
    "s \<in> set (co_issues c) \<Longrightarrow> same_issue s s' \<Longrightarrow> iss_status s' = iss_status s \<Longrightarrow>
     iss_deleted_at s' = iss_deleted_at s \<Longrightarrow>
     review_step c (c\<lparr>co_issues := row_put iss_id s' (co_issues c)\<rparr>)"
| issue_changed_finalized:
    "i \<in> set (co_items c) \<Longrightarrow> itm_workflow_status i = finalized \<Longrightarrow>
     s \<in> set (co_issues c) \<Longrightarrow> same_issue s s' \<Longrightarrow> on_current i s \<Longrightarrow>
     review_step c (c\<lparr>co_issues := row_put iss_id s' (co_issues c)\<rparr>)"
| finalized_item:
    "i \<in> set (co_items c) \<Longrightarrow> itm_workflow_status i \<noteq> finalized \<Longrightarrow> next_item i i' \<Longrightarrow>
     fin_id f \<notin> fin_id ` set (co_finalizations c) \<Longrightarrow> fin_status f = fin_active \<Longrightarrow>
     fin_review_item_id f = itm_id i \<Longrightarrow> fin_project_ref_id f = itm_project_ref_id i \<Longrightarrow>
     itm_current_version_id i = Some (fin_version_id f) \<Longrightarrow>
     itm_current_version_id i' = itm_current_version_id i \<Longrightarrow>
     itm_active_finalization_id i' = Some (fin_id f) \<Longrightarrow> itm_workflow_status i' = finalized \<Longrightarrow>
     review_step c (c\<lparr>co_items := row_put itm_id i' (co_items c),
                      co_finalizations := co_finalizations c @ [f]\<rparr>)"
| finalization_revoked:
    "i \<in> set (co_items c) \<Longrightarrow> itm_workflow_status i = finalized \<Longrightarrow> next_item i i' \<Longrightarrow>
     f \<in> set (co_finalizations c) \<Longrightarrow> itm_active_finalization_id i = Some (fin_id f) \<Longrightarrow>
     fin_id f' = fin_id f \<Longrightarrow> fin_status f' = fin_revoked \<Longrightarrow>
     itm_current_version_id i' = itm_current_version_id i \<Longrightarrow>
     itm_active_finalization_id i' = None \<Longrightarrow> itm_workflow_status i' = in_review \<Longrightarrow>
     fin_review_item_id f' = fin_review_item_id f \<Longrightarrow> fin_project_ref_id f' = fin_project_ref_id f \<Longrightarrow>
     review_step c (c\<lparr>co_items := row_put itm_id i' (co_items c),
                      co_finalizations := row_put fin_id f' (co_finalizations c)\<rparr>)"
| items_deleted:
    "review_step c (c\<lparr>co_items := filter (\<lambda>i. itm_id i \<notin> K) (co_items c),
                      co_versions := filter (\<lambda>v. ver_review_item_id v \<notin> K) (co_versions c),
                      co_finalizations := filter (\<lambda>f. fin_review_item_id f \<notin> K) (co_finalizations c),
                      co_issues := filter (\<lambda>s. iss_review_item_id s \<notin> K) (co_issues c)\<rparr>)"

section \<open>The invariant\<close>

definition keys_ok :: "core \<Rightarrow> bool" where
  "keys_ok c \<longleftrightarrow> distinct (map itm_id (co_items c)) \<and> distinct (map ver_id (co_versions c))
     \<and> distinct (map fin_id (co_finalizations c)) \<and> distinct (map iss_id (co_issues c))"

text \<open>\<open>v\<close> is what the item's pointer says: its own current version.\<close>

definition points_to :: "review_item \<Rightarrow> review_version \<Rightarrow> bool" where
  "points_to i v \<longleftrightarrow> itm_current_version_id i = Some (ver_id v) \<and> ver_review_item_id v = itm_id i
     \<and> ver_project_ref_id v = itm_project_ref_id i \<and> ver_is_current v"

definition current_ok :: "core \<Rightarrow> bool" where
  "current_ok c \<longleftrightarrow>
     (\<forall>i\<in>set (co_items c). \<exists>v\<in>set (co_versions c). points_to i v)
     \<and> (\<forall>v\<in>set (co_versions c). \<exists>i\<in>set (co_items c). ver_review_item_id v = itm_id i
          \<and> (ver_is_current v \<longrightarrow> itm_current_version_id i = Some (ver_id v)))"

definition numbering_ok :: "core \<Rightarrow> bool" where
  "numbering_ok c \<longleftrightarrow>
     (\<forall>v\<in>set (co_versions c). \<forall>w\<in>set (co_versions c).
        ver_review_item_id v = ver_review_item_id w \<and> ver_is_current w \<and> v \<noteq> w \<longrightarrow> ver_version_no v < ver_version_no w)"

definition authorised :: "review_item \<Rightarrow> finalization \<Rightarrow> bool" where
  "authorised i f \<longleftrightarrow> itm_active_finalization_id i = Some (fin_id f) \<and> fin_status f = fin_active
     \<and> fin_review_item_id f = itm_id i \<and> fin_project_ref_id f = itm_project_ref_id i
     \<and> itm_current_version_id i = Some (fin_version_id f)"

definition authority_ok :: "core \<Rightarrow> bool" where
  "authority_ok c \<longleftrightarrow>
     (\<forall>i\<in>set (co_items c). (itm_workflow_status i = finalized) = (itm_active_finalization_id i \<noteq> None)
        \<and> (itm_workflow_status i = finalized \<longrightarrow> (\<exists>f\<in>set (co_finalizations c). authorised i f)))
     \<and> (\<forall>f\<in>set (co_finalizations c). fin_status f = fin_active \<longrightarrow> (\<exists>i\<in>set (co_items c). authorised i f))"

definition issues_ok :: "core \<Rightarrow> bool" where
  "issues_ok c \<longleftrightarrow>
     (\<forall>s\<in>set (co_issues c). \<exists>v\<in>set (co_versions c). ver_id v = iss_version_id s \<and> ver_review_item_id v = iss_review_item_id s)
     \<and> (\<forall>i\<in>set (co_items c).
          (itm_workflow_status i = changes_requested \<longrightarrow> (\<exists>s\<in>set (co_issues c). on_current i s \<and> open_issue s))
          \<and> (itm_workflow_status i = pending_review \<longrightarrow> (\<forall>s\<in>set (co_issues c). on_current i s \<longrightarrow> iss_deleted_at s \<noteq> None)))"

text \<open>The composite foreign keys: a row that names an item names the item's project too.\<close>

definition owned :: "review_item list \<Rightarrow> string \<Rightarrow> string \<Rightarrow> bool" where
  "owned items review_item_id project_ref_id \<longleftrightarrow>
     (\<exists>i\<in>set items. itm_id i = review_item_id \<and> itm_project_ref_id i = project_ref_id)"

definition ownership_ok :: "core \<Rightarrow> bool" where
  "ownership_ok c \<longleftrightarrow>
     (\<forall>v\<in>set (co_versions c). owned (co_items c) (ver_review_item_id v) (ver_project_ref_id v))
     \<and> (\<forall>f\<in>set (co_finalizations c). owned (co_items c) (fin_review_item_id f) (fin_project_ref_id f))
     \<and> (\<forall>s\<in>set (co_issues c). owned (co_items c) (iss_review_item_id s) (iss_project_ref_id s))"

definition review_ok :: "core \<Rightarrow> bool" where
  "review_ok c \<longleftrightarrow> keys_ok c \<and> current_ok c \<and> numbering_ok c \<and> authority_ok c \<and> issues_ok c \<and> ownership_ok c"

section \<open>Every step keeps the invariant\<close>

lemma key_inj: "distinct (map key xs) \<Longrightarrow> x \<in> set xs \<Longrightarrow> y \<in> set xs \<Longrightarrow> key x = key y \<Longrightarrow> x = y"
  by (metis distinct_map inj_onD)

lemma supersede_sel [simp]:
  "ver_id (supersede k v) = ver_id v" "ver_review_item_id (supersede k v) = ver_review_item_id v"
  "ver_project_ref_id (supersede k v) = ver_project_ref_id v" "ver_version_no (supersede k v) = ver_version_no v"
  "ver_is_current (supersede k v) \<longleftrightarrow> ver_is_current v \<and> ver_review_item_id v \<noteq> k"
  by (auto simp: supersede_def)

lemma supersede_other: "ver_review_item_id v \<noteq> k \<Longrightarrow> supersede k v = v"
  by (simp add: supersede_def)

lemma map_key_supersede [simp]: "map ver_id (map (supersede k) vs) = map ver_id vs"
  by (simp add: comp_def)

lemma keys_step: "review_step c c' \<Longrightarrow> keys_ok c \<Longrightarrow> keys_ok c'"
  by (induction rule: review_step.induct)
    (simp_all add: keys_ok_def distinct_map_filterI comp_def new_issues_def Int_commute)

text \<open>Replacing the row of one item: what is left to show.\<close>

lemma put_item_ball:
  assumes "i \<in> set rows" and "itm_id i' = itm_id i"
  shows "(\<forall>j\<in>set (row_put itm_id i' rows). P j) \<longleftrightarrow> P i' \<and> (\<forall>j\<in>set rows. itm_id j \<noteq> itm_id i \<longrightarrow> P j)"
  using in_set_row_put_iff [of i rows itm_id i'] assms by auto

lemma put_item_bex:
  assumes "i \<in> set rows" and "itm_id i' = itm_id i"
  shows "(\<exists>j\<in>set (row_put itm_id i' rows). P j) \<longleftrightarrow> P i' \<or> (\<exists>j\<in>set rows. itm_id j \<noteq> itm_id i \<and> P j)"
  using in_set_row_put_iff [of i rows itm_id i'] assms by auto

lemma current_okD: "current_ok c \<Longrightarrow> i \<in> set (co_items c) \<Longrightarrow> \<exists>v\<in>set (co_versions c). points_to i v"
  by (simp add: current_ok_def)

lemma version_item: "current_ok c \<Longrightarrow> v \<in> set (co_versions c) \<Longrightarrow> \<exists>i\<in>set (co_items c). ver_review_item_id v = itm_id i"
  by (auto simp: current_ok_def)

lemma current_put_item:
  assumes "keys_ok c" "current_ok c" "i \<in> set (co_items c)" "next_item i i'"
    "itm_current_version_id i' = itm_current_version_id i"
  shows "current_ok (c\<lparr>co_items := row_put itm_id i' (co_items c)\<rparr>)"
proof -
  have i': "itm_id i' = itm_id i" "itm_project_ref_id i' = itm_project_ref_id i" using assms(4) by (simp_all add: next_item_def)
  have "points_to i' v = points_to i v" for v using i' assms(5) by (simp add: points_to_def)
  moreover have "j = i" if "j \<in> set (co_items c)" "itm_id j = itm_id i" for j
    using assms(1,3) that by (auto simp: keys_ok_def dest: key_inj)
  ultimately show ?thesis
    using assms(2,3,5) i' unfolding current_ok_def
    by (simp add: put_item_ball [OF assms(3) i'(1)] put_item_bex [OF assms(3) i'(1)]) metis
qed

lemma current_step:
  assumes "review_step c c'" and "keys_ok c" and "current_ok c"
  shows "current_ok c'"
  using assms
proof (induction rule: review_step.induct)
  case (item_created i c v)
  then show ?case by (auto simp: current_ok_def points_to_def)
next
  case (item_edited i c i')
  then show ?case by (blast intro: current_put_item)
next
  case (version_uploaded i c i' u s v)
  have i': "itm_id i' = itm_id i" "itm_project_ref_id i' = itm_project_ref_id i"
    using version_uploaded.hyps by (simp_all add: next_item_def)
  have "\<exists>w\<in>set (map (supersede (itm_id i)) (co_versions c) @ [v]). points_to j w"
    if j: "j \<in> set (co_items c)" "itm_id j \<noteq> itm_id i" for j
  proof -
    obtain w where w: "w \<in> set (co_versions c)" "points_to j w"
      using current_okD [OF version_uploaded.prems(2) j(1)] by (elim bexE)
    then have "supersede (itm_id i) w = w" using j by (simp add: points_to_def supersede_other)
    then show ?thesis using w by (force simp: image_iff)
  qed
  moreover have "points_to i' v" using version_uploaded.hyps i' by (simp add: points_to_def)
  moreover have "j = i" if "j \<in> set (co_items c)" "itm_id j = itm_id i" for j
    using version_uploaded.hyps version_uploaded.prems that by (auto simp: keys_ok_def dest: key_inj)
  ultimately show ?case
    using version_uploaded.prems version_uploaded.hyps i' unfolding current_ok_def
    by (simp add: put_item_ball [OF version_uploaded.hyps(1) i'(1)] put_item_bex [OF version_uploaded.hyps(1) i'(1)]) metis
next
  case (issues_raised i c i' ss)
  then show ?case using current_put_item [of c i i'] by (simp add: current_ok_def)
next
  case (issue_changed i c i' s s')
  then show ?case using current_put_item [of c i i'] by (simp add: current_ok_def)
next
  case (finalized_item i c i' f)
  then show ?case using current_put_item [of c i i'] by (simp add: current_ok_def)
next
  case (finalization_revoked i c i' f f')
  then show ?case using current_put_item [of c i i'] by (simp add: current_ok_def)
next
  case (items_deleted c K)
  have p: "ver_review_item_id v = itm_id i" if "points_to i v" for i v using that by (simp add: points_to_def)
  have "\<exists>v\<in>set (co_versions c). ver_review_item_id v \<notin> K \<and> points_to i v"
    if i: "i \<in> set (co_items c)" "itm_id i \<notin> K" for i
    using current_okD [OF items_deleted(2) i(1)] p i(2) by metis
  then show ?case using items_deleted(2) unfolding current_ok_def by auto metis+
qed (simp_all add: current_ok_def)

lemma numbering_step:
  assumes "review_step c c'" and "keys_ok c" and "current_ok c" and "numbering_ok c"
  shows "numbering_ok c'"
  using assms
proof (induction rule: review_step.induct)
  case (item_created i c v)
  have "ver_review_item_id w \<noteq> itm_id i" if "w \<in> set (co_versions c)" for w
    using version_item [OF item_created.prems(2) that] item_created.hyps(1) by auto
  then show ?case using item_created.prems(3) item_created.hyps(6) by (simp add: numbering_ok_def) metis
next
  case (version_uploaded i c i' u s v)
  obtain u' where u': "u' \<in> set (co_versions c)" "points_to i u'"
    using current_okD [OF version_uploaded.prems(2) version_uploaded.hyps(1)] by (elim bexE)
  have "u' = u" using u' version_uploaded.hyps version_uploaded.prems(1)
    by (auto simp: points_to_def keys_ok_def dest: key_inj)
  then have u: "ver_review_item_id u = itm_id i" "ver_is_current u" using u' by (simp_all add: points_to_def)
  have lt: "ver_version_no w < ver_version_no v" if w: "w \<in> set (co_versions c)" "ver_review_item_id w = itm_id i" for w
  proof (cases "w = u")
    case False
    then have "ver_version_no w < ver_version_no u"
      using version_uploaded.prems(3) version_uploaded.hyps(4) w u unfolding numbering_ok_def by metis
    then show ?thesis using version_uploaded.hyps by simp
  qed (use version_uploaded.hyps in simp)
  have old: "ver_version_no a < ver_version_no b"
    if "a \<in> set (co_versions c)" "b \<in> set (co_versions c)" "ver_review_item_id a = ver_review_item_id b"
      "ver_is_current b" "a \<noteq> b" for a b
    using version_uploaded.prems(3) that unfolding numbering_ok_def by metis
  show ?case unfolding numbering_ok_def
  proof (intro ballI impI)
    fix a b
    assume a: "a \<in> set (co_versions (c\<lparr>co_items := row_put itm_id i' (co_items c), co_versions := map (supersede (itm_id i)) (co_versions c) @ [v]\<rparr>))"
      and b: "b \<in> set (co_versions (c\<lparr>co_items := row_put itm_id i' (co_items c), co_versions := map (supersede (itm_id i)) (co_versions c) @ [v]\<rparr>))"
      and ab: "ver_review_item_id a = ver_review_item_id b \<and> ver_is_current b \<and> a \<noteq> b"
    show "ver_version_no a < ver_version_no b"
    proof (cases "b = v")
      case True
      then show ?thesis using a ab lt version_uploaded.hyps(10) by auto
    next
      case False
      then obtain b0 where b0: "b0 \<in> set (co_versions c)" "b = supersede (itm_id i) b0" using b by auto
      then have nb: "ver_review_item_id b0 \<noteq> itm_id i" "ver_is_current b0" "b = b0" using ab by (auto simp: supersede_other)
      then have "a \<noteq> v" using ab version_uploaded.hyps(10) by auto
      then obtain a0 where a0: "a0 \<in> set (co_versions c)" "a = supersede (itm_id i) a0" using a by auto
      then have "a = a0" using ab nb by (simp add: supersede_other)
      then show ?thesis using old a0 b0 nb ab by simp
    qed
  qed
next
  case (items_deleted c K)
  then show ?case by (simp add: numbering_ok_def)
qed (simp_all add: numbering_ok_def)

lemma authority_put_item:
  assumes "keys_ok c" and "authority_ok c" and "i \<in> set (co_items c)" and "next_item i i'"
    and "itm_current_version_id i' = itm_current_version_id i \<or> itm_workflow_status i \<noteq> finalized"
    and "itm_active_finalization_id i' = itm_active_finalization_id i"
    and "itm_workflow_status i \<noteq> finalized" and "itm_workflow_status i' \<noteq> finalized"
  shows "authority_ok (c\<lparr>co_items := row_put itm_id i' (co_items c)\<rparr>)"
proof -
  have i': "itm_id i' = itm_id i" using assms(4) by (simp add: next_item_def)
  have a: "itm_active_finalization_id i = None" using assms(2,3,7) by (auto simp: authority_ok_def)
  have un: "j = i" if "j \<in> set (co_items c)" "itm_id j = itm_id i" for j
    using assms(1,3) that by (auto simp: keys_ok_def dest: key_inj)
  have "\<exists>j\<in>set (co_items c). itm_id j \<noteq> itm_id i \<and> authorised j f"
    if f: "f \<in> set (co_finalizations c)" "fin_status f = fin_active" for f
  proof -
    obtain j where "j \<in> set (co_items c)" "authorised j f" using assms(2) f unfolding authority_ok_def by blast
    moreover from this have "j \<noteq> i" using a by (auto simp: authorised_def)
    ultimately show ?thesis using un by metis
  qed
  then show ?thesis
    using assms(2,6,8) a unfolding authority_ok_def
    by (simp add: put_item_ball [OF assms(3) i'] put_item_bex [OF assms(3) i'])
qed

lemma authority_step:
  assumes "review_step c c'" and "keys_ok c" and "current_ok c" and "authority_ok c"
  shows "authority_ok c'"
  using assms
proof (induction rule: review_step.induct)
  case (item_created i c v)
  then show ?case by (auto simp: authority_ok_def)
next
  case (item_edited i c i')
  then show ?case by (intro authority_put_item) auto
next
  case (version_uploaded i c i' u s v)
  then show ?case using authority_put_item [of c i i'] by (simp add: authority_ok_def)
next
  case (issues_raised i c i' ss)
  then show ?case using authority_put_item [of c i i'] by (simp add: authority_ok_def synced_status_def)
next
  case (issue_changed i c i' s s')
  then show ?case using authority_put_item [of c i i'] by (simp add: authority_ok_def synced_status_def)
next
  case (finalized_item i c i' f)
  note h = finalized_item.hyps and p = finalized_item.prems
  have i': "itm_id i' = itm_id i" "itm_project_ref_id i' = itm_project_ref_id i" using h(3) by (simp_all add: next_item_def)
  have un: "j = i" if "j \<in> set (co_items c)" "itm_id j = itm_id i" for j
    using p(1) h(1) that by (auto simp: keys_ok_def dest: key_inj)
  have a: "itm_active_finalization_id i = None" using p(3) h(1,2) by (auto simp: authority_ok_def)
  have new: "authorised i' f" using h i' by (simp add: authorised_def)
  have "\<exists>j\<in>set (co_items c). itm_id j \<noteq> itm_id i \<and> authorised j g"
    if g: "g \<in> set (co_finalizations c)" "fin_status g = fin_active" for g
  proof -
    obtain j where "j \<in> set (co_items c)" "authorised j g" using p(3) g unfolding authority_ok_def by blast
    moreover from this have "j \<noteq> i" using a by (auto simp: authorised_def)
    ultimately show ?thesis using un by metis
  qed
  then show ?case
    using p(3) new h(10,11) unfolding authority_ok_def
    by (auto simp: put_item_ball [OF h(1) i'(1)] put_item_bex [OF h(1) i'(1)])
next
  case (finalization_revoked i c i' f f')
  note h = finalization_revoked.hyps and p = finalization_revoked.prems
  have i': "itm_id i' = itm_id i" using h(3) by (simp add: next_item_def)
  have un: "j = i" if "j \<in> set (co_items c)" "itm_id j = itm_id i" for j
    using p(1) h(1) that by (auto simp: keys_ok_def dest: key_inj)
  have fun': "g = f" if "g \<in> set (co_finalizations c)" "fin_id g = fin_id f" for g
    using p(1) h(4) that by (auto simp: keys_ok_def dest: key_inj)
  have fi: "fin_review_item_id f = itm_id i"
  proof -
    obtain g where "g \<in> set (co_finalizations c)" "authorised i g" using p(3) h(1,2) unfolding authority_ok_def by blast
    then show ?thesis using fun' h(5) by (auto simp: authorised_def)
  qed
  have inf: "g \<in> set (row_put fin_id f' (co_finalizations c)) \<longleftrightarrow> g = f' \<or> (g \<in> set (co_finalizations c) \<and> fin_id g \<noteq> fin_id f)" for g
    using in_set_row_put_iff [OF h(4), of fin_id f'] h(6) by simp
  have one: "\<exists>g\<in>set (row_put fin_id f' (co_finalizations c)). authorised j g"
    if j: "j \<in> set (co_items c)" "itm_id j \<noteq> itm_id i" "itm_workflow_status j = finalized" for j
  proof -
    obtain g where g: "g \<in> set (co_finalizations c)" "authorised j g" using p(3) j unfolding authority_ok_def by blast
    then have "fin_id g \<noteq> fin_id f" using fun' [OF g(1)] fi j(2) g(2) unfolding authorised_def by metis
    then show ?thesis using g inf by blast
  qed
  have two: "\<exists>j\<in>set (co_items c). itm_id j \<noteq> itm_id i \<and> authorised j g"
    if g: "g \<in> set (row_put fin_id f' (co_finalizations c))" "fin_status g = fin_active" for g
  proof -
    have g': "g \<in> set (co_finalizations c)" "fin_id g \<noteq> fin_id f" using g inf h(7) by auto
    then obtain j where "j \<in> set (co_items c)" "authorised j g" using p(3) g(2) unfolding authority_ok_def by blast
    moreover from this have "j \<noteq> i" using g'(2) h(5) by (auto simp: authorised_def)
    ultimately show ?thesis using un by metis
  qed
  show ?case
    using p(3) one two h(9,10) unfolding authority_ok_def
    by (simp add: put_item_ball [OF h(1) i'] put_item_bex [OF h(1) i'])
next
  case (items_deleted c K)
  have a: "fin_review_item_id f = itm_id i" if "authorised i f" for i f using that by (simp add: authorised_def)
  show ?case using items_deleted(3) unfolding authority_ok_def by auto (metis a)+
qed (simp_all add: authority_ok_def)

text \<open>An issue refers to a version of its item; the two status clauses of an item.\<close>

definition issue_status_ok :: "issue list \<Rightarrow> review_item \<Rightarrow> bool" where
  "issue_status_ok issues i \<longleftrightarrow>
     (itm_workflow_status i = changes_requested \<longrightarrow> (\<exists>s\<in>set issues. on_current i s \<and> open_issue s))
     \<and> (itm_workflow_status i = pending_review \<longrightarrow> (\<forall>s\<in>set issues. on_current i s \<longrightarrow> iss_deleted_at s \<noteq> None))"

definition issue_version_ok :: "review_version list \<Rightarrow> issue \<Rightarrow> bool" where
  "issue_version_ok versions s \<longleftrightarrow>
     (\<exists>v\<in>set versions. ver_id v = iss_version_id s \<and> ver_review_item_id v = iss_review_item_id s)"

lemma issues_ok_iff:
  "issues_ok c \<longleftrightarrow> (\<forall>s\<in>set (co_issues c). issue_version_ok (co_versions c) s)
     \<and> (\<forall>i\<in>set (co_items c). issue_status_ok (co_issues c) i)"
  by (simp add: issues_ok_def issue_status_ok_def issue_version_ok_def)

lemma synced_status_ok:
  assumes "itm_workflow_status i' = synced_status issues i" and "on_current i' = on_current i"
  shows "issue_status_ok issues i'"
  using assms by (auto simp: issue_status_ok_def synced_status_def list_ex_iff split: if_splits)

text \<open>The status clauses of another item do not see an issue of this item.\<close>

lemma status_ok_put_issue:
  assumes "s \<in> set issues" and "same_issue s s'" and "iss_review_item_id s \<noteq> itm_id j" and d: "distinct (map iss_id issues)"
  shows "issue_status_ok (row_put iss_id s' issues) j = issue_status_ok issues j"
proof -
  have id: "iss_id s' = iss_id s" and it: "\<not> on_current j s" "\<not> on_current j s'"
    using assms(2,3) by (auto simp: same_issue_def on_current_def)
  have "t = s" if "t \<in> set issues" "iss_id t = iss_id s" for t
    using that assms(1) d by (metis key_inj)
  then have mem: "t \<in> set (row_put iss_id s' issues) \<and> on_current j t \<longleftrightarrow> t \<in> set issues \<and> on_current j t" for t
    using in_set_row_put_iff [OF assms(1), of iss_id s'] id it by auto
  have "(\<exists>t\<in>set (row_put iss_id s' issues). on_current j t \<and> open_issue t) \<longleftrightarrow> (\<exists>t\<in>set issues. on_current j t \<and> open_issue t)"
    using mem by metis
  moreover have "(\<forall>t\<in>set (row_put iss_id s' issues). on_current j t \<longrightarrow> iss_deleted_at t \<noteq> None)
      \<longleftrightarrow> (\<forall>t\<in>set issues. on_current j t \<longrightarrow> iss_deleted_at t \<noteq> None)"
    using mem by metis
  ultimately show ?thesis unfolding issue_status_ok_def by simp
qed

lemma version_ok_put_issue:
  assumes "\<forall>t\<in>set issues. issue_version_ok vs t" and "s \<in> set issues" and "same_issue s s'"
  shows "\<forall>t\<in>set (row_put iss_id s' issues). issue_version_ok vs t"
proof -
  have "issue_version_ok vs s'" using assms by (simp add: issue_version_ok_def same_issue_def)
  then show ?thesis using assms(1) by (auto dest: in_set_row_putD)
qed

lemma on_current_same:
  "itm_id i' = itm_id i \<Longrightarrow> itm_current_version_id i' = itm_current_version_id i \<Longrightarrow> on_current i' = on_current i"
  by (simp add: on_current_def fun_eq_iff)

lemma new_issues_other:
  assumes "new_issues i issues ss" and "itm_id j \<noteq> itm_id i" and "issue_status_ok issues j"
  shows "issue_status_ok (issues @ ss) j"
proof -
  have "\<not> on_current j s" if "s \<in> set ss" for s using assms(1,2) that by (auto simp: new_issues_def on_current_def)
  then show ?thesis using assms(3) by (auto simp: issue_status_ok_def)
qed

lemma new_issues_version:
  assumes "current_ok c" and "i \<in> set (co_items c)" and "new_issues i issues ss" and "s \<in> set ss"
  shows "issue_version_ok (co_versions c) s"
proof -
  obtain v where "v \<in> set (co_versions c)" "points_to i v" using current_okD [OF assms(1,2)] by (elim bexE)
  then show ?thesis using assms(3,4) by (auto simp: new_issues_def issue_version_ok_def points_to_def on_current_def)
qed

lemma issues_step:
  assumes "review_step c c'" and "keys_ok c" and "current_ok c" and "issues_ok c"
  shows "issues_ok c'"
  using assms
proof (induction rule: review_step.induct)
  case (item_created i c v)
  note h = item_created.hyps and p = item_created.prems
  have "\<not> on_current i s" if "s \<in> set (co_issues c)" for s
  proof
    assume "on_current i s"
    then have s: "iss_review_item_id s = itm_id i" by (simp add: on_current_def)
    obtain w where w: "w \<in> set (co_versions c)" "ver_review_item_id w = iss_review_item_id s"
      using p(3) \<open>s \<in> set (co_issues c)\<close> by (auto simp: issues_ok_iff issue_version_ok_def)
    then show False using version_item [OF p(2) w(1)] h(1) s by auto
  qed
  then have "issue_status_ok (co_issues c) i" using h(3) by (auto simp: issue_status_ok_def)
  then show ?case using p(3) by (auto simp: issues_ok_iff issue_version_ok_def)
next
  case (item_edited i c i')
  note h = item_edited.hyps and p = item_edited.prems
  have i': "itm_id i' = itm_id i" using h(3) by (simp add: next_item_def)
  have "issue_status_ok (co_issues c) i" using p(3) h(1) by (simp add: issues_ok_iff)
  then have "issue_status_ok (co_issues c) i'"
    using h(6) on_current_same [OF i' h(4)] by (auto simp: issue_status_ok_def)
  then show ?case using p(3) by (simp add: issues_ok_iff put_item_ball [OF h(1) i'])
next
  case (version_uploaded i c i' u s v)
  note h = version_uploaded.hyps and p = version_uploaded.prems
  have i': "itm_id i' = itm_id i" using h(3) by (simp add: next_item_def)
  have vok: "\<forall>t\<in>set (co_issues c). issue_version_ok (map (supersede (itm_id i)) (co_versions c) @ [v]) t"
    using p(3) by (auto simp: issues_ok_iff issue_version_ok_def)
  have "\<not> on_current i' t" if "t \<in> set (co_issues c)" for t
  proof -
    have "iss_version_id t \<in> ver_id ` set (co_versions c)"
      using p(3) that by (force simp: issues_ok_iff issue_version_ok_def)
    then show ?thesis using h(9,16) by (auto simp: on_current_def)
  qed
  then have "issue_status_ok (co_issues c) i'" using h(15) by (auto simp: issue_status_ok_def)
  then show ?case using p(3) vok by (simp add: issues_ok_iff put_item_ball [OF h(1) i'])
next
  case (issues_raised i c i' ss)
  note h = issues_raised.hyps and p = issues_raised.prems
  have i': "itm_id i' = itm_id i" using h(3) by (simp add: next_item_def)
  have own: "issue_status_ok (co_issues c @ ss) i'"
    by (rule synced_status_ok [OF h(7) on_current_same [OF i' h(4)]])
  then show ?case using p(3) new_issues_other [OF h(6)] new_issues_version [OF p(2) h(1,6)]
    by (auto simp: issues_ok_iff put_item_ball [OF h(1) i'])
next
  case (issues_raised_finalized i c ss)
  note h = issues_raised_finalized.hyps and p = issues_raised_finalized.prems
  have "issue_status_ok (co_issues c @ ss) j" if j: "j \<in> set (co_items c)" for j
  proof (cases "itm_id j = itm_id i")
    case True
    then have "j = i" using p(1) h(1) j unfolding keys_ok_def by (metis key_inj)
    then show ?thesis using h(2) by (simp add: issue_status_ok_def)
  next
    case False
    then show ?thesis using new_issues_other [OF h(3)] p(3) j by (simp add: issues_ok_iff)
  qed
  then show ?case using p(3) new_issues_version [OF p(2) h(1,3)] by (auto simp: issues_ok_iff)
next
  case (issue_changed i c i' s s')
  note h = issue_changed.hyps and p = issue_changed.prems
  have i': "itm_id i' = itm_id i" using h(3) by (simp add: next_item_def)
  have own: "issue_status_ok (row_put iss_id s' (co_issues c)) i'"
    by (rule synced_status_ok [OF h(9) on_current_same [OF i' h(4)]])
  have "issue_status_ok (row_put iss_id s' (co_issues c)) j" if j: "j \<in> set (co_items c)" "itm_id j \<noteq> itm_id i" for j
  proof -
    have "iss_review_item_id s \<noteq> itm_id j" using h(8) j(2) by (simp add: on_current_def)
    then show ?thesis using status_ok_put_issue [OF h(6,7)] p(1,3) j(1) by (simp add: issues_ok_iff keys_ok_def)
  qed
  then show ?case
    using p(3) own version_ok_put_issue [OF _ h(6,7)] by (simp add: issues_ok_iff put_item_ball [OF h(1) i'])
next
  case (issue_revised s c s')
  note h = issue_revised.hyps and p = issue_revised.prems
  have id: "iss_id s' = iss_id s" using h(2) by (simp add: same_issue_def)
  have oc: "on_current j s' = on_current j s" "open_issue s' = open_issue s" for j
    using h by (simp_all add: on_current_def same_issue_def open_issue_def)
  have "issue_status_ok (row_put iss_id s' (co_issues c)) j" if "issue_status_ok (co_issues c) j" for j
  proof -
    have un: "t = s" if "t \<in> set (co_issues c)" "iss_id t = iss_id s" for t
      using that h(1) p(1) unfolding keys_ok_def by (metis key_inj)
    have mem: "t \<in> set (row_put iss_id s' (co_issues c)) \<longleftrightarrow> t = s' \<or> (t \<in> set (co_issues c) \<and> t \<noteq> s)" for t
      using in_set_row_put_iff [OF h(1), of iss_id s'] id un by auto
    show ?thesis using that unfolding issue_status_ok_def mem
      by (metis h(1,4) oc mem)
  qed
  then show ?case using p(3) version_ok_put_issue [OF _ h(1,2)] by (simp add: issues_ok_iff)
next
  case (issue_changed_finalized i c s s')
  note h = issue_changed_finalized.hyps and p = issue_changed_finalized.prems
  have "issue_status_ok (row_put iss_id s' (co_issues c)) j" if j: "j \<in> set (co_items c)" for j
  proof (cases "itm_id j = itm_id i")
    case True
    then have "j = i" using p(1) h(1) j unfolding keys_ok_def by (metis key_inj)
    then show ?thesis using h(2) by (simp add: issue_status_ok_def)
  next
    case False
    then have "iss_review_item_id s \<noteq> itm_id j" using h(5) by (simp add: on_current_def)
    then show ?thesis using status_ok_put_issue [OF h(3,4)] p(1,3) j by (simp add: issues_ok_iff keys_ok_def)
  qed
  then show ?case using p(3) version_ok_put_issue [OF _ h(3,4)] by (simp add: issues_ok_iff)
next
  case (finalized_item i c i' f)
  note h = finalized_item.hyps and p = finalized_item.prems
  have i': "itm_id i' = itm_id i" using h(3) by (simp add: next_item_def)
  then show ?case using p(3) h(11) by (simp add: issues_ok_iff put_item_ball [OF h(1) i'] issue_status_ok_def)
next
  case (finalization_revoked i c i' f f')
  note h = finalization_revoked.hyps and p = finalization_revoked.prems
  have i': "itm_id i' = itm_id i" using h(3) by (simp add: next_item_def)
  then show ?case using p(3) h(10) by (simp add: issues_ok_iff put_item_ball [OF h(1) i'] issue_status_ok_def)
next
  case (items_deleted c K)
  have "issue_status_ok (filter (\<lambda>s. iss_review_item_id s \<notin> K) (co_issues c)) j"
    if "issue_status_ok (co_issues c) j" "itm_id j \<notin> K" for j
    using that by (auto simp: issue_status_ok_def on_current_def)
  moreover have "issue_version_ok (filter (\<lambda>v. ver_review_item_id v \<notin> K) (co_versions c)) s"
    if "issue_version_ok (co_versions c) s" "iss_review_item_id s \<notin> K" for s
    using that by (auto simp: issue_version_ok_def)
  ultimately show ?case using items_deleted(3) by (simp add: issues_ok_iff)
qed

lemma owned_put_item:
  assumes "distinct (map itm_id items)" and "i \<in> set items" and "next_item i i'" and "owned items k p"
  shows "owned (row_put itm_id i' items) k p"
proof -
  have id: "itm_id i' = itm_id i" "itm_project_ref_id i' = itm_project_ref_id i" using assms(3) by (simp_all add: next_item_def)
  obtain j where j: "j \<in> set items" "itm_id j = k" "itm_project_ref_id j = p" using assms(4) unfolding owned_def by blast
  show ?thesis
  proof (cases "itm_id j = itm_id i")
    case True
    then have "j = i" by (rule key_inj [OF assms(1) j(1) assms(2)])
    then show ?thesis using j id unfolding owned_def put_item_bex [OF assms(2) id(1)] by simp
  next
    case False
    then show ?thesis using j unfolding owned_def put_item_bex [OF assms(2) id(1)] by blast
  qed
qed

lemma ownership_put_item:
  assumes "keys_ok c" and "ownership_ok c" and "i \<in> set (co_items c)" and "next_item i i'"
  shows "ownership_ok (c\<lparr>co_items := row_put itm_id i' (co_items c)\<rparr>)"
  using assms owned_put_item [OF _ assms(3,4)] by (simp add: ownership_ok_def keys_ok_def)

lemma owned_self: "i \<in> set items \<Longrightarrow> owned items (itm_id i) (itm_project_ref_id i)"
  unfolding owned_def by blast

lemma owned_put_self: "i \<in> set items \<Longrightarrow> next_item i i' \<Longrightarrow> owned (row_put itm_id i' items) (itm_id i) (itm_project_ref_id i)"
  unfolding owned_def next_item_def by (simp add: put_item_bex)

lemma ownership_issue:
  assumes "\<forall>t\<in>set issues. owned items (iss_review_item_id t) (iss_project_ref_id t)" and "s \<in> set issues" and "same_issue s s'"
  shows "\<forall>t\<in>set (row_put iss_id s' issues). owned items (iss_review_item_id t) (iss_project_ref_id t)"
  using assms by (auto dest!: in_set_row_putD simp: same_issue_def)

lemma ownership_step:
  assumes "review_step c c'" and "keys_ok c" and "ownership_ok c"
  shows "ownership_ok c'"
  using assms
proof (induction rule: review_step.induct)
  case (item_created i c v)
  then show ?case by (auto simp: ownership_ok_def owned_def)
next
  case (item_edited i c i')
  then show ?case by (blast intro: ownership_put_item)
next
  case (version_uploaded i c i' u s v)
  then show ?case
    using ownership_put_item [of c i i'] owned_put_self [of i "co_items c" i'] by (simp add: ownership_ok_def)
next
  case (issues_raised i c i' ss)
  then show ?case
    using ownership_put_item [of c i i'] owned_put_self [of i "co_items c" i']
    by (auto simp: ownership_ok_def on_current_def new_issues_def)
next
  case (issues_raised_finalized i c ss)
  then show ?case using owned_self [of i "co_items c"] by (auto simp: ownership_ok_def on_current_def new_issues_def)
next
  case (issue_changed i c i' s s')
  then have "ownership_ok (c\<lparr>co_items := row_put itm_id i' (co_items c)\<rparr>)" by (blast intro: ownership_put_item)
  then show ?case using issue_changed.hyps ownership_issue [of "co_issues c" _ s s'] by (simp add: ownership_ok_def)
next
  case (issue_revised s c s')
  then show ?case using ownership_issue [of "co_issues c" _ s s'] by (simp add: ownership_ok_def)
next
  case (issue_changed_finalized i c s s')
  then show ?case using ownership_issue [of "co_issues c" _ s s'] by (simp add: ownership_ok_def)
next
  case (finalized_item i c i' f)
  then show ?case
    using ownership_put_item [of c i i'] owned_put_self [of i "co_items c" i'] by (simp add: ownership_ok_def)
next
  case (finalization_revoked i c i' f f')
  then have "ownership_ok (c\<lparr>co_items := row_put itm_id i' (co_items c)\<rparr>)" by (blast intro: ownership_put_item)
  then show ?case using finalization_revoked.hyps by (auto simp: ownership_ok_def dest!: in_set_row_putD)
next
  case (items_deleted c K)
  have "owned (filter (\<lambda>i. itm_id i \<notin> K) (co_items c)) k p" if "owned (co_items c) k p" "k \<notin> K" for k p
    using that by (auto simp: owned_def)
  then show ?case using items_deleted.prems(2) by (simp add: ownership_ok_def)
qed

lemma review_step_ok: "review_step c c' \<Longrightarrow> review_ok c \<Longrightarrow> review_ok c'"
  unfolding review_ok_def
  by (blast intro: keys_step current_step numbering_step authority_step issues_step ownership_step)

lemma review_steps_ok: "review_step\<^sup>*\<^sup>* c c' \<Longrightarrow> review_ok c \<Longrightarrow> review_ok c'"
  by (induction rule: rtranclp_induct) (auto intro: review_step_ok)

end
