(* ===== verification/Views.thy ===== *)
theory Views
  imports Workflow
begin

text \<open>
  The read side the commands share: \<open>project_dto\<close>, \<open>version_dto\<close>,
  \<open>item_dto\<close>, \<open>issue_dto\<close> of
  \<open>src/backend/app/modules/final_cut_review/infra/repositories.py\<close>, and the readiness of a
  playback file, which asks the storage layer.
\<close>

definition project_completion :: "int \<Rightarrow> int \<Rightarrow> completion_status" where
  "project_completion item_count finalized_count =
     (if item_count = 0 then completion_empty
      else if finalized_count = item_count then completion_completed
      else completion_in_progress)"

definition project_dto :: "db \<Rightarrow> project \<Rightarrow> response" where
  "project_dto db project =
     (let item_count = count_rows (\<lambda>i. itm_project_ref_id i = prj_id project) (db_items db);
          finalized_count = count_rows (\<lambda>i. itm_project_ref_id i = prj_id project
             \<and> itm_workflow_status i = finalized) (db_items db)
      in R_Project project (project_completion item_count finalized_count))"

text \<open>\<open>pin_regular_file\<close>: containment first, then what the file system shows.\<close>

definition pin_storage_file :: "env \<Rightarrow> string \<Rightarrow> pin" where
  "pin_storage_file env path_value =
     (case contained_path path_value (cfg_storage_root (env_settings env)) of
        Inl _ \<Rightarrow> Pin_Unsafe
      | Inr p \<Rightarrow> env_pin_storage env p)"

definition playback_file_is_ready :: "env \<Rightarrow> file_object option \<Rightarrow> bool" where
  "playback_file_is_ready env file =
     (case file of
        None \<Rightarrow> False
      | Some f \<Rightarrow>
          (case contained_storage_path (fil_storage_path f) (cfg_storage_root (env_settings env)) (Some (fil_id f)) of
             Inl _ \<Rightarrow> False
           | Inr storage_path \<Rightarrow>
               (case env_pin_storage env storage_path of
                  Pin_File i \<Rightarrow> fid_readable i
                | _ \<Rightarrow> False)))"

definition playback_asset_is_ready :: "env \<Rightarrow> db \<Rightarrow> string option \<Rightarrow> bool" where
  "playback_asset_is_ready env db playback_asset_id =
     (case playback_asset_id of
        None \<Rightarrow> False
      | Some a \<Rightarrow> a \<noteq> '''' \<and> playback_file_is_ready env (get_file db a))"

definition assert_playback_ready :: "env \<Rightarrow> db \<Rightarrow> review_version \<Rightarrow> exn + unit" where
  "assert_playback_ready env db version =
     guard (playback_asset_is_ready env db (ver_playback_asset_id version)) (ReviewError PLAYBACK_NOT_READY)"

definition version_derivative_status ::
  "env \<Rightarrow> string option \<Rightarrow> derivative_task option \<Rightarrow> file_object option \<Rightarrow> asset_status" where
  "version_derivative_status env asset_id task file =
     (let from_file =
        (if asset_id = None \<or> file = None \<or> map_option fil_id file \<noteq> asset_id then asset_failed
         else if playback_file_is_ready env file then asset_ready else asset_failed)
      in case task of
           None \<Rightarrow> from_file
         | Some t \<Rightarrow>
             if mdt_status t = task_queued \<or> mdt_status t = task_running then asset_processing
             else if mdt_status t \<noteq> task_ready \<or> mdt_output_file_id t = None \<or> mdt_output_file_id t \<noteq> asset_id
             then asset_failed
             else from_file)"

definition derivative_task_of :: "db \<Rightarrow> review_version \<Rightarrow> derivative_kind \<Rightarrow> derivative_task option" where
  "derivative_task_of db version kind =
     List.find (\<lambda>t. mdt_project_ref_id t = ver_project_ref_id version
        \<and> mdt_review_item_id t = ver_review_item_id version \<and> mdt_version_id t = ver_id version
        \<and> mdt_kind t = kind) (db_tasks db)"

definition asset_file :: "db \<Rightarrow> string option \<Rightarrow> file_object option" where
  "asset_file db asset_id =
     (case asset_id of None \<Rightarrow> None | Some a \<Rightarrow> if a = '''' then None else get_file db a)"

definition version_dto :: "env \<Rightarrow> db \<Rightarrow> review_version \<Rightarrow> version_view" where
  "version_dto env db version =
     \<lparr>vv_version = version,
      vv_playback_status =
        version_derivative_status env (ver_playback_asset_id version)
          (derivative_task_of db version playback_faststart) (asset_file db (ver_playback_asset_id version)),
      vv_thumbnail_status =
        version_derivative_status env (ver_thumbnail_asset_id version)
          (derivative_task_of db version thumbnail) (asset_file db (ver_thumbnail_asset_id version))\<rparr>"

definition current_issue_count :: "db \<Rightarrow> review_item \<Rightarrow> issue_status \<Rightarrow> int" where
  "current_issue_count db item status =
     count_rows (\<lambda>s. iss_project_ref_id s = itm_project_ref_id item \<and> iss_review_item_id s = itm_id item
        \<and> Some (iss_version_id s) = itm_current_version_id item \<and> iss_status s = status
        \<and> iss_deleted_at s = None) (db_issues db)"

definition item_dto :: "db \<Rightarrow> review_item \<Rightarrow> exn + item_view" where
  "item_dto db item =
     ebind (get_version db (itm_project_ref_id item) (itm_id item) (or_empty (itm_current_version_id item))) (\<lambda>current.
       let history = count_rows (\<lambda>v. ver_review_item_id v = itm_id item) (db_versions db)
       in Inr
         \<lparr>iv_item = item, iv_current_version_no = ver_version_no current,
          iv_ui_status =
            (if itm_workflow_status item = pending_review \<and> ver_version_no current > 1
             then UI_pending_re_review else UI (itm_workflow_status item)),
          iv_unresolved_current_version_count = current_issue_count db item unresolved,
          iv_resolved_current_version_count = current_issue_count db item resolved,
          iv_historical_version_count = max 0 (history - 1),
          iv_is_finalized = (itm_workflow_status item = finalized)\<rparr>)"

definition issue_dto :: "db \<Rightarrow> issue \<Rightarrow> exn + issue_view" where
  "issue_dto db issue =
     ebind (get_revision db (iss_id issue) (iss_current_revision_id issue)) (\<lambda>revision.
     ebind (get_annotation db (iss_project_ref_id issue) (iss_review_item_id issue) (iss_version_id issue)
              (iss_id issue) (rev_annotation_set_id revision)) (\<lambda>annotation.
     Inr \<lparr>sv_issue = issue, sv_revision = revision, sv_annotation = annotation\<rparr>))"

section \<open>What the outbox append leaves alone\<close>

lemma add_event_core:
  "add_event env et c pid aty aid av ids pl db = Inr db' \<Longrightarrow> core_of db' = core_of db"
  using add_event_frame [of env et c pid aty aid av ids pl db db'] by (simp add: core_of_def)

lemma new_id_core: "new_id env pfx db = (x, db') \<Longrightarrow> core_of db' = core_of db"
  by (auto simp: new_id_def core_of_def)

lemma core_put_item:
  "core_of (put_item i db) = (core_of db)\<lparr>co_items := row_put itm_id i (co_items (core_of db))\<rparr>"
  by (simp add: core_of_def put_item_def)

lemma core_put_issue:
  "core_of (put_issue s db) = (core_of db)\<lparr>co_issues := row_put iss_id s (co_issues (core_of db))\<rparr>"
  by (simp add: core_of_def put_issue_def)

lemma core_sel [simp]:
  "co_items (core_of db) = db_items db" "co_issues (core_of db) = db_issues db"
  "co_finalizations (core_of db) = db_finalizations db"
  "co_versions (core_of db) = map strip_assets (db_versions db)"
  by (simp_all add: core_of_def)

section \<open>Sound transitions\<close>

text \<open>
  The contract every command is shown to meet: from a state that satisfies the workflow invariant
  and has an ordered outbox it is, on the core, a sequence of workflow steps, and it keeps the
  outbox in strictly increasing order.
\<close>

definition store_ok :: "db \<Rightarrow> bool" where
  "store_ok db \<longleftrightarrow> review_ok (core_of db) \<and> outbox_ordered db"

definition sound_step :: "db \<Rightarrow> db \<Rightarrow> bool" where
  "sound_step db db' \<longleftrightarrow>
     (store_ok db \<longrightarrow> review_step\<^sup>*\<^sup>* (core_of db) (core_of db') \<and> outbox_ordered db')"

lemma sound_refl [simp, intro]: "sound_step db db"
  by (simp add: sound_step_def store_ok_def)

lemma sound_ok: "sound_step db db' \<Longrightarrow> store_ok db \<Longrightarrow> store_ok db'"
  unfolding sound_step_def store_ok_def using review_steps_ok by blast

lemma sound_trans [trans]: "sound_step a b \<Longrightarrow> sound_step b c \<Longrightarrow> sound_step a c"
  using sound_ok unfolding sound_step_def by (metis rtranclp_trans)

lemma sound_if_ok: "(store_ok db \<Longrightarrow> sound_step db db') \<Longrightarrow> sound_step db db'"
  by (auto simp: sound_step_def)

lemma sound_frame: "core_of db' = core_of db \<Longrightarrow> db_events db' = db_events db \<Longrightarrow> sound_step db db'"
  by (simp add: sound_step_def store_ok_def outbox_ordered_def)

lemma sound_core: "(review_ok (core_of db) \<Longrightarrow> review_step (core_of db) (core_of db')) \<Longrightarrow> db_events db' = db_events db \<Longrightarrow> sound_step db db'"
  by (auto simp: sound_step_def store_ok_def outbox_ordered_def)

lemma sound_event: "add_event env et c pid aty aid av ids pl db = Inr db' \<Longrightarrow> sound_step db db'"
  using add_event_core [of env et c pid aty aid av ids pl db db'] add_event_ordered [of env et c pid aty aid av ids pl db db']
  by (simp add: sound_step_def store_ok_def)

lemma sound_event_after:
  "add_event env et c pid aty aid av ids pl db1 = Inr db' \<Longrightarrow> sound_step db db1 \<Longrightarrow> sound_step db db'"
  using sound_event sound_trans by blast

lemma sound_put [simp, intro]:
  "sound_step db (put_project p db)" "sound_step db (put_editor e db)" "sound_step db (put_task t db)"
  "sound_step db (put_qc_task q db)" "sound_step db (put_package k db)" "sound_step db (put_invalidation n db)"
  by (rule sound_frame; simp add: put_defs core_of_def)+

lemma sound_insert:
  "insert_project p db = Inr db' \<Longrightarrow> sound_step db db'" "insert_editor e db = Inr db' \<Longrightarrow> sound_step db db'"
  "insert_task t db = Inr db' \<Longrightarrow> sound_step db db'" "insert_qc_task q db = Inr db' \<Longrightarrow> sound_step db db'"
  "insert_revision r db = Inr db' \<Longrightarrow> sound_step db db'" "insert_annotation a db = Inr db' \<Longrightarrow> sound_step db db'"
  "insert_message m db = Inr db' \<Longrightarrow> sound_step db db'" "insert_package k db = Inr db' \<Longrightarrow> sound_step db db'"
  "insert_invalidation n db = Inr db' \<Longrightarrow> sound_step db db'"
  by (rule sound_frame; auto simp: insert_defs core_of_def)+

lemma sound_new_id: "new_id env pfx db = (x, db') \<Longrightarrow> sound_step db db'"
  by (rule sound_frame) (auto simp: new_id_def core_of_def)

lemma sound_drawn [simp, intro]: "sound_step db (db\<lparr>db_drawn := n\<rparr>)"
  by (rule sound_frame) (simp_all add: core_of_def)

lemma sound_after_drawn: "sound_step (db\<lparr>db_drawn := n\<rparr>) db' \<Longrightarrow> sound_step db db'"
  using sound_drawn sound_trans by blast

lemma sound_efold:
  assumes "efold f xs db = Inr db'" and "\<And>x a b. x \<in> set xs \<Longrightarrow> f x a = Inr b \<Longrightarrow> sound_step a b"
  shows "sound_step db db'"
  using efold_relation [of f xs db db' sound_step] assms sound_trans by blast

end
