(* ===== verification/Items.thy ===== *)
theory Items
  imports Views Thumbnails
begin

text \<open>
  Items and their versions, as in
  \<open>src/backend/app/modules/final_cut_review/infra/repositories.py\<close>: binding an uploaded file to
  a new item or a next version after the authoritative probe, editing an item, starting the review,
  and giving back an uploaded file that no version uses.
\<close>

section \<open>Binding a file\<close>

definition get_ready_file :: "db \<Rightarrow> string \<Rightarrow> execution_context \<Rightarrow> exn + file_object" where
  "get_ready_file db file_id context =
     (case get_file db file_id of
        None \<Rightarrow> raise VERSION_FILE_NOT_READY
      | Some file \<Rightarrow>
          let principal = ctx_principal context
          in if pr_id principal = None \<or> pr_id principal = Some ''''
                \<or> Some (fil_owner_principal_id file) \<noteq> pr_id principal
                \<or> fil_owner_principal_kind file \<noteq> pr_kind principal
             then raise PRINCIPAL_PERMISSION_DENIED
             else Inr file)"

definition stat_identity :: "file_identity \<Rightarrow> int \<times> int \<times> int \<times> int \<times> int" where
  "stat_identity i = (fid_device i, fid_inode i, fid_ctime_ns i, fid_mtime_ns i, fid_size i)"

text \<open>The part of the probe that runs with the file open.\<close>

definition probe_pinned_file :: "env \<Rightarrow> file_object \<Rightarrow> exn + media_probe" where
  "probe_pinned_file env file =
     (case contained_path (fil_storage_path file) (cfg_storage_root (env_settings env)) of
        Inl _ \<Rightarrow> Inl UnsafeFilePathError
      | Inr path \<Rightarrow>
          (case env_pin_storage env path of
             Pin_Unsafe \<Rightarrow> Inl UnsafeFilePathError
           | Pin_OSError \<Rightarrow> Inl OSError
           | Pin_Missing \<Rightarrow> raise VERSION_FILE_NOT_READY
           | Pin_File before \<Rightarrow>
               if \<not> fid_readable before then Inl OSError
               else if fid_size before \<noteq> file_size (fil_media file) then raise FILE_HASH_MISMATCH
               else
                 ebind (env_probe_media env path) (\<lambda>(probe, after).
                   if stat_identity before \<noteq> stat_identity after then raise FILE_HASH_MISMATCH
                   else Inr probe)))"

definition authoritative_binding_probe :: "env \<Rightarrow> project \<Rightarrow> file_object \<Rightarrow> exn + unit" where
  "authoritative_binding_probe env project file =
     (case (prj_fps_num project, prj_fps_den project) of
        (Some n, Some d) \<Rightarrow>
          ebind (case probe_pinned_file env file of
                   Inl UnsafeFilePathError \<Rightarrow> raise STORAGE_UNAVAILABLE
                 | r \<Rightarrow> r) (\<lambda>probe.
            if (prb_fps_num probe, prb_fps_den probe) \<notin> set ALLOWED_FRAME_RATE_PAIRS
            then raise MEDIA_FRAME_RATE_NOT_ALLOWED
            else if (prb_fps_num probe, prb_fps_den probe) \<noteq> (n, d) then raise MEDIA_FRAME_RATE_MISMATCH
            else if (prb_duration_ms probe, prb_width probe, prb_height probe, prb_fps_num probe, prb_fps_den probe)
                 \<noteq> (duration_ms (fil_media file), width (fil_media file), height (fil_media file),
                    fps_num (fil_media file), fps_den (fil_media file))
            then raise FILE_HASH_MISMATCH
            else Inr ())
      | _ \<Rightarrow> raise PROJECT_FRAME_RATE_REQUIRED)"

definition binding_editor_snapshot :: "db \<Rightarrow> string \<Rightarrow> exn + string \<times> string" where
  "binding_editor_snapshot db editor_id =
     ebind (get_responsible_editor db editor_id) (\<lambda>editor. Inr (edt_id editor, edt_display_name editor))"

definition queued_derivative_task ::
  "env \<Rightarrow> review_version \<Rightarrow> derivative_kind \<Rightarrow> string \<Rightarrow> derivative_task" where
  "queued_derivative_task env version kind task_id =
     \<lparr>mdt_id = task_id, mdt_project_ref_id = ver_project_ref_id version,
      mdt_review_item_id = ver_review_item_id version, mdt_version_id = ver_id version, mdt_kind = kind,
      mdt_status = task_queued, mdt_attempts = 0, mdt_next_attempt_at = None, mdt_lease_id = None,
      mdt_lease_expires_at = None, mdt_output_file_id = None, mdt_error_code = None,
      mdt_failure_details = None, mdt_result_details = None, mdt_created_at = env_now env,
      mdt_updated_at = env_now env\<rparr>"

definition create_version ::
  "env \<Rightarrow> string \<Rightarrow> string \<Rightarrow> file_object \<Rightarrow> string option \<Rightarrow> int \<Rightarrow> string option \<Rightarrow> string option
   \<Rightarrow> string \<Rightarrow> string \<Rightarrow> db \<Rightarrow> exn + review_version \<times> db" where
  "create_version env project_ref_id review_item_id file previous_version_id version_no version_note
     change_summary responsible_editor_id responsible_editor_name_snapshot db =
     (let (vid, db) = new_id env ''ver'' db;
          version =
            \<lparr>ver_id = vid, ver_project_ref_id = project_ref_id, ver_review_item_id = review_item_id,
             ver_previous_version_id = previous_version_id, ver_version_no = version_no,
             ver_version_label = ''V'' @ py_str version_no, ver_is_current = True,
             ver_original_file_id = fil_id file, ver_media = fil_media file,
             ver_responsible_editor_id = Some responsible_editor_id,
             ver_responsible_editor_name_snapshot = Some responsible_editor_name_snapshot,
             ver_playback_asset_id = None, ver_thumbnail_asset_id = None, ver_version_note = version_note,
             ver_change_summary = change_summary, ver_lock_version = 1, ver_created_at = env_now env\<rparr>
      in ebind (insert_version version db) (\<lambda>db.
           let (playback_id, db) = new_id env ''mdt'' db;
               (thumbnail_id, db) = new_id env ''mdt'' db
           in ebind (insert_task (queued_derivative_task env version playback_faststart playback_id) db) (\<lambda>db.
              ebind (insert_task (queued_derivative_task env version thumbnail thumbnail_id) db) (\<lambda>db.
              Inr (version, db)))))"

section \<open>Items\<close>

definition fresh_item :: "env \<Rightarrow> string \<Rightarrow> string \<Rightarrow> string \<Rightarrow> int option \<Rightarrow> string \<Rightarrow> review_item" where
  "fresh_item env iid project_ref_id item_code episode_no title =
     \<lparr>itm_id = iid, itm_project_ref_id = project_ref_id, itm_item_code = item_code,
      itm_episode_no = episode_no, itm_title = title, itm_workflow_status = pending_review,
      itm_current_version_id = None, itm_active_finalization_id = None, itm_lock_version = 1,
      itm_created_at = env_now env, itm_updated_at = env_now env\<rparr>"

definition create_review_item ::
  "env \<Rightarrow> execution_context \<Rightarrow> string \<Rightarrow> string \<Rightarrow> string \<Rightarrow> string \<Rightarrow> int option \<Rightarrow> string \<Rightarrow> string option
   \<Rightarrow> db \<Rightarrow> exn + response \<times> db" where
  "create_review_item env context project_ref_id original_file_id responsible_editor_id item_code episode_no
     title version_note db =
     ebind (get_project db project_ref_id) (\<lambda>project.
     ebind (assert_project_active project) (\<lambda>_.
     ebind (get_ready_file db original_file_id context) (\<lambda>file.
     ebind (authoritative_binding_probe env project file) (\<lambda>_.
     ebind (binding_editor_snapshot db responsible_editor_id) (\<lambda>(editor_id, editor_name).
       let (iid, db) = new_id env ''item'' db;
           item = fresh_item env iid (prj_id project) item_code episode_no title
       in ebind (insert_item item db) (\<lambda>db.
          ebind (create_version env (prj_id project) iid file None 1 version_note None editor_id editor_name db)
            (\<lambda>(version, db).
            let item = item\<lparr>itm_current_version_id := Some (ver_id version), itm_updated_at := env_now env\<rparr>;
                db = put_item item db
            in ebind (add_event env ''review.item.created'' context (prj_id project) ''review_item'' iid
                        (itm_lock_version item) (no_ids\<lparr>ei_review_item_id := Some iid\<rparr>) (JObj []) db) (\<lambda>db.
               ebind (add_event env ''review.version.uploaded'' context (prj_id project) ''review_version''
                        (ver_id version) (ver_lock_version version)
                        (no_ids\<lparr>ei_review_item_id := Some iid, ei_version_id := Some (ver_id version)\<rparr>) (JObj []) db) (\<lambda>db.
               ebind (item_dto db item) (\<lambda>view. Inr (R_Item view, db)))))))))))"

text \<open>An absent field is \<open>None\<close>, a field with value null is \<open>Some None\<close>.\<close>

definition set_item_fields :: "int option option \<Rightarrow> string option option \<Rightarrow> review_item \<Rightarrow> review_item" where
  "set_item_fields episode_no title item =
     (let item = (case episode_no of Some (Some n) \<Rightarrow> item\<lparr>itm_episode_no := Some n\<rparr> | _ \<Rightarrow> item)
      in case title of Some (Some t) \<Rightarrow> item\<lparr>itm_title := t\<rparr> | _ \<Rightarrow> item)"

definition update_review_item ::
  "env \<Rightarrow> execution_context \<Rightarrow> string \<Rightarrow> string \<Rightarrow> int option option \<Rightarrow> string option option \<Rightarrow> int option \<Rightarrow> db
   \<Rightarrow> exn + response \<times> db" where
  "update_review_item env context project_ref_id review_item_id episode_no title expected_version db =
     ebind (guard (episode_no \<noteq> None \<or> title \<noteq> None) (ReviewError VALIDATION_ERROR)) (\<lambda>_.
     ebind (get_project db project_ref_id) (\<lambda>project.
     ebind (assert_project_active project) (\<lambda>_.
     ebind (get_item db (prj_id project) review_item_id) (\<lambda>item.
     ebind (ensure_not_finalized (itm_workflow_status item)) (\<lambda>_.
     ebind (expect_lock (itm_lock_version item) expected_version) (\<lambda>_.
       let item = (set_item_fields episode_no title item)
             \<lparr>itm_lock_version := itm_lock_version item + 1, itm_updated_at := env_now env\<rparr>;
           db = put_item item db
       in ebind (add_event env ''review.item.updated'' context (prj_id project) ''review_item'' (itm_id item)
                   (itm_lock_version item) (no_ids\<lparr>ei_review_item_id := Some (itm_id item)\<rparr>) (JObj []) db) (\<lambda>db.
          ebind (item_dto db item) (\<lambda>view. Inr (R_Item view, db)))))))))"

definition live_issue_count :: "db \<Rightarrow> string \<Rightarrow> string \<Rightarrow> int" where
  "live_issue_count db review_item_id version_id =
     count_rows (\<lambda>s. iss_review_item_id s = review_item_id \<and> iss_version_id s = version_id
        \<and> iss_deleted_at s = None) (db_issues db)"

definition or_summary :: "string option \<Rightarrow> string option \<Rightarrow> string option" where
  "or_summary change_summary supersede_reason =
     (case change_summary of Some s \<Rightarrow> if s = '''' then supersede_reason else Some s | None \<Rightarrow> supersede_reason)"

definition upload_review_version ::
  "env \<Rightarrow> execution_context \<Rightarrow> string \<Rightarrow> string \<Rightarrow> string \<Rightarrow> string \<Rightarrow> string option \<Rightarrow> string option
   \<Rightarrow> string option \<Rightarrow> int option \<Rightarrow> db \<Rightarrow> exn + response \<times> db" where
  "upload_review_version env context project_ref_id review_item_id original_file_id responsible_editor_id
     version_note change_summary supersede_reason expected_version db =
     ebind (get_project db project_ref_id) (\<lambda>project.
     ebind (assert_project_active project) (\<lambda>_.
     ebind (get_item db (prj_id project) review_item_id) (\<lambda>item.
     ebind (expect_lock (itm_lock_version item) expected_version) (\<lambda>_.
     ebind (get_version db (prj_id project) (itm_id item) (or_empty (itm_current_version_id item))) (\<lambda>current.
     ebind (ensure_can_upload_version (itm_workflow_status item) (live_issue_count db (itm_id item) (ver_id current))) (\<lambda>_.
     ebind (get_ready_file db original_file_id context) (\<lambda>file.
     ebind (authoritative_binding_probe env project file) (\<lambda>_.
     ebind (binding_editor_snapshot db responsible_editor_id) (\<lambda>(editor_id, editor_name).
       let db = put_item (item\<lparr>itm_current_version_id := None\<rparr>) db;
           db = db\<lparr>db_versions := map (supersede (itm_id item)) (db_versions db)\<rparr>
       in ebind (create_version env (prj_id project) (itm_id item) file (Some (ver_id current))
                   (ver_version_no current + 1) version_note (or_summary change_summary supersede_reason)
                   editor_id editor_name db) (\<lambda>(version, db).
            let item = item\<lparr>itm_current_version_id := Some (ver_id version), itm_workflow_status := pending_review,
                            itm_lock_version := itm_lock_version item + 1, itm_updated_at := env_now env\<rparr>;
                db = put_item item db
            in ebind (reconcile_project_thumbnail_groups env (prj_id project) False None db) (\<lambda>db.
               ebind (add_event env ''review.version.uploaded'' context (prj_id project) ''review_version''
                        (ver_id version) (ver_lock_version version)
                        (no_ids\<lparr>ei_review_item_id := Some (itm_id item), ei_version_id := Some (ver_id version)\<rparr>)
                        (JObj []) db) (\<lambda>db.
               Inr (R_Version (version_dto env db
                      (case row_get ver_id (ver_id version) (db_versions db) of Some v \<Rightarrow> v | None \<Rightarrow> version)), db)))))))))))))"

definition start_review ::
  "env \<Rightarrow> execution_context \<Rightarrow> string \<Rightarrow> string \<Rightarrow> int option \<Rightarrow> db \<Rightarrow> exn + response \<times> db" where
  "start_review env context project_ref_id review_item_id expected_version db =
     ebind (get_project db project_ref_id) (\<lambda>project.
     ebind (assert_project_active project) (\<lambda>_.
     ebind (get_item db (prj_id project) review_item_id) (\<lambda>item.
     ebind (get_version db (itm_project_ref_id item) (itm_id item) (or_empty (itm_current_version_id item))) (\<lambda>version.
     ebind (assert_playback_ready env db version) (\<lambda>_.
     ebind (expect_lock (itm_lock_version item) expected_version) (\<lambda>_.
     ebind (ensure_not_finalized (itm_workflow_status item)) (\<lambda>_.
       if itm_workflow_status item = pending_review then
         let item = item\<lparr>itm_workflow_status := in_review, itm_lock_version := itm_lock_version item + 1,
                         itm_updated_at := env_now env\<rparr>;
             db = put_item item db
         in ebind (add_event env ''review.session.started'' context (itm_project_ref_id item) ''review_item''
                     (itm_id item) (itm_lock_version item)
                     (no_ids\<lparr>ei_review_item_id := Some (itm_id item), ei_version_id := itm_current_version_id item\<rparr>)
                     (JObj []) db) (\<lambda>db.
            ebind (item_dto db item) (\<lambda>view. Inr (R_Item view, db)))
       else ebind (item_dto db item) (\<lambda>view. Inr (R_Item view, db)))))))))"

section \<open>Files nothing refers to\<close>

definition file_reference_count :: "db \<Rightarrow> string \<Rightarrow> int" where
  "file_reference_count db file_id =
     count_rows (\<lambda>v. ver_original_file_id v = file_id \<or> ver_playback_asset_id v = Some file_id
        \<or> ver_thumbnail_asset_id v = Some file_id) (db_versions db)
     + count_rows (\<lambda>f. fin_original_file_id f = file_id) (db_finalizations db)"

text \<open>The loop over the upload sessions of the file.\<close>

definition detach_uploads :: "env \<Rightarrow> string \<Rightarrow> upload_session list \<Rightarrow> upload_session list" where
  "detach_uploads env file_id uploads =
     List.map_filter (\<lambda>u.
       if upl_file_id u \<noteq> Some file_id then Some u
       else if upl_parts_cleanup_confirmed_at u \<noteq> None \<and> upl_received_parts u = [] then None
       else Some (u\<lparr>upl_file_id := None,
                    upl_parts_cleanup_confirmed_at :=
                      (if upl_received_parts u \<noteq> [] then None else upl_parts_cleanup_confirmed_at u),
                    upl_updated_at := env_now env\<rparr>)) uploads"

definition delete_file_object_if_unreferenced :: "env \<Rightarrow> string \<Rightarrow> db \<Rightarrow> exn + db" where
  "delete_file_object_if_unreferenced env file_id db =
     (case get_file db file_id of
        None \<Rightarrow> Inr db
      | Some file \<Rightarrow>
          if file_reference_count db file_id \<noteq> 0 then Inr db
          else
            ebind (contained_storage_path (fil_storage_path file) (cfg_storage_root (env_settings env)) (Some file_id)) (\<lambda>_.
              Inr (db\<lparr>db_uploads := detach_uploads env file_id (db_uploads db),
                      db_files := filter (\<lambda>f. fil_id f \<noteq> file_id) (db_files db),
                      db_post_file_deletions := db_post_file_deletions db @ [file_id]\<rparr>)))"

definition cleanup_unbound_uploaded_file :: "env \<Rightarrow> string \<Rightarrow> execution_context \<Rightarrow> db \<Rightarrow> exn + bool \<times> db" where
  "cleanup_unbound_uploaded_file env file_id context db =
     (case get_file db file_id of
        None \<Rightarrow> Inr (False, db)
      | Some file \<Rightarrow>
          let principal = ctx_principal context
          in if pr_id principal = None \<or> pr_id principal = Some ''''
                \<or> Some (fil_owner_principal_id file) \<noteq> pr_id principal
                \<or> fil_owner_principal_kind file \<noteq> pr_kind principal
             then Inr (False, db)
             else if count_rows (\<lambda>v. ver_original_file_id v = file_id) (db_versions db) \<noteq> 0 then Inr (False, db)
             else ebind (delete_file_object_if_unreferenced env file_id db) (\<lambda>db. Inr (True, db)))"

section \<open>The commands are sound\<close>

lemma thumbnail_rows_mem: "(v, t) \<in> set (thumbnail_rows db pid) \<Longrightarrow> v \<in> set (db_versions db)"
  by (auto simp: thumbnail_rows_def)

lemma normalize_rows_mem:
  "normalize_rows rows = Inr out \<Longrightarrow> (v, t, d) \<in> set out \<Longrightarrow> (v, t) \<in> set rows"
  by (induction rows arbitrary: out rule: normalize_rows.induct) auto

lemma strip_thumbnail [simp]: "strip_assets (v\<lparr>ver_thumbnail_asset_id := x\<rparr>) = strip_assets v"
  by (simp add: strip_assets_def)

lemma put_version_core:
  assumes "distinct (map ver_id (db_versions db))" and "strip_assets v \<in> set (map strip_assets (db_versions db))"
    and "strip_assets v' = strip_assets v"
  shows "core_of (put_version v' db) = core_of db"
proof -
  have d: "distinct (map ver_id (map strip_assets (db_versions db)))" using assms(1) by (simp add: comp_def)
  have "map strip_assets (row_put ver_id v' (db_versions db)) = row_put ver_id (strip_assets v) (map strip_assets (db_versions db))"
    using map_row_put [of ver_id strip_assets ver_id v'] assms(3) by simp
  also have "\<dots> = map strip_assets (db_versions db)"
    by (rule row_put_id) (rule key_inj [OF d _ assms(2)])
  finally show ?thesis by (simp add: core_of_def put_version_def)
qed

lemma strip_versions_distinct:
  "map strip_assets vs = map strip_assets ws \<Longrightarrow> distinct (map ver_id vs) \<longleftrightarrow> distinct (map ver_id ws)"
proof -
  assume "map strip_assets vs = map strip_assets ws"
  then have "map ver_id (map strip_assets vs) = map ver_id (map strip_assets ws)" by simp
  then show ?thesis by (simp add: comp_def)
qed

lemma reconcile_row_cases:
  assumes "reconcile_row now disc des (v, t, d) db = Inr db'"
  shows "\<exists>t'. db' = put_task t' db \<or> (\<exists>f. db' = put_version (v\<lparr>ver_thumbnail_asset_id := Some f\<rparr>) (put_task t' db))"
proof (cases "td_frame_signature d")
  case None
  then show ?thesis using assms by (auto simp: reconcile_row_def)
next
  case (Some sig)
  then obtain desired where "map_of des (mdt_id t) = Some desired" using assms by (auto simp: reconcile_row_def)
  moreover obtain t' pt where "reconcile_signed now desired d v t = (t', pt)" by fastforce
  ultimately show ?thesis using assms Some by (cases pt) (auto simp: reconcile_row_def)
qed

lemma reconcile_row_core:
  assumes "reconcile_row now disc des (v, t, d) db = Inr db'" and "distinct (map ver_id (db_versions db))"
    and "strip_assets v \<in> set (map strip_assets (db_versions db))"
  shows "core_of db' = core_of db \<and> db_events db' = db_events db"
proof -
  have p: "core_of (put_version (v\<lparr>ver_thumbnail_asset_id := f\<rparr>) (put_task t' db)) = core_of db" for f t'
    using put_version_core [of "put_task t' db" v "v\<lparr>ver_thumbnail_asset_id := f\<rparr>"] assms(2,3)
    by (simp add: put_task_def core_of_def)
  have q: "core_of (put_task t' db) = core_of db" for t' by (simp add: put_task_def core_of_def)
  obtain t' where "db' = put_task t' db \<or> (\<exists>f. db' = put_version (v\<lparr>ver_thumbnail_asset_id := Some f\<rparr>) (put_task t' db))"
    using reconcile_row_cases [OF assms(1)] by blast
  then show ?thesis using p q by (auto simp: put_task_def put_version_def)
qed

lemma reconcile_core:
  assumes "reconcile_project_thumbnail_groups env pid disc ch db = Inr db'" and "keys_ok (core_of db)"
  shows "core_of db' = core_of db \<and> db_events db' = db_events db"
proof -
  have d: "distinct (map ver_id (db_versions db))" using assms(2) by (simp add: keys_ok_def comp_def)
  obtain rows des where rows: "normalize_rows (thumbnail_rows db pid) = Inr rows"
    and f: "efold (reconcile_row (env_now env) disc des) rows db = Inr db'"
    using assms(1) by (auto simp: reconcile_project_thumbnail_groups_def Let_def)
  have mem: "v \<in> set (db_versions db)" if "(v, t, dt) \<in> set rows" for v t dt
    using normalize_rows_mem [OF rows that] thumbnail_rows_mem by blast
  let ?I = "\<lambda>s. core_of s = core_of db \<and> db_events s = db_events db"
  show ?thesis
  proof (rule efold_invariant [OF f, of ?I])
    fix x s t assume x: "x \<in> set rows" and s: "?I s" and t: "reconcile_row (env_now env) disc des x s = Inr t"
    obtain v tk dt where xe: "x = (v, tk, dt)" by (cases x) auto
    have m: "map strip_assets (db_versions s) = map strip_assets (db_versions db)" using s by (simp add: core_of_def)
    have "distinct (map ver_id (db_versions s))" using strip_versions_distinct [OF m] d by simp
    moreover have "strip_assets v \<in> set (map strip_assets (db_versions s))" unfolding m using mem x xe by auto
    ultimately show "?I t" using reconcile_row_core t xe s by metis
  qed simp
qed

lemma reconcile_sound:
  assumes "reconcile_project_thumbnail_groups env pid disc ch db = Inr db'"
  shows "sound_step db db'"
proof (rule sound_if_ok)
  show "sound_step db db'" if "store_ok db"
    using reconcile_core [OF assms] that by (auto simp: store_ok_def review_ok_def intro: sound_frame)
qed

lemma create_version_effect:
  assumes "create_version env pid iid file prev no note summ ed nm db = Inr (v, db')"
  shows "db_versions db' = db_versions db @ [v] \<and> ver_id v \<notin> ver_id ` set (db_versions db)
    \<and> db_items db' = db_items db \<and> db_finalizations db' = db_finalizations db \<and> db_issues db' = db_issues db
    \<and> db_events db' = db_events db
    \<and> ver_project_ref_id v = pid \<and> ver_review_item_id v = iid \<and> ver_previous_version_id v = prev
    \<and> ver_version_no v = no \<and> ver_is_current v \<and> strip_assets v = v"
  using assms
  by (auto simp: create_version_def Let_def new_id_def insert_defs row_insert_Inr_iff strip_assets_def)

lemma strip_supersede: "strip_assets (supersede k v) = supersede k (strip_assets v)"
  by (simp add: supersede_def strip_assets_def)

lemma fresh_item_sel [simp]:
  "itm_id (fresh_item env iid pid code ep title) = iid"
  "itm_project_ref_id (fresh_item env iid pid code ep title) = pid"
  "itm_workflow_status (fresh_item env iid pid code ep title) = pending_review"
  "itm_active_finalization_id (fresh_item env iid pid code ep title) = None"
  by (simp_all add: fresh_item_def)

lemma add_item_sound:
  assumes ins: "insert_item i0 db = Inr db2"
    and cv: "create_version env (itm_project_ref_id i0) (itm_id i0) fl None 1 note None ed nm db2 = Inr (v, db3)"
    and i0: "itm_workflow_status i0 = pending_review" "itm_active_finalization_id i0 = None"
    and i: "i = i0\<lparr>itm_current_version_id := Some (ver_id v), itm_updated_at := now\<rparr>"
  shows "sound_step db (put_item i db3)"
proof -
  note eff = create_version_effect [OF cv]
  have db2: "db_items db2 = db_items db @ [i0]" "itm_id i0 \<notin> itm_id ` set (db_items db)" "db_versions db2 = db_versions db"
    "db_finalizations db2 = db_finalizations db" "db_issues db2 = db_issues db" "db_events db2 = db_events db"
    using ins by (auto simp: insert_item_def row_insert_Inr_iff)
  have core: "core_of (put_item i db3) = (core_of db)\<lparr>co_items := co_items (core_of db) @ [i], co_versions := co_versions (core_of db) @ [v]\<rparr>"
    using eff db2 row_put_fresh [of itm_id i "db_items db" i0] by (simp add: core_of_def put_item_def i)
  show ?thesis
  proof (rule sound_core)
    have "ver_id v \<notin> ver_id ` set (co_versions (core_of db))" using eff db2(3) by (auto simp: core_of_def)
    then show "review_step (core_of db) (core_of (put_item i db3))"
      unfolding core by (intro item_created) (use eff db2(2) i0 i in auto)
    show "db_events (put_item i db3) = db_events db" using eff db2 by (simp add: put_item_def)
  qed
qed

lemma create_review_item_sound:
  assumes "create_review_item env c pid fid eid code ep title note db = Inr (r, db')"
  shows "sound_step db db'"
proof -
  obtain iid db1 where n: "new_id env ''item'' db = (iid, db1)" by fastforce
  from assms n obtain project :: project and fl ed nm db2 v db3 db4 where
    ins: "insert_item (fresh_item env iid (prj_id project) code ep title) db1 = Inr db2"
    and cv: "create_version env (prj_id project) iid fl None 1 note None ed nm db2 = Inr (v, db3)"
    and e1: "sound_step (put_item ((fresh_item env iid (prj_id project) code ep title)\<lparr>itm_current_version_id := Some (ver_id v),
        itm_updated_at := env_now env\<rparr>) db3) db4"
    and e2: "sound_step db4 db'"
    by (auto simp: create_review_item_def Let_def dest!: sound_event)
  have "sound_step db db1" by (rule sound_new_id [OF n])
  also have "sound_step db1 (put_item ((fresh_item env iid (prj_id project) code ep title)\<lparr>itm_current_version_id := Some (ver_id v),
        itm_updated_at := env_now env\<rparr>) db3)"
    by (rule add_item_sound [OF ins]) (use cv in auto)
  also note e1
  also note e2
  finally show ?thesis .
qed

lemma set_item_fields_sel [simp]:
  "itm_id (set_item_fields e t i) = itm_id i" "itm_project_ref_id (set_item_fields e t i) = itm_project_ref_id i"
  "itm_current_version_id (set_item_fields e t i) = itm_current_version_id i"
  "itm_active_finalization_id (set_item_fields e t i) = itm_active_finalization_id i"
  "itm_workflow_status (set_item_fields e t i) = itm_workflow_status i"
  "itm_lock_version (set_item_fields e t i) = itm_lock_version i" "itm_item_code (set_item_fields e t i) = itm_item_code i"
  by (simp_all add: set_item_fields_def Let_def split: option.splits)

lemma item_edited_sound:
  assumes "i \<in> set (db_items db)" and "itm_workflow_status i \<noteq> finalized" and "next_item i i'"
    and "itm_current_version_id i' = itm_current_version_id i"
    and "itm_active_finalization_id i' = itm_active_finalization_id i"
    and "itm_workflow_status i' = itm_workflow_status i
       \<or> (itm_workflow_status i = pending_review \<and> itm_workflow_status i' = in_review)"
  shows "sound_step db (put_item i' db)"
  by (rule sound_core, unfold core_put_item, rule item_edited [where i = i]) (use assms in \<open>auto simp: put_item_def\<close>)

lemma update_review_item_sound:
  assumes "update_review_item env c pid iid ep title e db = Inr (r, db')"
  shows "sound_step db db'"
proof -
  from assms obtain i where i: "i \<in> set (db_items db)" "itm_workflow_status i \<noteq> finalized"
    and ev: "sound_step (put_item ((set_item_fields ep title i)\<lparr>itm_lock_version := itm_lock_version i + 1,
       itm_updated_at := env_now env\<rparr>) db) db'"
    by (auto simp: update_review_item_def Let_def dest!: get_item_InrD sound_event)
  show ?thesis
    by (rule sound_trans [OF item_edited_sound [OF i] ev]) (simp_all add: next_item_def)
qed

lemma start_review_sound:
  assumes "start_review env c pid iid e db = Inr (r, db')"
  shows "sound_step db db'"
proof -
  from assms consider "db' = db" | i where "i \<in> set (db_items db)" "itm_workflow_status i = pending_review"
    "sound_step (put_item (i\<lparr>itm_workflow_status := in_review, itm_lock_version := itm_lock_version i + 1,
       itm_updated_at := env_now env\<rparr>) db) db'"
    by (auto simp: start_review_def Let_def dest!: get_item_InrD sound_event split: if_splits)
  then show ?thesis
  proof cases
    case (2 i)
    show ?thesis
      by (rule sound_trans [OF item_edited_sound [OF 2(1)] 2(3)]) (use 2 in \<open>simp_all add: next_item_def\<close>)
  qed simp
qed

lemma supersede_put:
  assumes "review_ok (core_of db)" and "i \<in> set (db_items db)" and "next_item i i'" and "itm_workflow_status i \<noteq> finalized"
    and "u \<in> set (db_versions db)" "itm_current_version_id i = Some (ver_id u)"
    and "live_issue_count db (itm_id i) (ver_id u) \<ge> 1"
    and cv: "create_version env (itm_project_ref_id i) (itm_id i) fl (Some (ver_id u)) (ver_version_no u + 1) note summ ed nm
      (put_item i0 db\<lparr>db_versions := map (supersede (itm_id i)) (db_versions db)\<rparr>) = Inr (v, db3)"
    and i0: "itm_id i0 = itm_id i"
    and i': "itm_current_version_id i' = Some (ver_id v)" "itm_workflow_status i' = pending_review"
      "itm_active_finalization_id i' = itm_active_finalization_id i"
  shows "review_step (core_of db) (core_of (put_item i' db3))"
proof -
  note eff = create_version_effect [OF cv]
  have id': "itm_id i' = itm_id i" using assms(3) by (simp add: next_item_def)
  have "row_put itm_id i' (row_put itm_id i0 (db_items db)) = row_put itm_id i' (db_items db)"
    using i0 id' by (simp add: row_put_def comp_def if_distrib cong: if_cong)
  then have core: "core_of (put_item i' db3) = (core_of db)\<lparr>co_items := row_put itm_id i' (co_items (core_of db)),
      co_versions := map (supersede (itm_id i)) (co_versions (core_of db)) @ [v]\<rparr>"
    using eff by (simp add: core_of_def put_item_def strip_supersede)
  obtain s where s: "s \<in> set (db_issues db)" "iss_review_item_id s = itm_id i" "iss_version_id s = ver_id u" "iss_deleted_at s = None"
  proof -
    have "0 < live_issue_count db (itm_id i) (ver_id u)" using assms(7) by simp
    then show ?thesis using that unfolding live_issue_count_def count_rows_pos_iff by blast
  qed
  have "strip_assets u \<in> set (co_versions (core_of db))" using assms(5) by simp
  moreover have "ver_id v \<notin> ver_id ` set (co_versions (core_of db))"
    using eff by (auto simp: put_item_def image_iff)
  ultimately show ?thesis unfolding core
    by (intro version_uploaded [where i = i and s = s and u = "strip_assets u"])
      (use eff assms(2,3,4,6) s i' in \<open>auto simp: on_current_def\<close>)
qed

lemma upload_review_version_sound:
  assumes "upload_review_version env c pid iid fid eid note summ reason e db = Inr (r, db')"
  shows "sound_step db db'"
proof -
  from assms obtain project :: project and i u fl ed nm v db3 db4 where
    i: "i \<in> set (db_items db)" "itm_project_ref_id i = prj_id project" "itm_workflow_status i \<noteq> finalized"
    and u: "u \<in> set (db_versions db)" "ver_id u = or_empty (itm_current_version_id i)"
    and n: "live_issue_count db (itm_id i) (ver_id u) \<ge> 1"
    and cv: "create_version env (prj_id project) (itm_id i) fl (Some (ver_id u)) (ver_version_no u + 1) note
      (or_summary summ reason) ed nm
      (put_item (i\<lparr>itm_current_version_id := None\<rparr>) db\<lparr>db_versions := map (supersede (itm_id i)) (db_versions db)\<rparr>) = Inr (v, db3)"
    and re: "reconcile_project_thumbnail_groups env (prj_id project) False None
      (put_item (i\<lparr>itm_current_version_id := Some (ver_id v), itm_workflow_status := pending_review,
         itm_lock_version := itm_lock_version i + 1, itm_updated_at := env_now env\<rparr>) db3) = Inr db4"
    and ev: "sound_step db4 db'"
    by (auto simp: upload_review_version_def Let_def put_item_def dest!: get_item_InrD get_version_InrD sound_event)
  let ?i = "i\<lparr>itm_current_version_id := Some (ver_id v), itm_workflow_status := pending_review,
         itm_lock_version := itm_lock_version i + 1, itm_updated_at := env_now env\<rparr>"
  have "sound_step db (put_item ?i db3)"
  proof (rule sound_core)
    assume ok: "review_ok (core_of db)"
    then obtain w :: review_version where "itm_current_version_id i = Some (ver_id w)"
      using current_okD [of "core_of db" i] i(1) by (auto simp: review_ok_def points_to_def)
    then have "itm_current_version_id i = Some (ver_id u)" using u(2) by (simp add: or_empty_def)
    then show "review_step (core_of db) (core_of (put_item ?i db3))"
      using ok i u(1) n cv
      by (intro supersede_put [where u = u and i = i and ?i0.0 = "i\<lparr>itm_current_version_id := None\<rparr>"]) (auto simp: next_item_def)
  next
    show "db_events (put_item ?i db3) = db_events db" using create_version_effect [OF cv] by (simp add: put_item_def)
  qed
  also have "sound_step (put_item ?i db3) db4" by (rule reconcile_sound [OF re])
  also note ev
  finally show ?thesis .
qed

lemma delete_file_sound: "delete_file_object_if_unreferenced env fid db = Inr db' \<Longrightarrow> sound_step db db'"
  by (rule sound_frame)
    (auto simp: delete_file_object_if_unreferenced_def core_of_def split: option.splits if_splits)

lemma cleanup_unbound_sound: "cleanup_unbound_uploaded_file env fid c db = Inr (b, db') \<Longrightarrow> sound_step db db'"
  by (auto simp: cleanup_unbound_uploaded_file_def Let_def dest: delete_file_sound split: option.splits if_splits)

end
