(* ===== verification/Issues.thy ===== *)
theory Issues
  imports Items
begin

text \<open>
  Review issues, as in
  \<open>src/backend/app/modules/final_cut_review/infra/repositories.py\<close> and
  \<open>infra/issue_workflow.py\<close>: raising, revising, discussing, resolving, reopening and
  deleting an issue, and the synchronisation of the item's status with its open issues. On a
  finalized item only issues that the technical quality control produced stay writable.
\<close>

definition sync_item_workflow_for_current_issues :: "env \<Rightarrow> db \<Rightarrow> review_item \<Rightarrow> exn + review_item" where
  "sync_item_workflow_for_current_issues env db item =
     (if itm_workflow_status item = finalized then raise REVIEW_ITEM_FINALIZED
      else
        (case itm_current_version_id item of
           None \<Rightarrow> raise RESOURCE_STATE_CONFLICT
         | Some current_version_id \<Rightarrow>
             if current_version_id = '''' then raise RESOURCE_STATE_CONFLICT
             else
               let unresolved_count = count_rows (\<lambda>s. iss_review_item_id s = itm_id item
                     \<and> iss_version_id s = current_version_id \<and> iss_status s = unresolved
                     \<and> iss_deleted_at s = None) (db_issues db)
               in Inr (item\<lparr>itm_workflow_status := (if unresolved_count > 0 then changes_requested else in_review),
                            itm_lock_version := itm_lock_version item + 1,
                            itm_updated_at := env_now env\<rparr>)))"

definition technical_qc_issue_is_linked :: "db \<Rightarrow> issue \<Rightarrow> bool" where
  "technical_qc_issue_is_linked db issue =
     list_ex (\<lambda>f. qcf_issue_id f = Some (iss_id issue) \<and> qcf_project_ref_id f = iss_project_ref_id issue
        \<and> qcf_review_item_id f = iss_review_item_id issue \<and> qcf_version_id f = iss_version_id issue)
       (db_qc_findings db)"

definition ensure_issue_writable :: "db \<Rightarrow> review_item \<Rightarrow> issue \<Rightarrow> exn + unit" where
  "ensure_issue_writable db item issue =
     (if itm_workflow_status item = finalized \<and> technical_qc_issue_is_linked db issue then Inr ()
      else ensure_not_finalized (itm_workflow_status item))"

record annotation_input =
  ai_canvas_width :: int
  ai_canvas_height :: int
  ai_video_width :: int
  ai_video_height :: int
  ai_shapes :: "json list"

definition create_annotation_if_present ::
  "env \<Rightarrow> issue \<Rightarrow> annotation_input option \<Rightarrow> db \<Rightarrow> exn + string option \<times> db" where
  "create_annotation_if_present env issue annotation db =
     (case annotation of
        None \<Rightarrow> Inr (None, db)
      | Some a \<Rightarrow>
          let (aid, db) = new_id env ''ann'' db
          in ebind (insert_annotation
               \<lparr>ann_id = aid, ann_project_ref_id = iss_project_ref_id issue,
                ann_review_item_id = iss_review_item_id issue, ann_version_id = iss_version_id issue,
                ann_issue_id = iss_id issue, ann_timestamp_ms = iss_timestamp_ms issue,
                ann_frame_number = iss_frame_number issue, ann_canvas_width = ai_canvas_width a,
                ann_canvas_height = ai_canvas_height a, ann_video_width = ai_video_width a,
                ann_video_height = ai_video_height a, ann_shapes = ai_shapes a, ann_created_at = env_now env\<rparr> db)
               (\<lambda>db. Inr (Some aid, db)))"

definition issue_ids :: "issue \<Rightarrow> event_ids" where
  "issue_ids issue = no_ids\<lparr>ei_review_item_id := Some (iss_review_item_id issue),
     ei_version_id := Some (iss_version_id issue), ei_issue_id := Some (iss_id issue)\<rparr>"

definition issue_event :: "env \<Rightarrow> string \<Rightarrow> execution_context \<Rightarrow> issue \<Rightarrow> db \<Rightarrow> exn + db" where
  "issue_event env event_type context issue db =
     add_event env event_type context (iss_project_ref_id issue) ''review_issue'' (iss_id issue)
       (iss_lock_version issue) (issue_ids issue) (JObj []) db"

definition record_review_issue_created ::
  "env \<Rightarrow> execution_context \<Rightarrow> review_item \<Rightarrow> issue \<Rightarrow> bool \<Rightarrow> db \<Rightarrow> exn + db" where
  "record_review_issue_created env context item issue started_review db =
     ebind (if started_review
            then add_event env ''review.session.started'' context (itm_project_ref_id item) ''review_item''
                   (itm_id item) (itm_lock_version item)
                   (no_ids\<lparr>ei_review_item_id := Some (itm_id item), ei_version_id := Some (iss_version_id issue)\<rparr>)
                   (JObj []) db
            else Inr db) (\<lambda>db.
     issue_event env ''review.issue.created'' context issue db)"

definition fresh_issue ::
  "env \<Rightarrow> string \<Rightarrow> string \<Rightarrow> review_item \<Rightarrow> review_version \<Rightarrow> int \<Rightarrow> int \<Rightarrow> int \<Rightarrow> issue" where
  "fresh_issue env issue_id revision_id item version issue_no timestamp_ms frame_number =
     \<lparr>iss_id = issue_id, iss_project_ref_id = itm_project_ref_id item, iss_review_item_id = itm_id item,
      iss_version_id = ver_id version, iss_issue_no = issue_no, iss_status = unresolved,
      iss_current_revision_id = revision_id, iss_timestamp_ms = timestamp_ms,
      iss_frame_number = frame_number, iss_lock_version = 1, iss_deleted_at = None,
      iss_created_at = env_now env, iss_updated_at = env_now env\<rparr>"

definition issue_revision ::
  "env \<Rightarrow> issue \<Rightarrow> string \<Rightarrow> int \<Rightarrow> string \<Rightarrow> string option \<Rightarrow> revision" where
  "issue_revision env issue revision_id revision_no content annotation_set_id =
     \<lparr>rev_id = revision_id, rev_project_ref_id = iss_project_ref_id issue,
      rev_review_item_id = iss_review_item_id issue, rev_version_id = iss_version_id issue,
      rev_issue_id = iss_id issue, rev_revision_no = revision_no, rev_content = content,
      rev_annotation_set_id = annotation_set_id, rev_created_at = env_now env\<rparr>"

definition create_review_issue ::
  "env \<Rightarrow> execution_context \<Rightarrow> string \<Rightarrow> string \<Rightarrow> string \<Rightarrow> int \<Rightarrow> int \<Rightarrow> string \<Rightarrow> annotation_input option
   \<Rightarrow> int option \<Rightarrow> db \<Rightarrow> exn + response \<times> db" where
  "create_review_issue env context project_ref_id review_item_id version_id timestamp_ms frame_number content
     annotation expected_version db =
     ebind (get_project db project_ref_id) (\<lambda>project.
     ebind (assert_project_active project) (\<lambda>_.
     ebind (get_item db (prj_id project) review_item_id) (\<lambda>item.
     ebind (expect_lock (itm_lock_version item) expected_version) (\<lambda>_.
     ebind (get_version db (itm_project_ref_id item) (itm_id item) version_id) (\<lambda>version.
     ebind (ensure_current_version (ver_id version) (or_empty (itm_current_version_id item))) (\<lambda>_.
     ebind (assert_playback_ready env db version) (\<lambda>_.
     ebind (ensure_not_finalized (itm_workflow_status item)) (\<lambda>_.
       let started_review = (itm_workflow_status item = pending_review);
           item = (if itm_workflow_status item = pending_review then item\<lparr>itm_workflow_status := in_review\<rparr> else item);
           issue_no = max0 (map iss_issue_no (filter (\<lambda>s. iss_review_item_id s = itm_id item) (db_issues db))) + 1;
           (issue_id, db) = new_id env ''iss'' db;
           (revision_id, db) = new_id env ''rev'' db;
           issue = fresh_issue env issue_id revision_id item version issue_no timestamp_ms frame_number
       in ebind (insert_issue issue db) (\<lambda>db.
          ebind (create_annotation_if_present env issue annotation db) (\<lambda>(annotation_id, db).
          ebind (insert_revision (issue_revision env issue revision_id 1 content annotation_id) db) (\<lambda>db.
          ebind (sync_item_workflow_for_current_issues env db item) (\<lambda>item.
          ebind (record_review_issue_created env context item issue started_review (put_item item db)) (\<lambda>db.
          ebind (issue_dto db issue) (\<lambda>view. Inr (R_Issue view, db)))))))))))))))"

text \<open>The prologue of the commands on one issue.\<close>

definition issue_target ::
  "db \<Rightarrow> string \<Rightarrow> string \<Rightarrow> string \<Rightarrow> string \<Rightarrow> bool \<Rightarrow> exn + review_item \<times> issue" where
  "issue_target db project_ref_id review_item_id version_id issue_id include_deleted =
     ebind (get_project db project_ref_id) (\<lambda>project.
     ebind (assert_project_active project) (\<lambda>_.
     ebind (get_item db (prj_id project) review_item_id) (\<lambda>item.
     ebind (get_issue db (prj_id project) (itm_id item) version_id issue_id include_deleted) (\<lambda>issue.
     Inr (item, issue)))))"

definition update_review_issue ::
  "env \<Rightarrow> execution_context \<Rightarrow> string \<Rightarrow> string \<Rightarrow> string \<Rightarrow> string \<Rightarrow> string option \<Rightarrow> annotation_input option
   \<Rightarrow> int option \<Rightarrow> db \<Rightarrow> exn + response \<times> db" where
  "update_review_issue env context project_ref_id review_item_id version_id issue_id content annotation
     expected_version db =
     ebind (issue_target db project_ref_id review_item_id version_id issue_id False) (\<lambda>(item, issue).
     ebind (ensure_issue_writable db item issue) (\<lambda>_.
     ebind (ensure_current_version (iss_version_id issue) (or_empty (itm_current_version_id item))) (\<lambda>_.
     ebind (expect_lock (iss_lock_version issue) expected_version) (\<lambda>_.
     ebind (get_revision db (iss_id issue) (iss_current_revision_id issue)) (\<lambda>current_revision.
     ebind (create_annotation_if_present env issue annotation db) (\<lambda>(annotation_id, db).
       let (revision_id, db) = new_id env ''rev'' db;
           revision = issue_revision env issue revision_id (rev_revision_no current_revision + 1)
             (case content of Some s \<Rightarrow> if s = '''' then rev_content current_revision else s
              | None \<Rightarrow> rev_content current_revision)
             (if annotation_id \<noteq> None then annotation_id else rev_annotation_set_id current_revision)
       in ebind (insert_revision revision db) (\<lambda>db.
            let issue = issue\<lparr>iss_current_revision_id := revision_id,
                              iss_lock_version := iss_lock_version issue + 1, iss_updated_at := env_now env\<rparr>;
                db = put_issue issue db
            in ebind (issue_event env ''review.issue.updated'' context issue db) (\<lambda>db.
               ebind (issue_dto db issue) (\<lambda>view. Inr (R_Issue view, db))))))))))"

definition add_review_message ::
  "env \<Rightarrow> execution_context \<Rightarrow> string \<Rightarrow> string \<Rightarrow> string \<Rightarrow> string \<Rightarrow> string \<Rightarrow> db \<Rightarrow> exn + response \<times> db" where
  "add_review_message env context project_ref_id review_item_id version_id issue_id content db =
     ebind (issue_target db project_ref_id review_item_id version_id issue_id False) (\<lambda>(item, issue).
     ebind (ensure_not_finalized (itm_workflow_status item)) (\<lambda>_.
     ebind (ensure_current_version (iss_version_id issue) (or_empty (itm_current_version_id item))) (\<lambda>_.
       let (mid, db) = new_id env ''msg'' db;
           message =
             \<lparr>msg_id = mid, msg_project_ref_id = iss_project_ref_id issue,
              msg_review_item_id = iss_review_item_id issue, msg_version_id = iss_version_id issue,
              msg_issue_id = iss_id issue, msg_content = content, msg_created_at = env_now env\<rparr>
       in ebind (insert_message message db) (\<lambda>db.
          ebind (issue_event env ''review.issue.message_added'' context issue db) (\<lambda>db.
          Inr (R_Message message, db))))))"

text \<open>The common end of resolving, reopening and deleting: write the issue, synchronise, log.\<close>

definition write_issue_and_sync ::
  "env \<Rightarrow> execution_context \<Rightarrow> string \<Rightarrow> review_item \<Rightarrow> issue \<Rightarrow> db \<Rightarrow> exn + response \<times> db" where
  "write_issue_and_sync env context event_type item issue db =
     (let db = put_issue issue db
      in ebind (if itm_workflow_status item \<noteq> finalized
                then ebind (sync_item_workflow_for_current_issues env db item) (\<lambda>item. Inr (put_item item db))
                else Inr db) (\<lambda>db.
         ebind (issue_event env event_type context issue db) (\<lambda>db.
         ebind (issue_dto db issue) (\<lambda>view. Inr (R_Issue view, db)))))"

definition resolve_issue ::
  "env \<Rightarrow> execution_context \<Rightarrow> string \<Rightarrow> string \<Rightarrow> string \<Rightarrow> string \<Rightarrow> int option \<Rightarrow> db \<Rightarrow> exn + response \<times> db" where
  "resolve_issue env context project_ref_id review_item_id version_id issue_id expected_version db =
     ebind (issue_target db project_ref_id review_item_id version_id issue_id False) (\<lambda>(item, issue).
     ebind (ensure_issue_writable db item issue) (\<lambda>_.
     ebind (ensure_current_version (iss_version_id issue) (or_empty (itm_current_version_id item))) (\<lambda>_.
     ebind (expect_lock (iss_lock_version issue) expected_version) (\<lambda>_.
       if iss_status issue = resolved then ebind (issue_dto db issue) (\<lambda>view. Inr (R_Issue view, db))
       else
         write_issue_and_sync env context ''review.issue.resolved'' item
           (issue\<lparr>iss_status := resolved, iss_lock_version := iss_lock_version issue + 1,
                  iss_updated_at := env_now env\<rparr>) db))))"

definition reopen_issue ::
  "env \<Rightarrow> execution_context \<Rightarrow> string \<Rightarrow> string \<Rightarrow> string \<Rightarrow> string \<Rightarrow> int option \<Rightarrow> db \<Rightarrow> exn + response \<times> db" where
  "reopen_issue env context project_ref_id review_item_id version_id issue_id expected_version db =
     ebind (issue_target db project_ref_id review_item_id version_id issue_id False) (\<lambda>(item, issue).
     ebind (ensure_not_finalized (itm_workflow_status item)) (\<lambda>_.
     ebind (ensure_current_version (iss_version_id issue) (or_empty (itm_current_version_id item))) (\<lambda>_.
     ebind (expect_lock (iss_lock_version issue) expected_version) (\<lambda>_.
       if iss_status issue = unresolved then ebind (issue_dto db issue) (\<lambda>view. Inr (R_Issue view, db))
       else
         write_issue_and_sync env context ''review.issue.reopened'' item
           (issue\<lparr>iss_status := unresolved, iss_lock_version := iss_lock_version issue + 1,
                  iss_updated_at := env_now env\<rparr>) db))))"

definition soft_delete_issue ::
  "env \<Rightarrow> execution_context \<Rightarrow> string \<Rightarrow> string \<Rightarrow> string \<Rightarrow> string \<Rightarrow> int option \<Rightarrow> db \<Rightarrow> exn + response \<times> db" where
  "soft_delete_issue env context project_ref_id review_item_id version_id issue_id expected_version db =
     ebind (issue_target db project_ref_id review_item_id version_id issue_id True) (\<lambda>(item, issue).
     ebind (ensure_issue_writable db item issue) (\<lambda>_.
     ebind (ensure_current_version (iss_version_id issue) (or_empty (itm_current_version_id item))) (\<lambda>_.
     ebind (expect_lock (iss_lock_version issue) expected_version) (\<lambda>_.
     ebind (guard (iss_deleted_at issue = None) (ReviewError RESOURCE_STATE_CONFLICT)) (\<lambda>_.
       write_issue_and_sync env context ''review.issue.deleted'' item
         (issue\<lparr>iss_deleted_at := Some (env_now env), iss_lock_version := iss_lock_version issue + 1,
                iss_updated_at := env_now env\<rparr>) db)))))"

section \<open>The commands are sound\<close>

lemma issue_target_InrD:
  "issue_target db pid iid vid sid del = Inr (i, s) \<Longrightarrow>
     i \<in> set (db_items db) \<and> itm_id i = iid \<and> itm_project_ref_id i = pid \<and> s \<in> set (db_issues db)
     \<and> iss_id s = sid \<and> iss_review_item_id s = iid \<and> iss_version_id s = vid \<and> iss_project_ref_id s = pid
     \<and> (\<not> del \<longrightarrow> iss_deleted_at s = None)"
  by (auto simp: issue_target_def get_project_Inr dest!: get_item_InrD get_issue_InrD row_get_SomeD)

lemma issue_event_sound: "issue_event env et c s db = Inr db' \<Longrightarrow> sound_step db db'"
  unfolding issue_event_def by (rule sound_event)

lemma create_annotation_sound: "create_annotation_if_present env s a db = Inr (x, db') \<Longrightarrow> sound_step db db'"
  by (auto simp: create_annotation_if_present_def Let_def dest!: sound_insert sound_new_id
        split: option.splits prod.splits intro: sound_trans)

lemma create_annotation_frame:
  "create_annotation_if_present env s a db = Inr (x, db') \<Longrightarrow> core_of db' = core_of db \<and> db_events db' = db_events db"
  by (auto simp: create_annotation_if_present_def Let_def new_id_def insert_defs core_of_def split: option.splits)

text \<open>What the synchronisation does to the item: the status the open issues call for.\<close>

lemma sync_effect:
  assumes "sync_item_workflow_for_current_issues env db i = Inr i'"
  shows "next_item i i' \<and> itm_current_version_id i' = itm_current_version_id i
    \<and> itm_active_finalization_id i' = itm_active_finalization_id i \<and> itm_workflow_status i \<noteq> finalized
    \<and> itm_workflow_status i' = synced_status (db_issues db) i"
proof -
  obtain v where v: "itm_current_version_id i = Some v" using assms
    by (auto simp: sync_item_workflow_for_current_issues_def split: if_splits option.splits)
  have "0 < count_rows (\<lambda>s. iss_review_item_id s = itm_id i \<and> iss_version_id s = v \<and> iss_status s = unresolved
      \<and> iss_deleted_at s = None) (db_issues db) \<longleftrightarrow> list_ex (\<lambda>s. on_current i s \<and> open_issue s) (db_issues db)"
    using v by (auto simp: count_rows_pos_iff list_ex_iff on_current_def open_issue_def)
  then show ?thesis using assms v
    by (auto simp: sync_item_workflow_for_current_issues_def next_item_def synced_status_def Let_def split: if_splits)
qed

lemma write_issue_and_sync_sound:
  assumes w: "write_issue_and_sync env c et i s' db = Inr (r, db')"
    and i: "i \<in> set (db_items db)" and s: "s \<in> set (db_issues db)" "same_issue s s'" "on_current i s"
  shows "sound_step db db'"
proof (cases "itm_workflow_status i = finalized")
  case True
  then have "sound_step (put_issue s' db) db'"
    using w by (auto simp: write_issue_and_sync_def Let_def dest!: issue_event_sound)
  moreover have "sound_step db (put_issue s' db)"
    by (rule sound_core, unfold core_put_issue, rule issue_changed_finalized [where i = i and s = s])
      (use i s True in \<open>auto simp: put_issue_def\<close>)
  ultimately show ?thesis using sound_trans by blast
next
  case False
  then obtain i' where sy: "sync_item_workflow_for_current_issues env (put_issue s' db) i = Inr i'"
    and ev: "sound_step (put_item i' (put_issue s' db)) db'"
    using w by (auto simp: write_issue_and_sync_def Let_def dest!: issue_event_sound)
  note eff = sync_effect [OF sy]
  have "sound_step db (put_item i' (put_issue s' db))"
  proof (rule sound_core)
    have "core_of (put_item i' (put_issue s' db)) =
        (core_of db)\<lparr>co_items := row_put itm_id i' (co_items (core_of db)), co_issues := row_put iss_id s' (co_issues (core_of db))\<rparr>"
      by (simp add: core_of_def put_item_def put_issue_def)
    then show "review_step (core_of db) (core_of (put_item i' (put_issue s' db)))"
      by (simp only:, intro issue_changed [where i = i and s = s]) (use eff i s False in \<open>auto simp: put_issue_def\<close>)
  qed (simp add: put_item_def put_issue_def)
  then show ?thesis using ev sound_trans by blast
qed

lemma on_current_target:
  assumes "issue_target db pid iid vid sid del = Inr (i, s)" and "iss_version_id s = or_empty (itm_current_version_id i)"
    and "current_ok (core_of db)"
  shows "on_current i s"
proof -
  obtain w :: review_version where "itm_current_version_id i = Some (ver_id w)"
    using current_okD [OF assms(3), of i] issue_target_InrD [OF assms(1)] by (auto simp: points_to_def)
  then show ?thesis using assms(2) issue_target_InrD [OF assms(1)] by (simp add: on_current_def or_empty_def)
qed

lemma issue_end_sound:
  assumes t: "issue_target db pid iid vid sid del = Inr (i, s)" and v: "iss_version_id s = or_empty (itm_current_version_id i)"
    and w: "write_issue_and_sync env c et i s' db = Inr (r, db')" and same: "same_issue s s'"
  shows "sound_step db db'"
proof (rule sound_if_ok)
  assume "store_ok db"
  then have "on_current i s" using on_current_target [OF t v] by (simp add: store_ok_def review_ok_def)
  then show "sound_step db db'" using write_issue_and_sync_sound [OF w _ _ same] issue_target_InrD [OF t] by blast
qed

lemma issue_decisions_sound:
  "resolve_issue env c pid iid vid sid e db = Inr (r, db') \<Longrightarrow> sound_step db db'"
  "reopen_issue env c pid iid vid sid e db = Inr (r, db') \<Longrightarrow> sound_step db db'"
  "soft_delete_issue env c pid iid vid sid e db = Inr (r, db') \<Longrightarrow> sound_step db db'"
  by (auto simp: resolve_issue_def reopen_issue_def soft_delete_issue_def same_issue_def
        split: if_splits elim: issue_end_sound)

lemma add_review_message_sound:
  "add_review_message env c pid iid vid sid content db = Inr (r, db') \<Longrightarrow> sound_step db db'"
  by (auto simp: add_review_message_def Let_def new_id_def dest!: issue_event_sound sound_insert(7) sound_after_drawn
        intro: sound_trans)

lemma issue_revised_sound:
  assumes "s \<in> set (db_issues db)" and "same_issue s s'" "iss_status s' = iss_status s" "iss_deleted_at s' = iss_deleted_at s"
  shows "sound_step db (put_issue s' db)"
  by (rule sound_core, unfold core_put_issue, rule issue_revised [where s = s]) (use assms in \<open>auto simp: put_issue_def\<close>)

lemma update_review_issue_sound:
  assumes "update_review_issue env c pid iid vid sid content a e db = Inr (r, db')"
  shows "sound_step db db'"
proof -
  from assms obtain i s aid db1 rid db2 rv db3 where t: "issue_target db pid iid vid sid False = Inr (i, s)"
    and a: "create_annotation_if_present env s a db = Inr (aid, db1)"
    and n: "db2 = db1\<lparr>db_drawn := Suc (db_drawn db1)\<rparr>" and ins: "insert_revision rv db2 = Inr db3"
    and ev: "sound_step (put_issue (s\<lparr>iss_current_revision_id := rid, iss_lock_version := iss_lock_version s + 1,
       iss_updated_at := env_now env\<rparr>) db3) db'"
    by (auto simp: update_review_issue_def Let_def new_id_def dest!: issue_event_sound)
  have "db_issues db3 = db_issues db"
    using create_annotation_frame [OF a] n ins by (auto simp: insert_defs core_of_def)
  then have "sound_step db3 (put_issue (s\<lparr>iss_current_revision_id := rid, iss_lock_version := iss_lock_version s + 1,
       iss_updated_at := env_now env\<rparr>) db3)"
    using issue_target_InrD [OF t] by (intro issue_revised_sound [where s = s]) (auto simp: same_issue_def)
  moreover have "sound_step db db3"
    using create_annotation_sound [OF a] sound_drawn [of db1] n sound_insert(5) [OF ins] sound_trans by blast
  ultimately show ?thesis using ev sound_trans by blast
qed

lemma record_created_sound: "record_review_issue_created env c i s b db = Inr db' \<Longrightarrow> sound_step db db'"
  by (auto simp: record_review_issue_created_def dest!: issue_event_sound sound_event split: if_splits intro: sound_trans)

text \<open>Issues added to the database, followed by the synchronisation of their item.\<close>

lemma raise_issues_sound:
  assumes core: "core_of db2 = (core_of db)\<lparr>co_issues := db_issues db @ ss\<rparr>" "db_events db2 = db_events db"
    and sy: "sync_item_workflow_for_current_issues env db2 i1 = Inr i'"
    and i: "i \<in> set (db_items db)" "itm_workflow_status i \<noteq> finalized"
    and i1: "i1 = i\<lparr>itm_workflow_status := st\<rparr>" and ss: "new_issues i (db_issues db) ss"
  shows "sound_step db (put_item i' db2)"
proof (rule sound_core)
  note eff = sync_effect [OF sy]
  have db2: "db_issues db2 = db_issues db @ ss" using core(1) by (simp add: core_of_def)
  have same: "next_item i i'" "itm_current_version_id i' = itm_current_version_id i"
    "itm_active_finalization_id i' = itm_active_finalization_id i" "itm_workflow_status i' = synced_status (db_issues db2) i"
    using eff i1 by (auto simp: next_item_def synced_status_def on_current_def)
  have "core_of (put_item i' db2) = (core_of db)\<lparr>co_items := row_put itm_id i' (co_items (core_of db)), co_issues := co_issues (core_of db) @ ss\<rparr>"
    using core(1) by (simp add: core_of_def put_item_def)
  then show "review_step (core_of db) (core_of (put_item i' db2))"
    by (simp only:, intro issues_raised [where i = i]) (use same i ss db2 in auto)
  show "db_events (put_item i' db2) = db_events db" using core(2) by (simp add: put_item_def)
qed

lemma raise_issue_sound:
  assumes ins: "insert_issue s db = Inr db1" and core: "core_of db2 = core_of db1" "db_events db2 = db_events db1"
    and sy: "sync_item_workflow_for_current_issues env db2 i1 = Inr i'"
    and i: "i \<in> set (db_items db)" "itm_workflow_status i \<noteq> finalized"
    and i1: "i1 = i\<lparr>itm_workflow_status := st\<rparr>"
    and s: "on_current i s" "open_issue s" "iss_project_ref_id s = itm_project_ref_id i"
  shows "sound_step db (put_item i' db2)"
  by (rule raise_issues_sound [where ss = "[s]", OF _ _ sy i i1])
    (use ins core s in \<open>auto simp: insert_issue_def row_insert_Inr_iff core_of_def new_issues_def\<close>)

lemma create_review_issue_sound:
  assumes "create_review_issue env c pid iid vid ts fn content a e db = Inr (r, db')"
  shows "sound_step db db'"
proof (rule sound_if_ok)
  assume ok: "store_ok db"
  obtain sid db1 where n1: "new_id env ''iss'' db = (sid, db1)" by fastforce
  obtain rid db2 where n2: "new_id env ''rev'' db1 = (rid, db2)" by fastforce
  from assms n1 n2 obtain i v i1 no db3 aid db4 rv db5 i' where
    i: "i \<in> set (db_items db)" "itm_workflow_status i \<noteq> finalized"
    and v: "ver_id v = or_empty (itm_current_version_id i)"
    and i1: "i1 = (if itm_workflow_status i = pending_review then i\<lparr>itm_workflow_status := in_review\<rparr> else i)"
    and ins: "insert_issue (fresh_issue env sid rid i1 v no ts fn) db2 = Inr db3"
    and an: "create_annotation_if_present env (fresh_issue env sid rid i1 v no ts fn) a db3 = Inr (aid, db4)"
    and rv: "insert_revision rv db4 = Inr db5"
    and sy: "sync_item_workflow_for_current_issues env db5 i1 = Inr i'"
    and ev: "sound_step (put_item i' db5) db'"
    by (auto simp: create_review_issue_def Let_def dest!: get_item_InrD record_created_sound)
  obtain w :: review_version where "itm_current_version_id i = Some (ver_id w)"
    using current_okD [of "core_of db" i] ok i(1) by (auto simp: store_ok_def review_ok_def points_to_def)
  then have s: "on_current i (fresh_issue env sid rid i1 v no ts fn)" "open_issue (fresh_issue env sid rid i1 v no ts fn)"
    "iss_project_ref_id (fresh_issue env sid rid i1 v no ts fn) = itm_project_ref_id i"
    using v i1 by (simp_all add: on_current_def open_issue_def fresh_issue_def or_empty_def)
  have fr: "core_of db5 = core_of db3" "db_events db5 = db_events db3" "db_items db2 = db_items db"
    using create_annotation_frame [OF an] rv n1 n2 by (auto simp: insert_defs core_of_def new_id_def)
  have i1': "i1 = i\<lparr>itm_workflow_status := itm_workflow_status i1\<rparr>" using i1 by simp
  have "sound_step db db2" using sound_new_id [OF n1] sound_new_id [OF n2] sound_trans by blast
  also have "sound_step db2 (put_item i' db5)"
    by (rule raise_issue_sound [OF ins fr(1,2) sy _ i(2) i1' s]) (use i fr in simp)
  also note ev
  finally show "sound_step db db'" .
qed

end
