(* ===== verification/Contracts.thy ===== *)
theory Contracts
  imports Issues
begin

text \<open>
  The command contracts of \<open>src/backend/app/modules/review_contracts/generated.py\<close>: the
  capability of every command, the commands that need an idempotency key, the payload schemas with
  their validator, and the reading of a payload into the typed arguments the handlers take. JSON
  numbers are integers here; the only fractional fields of the contracts are the coordinates of
  annotation points, which the service stores without looking at them.
\<close>

section \<open>Schemas\<close>

datatype schema =
    SObject "string list" "(string \<times> schema) list" bool
  | SArray "nat option" "nat option" schema
  | SString "string list option" int "int option" bool
  | SInteger int "int option"
  | SNumber int int
  | SConst bool

text \<open>
  The parts of a schema, in the order of the constructors: the required keys, the properties (no
  others are allowed) and whether the frame rate is checked; the bounds on the number of items and
  the item schema; the enumeration, the bounds on the length and whether the value must be a colour;
  the bounds of an integer; the bounds of a number; a boolean constant.
\<close>

definition is_colour :: "string \<Rightarrow> bool" where
  "is_colour s \<longleftrightarrow> length s = 7 \<and> hd s = CHR ''#''
     \<and> list_all (\<lambda>c. is_digit c \<or> (65 \<le> (of_char c :: nat) \<and> (of_char c :: nat) \<le> 70)
          \<or> (97 \<le> (of_char c :: nat) \<and> (of_char c :: nat) \<le> 102)) (tl s)"

definition frame_rate_allowed :: "(string \<times> json) list \<Rightarrow> bool" where
  "frame_rate_allowed kvs =
     (case (map_of kvs ''fps_num'', map_of kvs ''fps_den'') of
        (Some (JInt n), Some (JInt d)) \<Rightarrow> (n, d) \<in> set ALLOWED_FRAME_RATE_PAIRS
      | _ \<Rightarrow> False)"

definition within :: "int \<Rightarrow> int option \<Rightarrow> int \<Rightarrow> bool" where
  "within lo hi n \<longleftrightarrow> lo \<le> n \<and> (case hi of None \<Rightarrow> True | Some h \<Rightarrow> n \<le> h)"

fun validate_contract_schema :: "schema \<Rightarrow> json \<Rightarrow> bool"
  and validate_properties :: "(string \<times> schema) list \<Rightarrow> (string \<times> json) list \<Rightarrow> bool" where
  "validate_contract_schema (SObject required props rates) v =
     (case v of
        JObj kvs \<Rightarrow>
          list_all (\<lambda>k. k \<in> fst ` set kvs) required \<and> (rates \<longrightarrow> frame_rate_allowed kvs)
          \<and> list_all (\<lambda>(k, _). k \<in> fst ` set props) kvs \<and> validate_properties props kvs
      | _ \<Rightarrow> False)"
| "validate_contract_schema (SArray lo hi item) v =
     (case v of
        JList xs \<Rightarrow>
          (case lo of None \<Rightarrow> True | Some n \<Rightarrow> n \<le> length xs) \<and> (case hi of None \<Rightarrow> True | Some n \<Rightarrow> length xs \<le> n)
          \<and> list_all (validate_contract_schema item) xs
      | _ \<Rightarrow> False)"
| "validate_contract_schema (SString alternatives lo hi colour) v =
     (case v of
        JStr s \<Rightarrow>
          (case alternatives of None \<Rightarrow> True | Some xs \<Rightarrow> s \<in> set xs) \<and> within lo hi (py_len s)
          \<and> (colour \<longrightarrow> is_colour s)
      | _ \<Rightarrow> False)"
| "validate_contract_schema (SInteger lo hi) v = (case v of JInt n \<Rightarrow> within lo hi n | _ \<Rightarrow> False)"
| "validate_contract_schema (SNumber lo hi) v = (case v of JInt n \<Rightarrow> lo \<le> n \<and> n \<le> hi | _ \<Rightarrow> False)"
| "validate_contract_schema (SConst b) v = (v = JBool b)"
| "validate_properties [] kvs = True"
| "validate_properties ((k, child) # props) kvs =
     ((case map_of kvs k of None \<Rightarrow> True | Some x \<Rightarrow> x = JNull \<or> validate_contract_schema child x) \<and> validate_properties props kvs)"

declare validate_contract_schema.simps [simp del]

definition text_schema :: "int \<Rightarrow> int option \<Rightarrow> schema" where
  "text_schema lo hi = SString None lo hi False"

abbreviation id_schema :: schema where
  "id_schema \<equiv> SString None 1 None False"

definition shape_schema :: schema where
  "shape_schema =
     SObject [''id'', ''tool_type'', ''color'', ''line_width'', ''z_index'']
       [(''id'', text_schema 1 (Some 128)),
        (''tool_type'', SString (Some [''pen'', ''arrow'', ''rect'', ''circle'', ''text'']) 0 None False),
        (''anchor_points'', SArray None (Some 2048) (SObject [''x'', ''y''] [(''x'', SNumber 0 1), (''y'', SNumber 0 1)] False)),
        (''path_data'', text_schema 0 (Some 20000)), (''text_content'', text_schema 0 (Some 1000)),
        (''color'', SString None 0 None True), (''line_width'', SInteger 1 (Some 64)),
        (''font_size'', SInteger 12 (Some 96)), (''z_index'', SInteger 0 (Some 10000))] False"

definition annotation_schema :: schema where
  "annotation_schema =
     SObject [''canvas_width'', ''canvas_height'', ''video_width'', ''video_height'', ''shapes'']
       [(''canvas_width'', SInteger 1 None), (''canvas_height'', SInteger 1 None), (''video_width'', SInteger 1 None),
        (''video_height'', SInteger 1 None), (''shapes'', SArray None (Some 128) shape_schema)] False"

definition probe_claim_schema :: schema where
  "probe_claim_schema =
     SObject [''fps_num'', ''fps_den'', ''is_variable_frame_rate'', ''probe_version'']
       [(''fps_num'', SInteger 1 None), (''fps_den'', SInteger 1 None), (''is_variable_frame_rate'', SConst False),
        (''probe_version'', text_schema 1 (Some 64))] True"

definition project_props :: "(string \<times> schema) list" where
  "project_props = [(''project_ref_id'', id_schema)]"

definition item_props :: "(string \<times> schema) list" where
  "item_props = [(''project_ref_id'', id_schema), (''review_item_id'', id_schema)]"

definition version_props :: "(string \<times> schema) list" where
  "version_props = item_props @ [(''version_id'', id_schema)]"

definition issue_props :: "(string \<times> schema) list" where
  "issue_props = version_props @ [(''issue_id'', id_schema)]"

definition binding_props :: "(string \<times> schema) list" where
  "binding_props =
     [(''original_file_id'', id_schema), (''responsible_editor_id'', id_schema),
      (''responsible_editor_name_snapshot'', text_schema 1 (Some 255)), (''local_probe_claim'', probe_claim_schema),
      (''version_note'', text_schema 0 None)]"

text \<open>Every property required.\<close>

definition strict_object :: "(string \<times> schema) list \<Rightarrow> schema" where
  "strict_object props = SObject (map fst props) props False"

definition confirmed_object :: "(string \<times> schema) list \<Rightarrow> schema" where
  "confirmed_object props = strict_object (props @ [(''confirmed'', SConst True)])"

definition COMMAND_PAYLOAD_SCHEMAS :: "(string \<times> schema) list" where
  "COMMAND_PAYLOAD_SCHEMAS =
     [(''FinalizeVersion'', confirmed_object version_props),
      (''RevokeFinalization'', confirmed_object item_props),
      (''FinalizeProject'', confirmed_object project_props),
      (''RevokeProjectFinalization'', confirmed_object project_props),
      (''RetryFinalizationCleanup'', confirmed_object item_props),
      (''StartReview'', strict_object item_props),
      (''CreateReviewIssue'',
       SObject (map fst version_props @ [''content'', ''timestamp_ms'', ''frame_number''])
         (version_props @ [(''content'', text_schema 1 (Some 4000)), (''timestamp_ms'', SInteger 0 None),
            (''frame_number'', SInteger 0 None), (''annotation'', annotation_schema)]) False),
      (''UpdateReviewIssue'',
       SObject (map fst issue_props)
         (issue_props @ [(''content'', text_schema 1 (Some 4000)), (''annotation'', annotation_schema)]) False),
      (''AddReviewMessage'', strict_object (issue_props @ [(''content'', text_schema 1 (Some 4000))])),
      (''ResolveReviewIssue'', strict_object issue_props),
      (''ReopenReviewIssue'', strict_object issue_props),
      (''SoftDeleteReviewIssue'', strict_object issue_props),
      (''PrepareFinalizedPackage'', strict_object (project_props @ [(''unified_name'', text_schema 1 None)])),
      (''CreateProject'',
       SObject [''project_code'', ''project_name'', ''fps_num'', ''fps_den'']
         [(''project_code'', text_schema 1 (Some 128)), (''project_name'', text_schema 1 (Some 255)),
          (''description'', text_schema 0 (Some 2000)), (''external_project_id'', text_schema 1 (Some 128)),
          (''fps_num'', SInteger 1 None), (''fps_den'', SInteger 1 None)] True),
      (''UpdateProject'',
       strict_object (project_props @ [(''project_name'', text_schema 1 (Some 255)), (''description'', text_schema 0 (Some 2000))])),
      (''LockProjectFrameRate'',
       SObject [''project_ref_id'', ''fps_num'', ''fps_den'']
         (project_props @ [(''fps_num'', SInteger 1 None), (''fps_den'', SInteger 1 None)]) True),
      (''RerunProjectTechnicalQc'', strict_object project_props),
      (''ArchiveProject'', strict_object project_props),
      (''RestoreProject'', strict_object project_props),
      (''DeleteProject'', confirmed_object project_props),
      (''CreateResponsibleEditor'', strict_object [(''display_name'', text_schema 1 (Some 255))]),
      (''RenameResponsibleEditor'',
       strict_object [(''responsible_editor_id'', id_schema), (''display_name'', text_schema 1 (Some 255))]),
      (''CreateReviewItem'',
       SObject [''project_ref_id'', ''item_code'', ''title'', ''original_file_id'', ''responsible_editor_id'',
           ''responsible_editor_name_snapshot'', ''local_probe_claim'']
         (project_props @ [(''item_code'', text_schema 1 (Some 128)), (''episode_no'', SInteger 1 None),
            (''title'', text_schema 1 (Some 512))] @ binding_props) False),
      (''UpdateReviewItem'',
       SObject (map fst item_props)
         (item_props @ [(''episode_no'', SInteger 1 None), (''title'', text_schema 1 (Some 512))]) False),
      (''DeleteReviewItem'', confirmed_object item_props),
      (''DeleteReviewItemsBatch'', confirmed_object (project_props @ [(''review_item_ids'', SArray (Some 1) None id_schema)])),
      (''UploadReviewVersion'',
       SObject [''project_ref_id'', ''review_item_id'', ''original_file_id'', ''responsible_editor_id'',
           ''responsible_editor_name_snapshot'', ''local_probe_claim'']
         (item_props @ binding_props @ [(''change_summary'', text_schema 0 None), (''supersede_reason'', text_schema 0 None)]) False)]"

text \<open>\<open>CommandEnvelope.validate_payload_schema\<close>.\<close>

definition validate_payload_schema :: "string \<Rightarrow> json \<Rightarrow> bool" where
  "validate_payload_schema command_type payload =
     (case map_of COMMAND_PAYLOAD_SCHEMAS command_type of
        None \<Rightarrow> False
      | Some schema \<Rightarrow> validate_contract_schema schema payload)"

section \<open>Capabilities\<close>

definition COMMAND_CAPABILITIES :: "(string \<times> string) list" where
  "COMMAND_CAPABILITIES =
     [(''FinalizeVersion'', ''review.finalization.create''), (''RevokeFinalization'', ''review.finalization.revoke''),
      (''FinalizeProject'', ''review.finalization.create''), (''RevokeProjectFinalization'', ''review.finalization.revoke''),
      (''RetryFinalizationCleanup'', ''review.finalization.revoke''), (''StartReview'', ''review.session.start''),
      (''CreateReviewIssue'', ''review.issue.create''), (''UpdateReviewIssue'', ''review.issue.update''),
      (''AddReviewMessage'', ''review.issue.reply''), (''ResolveReviewIssue'', ''review.issue.resolve''),
      (''ReopenReviewIssue'', ''review.issue.reopen''), (''SoftDeleteReviewIssue'', ''review.issue.delete''),
      (''PrepareFinalizedPackage'', ''review.package.create''), (''CreateProject'', ''review.project.create''),
      (''UpdateProject'', ''review.project.update''), (''LockProjectFrameRate'', ''review.project.update''),
      (''RerunProjectTechnicalQc'', ''review.technical_qc.rerun''), (''ArchiveProject'', ''review.project.archive''),
      (''RestoreProject'', ''review.project.restore''), (''DeleteProject'', ''review.project.delete''),
      (''CreateResponsibleEditor'', ''review.project.update''), (''RenameResponsibleEditor'', ''review.project.update''),
      (''CreateReviewItem'', ''review.item.create''), (''UpdateReviewItem'', ''review.item.update''),
      (''DeleteReviewItem'', ''review.item.delete''), (''DeleteReviewItemsBatch'', ''review.item.delete''),
      (''UploadReviewVersion'', ''review.version.upload'')]"

definition IDEMPOTENT_COMMANDS :: "string list" where
  "IDEMPOTENT_COMMANDS =
     [''AddReviewMessage'', ''CreateProject'', ''CreateResponsibleEditor'', ''CreateReviewIssue'', ''CreateReviewItem'',
      ''DeleteProject'', ''DeleteReviewItem'', ''DeleteReviewItemsBatch'', ''FinalizeProject'', ''FinalizeVersion'',
      ''LockProjectFrameRate'', ''PrepareFinalizedPackage'', ''RerunProjectTechnicalQc'', ''RetryFinalizationCleanup'',
      ''RevokeFinalization'', ''RevokeProjectFinalization'', ''UploadReviewVersion'']"

section \<open>Reading a payload\<close>

text \<open>\<open>payload[k]\<close> raises \<open>KeyError\<close>; \<open>payload.get(k)\<close> reads an absent
  key as \<open>None\<close>. A value of another type than the contract's is a \<open>TypeError\<close>.\<close>

definition str_of :: "json \<Rightarrow> exn + string" where
  "str_of j = (case j of JStr s \<Rightarrow> Inr s | _ \<Rightarrow> Inl TypeError)"

definition int_of :: "json \<Rightarrow> exn + int" where
  "int_of j = (case j of JInt n \<Rightarrow> Inr n | _ \<Rightarrow> Inl TypeError)"

definition item_str :: "json \<Rightarrow> string \<Rightarrow> exn + string" where
  "item_str payload k = (case jget payload k of None \<Rightarrow> Inl KeyError | Some j \<Rightarrow> str_of j)"

definition item_int :: "json \<Rightarrow> string \<Rightarrow> exn + int" where
  "item_int payload k = (case jget payload k of None \<Rightarrow> Inl KeyError | Some j \<Rightarrow> int_of j)"

definition get_str :: "json \<Rightarrow> string \<Rightarrow> exn + string option" where
  "get_str payload k =
     (case jget payload k of None \<Rightarrow> Inr None | Some JNull \<Rightarrow> Inr None | Some j \<Rightarrow> map_sum id Some (str_of j))"

definition get_int :: "json \<Rightarrow> string \<Rightarrow> exn + int option" where
  "get_int payload k =
     (case jget payload k of None \<Rightarrow> Inr None | Some JNull \<Rightarrow> Inr None | Some j \<Rightarrow> map_sum id Some (int_of j))"

text \<open>A field whose presence matters: absent, \<open>null\<close> or a value.\<close>

definition patch_of :: "(json \<Rightarrow> string \<Rightarrow> exn + 'a option) \<Rightarrow> json \<Rightarrow> string \<Rightarrow> exn + 'a option option" where
  "patch_of get payload k = (if jget payload k = None then Inr None else map_sum id Some (get payload k))"

definition confirmed :: "json \<Rightarrow> bool" where
  "confirmed payload \<longleftrightarrow> jget payload ''confirmed'' = Some (JBool True)"

fun strs_of :: "json list \<Rightarrow> exn + string list" where
  "strs_of [] = Inr []"
| "strs_of (j # js) = ebind (str_of j) (\<lambda>s. ebind (strs_of js) (\<lambda>ss. Inr (s # ss)))"

definition item_strs :: "json \<Rightarrow> string \<Rightarrow> exn + string list" where
  "item_strs payload k =
     (case jget payload k of None \<Rightarrow> Inl KeyError | Some (JList js) \<Rightarrow> strs_of js | Some _ \<Rightarrow> Inl TypeError)"

text \<open>The columns of an annotation are not nullable: an explicit \<open>null\<close> is refused by the database.\<close>

definition column_int :: "json \<Rightarrow> string \<Rightarrow> exn + int" where
  "column_int a k =
     (case jget a k of None \<Rightarrow> Inl KeyError | Some JNull \<Rightarrow> Inl IntegrityError | Some j \<Rightarrow> int_of j)"

definition read_annotation :: "json \<Rightarrow> exn + annotation_input option" where
  "read_annotation payload =
     (case jget payload ''annotation'' of
        None \<Rightarrow> Inr None
      | Some JNull \<Rightarrow> Inr None
      | Some a \<Rightarrow>
          if a = JObj [] then Inr None
          else
            ebind (case jget a ''shapes'' of None \<Rightarrow> Inr [] | Some (JList xs) \<Rightarrow> Inr xs | Some _ \<Rightarrow> Inl TypeError) (\<lambda>shapes.
            ebind (column_int a ''canvas_width'') (\<lambda>cw. ebind (column_int a ''canvas_height'') (\<lambda>ch.
            ebind (column_int a ''video_width'') (\<lambda>vw. ebind (column_int a ''video_height'') (\<lambda>vh.
            Inr (Some \<lparr>ai_canvas_width = cw, ai_canvas_height = ch, ai_video_width = vw, ai_video_height = vh,
                       ai_shapes = shapes\<rparr>)))))))"

section \<open>Commands\<close>

text \<open>The commands of the dispatch table with the arguments their handlers read.\<close>

datatype command =
    CreateProject string string string "string option" int int
  | UpdateProject string "string option" string string
  | LockProjectFrameRate string int int
  | RerunProjectTechnicalQc string
  | CreateResponsibleEditor string
  | RenameResponsibleEditor string string
  | ArchiveProject string
  | RestoreProject string
  | DeleteProject string bool
  | CreateReviewItem string string string string "int option" string "string option"
  | UpdateReviewItem string string "int option option" "string option option"
  | DeleteReviewItem string string bool
  | DeleteReviewItemsBatch string "string list" bool
  | UploadReviewVersion string string string string "string option" "string option" "string option"
  | StartReview string string
  | CreateReviewIssue string string string int int string "annotation_input option"
  | UpdateReviewIssue string string string string "string option" "annotation_input option"
  | AddReviewMessage string string string string string
  | ResolveReviewIssue string string string string
  | ReopenReviewIssue string string string string
  | SoftDeleteReviewIssue string string string string
  | FinalizeProject string bool
  | RevokeProjectFinalization string bool
  | FinalizeVersion string string string bool
  | RevokeFinalization string string bool
  | RetryFinalizationCleanup string string bool
  | PrepareFinalizedPackage string "string option"

definition read_project :: "json \<Rightarrow> (string \<Rightarrow> exn + 'a) \<Rightarrow> exn + 'a" where
  "read_project payload f = ebind (item_str payload ''project_ref_id'') f"

definition read_item :: "json \<Rightarrow> (string \<Rightarrow> string \<Rightarrow> exn + 'a) \<Rightarrow> exn + 'a" where
  "read_item payload f = read_project payload (\<lambda>p. ebind (item_str payload ''review_item_id'') (f p))"

definition read_version :: "json \<Rightarrow> (string \<Rightarrow> string \<Rightarrow> string \<Rightarrow> exn + 'a) \<Rightarrow> exn + 'a" where
  "read_version payload f = read_item payload (\<lambda>p i. ebind (item_str payload ''version_id'') (f p i))"

definition read_issue :: "json \<Rightarrow> (string \<Rightarrow> string \<Rightarrow> string \<Rightarrow> string \<Rightarrow> exn + 'a) \<Rightarrow> exn + 'a" where
  "read_issue payload f = read_version payload (\<lambda>p i v. ebind (item_str payload ''issue_id'') (f p i v))"

definition read_command :: "string \<Rightarrow> json \<Rightarrow> exn + command" where
  "read_command ct j =
     (if ct = ''CreateProject'' then
        ebind (item_str j ''project_code'') (\<lambda>code. ebind (item_str j ''project_name'') (\<lambda>name.
        ebind (get_str j ''description'') (\<lambda>description. ebind (get_str j ''external_project_id'') (\<lambda>external.
        ebind (item_int j ''fps_num'') (\<lambda>n. ebind (item_int j ''fps_den'') (\<lambda>d.
        Inr (CreateProject code name (case description of None \<Rightarrow> '''' | Some s \<Rightarrow> s) external n d)))))))
      else if ct = ''UpdateProject'' then
        read_project j (\<lambda>p. ebind (get_str j ''project_code'') (\<lambda>code. ebind (item_str j ''project_name'') (\<lambda>name.
        ebind (item_str j ''description'') (\<lambda>description. Inr (UpdateProject p code name description)))))
      else if ct = ''LockProjectFrameRate'' then
        read_project j (\<lambda>p. ebind (item_int j ''fps_num'') (\<lambda>n. ebind (item_int j ''fps_den'') (\<lambda>d.
        Inr (LockProjectFrameRate p n d))))
      else if ct = ''RerunProjectTechnicalQc'' then read_project j (\<lambda>p. Inr (RerunProjectTechnicalQc p))
      else if ct = ''CreateResponsibleEditor'' then
        ebind (item_str j ''display_name'') (\<lambda>name. Inr (CreateResponsibleEditor name))
      else if ct = ''RenameResponsibleEditor'' then
        ebind (item_str j ''responsible_editor_id'') (\<lambda>e. ebind (item_str j ''display_name'') (\<lambda>name.
        Inr (RenameResponsibleEditor e name)))
      else if ct = ''ArchiveProject'' then read_project j (\<lambda>p. Inr (ArchiveProject p))
      else if ct = ''RestoreProject'' then read_project j (\<lambda>p. Inr (RestoreProject p))
      else if ct = ''DeleteProject'' then read_project j (\<lambda>p. Inr (DeleteProject p (confirmed j)))
      else if ct = ''CreateReviewItem'' then
        read_project j (\<lambda>p. ebind (item_str j ''original_file_id'') (\<lambda>f. ebind (item_str j ''responsible_editor_id'') (\<lambda>e.
        ebind (item_str j ''item_code'') (\<lambda>code. ebind (get_int j ''episode_no'') (\<lambda>ep. ebind (item_str j ''title'') (\<lambda>title.
        ebind (get_str j ''version_note'') (\<lambda>note. Inr (CreateReviewItem p f e code ep title note))))))))
      else if ct = ''UpdateReviewItem'' then
        read_item j (\<lambda>p i. ebind (patch_of get_int j ''episode_no'') (\<lambda>ep. ebind (patch_of get_str j ''title'') (\<lambda>title.
        Inr (UpdateReviewItem p i ep title))))
      else if ct = ''DeleteReviewItem'' then read_item j (\<lambda>p i. Inr (DeleteReviewItem p i (confirmed j)))
      else if ct = ''DeleteReviewItemsBatch'' then
        read_project j (\<lambda>p. ebind (item_strs j ''review_item_ids'') (\<lambda>ids. Inr (DeleteReviewItemsBatch p ids (confirmed j))))
      else if ct = ''UploadReviewVersion'' then
        read_item j (\<lambda>p i. ebind (item_str j ''original_file_id'') (\<lambda>f. ebind (item_str j ''responsible_editor_id'') (\<lambda>e.
        ebind (get_str j ''version_note'') (\<lambda>note. ebind (get_str j ''change_summary'') (\<lambda>summary.
        ebind (get_str j ''supersede_reason'') (\<lambda>reason. Inr (UploadReviewVersion p i f e note summary reason)))))))
      else if ct = ''StartReview'' then read_item j (\<lambda>p i. Inr (StartReview p i))
      else if ct = ''CreateReviewIssue'' then
        read_version j (\<lambda>p i v. ebind (item_int j ''timestamp_ms'') (\<lambda>t. ebind (item_int j ''frame_number'') (\<lambda>n.
        ebind (read_annotation j) (\<lambda>a. ebind (item_str j ''content'') (\<lambda>c. Inr (CreateReviewIssue p i v t n c a))))))
      else if ct = ''UpdateReviewIssue'' then
        read_issue j (\<lambda>p i v s. ebind (read_annotation j) (\<lambda>a. ebind (get_str j ''content'') (\<lambda>c.
        Inr (UpdateReviewIssue p i v s c a))))
      else if ct = ''AddReviewMessage'' then
        read_issue j (\<lambda>p i v s. ebind (item_str j ''content'') (\<lambda>c. Inr (AddReviewMessage p i v s c)))
      else if ct = ''ResolveReviewIssue'' then read_issue j (\<lambda>p i v s. Inr (ResolveReviewIssue p i v s))
      else if ct = ''ReopenReviewIssue'' then read_issue j (\<lambda>p i v s. Inr (ReopenReviewIssue p i v s))
      else if ct = ''SoftDeleteReviewIssue'' then read_issue j (\<lambda>p i v s. Inr (SoftDeleteReviewIssue p i v s))
      else if ct = ''FinalizeProject'' then read_project j (\<lambda>p. Inr (FinalizeProject p (confirmed j)))
      else if ct = ''RevokeProjectFinalization'' then read_project j (\<lambda>p. Inr (RevokeProjectFinalization p (confirmed j)))
      else if ct = ''FinalizeVersion'' then read_version j (\<lambda>p i v. Inr (FinalizeVersion p i v (confirmed j)))
      else if ct = ''RevokeFinalization'' then read_item j (\<lambda>p i. Inr (RevokeFinalization p i (confirmed j)))
      else if ct = ''RetryFinalizationCleanup'' then read_item j (\<lambda>p i. Inr (RetryFinalizationCleanup p i (confirmed j)))
      else if ct = ''PrepareFinalizedPackage'' then
        read_project j (\<lambda>p. ebind (get_str j ''unified_name'') (\<lambda>name. Inr (PrepareFinalizedPackage p name)))
      else Inl KeyError)"

section \<open>Validated payloads can be read\<close>

definition null_free :: "json \<Rightarrow> bool" where
  "null_free j = (case j of JObj kvs \<Rightarrow> list_all (\<lambda>(_, v). v \<noteq> JNull) kvs | _ \<Rightarrow> True)"

definition reads :: "exn + 'a \<Rightarrow> bool" where
  "reads m \<longleftrightarrow> (\<exists>x. m = Inr x)"

lemma reads_Inr [intro!, simp]: "reads (Inr x)"
  by (simp add: reads_def)

lemma reads_ebind [intro]: "reads m \<Longrightarrow> (\<And>x. reads (f x)) \<Longrightarrow> reads (ebind m f)"
  by (auto simp: reads_def)

lemma reads_map_sum [simp]: "reads (map_sum f g m) \<longleftrightarrow> reads m"
  by (cases m) (auto simp: reads_def)

text \<open>What kind of value the schema demands under a key.\<close>

definition string_prop :: "(string \<times> schema) list \<Rightarrow> string \<Rightarrow> bool" where
  "string_prop props k = (case map_of props k of Some (SString _ _ _ _) \<Rightarrow> True | _ \<Rightarrow> False)"

definition integer_prop :: "(string \<times> schema) list \<Rightarrow> string \<Rightarrow> bool" where
  "integer_prop props k = (case map_of props k of Some (SInteger _ _) \<Rightarrow> True | _ \<Rightarrow> False)"

definition strings_prop :: "(string \<times> schema) list \<Rightarrow> string \<Rightarrow> bool" where
  "strings_prop props k = (case map_of props k of Some (SArray _ _ item) \<Rightarrow> item = id_schema | _ \<Rightarrow> False)"

definition valid_object :: "string list \<Rightarrow> (string \<times> schema) list \<Rightarrow> json \<Rightarrow> bool" where
  "valid_object required props j \<longleftrightarrow> null_free j \<and> (\<exists>rates. validate_contract_schema (SObject required props rates) j)"

lemma validate_property:
  "validate_properties props kvs \<Longrightarrow> map_of props k = Some child \<Longrightarrow> map_of kvs k = Some x \<Longrightarrow> x \<noteq> JNull
   \<Longrightarrow> validate_contract_schema child x"
  by (induction props) (auto split: if_splits)

lemma object_value:
  "validate_contract_schema (SObject required props rates) j \<Longrightarrow>
   \<exists>kvs. j = JObj kvs \<and> validate_properties props kvs \<and> (\<forall>k \<in> set required. k \<in> fst ` set kvs) \<and> fst ` set kvs \<subseteq> fst ` set props"
  by (cases j) (auto simp: validate_contract_schema.simps list_all_iff)

lemma array_value:
  "validate_contract_schema (SArray lo hi item) x \<Longrightarrow> \<exists>xs. x = JList xs \<and> list_all (validate_contract_schema item) xs"
  by (cases x) (simp_all add: validate_contract_schema.simps)

lemma valid_object_field:
  assumes "valid_object required props j" and "map_of props k = Some child"
  shows "k \<in> set required \<Longrightarrow> \<exists>x. jget j k = Some x \<and> x \<noteq> JNull \<and> validate_contract_schema child x"
    and "jget j k = None \<or> (\<exists>x. jget j k = Some x \<and> x \<noteq> JNull \<and> validate_contract_schema child x)"
proof -
  from assms(1) obtain kvs where j: "j = JObj kvs" and v: "validate_properties props kvs" "\<forall>k \<in> set required. k \<in> fst ` set kvs"
    and n: "\<forall>(_, v) \<in> set kvs. v \<noteq> JNull"
    by (auto simp: valid_object_def null_free_def list_all_iff dest!: object_value)
  have "x \<noteq> JNull" if "map_of kvs k = Some x" for x using n map_of_SomeD [OF that] by auto
  then show opt: "jget j k = None \<or> (\<exists>x. jget j k = Some x \<and> x \<noteq> JNull \<and> validate_contract_schema child x)"
    using validate_property [OF v(1) assms(2)] by (cases "map_of kvs k") (auto simp: j jget_def)
  show "\<exists>x. jget j k = Some x \<and> x \<noteq> JNull \<and> validate_contract_schema child x" if "k \<in> set required"
  proof -
    have "jget j k \<noteq> None" using v(2) that by (auto simp: j jget_def map_of_eq_None_iff)
    then obtain y where "jget j k = Some y" by blast
    then show ?thesis using opt by simp
  qed
qed

lemma string_value: "validate_contract_schema (SString a lo hi c) x \<Longrightarrow> \<exists>s. x = JStr s"
  by (cases x) (simp_all add: validate_contract_schema.simps)

lemma integer_value: "validate_contract_schema (SInteger lo hi) x \<Longrightarrow> \<exists>n. x = JInt n"
  by (cases x) (simp_all add: validate_contract_schema.simps)

lemma valid_object_string:
  assumes "valid_object required props j" and "string_prop props k"
  shows "k \<in> set required \<Longrightarrow> \<exists>s. jget j k = Some (JStr s)" and "jget j k = None \<or> (\<exists>s. jget j k = Some (JStr s))"
proof -
  obtain a lo hi c where "map_of props k = Some (SString a lo hi c)"
    using assms(2) by (auto simp: string_prop_def split: option.splits schema.splits)
  from valid_object_field [OF assms(1) this] string_value [of a lo hi c]
  show "k \<in> set required \<Longrightarrow> \<exists>s. jget j k = Some (JStr s)" and "jget j k = None \<or> (\<exists>s. jget j k = Some (JStr s))" by blast+
qed

lemma valid_object_integer:
  assumes "valid_object required props j" and "integer_prop props k"
  shows "k \<in> set required \<Longrightarrow> \<exists>n. jget j k = Some (JInt n)" and "jget j k = None \<or> (\<exists>n. jget j k = Some (JInt n))"
proof -
  obtain lo hi where "map_of props k = Some (SInteger lo hi)"
    using assms(2) by (auto simp: integer_prop_def split: option.splits schema.splits)
  from valid_object_field [OF assms(1) this] integer_value [of lo hi]
  show "k \<in> set required \<Longrightarrow> \<exists>n. jget j k = Some (JInt n)" and "jget j k = None \<or> (\<exists>n. jget j k = Some (JInt n))" by blast+
qed

lemma reads_fields:
  assumes "valid_object required props j"
  shows "k \<in> set required \<Longrightarrow> string_prop props k \<Longrightarrow> reads (item_str j k)"
    and "k \<in> set required \<Longrightarrow> integer_prop props k \<Longrightarrow> reads (item_int j k)"
    and "string_prop props k \<Longrightarrow> reads (get_str j k)"
    and "integer_prop props k \<Longrightarrow> reads (get_int j k)"
    and "string_prop props k \<Longrightarrow> reads (patch_of get_str j k)"
    and "integer_prop props k \<Longrightarrow> reads (patch_of get_int j k)"
  using valid_object_string [OF assms, of k] valid_object_integer [OF assms, of k]
  by (auto simp: item_str_def item_int_def get_str_def get_int_def patch_of_def str_of_def int_of_def)

lemma reads_absent: "valid_object required props j \<Longrightarrow> k \<notin> fst ` set props \<Longrightarrow> reads (get_str j k)"
proof -
  assume "valid_object required props j" "k \<notin> fst ` set props"
  then have "jget j k = None"
    by (auto simp: valid_object_def jget_def map_of_eq_None_iff dest!: object_value)
  then show ?thesis by (simp add: get_str_def)
qed

lemma reads_strs:
  assumes "valid_object required props j" and "k \<in> set required" and "strings_prop props k"
  shows "reads (item_strs j k)"
proof -
  obtain lo hi where "map_of props k = Some (SArray lo hi id_schema)"
    using assms(3) by (auto simp: strings_prop_def split: option.splits schema.splits)
  then obtain x where x: "jget j k = Some x" "validate_contract_schema (SArray lo hi id_schema) x"
    using valid_object_field(1) [OF assms(1) _ assms(2)] by blast
  then obtain xs where xs: "x = JList xs" "list_all (validate_contract_schema id_schema) xs"
    by (auto dest!: array_value)
  from xs(2) have "reads (strs_of xs)" by (induction xs) (auto simp: str_of_def dest!: string_value)
  then show ?thesis by (simp add: item_strs_def x xs(1))
qed

lemma reads_annotation:
  assumes "valid_object required props j" and "map_of props ''annotation'' = Some annotation_schema"
    and "\<forall>a. jget j ''annotation'' = Some a \<longrightarrow> null_free a"
  shows "reads (read_annotation j)"
proof (cases "jget j ''annotation''")
  case (Some a)
  then have v: "validate_contract_schema annotation_schema a" "a \<noteq> JNull"
    using valid_object_field(2) [OF assms(1,2)] by auto
  let ?req = "[''canvas_width'', ''canvas_height'', ''video_width'', ''video_height'', ''shapes'']"
  let ?props = "[(''canvas_width'', SInteger 1 None), (''canvas_height'', SInteger 1 None), (''video_width'', SInteger 1 None),
        (''video_height'', SInteger 1 None), (''shapes'', SArray None (Some 128) shape_schema)]"
  have o: "valid_object ?req ?props a" using v(1) assms(3) Some unfolding valid_object_def annotation_schema_def by blast
  note field = valid_object_field(1) [OF o]
  have col: "reads (column_int a k)" if "k \<in> {''canvas_width'', ''canvas_height'', ''video_width'', ''video_height''}" for k
    using that field [of k "SInteger 1 None"] by (auto simp: column_int_def int_of_def dest!: integer_value)
  obtain xs where shapes: "jget a ''shapes'' = Some (JList xs)"
    using field [of "''shapes''" "SArray None (Some 128) shape_schema"] by (auto dest!: array_value)
  obtain kvs where a: "a = JObj kvs" using v(1) by (auto simp: annotation_schema_def dest!: object_value)
  have "reads (read_annotation j) = reads (if a = JObj [] then Inr None else
      ebind (Inr xs) (\<lambda>shapes.
      ebind (column_int a ''canvas_width'') (\<lambda>cw. ebind (column_int a ''canvas_height'') (\<lambda>ch.
      ebind (column_int a ''video_width'') (\<lambda>vw. ebind (column_int a ''video_height'') (\<lambda>vh.
      Inr (Some \<lparr>ai_canvas_width = cw, ai_canvas_height = ch, ai_video_width = vw, ai_video_height = vh, ai_shapes = shapes\<rparr>)))))))"
    using Some shapes unfolding a read_annotation_def by simp
  then show ?thesis using col by (simp add: reads_ebind)
qed (simp add: read_annotation_def)

lemmas read_defs = read_project_def read_item_def read_version_def read_issue_def

lemmas props_defs = project_props_def item_props_def version_props_def issue_props_def binding_props_def
  text_schema_def string_prop_def integer_prop_def strings_prop_def

lemma valid_objectI: "validate_contract_schema (SObject req props rates) j \<Longrightarrow> null_free j \<Longrightarrow> valid_object req props j"
  unfolding valid_object_def by blast

lemma read_command_eqs:
  "read_command ''CreateProject'' j = ebind (item_str j ''project_code'') (\<lambda>code. ebind (item_str j ''project_name'') (\<lambda>name. ebind (get_str j ''description'') (\<lambda>description. ebind (get_str j ''external_project_id'') (\<lambda>external. ebind (item_int j ''fps_num'') (\<lambda>n. ebind (item_int j ''fps_den'') (\<lambda>d. Inr (CreateProject code name (case description of None \<Rightarrow> '''' | Some s \<Rightarrow> s) external n d)))))))"
  "read_command ''UpdateProject'' j = read_project j (\<lambda>p. ebind (get_str j ''project_code'') (\<lambda>code. ebind (item_str j ''project_name'') (\<lambda>name. ebind (item_str j ''description'') (\<lambda>description. Inr (UpdateProject p code name description)))))"
  "read_command ''LockProjectFrameRate'' j = read_project j (\<lambda>p. ebind (item_int j ''fps_num'') (\<lambda>n. ebind (item_int j ''fps_den'') (\<lambda>d. Inr (LockProjectFrameRate p n d))))"
  "read_command ''RerunProjectTechnicalQc'' j = read_project j (\<lambda>p. Inr (RerunProjectTechnicalQc p))"
  "read_command ''CreateResponsibleEditor'' j = ebind (item_str j ''display_name'') (\<lambda>name. Inr (CreateResponsibleEditor name))"
  "read_command ''RenameResponsibleEditor'' j = ebind (item_str j ''responsible_editor_id'') (\<lambda>e. ebind (item_str j ''display_name'') (\<lambda>name. Inr (RenameResponsibleEditor e name)))"
  "read_command ''ArchiveProject'' j = read_project j (\<lambda>p. Inr (ArchiveProject p))"
  "read_command ''RestoreProject'' j = read_project j (\<lambda>p. Inr (RestoreProject p))"
  "read_command ''DeleteProject'' j = read_project j (\<lambda>p. Inr (DeleteProject p (confirmed j)))"
  "read_command ''CreateReviewItem'' j = read_project j (\<lambda>p. ebind (item_str j ''original_file_id'') (\<lambda>f. ebind (item_str j ''responsible_editor_id'') (\<lambda>e. ebind (item_str j ''item_code'') (\<lambda>code. ebind (get_int j ''episode_no'') (\<lambda>ep. ebind (item_str j ''title'') (\<lambda>title. ebind (get_str j ''version_note'') (\<lambda>note. Inr (CreateReviewItem p f e code ep title note))))))))"
  "read_command ''UpdateReviewItem'' j = read_item j (\<lambda>p i. ebind (patch_of get_int j ''episode_no'') (\<lambda>ep. ebind (patch_of get_str j ''title'') (\<lambda>title. Inr (UpdateReviewItem p i ep title))))"
  "read_command ''DeleteReviewItem'' j = read_item j (\<lambda>p i. Inr (DeleteReviewItem p i (confirmed j)))"
  "read_command ''DeleteReviewItemsBatch'' j = read_project j (\<lambda>p. ebind (item_strs j ''review_item_ids'') (\<lambda>ids. Inr (DeleteReviewItemsBatch p ids (confirmed j))))"
  "read_command ''UploadReviewVersion'' j = read_item j (\<lambda>p i. ebind (item_str j ''original_file_id'') (\<lambda>f. ebind (item_str j ''responsible_editor_id'') (\<lambda>e. ebind (get_str j ''version_note'') (\<lambda>note. ebind (get_str j ''change_summary'') (\<lambda>summary. ebind (get_str j ''supersede_reason'') (\<lambda>reason. Inr (UploadReviewVersion p i f e note summary reason)))))))"
  "read_command ''StartReview'' j = read_item j (\<lambda>p i. Inr (StartReview p i))"
  "read_command ''CreateReviewIssue'' j = read_version j (\<lambda>p i v. ebind (item_int j ''timestamp_ms'') (\<lambda>t. ebind (item_int j ''frame_number'') (\<lambda>n. ebind (read_annotation j) (\<lambda>a. ebind (item_str j ''content'') (\<lambda>c. Inr (CreateReviewIssue p i v t n c a))))))"
  "read_command ''UpdateReviewIssue'' j = read_issue j (\<lambda>p i v s. ebind (read_annotation j) (\<lambda>a. ebind (get_str j ''content'') (\<lambda>c. Inr (UpdateReviewIssue p i v s c a))))"
  "read_command ''AddReviewMessage'' j = read_issue j (\<lambda>p i v s. ebind (item_str j ''content'') (\<lambda>c. Inr (AddReviewMessage p i v s c)))"
  "read_command ''ResolveReviewIssue'' j = read_issue j (\<lambda>p i v s. Inr (ResolveReviewIssue p i v s))"
  "read_command ''ReopenReviewIssue'' j = read_issue j (\<lambda>p i v s. Inr (ReopenReviewIssue p i v s))"
  "read_command ''SoftDeleteReviewIssue'' j = read_issue j (\<lambda>p i v s. Inr (SoftDeleteReviewIssue p i v s))"
  "read_command ''FinalizeProject'' j = read_project j (\<lambda>p. Inr (FinalizeProject p (confirmed j)))"
  "read_command ''RevokeProjectFinalization'' j = read_project j (\<lambda>p. Inr (RevokeProjectFinalization p (confirmed j)))"
  "read_command ''FinalizeVersion'' j = read_version j (\<lambda>p i v. Inr (FinalizeVersion p i v (confirmed j)))"
  "read_command ''RevokeFinalization'' j = read_item j (\<lambda>p i. Inr (RevokeFinalization p i (confirmed j)))"
  "read_command ''RetryFinalizationCleanup'' j = read_item j (\<lambda>p i. Inr (RetryFinalizationCleanup p i (confirmed j)))"
  "read_command ''PrepareFinalizedPackage'' j = read_project j (\<lambda>p. ebind (get_str j ''unified_name'') (\<lambda>name. Inr (PrepareFinalizedPackage p name)))"
  by (simp_all add: read_command_def)



text \<open>
  The validator skips a property whose value is null, also a required one: an annotation whose
  shapes are null passes the contract, and its handler then iterates over \<open>None\<close>.
\<close>

definition null_shapes :: json where
  "null_shapes =
     JObj [(''project_ref_id'', JStr ''p''), (''review_item_id'', JStr ''i''), (''version_id'', JStr ''v''),
       (''content'', JStr ''c''), (''timestamp_ms'', JInt 0), (''frame_number'', JInt 0),
       (''annotation'', JObj [(''canvas_width'', JInt 1), (''canvas_height'', JInt 1), (''video_width'', JInt 1),
          (''video_height'', JInt 1), (''shapes'', JNull)])]"

lemma null_shapes_pass_validation:
  "validate_payload_schema ''CreateReviewIssue'' null_shapes \<and> null_free null_shapes
   \<and> read_command ''CreateReviewIssue'' null_shapes = Inl TypeError"
  by code_simp

end
