(* ===== verification/Access.thy ===== *)
theory Access
  imports Samples
begin

text \<open>
  \<open>src/backend/app/modules/review_access/policies.py\<close>: which entry may use which
  capability, the principal's project scope, and the shared-code write guard with its table of
  failed attempts. The tokens are signed by a third-party package; the token that the signer issues
  is a parameter.
\<close>

section \<open>Entry profiles\<close>

definition EDIT_ENTRY_PROFILE :: "string list" where
  "EDIT_ENTRY_PROFILE =
     [''review.project.read'', ''review.project.create'', ''review.project.update'', ''review.technical_qc.rerun'',
      ''review.item.read'', ''review.item.create'', ''review.item.update'', ''review.item.delete'',
      ''review.version.read'', ''review.version.upload'', ''review.version.compare'', ''review.issue.read'',
      ''review.issue.resolve'', ''review.finalization.read'', ''review.download.finalized_original'']"

definition REVIEW_ENTRY_PROFILE :: "string list" where
  "REVIEW_ENTRY_PROFILE =
     [''review.project.read'', ''review.technical_qc.rerun'', ''review.project.archive'', ''review.project.restore'',
      ''review.project.delete'', ''review.item.read'', ''review.item.delete'', ''review.version.read'',
      ''review.version.compare'', ''review.issue.read'', ''review.issue.create'', ''review.issue.update'',
      ''review.issue.reply'', ''review.issue.reopen'', ''review.issue.delete'', ''review.finalization.read'',
      ''review.finalization.create'', ''review.finalization.revoke'', ''review.download.finalized_original'',
      ''review.package.create'', ''review.package.read'', ''review.package.download'']"

definition entry_allows :: "string \<Rightarrow> string \<Rightarrow> bool" where
  "entry_allows entry_source capability =
     (if entry_source = ''edit'' then capability \<in> set EDIT_ENTRY_PROFILE
      else if entry_source = ''review'' then capability \<in> set REVIEW_ENTRY_PROFILE
      else if entry_source = ''embedded'' then False
      else if entry_source = ''unspecified'' then capability \<in> set EDIT_ENTRY_PROFILE \<union> set REVIEW_ENTRY_PROFILE
      else False)"

text \<open>\<open>NoAccountAuthorizationAdapter.authorize\<close>; the resource enters with its project only.\<close>

definition authorize :: "execution_context \<Rightarrow> string option \<Rightarrow> exn + unit" where
  "authorize context project_ref_id =
     (if pr_id (ctx_principal context) = None \<or> pr_id (ctx_principal context) = Some ''''
      then raise PRINCIPAL_AUTHENTICATION_REQUIRED
      else
        (case project_ref_id of
           None \<Rightarrow> Inr ()
         | Some p \<Rightarrow>
             if p \<noteq> '''' \<and> \<not> can_access_project (ctx_principal context) p then raise PRINCIPAL_PERMISSION_DENIED
             else Inr ()))"

section \<open>The write guard\<close>

definition assert_write_allowed :: "settings \<Rightarrow> execution_context \<Rightarrow> exn + unit" where
  "assert_write_allowed cfg context =
     (if cfg_write_guard_mode cfg = ''none'' then Inr ()
      else if ctx_write_guard_verified context then Inr ()
      else raise WRITE_GUARD_REQUIRED)"

record shared_code_attempt =
  att_failures :: int
  att_first_failed_at :: "int option"
  att_locked_until :: "int option"

type_synonym attempts = "(string \<times> shared_code_attempt) list"

definition MAX_ATTEMPT_ENTRIES :: nat where
  "MAX_ATTEMPT_ENTRIES = 4096"

definition SHARED_CODE_MAX_LENGTH :: int where
  "SHARED_CODE_MAX_LENGTH = 256"

definition expired_attempt :: "settings \<Rightarrow> int \<Rightarrow> shared_code_attempt \<Rightarrow> bool" where
  "expired_attempt cfg now a =
     (case att_locked_until a of
        Some t \<Rightarrow> t \<le> now
      | None \<Rightarrow>
          (case att_first_failed_at a of
             Some t \<Rightarrow> now - t > seconds (cfg_write_guard_failure_window_seconds cfg)
           | None \<Rightarrow> False))"

definition prune_expired_attempts :: "settings \<Rightarrow> int \<Rightarrow> attempts \<Rightarrow> attempts" where
  "prune_expired_attempts cfg now attempts = filter (\<lambda>(_, a). \<not> expired_attempt cfg now a) attempts"

definition record_failure :: "settings \<Rightarrow> int \<Rightarrow> shared_code_attempt \<Rightarrow> shared_code_attempt" where
  "record_failure cfg now a =
     (let a = (if att_failures a = 0 then a\<lparr>att_first_failed_at := Some now\<rparr> else a);
          a = a\<lparr>att_failures := att_failures a + 1\<rparr>
      in if att_failures a \<ge> cfg_write_guard_max_failures cfg
         then a\<lparr>att_locked_until := Some (now + seconds (cfg_write_guard_lockout_seconds cfg))\<rparr>
         else a)"

text \<open>The attempts are a class attribute: they change on every path, also when the call raises.\<close>

definition verify_shared_code ::
  "settings \<Rightarrow> string \<Rightarrow> int \<Rightarrow> string \<Rightarrow> string \<Rightarrow> attempts \<Rightarrow> (exn + string) \<times> attempts" where
  "verify_shared_code cfg issued_token now submitted_code attempt_key attempts =
     (if cfg_write_guard_mode cfg \<noteq> ''shared_code'' then (raise PORT_OPERATION_NOT_SUPPORTED, attempts)
      else if submitted_code = '''' \<or> py_len submitted_code > SHARED_CODE_MAX_LENGTH
      then (raise WRITE_GUARD_INVALID, attempts)
      else
        let attempts = prune_expired_attempts cfg now attempts;
            attempt = map_of attempts attempt_key
        in if (case attempt of None \<Rightarrow> False
               | Some a \<Rightarrow> (case att_locked_until a of None \<Rightarrow> False | Some t \<Rightarrow> t > now))
           then (raise WRITE_GUARD_INVALID, attempts)
           else if (case cfg_write_guard_code cfg of None \<Rightarrow> False | Some c \<Rightarrow> c \<noteq> '''' \<and> submitted_code = c)
           then (Inr issued_token, filter (\<lambda>(k, _). k \<noteq> attempt_key) attempts)
           else
             (case attempt of
                None \<Rightarrow>
                  if length attempts \<ge> MAX_ATTEMPT_ENTRIES then (raise WRITE_GUARD_INVALID, attempts)
                  else (raise WRITE_GUARD_INVALID,
                        attempts @ [(attempt_key, record_failure cfg now
                          \<lparr>att_failures = 0, att_first_failed_at = None, att_locked_until = None\<rparr>)])
              | Some _ \<Rightarrow>
                  (raise WRITE_GUARD_INVALID,
                   map (\<lambda>(k, a). if k = attempt_key then (k, record_failure cfg now a) else (k, a)) attempts)))"

section \<open>The attempts table\<close>

text \<open>What the table always satisfies: one entry per key, a bounded number of them, and every entry
  counts its failures from a known first one.\<close>

definition attempt_ok :: "settings \<Rightarrow> shared_code_attempt \<Rightarrow> bool" where
  "attempt_ok cfg a \<longleftrightarrow> att_failures a \<ge> 1 \<and> att_first_failed_at a \<noteq> None
     \<and> (att_locked_until a = None \<longrightarrow> att_failures a < cfg_write_guard_max_failures cfg)"

definition attempts_ok :: "settings \<Rightarrow> attempts \<Rightarrow> bool" where
  "attempts_ok cfg attempts \<longleftrightarrow>
     distinct (map fst attempts) \<and> length attempts \<le> MAX_ATTEMPT_ENTRIES \<and> (\<forall>e \<in> set attempts. attempt_ok cfg (snd e))"

lemma distinct_fst_filter: "distinct (map fst xs) \<Longrightarrow> distinct (map fst (filter P xs))"
  by (induction xs) auto

lemma map_of_filter_snd:
  "distinct (map fst xs) \<Longrightarrow> map_of (filter (\<lambda>(_, a). P a) xs) k = (case map_of xs k of None \<Rightarrow> None | Some a \<Rightarrow> if P a then Some a else None)"
  by (induction xs) (auto split: option.splits simp: map_of_eq_None_iff rev_image_eqI)

lemma map_of_update_key:
  "map_of (map (\<lambda>(k, a). if k = key then (k, f a) else (k, a)) xs) k' = (if k' = key then map_option f (map_of xs key) else map_of xs k')"
  by (induction xs) auto

lemma fst_update_key [simp]: "map fst (map (\<lambda>(k, a). if k = key then (k, f a) else (k, a)) xs) = map fst xs"
  by (induction xs) auto

lemma prune_ok: "attempts_ok cfg attempts \<Longrightarrow> attempts_ok cfg (prune_expired_attempts cfg now attempts)"
  by (auto simp: attempts_ok_def prune_expired_attempts_def distinct_fst_filter intro: le_trans [OF length_filter_le])

abbreviation no_attempt :: shared_code_attempt where
  "no_attempt \<equiv> \<lparr>att_failures = 0, att_first_failed_at = None, att_locked_until = None\<rparr>"

lemma record_failure_ok:
  "attempt_ok cfg a \<Longrightarrow> attempt_ok cfg (record_failure cfg now a)" "attempt_ok cfg (record_failure cfg now no_attempt)"
  by (auto simp: attempt_ok_def record_failure_def Let_def)

text \<open>
  The table of failed attempts stays well formed and bounded: whatever is submitted, from
  whatever client and at whatever time, a verification keeps one entry per client, at most 4096
  entries, and every entry that is not locked out has fewer failures than the limit.
\<close>

theorem attempts_stay_bounded:
  assumes "attempts_ok cfg attempts"
  shows "attempts_ok cfg (snd (verify_shared_code cfg tok now code key attempts))"
proof -
  let ?p = "prune_expired_attempts cfg now attempts"
  have p: "attempts_ok cfg ?p" using assms by (rule prune_ok)
  have popped: "attempts_ok cfg (filter (\<lambda>(k, _). k \<noteq> key) ?p)"
    using p by (auto simp: attempts_ok_def distinct_fst_filter intro: le_trans [OF length_filter_le])
  have added: "attempts_ok cfg (?p @ [(key, record_failure cfg now no_attempt)])"
    if "map_of ?p key = None" "\<not> length ?p \<ge> MAX_ATTEMPT_ENTRIES"
  proof -
    have "key \<notin> fst ` set ?p" using that(1) by (simp add: map_of_eq_None_iff)
    then show ?thesis using p that(2) record_failure_ok(2) [of cfg now] by (auto simp: attempts_ok_def)
  qed
  have "\<forall>e \<in> set (map (\<lambda>(k, a). if k = key then (k, record_failure cfg now a) else (k, a)) ?p). attempt_ok cfg (snd e)"
    using p by (auto simp: attempts_ok_def record_failure_ok split: if_splits)
  then have counted: "attempts_ok cfg (map (\<lambda>(k, a). if k = key then (k, record_failure cfg now a) else (k, a)) ?p)"
    using p unfolding attempts_ok_def by (simp only: fst_update_key length_map)
  show ?thesis
    using assms p popped added counted by (auto simp: verify_shared_code_def Let_def split: option.splits)
qed

definition ex_guarded :: settings where
  "ex_guarded = ex_settings\<lparr>cfg_write_guard_mode := ''shared_code'', cfg_write_guard_code := Some ''open'',
     cfg_write_guard_max_failures := 2\<rparr>"

theorem attempts_stay_bounded_witness:
  "attempts_ok ex_guarded [] \<and> attempts_ok ex_guarded (snd (verify_shared_code ex_guarded ''tok'' 5 ''guess'' ''c1'' []))"
  using attempts_stay_bounded [of ex_guarded "[]" "''tok''" 5 "''guess''" "''c1''"] by (simp add: attempts_ok_def)

section \<open>Lockout\<close>

definition locked_until :: "attempts \<Rightarrow> string \<Rightarrow> int \<Rightarrow> bool" where
  "locked_until attempts key t \<longleftrightarrow> (\<exists>a. map_of attempts key = Some a \<and> att_locked_until a = Some t)"

lemma locked_kept:
  "distinct (map fst attempts) \<Longrightarrow> locked_until attempts key t \<Longrightarrow> now < t \<Longrightarrow> locked_until (prune_expired_attempts cfg now attempts) key t"
  by (auto simp: locked_until_def prune_expired_attempts_def map_of_filter_snd expired_attempt_def)

lemma lockout_refuses:
  assumes "distinct (map fst attempts)" and "locked_until attempts key t" and "now < t" and "cfg_write_guard_mode cfg = ''shared_code''"
  shows "fst (verify_shared_code cfg tok now code key attempts) = raise WRITE_GUARD_INVALID
    \<and> locked_until (snd (verify_shared_code cfg tok now code key attempts)) key t"
proof -
  obtain a where "map_of (prune_expired_attempts cfg now attempts) key = Some a" "att_locked_until a = Some t"
    using locked_kept [OF assms(1,2,3), of cfg] by (auto simp: locked_until_def)
  then show ?thesis using assms by (auto simp: verify_shared_code_def locked_until_def)
qed

text \<open>A wrong guess: a code of an acceptable length that is not the configured one.\<close>

definition wrong_code :: "settings \<Rightarrow> string \<Rightarrow> bool" where
  "wrong_code cfg code \<longleftrightarrow> code \<noteq> '''' \<and> py_len code \<le> SHARED_CODE_MAX_LENGTH \<and> cfg_write_guard_code cfg \<noteq> Some code"

text \<open>The state of one client after \<open>n\<close> counted failures, the first at \<open>t0\<close> and the last at \<open>now\<close>.\<close>

definition counted :: "settings \<Rightarrow> string \<Rightarrow> int \<Rightarrow> int \<Rightarrow> nat \<Rightarrow> attempts \<Rightarrow> bool" where
  "counted cfg key t0 now n attempts \<longleftrightarrow> distinct (map fst attempts) \<and>
     (if n = 0 then map_of attempts key = None \<and> length attempts < MAX_ATTEMPT_ENTRIES
      else map_of attempts key = Some \<lparr>att_failures = int n, att_first_failed_at = Some t0,
             att_locked_until = (if int n \<ge> cfg_write_guard_max_failures cfg
               then Some (now + seconds (cfg_write_guard_lockout_seconds cfg)) else None)\<rparr>)"

lemma counted_step:
  assumes mode: "cfg_write_guard_mode cfg = ''shared_code''" and w: "wrong_code cfg code"
    and c: "counted cfg key t0 prev n attempts" and n: "int n < cfg_write_guard_max_failures cfg"
    and t: "if n = 0 then now = t0 else now - t0 \<le> seconds (cfg_write_guard_failure_window_seconds cfg)"
  shows "counted cfg key t0 now (Suc n) (snd (verify_shared_code cfg tok now code key attempts))"
proof -
  let ?p = "prune_expired_attempts cfg now attempts"
  have d: "distinct (map fst ?p)" using c by (simp add: counted_def prune_expired_attempts_def distinct_fst_filter)
  have run: "snd (verify_shared_code cfg tok now code key attempts) =
      (case map_of ?p key of
         None \<Rightarrow> if length ?p \<ge> MAX_ATTEMPT_ENTRIES then ?p else ?p @ [(key, record_failure cfg now no_attempt)]
       | Some _ \<Rightarrow> map (\<lambda>(k, a). if k = key then (k, record_failure cfg now a) else (k, a)) ?p)"
    if "\<And>a. map_of ?p key = Some a \<Longrightarrow> att_locked_until a = None"
    using mode w that by (auto simp: verify_shared_code_def wrong_code_def Let_def split: option.splits)
  show ?thesis
  proof (cases "n = 0")
    case True
    then have none: "map_of ?p key = None" "length ?p < MAX_ATTEMPT_ENTRIES"
      using c le_less_trans [OF length_filter_le, of attempts MAX_ATTEMPT_ENTRIES]
      by (auto simp: counted_def prune_expired_attempts_def map_of_filter_snd)
    then have "key \<notin> fst ` set ?p" by (simp add: map_of_eq_None_iff)
    then show ?thesis using run none d True t
      by (auto simp: counted_def record_failure_def Let_def map_add_def)
  next
    case False
    let ?a = "\<lparr>att_failures = int n, att_first_failed_at = Some t0, att_locked_until = None\<rparr>"
    have some: "map_of ?p key = Some ?a"
      using c n t False by (auto simp: counted_def prune_expired_attempts_def map_of_filter_snd expired_attempt_def)
    show ?thesis using run some d False
      by (auto simp: counted_def map_of_update_key record_failure_def Let_def simp del: map_map)
  qed
qed

fun guesses :: "settings \<Rightarrow> string \<Rightarrow> string \<Rightarrow> (int \<times> string) list \<Rightarrow> attempts \<Rightarrow> attempts" where
  "guesses cfg tok key [] attempts = attempts"
| "guesses cfg tok key ((now, code) # gs) attempts =
     guesses cfg tok key gs (snd (verify_shared_code cfg tok now code key attempts))"

lemma counted_guesses:
  assumes "cfg_write_guard_mode cfg = ''shared_code''" and "counted cfg key t0 prev n attempts" and "0 < n"
    and "\<forall>(now, code) \<in> set gs. wrong_code cfg code \<and> now - t0 \<le> seconds (cfg_write_guard_failure_window_seconds cfg)"
    and "int (n + length gs) \<le> cfg_write_guard_max_failures cfg"
  shows "counted cfg key t0 (last (prev # map fst gs)) (n + length gs) (guesses cfg tok key gs attempts)"
  using assms(2-)
proof (induction gs arbitrary: attempts prev n)
  case (Cons g gs)
  obtain now code where g: "g = (now, code)" by fastforce
  have "counted cfg key t0 now (Suc n) (snd (verify_shared_code cfg tok now code key attempts))"
    using counted_step [OF assms(1) _ Cons.prems(1)] Cons.prems g by auto
  from Cons.IH [OF this] Cons.prems show ?case by (auto simp: g)
qed simp



text \<open>
  When 4096 other clients have live entries, a wrong code of a new client is compared and refused
  but not counted: the next guess of that client is compared again, and the right code is accepted.
\<close>

lemma full_table_guess_not_counted:
  assumes "cfg_write_guard_mode cfg = ''shared_code''" and "map_of attempts key = None"
    and "\<forall>e \<in> set attempts. \<not> expired_attempt cfg now (snd e)" and "length attempts \<ge> MAX_ATTEMPT_ENTRIES" and "wrong_code cfg guess"
    and "cfg_write_guard_code cfg = Some code" and "code \<noteq> ''''" and "py_len code \<le> SHARED_CODE_MAX_LENGTH"
  shows "verify_shared_code cfg tok now guess key attempts = (raise WRITE_GUARD_INVALID, attempts)
    \<and> fst (verify_shared_code cfg tok now code key attempts) = Inr tok"
proof -
  have "prune_expired_attempts cfg now attempts = attempts"
    using assms(3) by (auto simp: prune_expired_attempts_def filter_id_conv)
  then show ?thesis using assms by (auto simp: verify_shared_code_def wrong_code_def)
qed

end
