(* ===== verification/Projects.thy ===== *)
theory Projects
  imports Views "HOL-Library.Product_Lexorder"
begin

text \<open>
  The project and editor commands of
  \<open>src/backend/app/modules/final_cut_review/infra/repositories.py\<close>: creation, the one-time
  frame rate lock, update, archive and restore, the responsible editors, and the rerun of the
  technical quality control of a whole project. A handler takes the environment, the context,
  the validated payload fields, the expected lock version and the database, and returns the
  response with the new database, or raises.
\<close>

section \<open>Projects\<close>

definition create_project ::
  "env \<Rightarrow> execution_context \<Rightarrow> string \<Rightarrow> string \<Rightarrow> string \<Rightarrow> string option \<Rightarrow> int \<Rightarrow> int \<Rightarrow> db
   \<Rightarrow> exn + response \<times> db" where
  "create_project env context project_code project_name description external_project_id fps_n fps_d db =
     (let (pid, db) = new_id env ''prj'' db;
          project =
            \<lparr>prj_id = pid, prj_code = project_code, prj_name = project_name, prj_description = description,
             prj_source_host = (external_project_id \<noteq> None \<and> external_project_id \<noteq> Some ''''),
             prj_external_project_id = external_project_id, prj_lifecycle_status = lifecycle_active,
             prj_deleted_at = None, prj_fps_num = Some fps_n, prj_fps_den = Some fps_d,
             prj_lock_version = 1, prj_created_at = env_now env, prj_updated_at = env_now env\<rparr>
      in ebind (insert_project project db) (\<lambda>db.
         ebind (add_event env ''review.project.created'' context pid ''project'' pid (prj_lock_version project)
                  no_ids (JObj [(''project_code'', JStr project_code)]) db) (\<lambda>db.
         Inr (project_dto db project, db))))"

definition lock_project_frame_rate ::
  "env \<Rightarrow> execution_context \<Rightarrow> string \<Rightarrow> int \<Rightarrow> int \<Rightarrow> int option \<Rightarrow> db \<Rightarrow> exn + response \<times> db" where
  "lock_project_frame_rate env context project_ref_id fps_n fps_d expected_version db =
     ebind (get_project db project_ref_id) (\<lambda>project.
     ebind (assert_project_active project) (\<lambda>_.
     ebind (expect_lock (prj_lock_version project) expected_version) (\<lambda>_.
     ebind (guard (\<not> (prj_fps_num project \<noteq> None \<or> prj_fps_den project \<noteq> None)) (ReviewError PROJECT_FRAME_RATE_LOCKED)) (\<lambda>_.
     ebind (guard (count_rows (\<lambda>p. prj_id p = prj_id project \<and> prj_fps_num p = None \<and> prj_fps_den p = None
               \<and> prj_lock_version p = prj_lock_version project) (db_projects db) = 1)
             (ReviewError PROJECT_FRAME_RATE_LOCKED)) (\<lambda>_.
       let project = project\<lparr>prj_fps_num := Some fps_n, prj_fps_den := Some fps_d,
                             prj_lock_version := prj_lock_version project + 1, prj_updated_at := env_now env\<rparr>;
           db = put_project project db
       in ebind (add_event env ''review.project.updated'' context (prj_id project) ''project'' (prj_id project)
                   (prj_lock_version project) no_ids (JObj []) db) (\<lambda>db.
          Inr (project_dto db project, db)))))))"

definition update_project ::
  "env \<Rightarrow> execution_context \<Rightarrow> string \<Rightarrow> string option \<Rightarrow> string \<Rightarrow> string \<Rightarrow> int option \<Rightarrow> db \<Rightarrow> exn + response \<times> db" where
  "update_project env context project_ref_id project_code project_name description expected_version db =
     ebind (get_project db project_ref_id) (\<lambda>project.
     ebind (assert_project_active project) (\<lambda>_.
     ebind (expect_lock (prj_lock_version project) expected_version) (\<lambda>_.
     ebind (guard (project_code = None \<or> project_code = Some (prj_code project)) (ReviewError RESOURCE_STATE_CONFLICT)) (\<lambda>_.
       let project = project\<lparr>prj_name := project_name, prj_description := description,
                             prj_lock_version := prj_lock_version project + 1, prj_updated_at := env_now env\<rparr>;
           db = put_project project db
       in ebind (add_event env ''review.project.updated'' context (prj_id project) ''project'' (prj_id project)
                   (prj_lock_version project) no_ids (JObj []) db) (\<lambda>db.
          Inr (project_dto db project, db))))))"

definition archive_project ::
  "env \<Rightarrow> execution_context \<Rightarrow> string \<Rightarrow> int option \<Rightarrow> db \<Rightarrow> exn + response \<times> db" where
  "archive_project env context project_ref_id expected_version db =
     ebind (get_project db project_ref_id) (\<lambda>project.
     ebind (expect_lock (prj_lock_version project) expected_version) (\<lambda>_.
     ebind (guard (prj_deleted_at project = None) (ReviewError RESOURCE_STATE_CONFLICT)) (\<lambda>_.
     ebind (guard (prj_lifecycle_status project \<noteq> lifecycle_archived) (ReviewError RESOURCE_STATE_CONFLICT)) (\<lambda>_.
       let project = project\<lparr>prj_lifecycle_status := lifecycle_archived,
                             prj_lock_version := prj_lock_version project + 1, prj_updated_at := env_now env\<rparr>;
           db = put_project project db
       in ebind (add_event env ''review.project.archived'' context (prj_id project) ''project'' (prj_id project)
                   (prj_lock_version project) no_ids (JObj []) db) (\<lambda>db.
          Inr (project_dto db project, db))))))"

definition restore_project ::
  "env \<Rightarrow> execution_context \<Rightarrow> string \<Rightarrow> int option \<Rightarrow> db \<Rightarrow> exn + response \<times> db" where
  "restore_project env context project_ref_id expected_version db =
     ebind (get_project db project_ref_id) (\<lambda>project.
     ebind (expect_lock (prj_lock_version project) expected_version) (\<lambda>_.
     ebind (guard (prj_deleted_at project = None) (ReviewError RESOURCE_STATE_CONFLICT)) (\<lambda>_.
     ebind (guard (prj_lifecycle_status project = lifecycle_archived) (ReviewError RESOURCE_STATE_CONFLICT)) (\<lambda>_.
       let project = project\<lparr>prj_lifecycle_status := lifecycle_active,
                             prj_lock_version := prj_lock_version project + 1, prj_updated_at := env_now env\<rparr>;
           db = put_project project db
       in ebind (add_event env ''review.project.restored'' context (prj_id project) ''project'' (prj_id project)
                   (prj_lock_version project) no_ids (JObj []) db) (\<lambda>db.
          Inr (project_dto db project, db))))))"

section \<open>Responsible editors\<close>

definition create_responsible_editor :: "env \<Rightarrow> string \<Rightarrow> db \<Rightarrow> exn + response \<times> db" where
  "create_responsible_editor env display_name db =
     (let display_name = py_strip display_name
      in ebind (guard (display_name \<noteq> '''') (ReviewError RESPONSIBLE_EDITOR_REQUIRED)) (\<lambda>_.
           let (eid, db) = new_id env ''editor'' db;
               editor = \<lparr>edt_id = eid, edt_display_name = display_name, edt_lock_version = 1,
                         edt_created_at = env_now env, edt_updated_at = env_now env\<rparr>
           in ebind (insert_editor editor db) (\<lambda>db. Inr (R_Editor editor, db))))"

definition rename_responsible_editor :: "env \<Rightarrow> string \<Rightarrow> string \<Rightarrow> int option \<Rightarrow> db \<Rightarrow> exn + response \<times> db" where
  "rename_responsible_editor env responsible_editor_id display_name expected_version db =
     ebind (get_responsible_editor db responsible_editor_id) (\<lambda>editor.
     ebind (expect_lock (edt_lock_version editor) expected_version) (\<lambda>_.
       let display_name = py_strip display_name
       in ebind (guard (display_name \<noteq> '''') (ReviewError RESPONSIBLE_EDITOR_REQUIRED)) (\<lambda>_.
            let editor = editor\<lparr>edt_display_name := display_name,
                                edt_lock_version := edt_lock_version editor + 1, edt_updated_at := env_now env\<rparr>
            in Inr (R_Editor editor, put_editor editor db))))"

section \<open>Rerunning the technical quality control of a project\<close>

definition TECHNICAL_QC_RULE_VERSION :: string where
  "TECHNICAL_QC_RULE_VERSION = ''technical-qc-v1''"

definition technical_qc_task_id_for_version :: "env \<Rightarrow> string \<Rightarrow> string" where
  "technical_qc_task_id_for_version env version_id =
     ''tqc_'' @ take 32 (env_sha256_hex env (''technical-qc-task-v1'' @ [CHR 0x00] @ version_id))"

type_synonym qc_target = "review_version \<times> derivative_task \<times> qc_task option"

definition qc_rerun_target :: "env \<Rightarrow> db \<Rightarrow> string \<Rightarrow> review_item \<Rightarrow> exn + qc_target" where
  "qc_rerun_target env db project_ref_id item =
     (case itm_current_version_id item of
        None \<Rightarrow> raise RESOURCE_STATE_CONFLICT
      | Some current \<Rightarrow>
          if current = '''' then raise RESOURCE_STATE_CONFLICT
          else
            ebind (get_version db project_ref_id (itm_id item) current) (\<lambda>version.
            ebind (guard (ver_is_current version) (ReviewError VERSION_NOT_CURRENT)) (\<lambda>_.
              case derivative_task_of db version playback_faststart of
                None \<Rightarrow> raise PLAYBACK_NOT_READY
              | Some derivative \<Rightarrow>
                  if mdt_status derivative \<noteq> task_ready \<or> mdt_output_file_id derivative = None
                     \<or> mdt_output_file_id derivative \<noteq> ver_playback_asset_id version
                  then raise PLAYBACK_NOT_READY
                  else
                    ebind (assert_playback_ready env db version) (\<lambda>_.
                      Inr (version, derivative,
                           List.find (\<lambda>t. qct_version_id t = ver_id version) (db_qc_tasks db))))))"

definition qc_queue_target :: "env \<Rightarrow> qc_target \<Rightarrow> db \<Rightarrow> exn + db" where
  "qc_queue_target env target db =
     (case target of (version, derivative, task) \<Rightarrow>
        (case task of
           None \<Rightarrow>
             insert_qc_task
               \<lparr>qct_id = technical_qc_task_id_for_version env (ver_id version),
                qct_project_ref_id = ver_project_ref_id version, qct_review_item_id = ver_review_item_id version,
                qct_version_id = ver_id version, qct_input_file_id = or_empty (mdt_output_file_id derivative),
                qct_status = qc_queued, qct_claim_id = None, qct_lease_expires_at = None, qct_processed_ms = 0,
                qct_total_ms = duration_ms (ver_media version), qct_video_frame_count = None,
                qct_video_duration_ms = None, qct_container_duration_ms = None, qct_error_code = None,
                qct_rule_version = TECHNICAL_QC_RULE_VERSION, qct_attempts = 0, qct_next_attempt_at = None,
                qct_created_at = env_now env, qct_updated_at = env_now env, qct_started_at = None,
                qct_completed_at = None\<rparr> db
         | Some t \<Rightarrow>
             Inr (put_qc_task
               (t\<lparr>qct_input_file_id := or_empty (mdt_output_file_id derivative), qct_status := qc_queued,
                  qct_claim_id := None, qct_lease_expires_at := None, qct_processed_ms := 0,
                  qct_total_ms := duration_ms (ver_media version), qct_video_frame_count := None,
                  qct_video_duration_ms := None, qct_container_duration_ms := None, qct_error_code := None,
                  qct_rule_version := TECHNICAL_QC_RULE_VERSION, qct_attempts := 0, qct_next_attempt_at := None,
                  qct_created_at := env_now env, qct_updated_at := env_now env, qct_started_at := None,
                  qct_completed_at := None\<rparr>) db)))"

definition episode_key :: "review_item \<Rightarrow> int \<times> int \<times> string" where
  "episode_key item =
     (case itm_episode_no item of None \<Rightarrow> (1, 0, itm_id item) | Some n \<Rightarrow> (0, n, itm_id item))"

definition rerun_project_technical_qc :: "env \<Rightarrow> string \<Rightarrow> db \<Rightarrow> exn + response \<times> db" where
  "rerun_project_technical_qc env project_ref_id db =
     ebind (get_project db project_ref_id) (\<lambda>project.
     ebind (assert_project_active project) (\<lambda>_.
     ebind (guard (count_rows (\<lambda>t. qct_project_ref_id t = prj_id project
               \<and> (qct_status t = qc_queued \<or> qct_status t = qc_running)) (db_qc_tasks db) = 0)
             (ReviewError REVIEW_IN_PROGRESS)) (\<lambda>_.
       let items = order_by episode_key (filter (\<lambda>i. itm_project_ref_id i = prj_id project) (db_items db))
       in ebind (guard (items \<noteq> []) (ReviewError RESOURCE_STATE_CONFLICT)) (\<lambda>_.
          ebind (efold (\<lambda>item targets. ebind (qc_rerun_target env db (prj_id project) item) (\<lambda>t. Inr (targets @ [t]))) items [])
            (\<lambda>targets.
          ebind (efold (qc_queue_target env) targets db) (\<lambda>db.
          Inr (R_QcRerun (prj_id project) (length targets), db)))))))"

section \<open>The commands are sound\<close>

lemma create_project_sound:
  "create_project env c code name descr ext n d db = Inr (r, db') \<Longrightarrow> sound_step db db'"
  by (auto simp: create_project_def Let_def dest!: sound_event sound_insert(1) sound_new_id
        split: prod.splits intro: sound_trans)

lemma project_put_sound:
  "add_event env et c pid aty aid av ids pl (put_project p db) = Inr db' \<Longrightarrow> sound_step db db'"
  by (rule sound_event_after) auto

lemma project_commands_sound:
  "lock_project_frame_rate env c pid n d e db = Inr (r, db') \<Longrightarrow> sound_step db db'"
  "update_project env c pid code name descr e db = Inr (r, db') \<Longrightarrow> sound_step db db'"
  "archive_project env c pid e db = Inr (r, db') \<Longrightarrow> sound_step db db'"
  "restore_project env c pid e db = Inr (r, db') \<Longrightarrow> sound_step db db'"
  by (auto simp: lock_project_frame_rate_def update_project_def archive_project_def restore_project_def
        Let_def dest!: project_put_sound)

lemma editor_commands_sound:
  "create_responsible_editor env name db = Inr (r, db') \<Longrightarrow> sound_step db db'"
  "rename_responsible_editor env eid name e db = Inr (r, db') \<Longrightarrow> sound_step db db'"
  by (auto simp: create_responsible_editor_def rename_responsible_editor_def Let_def
        dest!: sound_insert(2) sound_new_id split: prod.splits intro: sound_trans)

lemma qc_queue_target_sound: "qc_queue_target env t db = Inr db' \<Longrightarrow> sound_step db db'"
  by (auto simp: qc_queue_target_def dest!: sound_insert(4) split: prod.splits option.splits)

lemma rerun_project_technical_qc_sound:
  "rerun_project_technical_qc env pid db = Inr (r, db') \<Longrightarrow> sound_step db db'"
  by (auto simp: rerun_project_technical_qc_def Let_def intro: sound_efold qc_queue_target_sound)

end
