(* ===== verification/Summary.thy ===== *)
theory Summary
  imports Views "HOL-Library.Product_Lexorder"
begin

text \<open>
  \<open>get_project_summary\<close> of
  \<open>src/backend/app/modules/final_cut_review/infra/repositories.py\<close>, the project card, with its
  derived statuses: derivative state without touching the storage, the cleanup state of a revoked
  finalization, and why an item cannot be deleted in bulk.
\<close>

definition summary_derivative_status ::
  "string option \<Rightarrow> derivative_task option \<Rightarrow> file_object option \<Rightarrow> asset_status" where
  "summary_derivative_status asset_id task file =
     (case task of
        None \<Rightarrow>
          if asset_id \<noteq> None \<and> file \<noteq> None \<and> map_option fil_id file = asset_id then asset_ready else asset_failed
      | Some t \<Rightarrow>
          if mdt_status t = task_queued \<or> mdt_status t = task_running then asset_pending
          else if mdt_status t \<noteq> task_ready \<or> mdt_output_file_id t = None \<or> mdt_output_file_id t \<noteq> asset_id
               \<or> file = None \<or> map_option fil_id file \<noteq> asset_id
          then asset_failed
          else asset_ready)"

definition revocation_cleanup_status :: "finalization option \<Rightarrow> invalidation list \<Rightarrow> revocation_status" where
  "revocation_cleanup_status finalization invalidations =
     (case finalization of
        None \<Rightarrow> revocation_none
      | Some f \<Rightarrow>
          if fin_status f = fin_active then revocation_none
          else
            let statuses = map inv_cleanup_status (filter (\<lambda>n. inv_finalization_id n = fin_id f) invalidations)
            in if list_all (\<lambda>s. s = cleanup_complete) statuses then revocation_complete
               else if list_ex (\<lambda>s. s = cleanup_failed) statuses then revocation_failed
               else revocation_pending)"

definition bulk_delete_reason :: "project \<Rightarrow> review_item \<Rightarrow> int \<Rightarrow> int \<Rightarrow> int \<Rightarrow> lock_reason option" where
  "bulk_delete_reason project item version_count issue_count finalization_count =
     (if prj_lifecycle_status project \<noteq> lifecycle_active then Some project_read_only
      else if itm_workflow_status item \<noteq> pending_review
              \<or> (itm_active_finalization_id item \<noteq> None \<and> itm_active_finalization_id item \<noteq> Some '''')
      then Some workflow_locked
      else if version_count \<noteq> 1 then Some version_history
      else if issue_count \<noteq> 0 then Some issue_history
      else if finalization_count \<noteq> 0 then Some finalization_history
      else None)"

text \<open>Per item: the active finalization first, then the latest one.\<close>

definition selected_finalization :: "db \<Rightarrow> string \<Rightarrow> review_item \<Rightarrow> finalization option" where
  "selected_finalization db project_ref_id item =
     (case order_by (\<lambda>f. (if fin_status f = fin_active then 0 else 1 :: int, - fin_finalized_at f))
             (rev (order_by fin_id (filter (\<lambda>f. fin_project_ref_id f = project_ref_id
                \<and> fin_review_item_id f = itm_id item) (db_finalizations db)))) of
        [] \<Rightarrow> None
      | f # _ \<Rightarrow> Some f)"

definition summary_item_of ::
  "db \<Rightarrow> project \<Rightarrow> string list \<Rightarrow> review_item \<Rightarrow> exn + summary_item" where
  "summary_item_of db project current_version_ids item =
     (let pid = prj_id project
      in case itm_current_version_id item of
           None \<Rightarrow> raise RESOURCE_STATE_CONFLICT
         | Some vid \<Rightarrow>
             ebind (of_option KeyError
                 (List.find (\<lambda>v. ver_id v = vid \<and> ver_project_ref_id v = pid) (db_versions db))) (\<lambda>version.
               let task = (\<lambda>kind. List.find (\<lambda>t. mdt_project_ref_id t = pid \<and> mdt_version_id t = ver_id version
                             \<and> mdt_kind t = kind) (db_tasks db));
                   finalization = selected_finalization db pid item
               in Inr
                 \<lparr>si_item = item, si_version = version,
                  si_playback_status = summary_derivative_status (ver_playback_asset_id version)
                    (task playback_faststart) (asset_file db (ver_playback_asset_id version)),
                  si_thumbnail_status = summary_derivative_status (ver_thumbnail_asset_id version)
                    (task thumbnail) (asset_file db (ver_thumbnail_asset_id version)),
                  si_unresolved_current_version_count =
                    count_rows (\<lambda>s. iss_project_ref_id s = pid \<and> iss_review_item_id s = itm_id item
                      \<and> iss_version_id s \<in> set current_version_ids \<and> iss_deleted_at s = None
                      \<and> iss_status s = unresolved) (db_issues db),
                  si_finalization = finalization,
                  si_revocation_cleanup_status = revocation_cleanup_status finalization (db_invalidations db),
                  si_bulk_delete_reason =
                    bulk_delete_reason project item
                      (count_rows (\<lambda>v. ver_project_ref_id v = pid \<and> ver_review_item_id v = itm_id item) (db_versions db))
                      (count_rows (\<lambda>s. iss_project_ref_id s = pid \<and> iss_review_item_id s = itm_id item) (db_issues db))
                      (count_rows (\<lambda>f. fin_project_ref_id f = pid \<and> fin_review_item_id f = itm_id item) (db_finalizations db))\<rparr>))"

definition get_project_summary :: "db \<Rightarrow> string \<Rightarrow> exn + response" where
  "get_project_summary db project_ref_id =
     ebind (get_project db project_ref_id) (\<lambda>project.
     ebind (assert_project_visible project) (\<lambda>_.
       let items = order_by (\<lambda>i. (- itm_created_at i, itm_id i))
                     (filter (\<lambda>i. itm_project_ref_id i = project_ref_id) (db_items db));
           current_version_ids = List.map_filter itm_current_version_id items;
           current_versions = remdups (map ver_id (filter (\<lambda>v. ver_project_ref_id v = project_ref_id
             \<and> ver_id v \<in> set current_version_ids) (db_versions db)))
       in if items = [] then Inr (R_Summary project (project_completion 0 0) [])
          else if length current_versions \<noteq> length current_version_ids then raise RESOURCE_STATE_CONFLICT
          else
            ebind (efold (\<lambda>item acc. ebind (summary_item_of db project current_version_ids item) (\<lambda>s. Inr (acc @ [s]))) items [])
              (\<lambda>summary_items.
            Inr (R_Summary project
                   (project_completion (int (length items)) (count_rows (\<lambda>i. itm_workflow_status i = finalized) items))
                   summary_items))))"

end
