(* ===== verification/Finalization.thy ===== *)
theory Finalization
  imports Summary
begin

text \<open>
  Finalizing and revoking, as in
  \<open>src/backend/app/modules/final_cut_review/infra/repositories.py\<close>: the authority check over
  a locked project, finalizing one item or all, revoking one finalization or all with the
  invalidation of every package that contains it, and the retry of the package cleanup.
\<close>

section \<open>Authority\<close>

definition locked_project_items :: "db \<Rightarrow> string \<Rightarrow> review_item list" where
  "locked_project_items db project_ref_id =
     order_by itm_id (filter (\<lambda>i. itm_project_ref_id i = project_ref_id) (db_items db))"

definition item_authority_ok :: "project \<Rightarrow> finalization list \<Rightarrow> review_item \<Rightarrow> bool" where
  "item_authority_ok project finalizations item \<longleftrightarrow>
     (itm_workflow_status item = finalized) = (itm_active_finalization_id item \<noteq> None)
     \<and> (case itm_active_finalization_id item of
          None \<Rightarrow> True
        | Some fid \<Rightarrow>
            (case row_get fin_id fid finalizations of
               None \<Rightarrow> False
             | Some f \<Rightarrow> fin_status f = fin_active \<and> fin_project_ref_id f = prj_id project
                 \<and> fin_review_item_id f = itm_id item \<and> Some (fin_version_id f) = itm_current_version_id item))"

definition finalization_authority_ok :: "review_item list \<Rightarrow> finalization \<Rightarrow> bool" where
  "finalization_authority_ok items f \<longleftrightarrow>
     fin_status f \<noteq> fin_active
     \<or> (case row_get itm_id (fin_review_item_id f) items of
          None \<Rightarrow> False
        | Some item \<Rightarrow> itm_workflow_status item = finalized
            \<and> itm_active_finalization_id item = Some (fin_id f)
            \<and> itm_current_version_id item = Some (fin_version_id f))"

definition locked_project_finalization_authority ::
  "db \<Rightarrow> project \<Rightarrow> review_item list \<Rightarrow> exn + finalization list" where
  "locked_project_finalization_authority db project items =
     (let finalizations = order_by (\<lambda>f. (fin_review_item_id f, fin_id f))
            (filter (\<lambda>f. fin_project_ref_id f = prj_id project) (db_finalizations db))
      in if \<not> list_all (item_authority_ok project finalizations) items then raise RESOURCE_STATE_CONFLICT
         else if \<not> list_all (finalization_authority_ok items) finalizations then raise RESOURCE_STATE_CONFLICT
         else Inr (List.map_filter (\<lambda>item. case itm_active_finalization_id item of
                None \<Rightarrow> None | Some fid \<Rightarrow> row_get fin_id fid finalizations) items))"

section \<open>Finalizing\<close>

definition regular_file_sha256 :: "env \<Rightarrow> path \<Rightarrow> exn + string" where
  "regular_file_sha256 env storage_path =
     (case env_pin_storage env storage_path of
        Pin_Unsafe \<Rightarrow> raise STORAGE_UNAVAILABLE
      | Pin_OSError \<Rightarrow> Inl OSError
      | Pin_Missing \<Rightarrow> raise PACKAGE_SOURCE_MISSING
      | Pin_File i \<Rightarrow> if fid_readable i then Inr (fid_sha256 i) else Inl OSError)"

definition fresh_finalization :: "env \<Rightarrow> string \<Rightarrow> review_item \<Rightarrow> review_version \<Rightarrow> finalization" where
  "fresh_finalization env fid item version =
     \<lparr>fin_id = fid, fin_project_ref_id = itm_project_ref_id item, fin_review_item_id = itm_id item,
      fin_version_id = ver_id version, fin_version_no = ver_version_no version,
      fin_original_file_id = ver_original_file_id version, fin_media = ver_media version,
      fin_status = fin_active, fin_finalized_at = env_now env, fin_revoked_at = None\<rparr>"

definition finalize_locked_item ::
  "env \<Rightarrow> execution_context \<Rightarrow> project \<Rightarrow> review_item \<Rightarrow> string \<Rightarrow> db \<Rightarrow> exn + finalization \<times> db" where
  "finalize_locked_item env context project item version_id db =
     ebind (get_version db (itm_project_ref_id item) (itm_id item) version_id) (\<lambda>version.
     ebind (ensure_current_version (ver_id version) (or_empty (itm_current_version_id item))) (\<lambda>_.
     ebind (assert_playback_ready env db version) (\<lambda>_.
     ebind (ensure_finalizable (itm_workflow_status item)) (\<lambda>_.
     ebind (guard (\<not> list_ex (\<lambda>n. inv_project_ref_id n = prj_id project \<and> inv_review_item_id n = itm_id item
               \<and> inv_cleanup_status n \<noteq> cleanup_complete) (db_invalidations db)) (ReviewError RESOURCE_STATE_CONFLICT)) (\<lambda>_.
     ebind (guard (itm_active_finalization_id item = None \<or> itm_active_finalization_id item = Some '''')
             (ReviewError REVIEW_ITEM_FINALIZED)) (\<lambda>_.
     ebind (of_option (ReviewError PACKAGE_SOURCE_MISSING) (get_file db (ver_original_file_id version))) (\<lambda>source_file.
     ebind (contained_storage_path (fil_storage_path source_file) (cfg_storage_root (env_settings env)) (Some (fil_id source_file))) (\<lambda>storage_path.
     ebind (regular_file_sha256 env storage_path) (\<lambda>digest.
     ebind (guard (digest = sha256 (ver_media version)) (ReviewError FILE_HASH_MISMATCH)) (\<lambda>_.
       let (fid, db) = new_id env ''fin'' db;
           finalization = fresh_finalization env fid item version
       in ebind (insert_finalization finalization db) (\<lambda>db.
            let item = item\<lparr>itm_workflow_status := finalized, itm_active_finalization_id := Some fid,
                            itm_lock_version := itm_lock_version item + 1, itm_updated_at := env_now env\<rparr>;
                db = put_item item db
            in ebind (add_event env ''review.version.finalized'' context (itm_project_ref_id item) ''review_item''
                        (itm_id item) (itm_lock_version item)
                        (no_ids\<lparr>ei_review_item_id := Some (itm_id item), ei_version_id := Some (ver_id version),
                                ei_finalization_id := Some fid\<rparr>) (JObj []) db) (\<lambda>db.
               Inr (finalization, db)))))))))))))"

definition finalize_version ::
  "env \<Rightarrow> execution_context \<Rightarrow> string \<Rightarrow> string \<Rightarrow> string \<Rightarrow> bool \<Rightarrow> int option \<Rightarrow> db \<Rightarrow> exn + response \<times> db" where
  "finalize_version env context project_ref_id review_item_id version_id confirmed expected_version db =
     ebind (guard confirmed (ReviewError VALIDATION_ERROR)) (\<lambda>_.
     ebind (get_project db project_ref_id) (\<lambda>project.
     ebind (assert_project_active project) (\<lambda>_.
     ebind (get_item db (prj_id project) review_item_id) (\<lambda>item.
     ebind (expect_lock (itm_lock_version item) expected_version) (\<lambda>_.
     ebind (finalize_locked_item env context project item version_id db) (\<lambda>(finalization, db).
     Inr (R_Finalization finalization, db)))))))"

text \<open>
  One iteration of the loops over the locked items of a project. The loop variable is a session
  object, so the row is the current one.
\<close>

definition finalize_target :: "env \<Rightarrow> execution_context \<Rightarrow> project \<Rightarrow> review_item \<Rightarrow> db \<Rightarrow> exn + db" where
  "finalize_target env context project target db =
     ebind (get_item db (prj_id project) (itm_id target)) (\<lambda>item.
       case itm_current_version_id item of
         None \<Rightarrow> raise RESOURCE_STATE_CONFLICT
       | Some version_id \<Rightarrow>
           ebind (finalize_locked_item env context project item version_id db) (\<lambda>(_, db). Inr db))"

definition finalize_project ::
  "env \<Rightarrow> execution_context \<Rightarrow> string \<Rightarrow> bool \<Rightarrow> int option \<Rightarrow> db \<Rightarrow> exn + response \<times> db" where
  "finalize_project env context project_ref_id confirmed expected_version db =
     ebind (guard confirmed (ReviewError VALIDATION_ERROR)) (\<lambda>_.
     ebind (get_project db project_ref_id) (\<lambda>project.
     ebind (assert_project_active project) (\<lambda>_.
     ebind (expect_lock (prj_lock_version project) expected_version) (\<lambda>_.
       let items = locked_project_items db (prj_id project)
       in ebind (locked_project_finalization_authority db project items) (\<lambda>_.
            let targets = filter (\<lambda>i. itm_workflow_status i \<noteq> finalized) items
            in if targets = [] then ebind (get_project_summary db (prj_id project)) (\<lambda>s. Inr (s, db))
               else
                 ebind (efold (finalize_target env context project) targets db) (\<lambda>db.
                   let db = put_project (project\<lparr>prj_lock_version := prj_lock_version project + 1,
                                                 prj_updated_at := env_now env\<rparr>) db
                   in ebind (get_project_summary db (prj_id project)) (\<lambda>s. Inr (s, db))))))))"

section \<open>Revoking\<close>

definition locked_project_packages :: "db \<Rightarrow> string \<Rightarrow> package list" where
  "locked_project_packages db project_ref_id =
     order_by (\<lambda>p. (pkg_created_at p, pkg_id p))
       (filter (\<lambda>p. pkg_project_ref_id p = project_ref_id \<and> pkg_storage_reclaimed_at p = None) (db_packages db))"

definition package_contains :: "string \<Rightarrow> package \<Rightarrow> bool" where
  "package_contains finalization_id p = list_ex (\<lambda>j. jget_str j ''finalization_id'' = Some finalization_id) (pkg_items p)"

definition invalidate_package :: "int \<Rightarrow> string \<Rightarrow> package \<Rightarrow> package" where
  "invalidate_package now finalization_id p =
     (if pkg_status p = invalidated then p
      else p\<lparr>pkg_status := invalidated, pkg_expires_at := now - 1, pkg_next_build_attempt_at := None,
             pkg_build_lease_id := None, pkg_build_lease_expires_at := None,
             pkg_download_session_hash := None, pkg_download_session_expires_at := None,
             pkg_download_lease_id := None, pkg_download_lease_expires_at := None,
             pkg_failure_details := Some (JObj [(''error_code'', JStr ''PACKAGE_INVALIDATED_BY_FINALIZATION_REVOKE''),
                                                (''finalization_id'', JStr finalization_id)]),
             pkg_updated_at := now\<rparr>)"

definition revoke_package ::
  "env \<Rightarrow> project \<Rightarrow> review_item \<Rightarrow> finalization \<Rightarrow> string \<Rightarrow> string list \<times> db \<Rightarrow> exn + string list \<times> db" where
  "revoke_package env project item finalization package_id acc =
     (case acc of (ids, db) \<Rightarrow>
        (case row_get pkg_id package_id (db_packages db) of
           None \<Rightarrow> Inr acc
         | Some p \<Rightarrow>
             if \<not> package_contains (fin_id finalization) p then Inr acc
             else
               let db = put_package (invalidate_package (env_now env) (fin_id finalization) p) db;
                   (nid, db) = new_id env ''fpi'' db
               in ebind (insert_invalidation
                    \<lparr>inv_id = nid, inv_project_ref_id = prj_id project, inv_review_item_id = itm_id item,
                     inv_finalization_id = fin_id finalization, inv_package_id = pkg_id p,
                     inv_cleanup_status = cleanup_pending, inv_cleanup_attempts = 0, inv_last_error_code = None,
                     inv_created_at = env_now env, inv_updated_at = env_now env\<rparr> db) (\<lambda>db.
                  Inr (ids @ [pkg_id p], db))))"

definition revoke_locked_finalization ::
  "env \<Rightarrow> execution_context \<Rightarrow> project \<Rightarrow> review_item \<Rightarrow> finalization \<Rightarrow> string list \<Rightarrow> db
   \<Rightarrow> exn + string list \<times> db" where
  "revoke_locked_finalization env context project item finalization package_ids db =
     (let item = item\<lparr>itm_workflow_status := in_review, itm_active_finalization_id := None,
                      itm_lock_version := itm_lock_version item + 1, itm_updated_at := env_now env\<rparr>;
          db = put_item item db
      in ebind (efold (revoke_package env project item finalization) package_ids ([], db)) (\<lambda>(ids, db).
           let db = put_finalization (finalization\<lparr>fin_status := fin_revoked, fin_revoked_at := Some (env_now env)\<rparr>) db
           in ebind (add_event env ''review.finalization.revoked'' context (itm_project_ref_id item) ''review_item''
                       (itm_id item) (itm_lock_version item)
                       (no_ids\<lparr>ei_review_item_id := Some (itm_id item), ei_version_id := Some (fin_version_id finalization),
                               ei_finalization_id := Some (fin_id finalization)\<rparr>) (JObj []) db) (\<lambda>db.
              Inr (ids, db))))"

definition active_finalization_of :: "db \<Rightarrow> string \<Rightarrow> review_item \<Rightarrow> finalization option" where
  "active_finalization_of db project_ref_id item =
     List.find (\<lambda>f. Some (fin_id f) = itm_active_finalization_id item \<and> fin_project_ref_id f = project_ref_id
        \<and> fin_review_item_id f = itm_id item \<and> fin_status f = fin_active) (db_finalizations db)"

definition revoke_finalization ::
  "env \<Rightarrow> execution_context \<Rightarrow> string \<Rightarrow> string \<Rightarrow> bool \<Rightarrow> int option \<Rightarrow> db \<Rightarrow> exn + response \<times> db" where
  "revoke_finalization env context project_ref_id review_item_id confirmed expected_version db =
     ebind (guard confirmed (ReviewError VALIDATION_ERROR)) (\<lambda>_.
     ebind (get_project db project_ref_id) (\<lambda>project.
     ebind (assert_project_active project) (\<lambda>_.
     ebind (get_item db (prj_id project) review_item_id) (\<lambda>item.
     ebind (expect_lock (itm_lock_version item) expected_version) (\<lambda>_.
     ebind (guard (itm_workflow_status item = finalized \<and> itm_active_finalization_id item \<noteq> None
               \<and> itm_active_finalization_id item \<noteq> Some '''') (ReviewError RESOURCE_STATE_CONFLICT)) (\<lambda>_.
     ebind (of_option (ReviewError RESOURCE_STATE_CONFLICT) (active_finalization_of db (prj_id project) item)) (\<lambda>finalization.
     ebind (revoke_locked_finalization env context project item finalization
              (map pkg_id (locked_project_packages db (prj_id project))) db) (\<lambda>(ids, db).
       let item = item\<lparr>itm_workflow_status := in_review, itm_active_finalization_id := None,
                       itm_lock_version := itm_lock_version item + 1, itm_updated_at := env_now env\<rparr>
       in ebind (item_dto db item) (\<lambda>view.
          Inr (R_Revoked (finalization\<lparr>fin_status := fin_revoked, fin_revoked_at := Some (env_now env)\<rparr>) view
                 (if ids \<noteq> [] then cleanup_pending else cleanup_complete) ids, db))))))))))"

definition revoke_target ::
  "env \<Rightarrow> execution_context \<Rightarrow> project \<Rightarrow> finalization list \<Rightarrow> string list \<Rightarrow> review_item \<Rightarrow> db \<Rightarrow> exn + db" where
  "revoke_target env context project active package_ids target db =
     ebind (get_item db (prj_id project) (itm_id target)) (\<lambda>item.
     ebind (of_option KeyError (row_get fin_id (or_empty (itm_active_finalization_id item)) active)) (\<lambda>listed.
     ebind (of_option KeyError (row_get fin_id (fin_id listed) (db_finalizations db))) (\<lambda>finalization.
     ebind (revoke_locked_finalization env context project item finalization package_ids db) (\<lambda>(_, db).
     Inr db))))"

definition revoke_project_finalization ::
  "env \<Rightarrow> execution_context \<Rightarrow> string \<Rightarrow> bool \<Rightarrow> int option \<Rightarrow> db \<Rightarrow> exn + response \<times> db" where
  "revoke_project_finalization env context project_ref_id confirmed expected_version db =
     ebind (guard confirmed (ReviewError VALIDATION_ERROR)) (\<lambda>_.
     ebind (get_project db project_ref_id) (\<lambda>project.
     ebind (assert_project_active project) (\<lambda>_.
     ebind (expect_lock (prj_lock_version project) expected_version) (\<lambda>_.
       let items = locked_project_items db (prj_id project)
       in ebind (locked_project_finalization_authority db project items) (\<lambda>active.
            let targets = filter (\<lambda>i. itm_workflow_status i = finalized) items
            in if targets = [] then ebind (get_project_summary db (prj_id project)) (\<lambda>s. Inr (s, db))
               else
                 let package_ids = map pkg_id (locked_project_packages db (prj_id project))
                 in ebind (efold (revoke_target env context project active package_ids) targets db) (\<lambda>db.
                      let db = put_project (project\<lparr>prj_lock_version := prj_lock_version project + 1,
                                                    prj_updated_at := env_now env\<rparr>) db
                      in ebind (get_project_summary db (prj_id project)) (\<lambda>s. Inr (s, db))))))))"

section \<open>Retrying the package cleanup\<close>

definition settle_invalidations :: "int \<Rightarrow> cleanup_status \<Rightarrow> string \<Rightarrow> db \<Rightarrow> db" where
  "settle_invalidations now status package_id db =
     db\<lparr>db_invalidations := map (\<lambda>n.
          if inv_package_id n = package_id \<and> inv_cleanup_status n \<noteq> cleanup_complete
          then n\<lparr>inv_cleanup_status := status, inv_last_error_code := None, inv_updated_at := now\<rparr> else n)
        (db_invalidations db)\<rparr>"

definition live_lease :: "int \<Rightarrow> string option \<Rightarrow> int option \<Rightarrow> bool" where
  "live_lease now lease_id expires_at =
     (lease_id \<noteq> None \<and> (case expires_at of None \<Rightarrow> False | Some t \<Rightarrow> t > now))"

definition retry_package_cleanup :: "env \<Rightarrow> package \<Rightarrow> string list \<times> db \<Rightarrow> exn + string list \<times> db" where
  "retry_package_cleanup env p acc =
     (case acc of (requeued, db) \<Rightarrow>
        let now = env_now env
        in if pkg_storage_reclaimed_at p \<noteq> None
           then Inr (requeued, settle_invalidations now cleanup_complete (pkg_id p) db)
           else if pkg_status p \<noteq> invalidated \<and> pkg_status p \<noteq> expired then raise RESOURCE_STATE_CONFLICT
           else if live_lease now (pkg_download_lease_id p) (pkg_download_lease_expires_at p)
           then
             (if take 8 (or_empty (pkg_download_lease_id p)) \<noteq> ''cleanup_'' then raise RESOURCE_STATE_CONFLICT
              else Inr (requeued, settle_invalidations now cleanup_pending (pkg_id p) db))
           else
             let p = p\<lparr>pkg_download_lease_id := None, pkg_download_lease_expires_at := None,
                       pkg_expires_at := min (pkg_expires_at p) (now - 1), pkg_updated_at := now\<rparr>
             in Inr (requeued @ [pkg_id p], settle_invalidations now cleanup_pending (pkg_id p) (put_package p db)))"

definition retry_finalization_cleanup ::
  "env \<Rightarrow> string \<Rightarrow> string \<Rightarrow> bool \<Rightarrow> int option \<Rightarrow> db \<Rightarrow> exn + response \<times> db" where
  "retry_finalization_cleanup env project_ref_id review_item_id confirmed expected_version db =
     ebind (guard confirmed (ReviewError VALIDATION_ERROR)) (\<lambda>_.
     ebind (get_project db project_ref_id) (\<lambda>project.
     ebind (assert_project_active project) (\<lambda>_.
     ebind (get_item db (prj_id project) review_item_id) (\<lambda>item.
     ebind (expect_lock (itm_lock_version item) expected_version) (\<lambda>_.
     ebind (guard (\<not> (itm_workflow_status item = finalized \<or> itm_active_finalization_id item \<noteq> None))
             (ReviewError RESOURCE_STATE_CONFLICT)) (\<lambda>_.
     ebind (guard (list_ex (\<lambda>f. fin_project_ref_id f = prj_id project \<and> fin_review_item_id f = itm_id item
               \<and> fin_status f = fin_revoked) (db_finalizations db)) (ReviewError RESOURCE_STATE_CONFLICT)) (\<lambda>_.
       let targets = filter (\<lambda>n. inv_project_ref_id n = prj_id project \<and> inv_review_item_id n = itm_id item
             \<and> inv_cleanup_status n \<noteq> cleanup_complete) (db_invalidations db);
           target_ids = map inv_id targets;
           package_ids = sort (remdups (map inv_package_id targets));
           packages = order_by pkg_id (filter (\<lambda>p. pkg_project_ref_id p = prj_id project
             \<and> pkg_id p \<in> set package_ids) (db_packages db))
       in if targets = [] then Inr (R_Cleanup (prj_id project) (itm_id item) cleanup_complete [], db)
          else if map pkg_id packages \<noteq> package_ids then raise RESOURCE_STATE_CONFLICT
          else
            ebind (efold (retry_package_cleanup env) packages ([], db)) (\<lambda>(requeued, db).
              let settled = list_all (\<lambda>n. inv_cleanup_status n = cleanup_complete)
                    (filter (\<lambda>n. inv_id n \<in> set target_ids) (db_invalidations db))
              in Inr (R_Cleanup (prj_id project) (itm_id item)
                        (if settled then cleanup_complete else cleanup_pending) requeued, db)))))))))"

section \<open>The commands are sound\<close>

lemma add_finalization_sound:
  assumes ins: "insert_finalization (fresh_finalization env fid i v) db = Inr db1"
    and i: "i \<in> set (db_items db)" "itm_workflow_status i \<noteq> finalized" and v: "ver_id v = or_empty (itm_current_version_id i)"
    and i': "next_item i i'" "itm_current_version_id i' = itm_current_version_id i"
      "itm_active_finalization_id i' = Some fid" "itm_workflow_status i' = finalized"
  shows "sound_step db (put_item i' db1)"
proof (rule sound_core)
  let ?f = "fresh_finalization env fid i v"
  have db1: "db_finalizations db1 = db_finalizations db @ [?f]" "fin_id ?f \<notin> fin_id ` set (db_finalizations db)"
    "db_items db1 = db_items db" "db_versions db1 = db_versions db" "db_issues db1 = db_issues db" "db_events db1 = db_events db"
    using ins by (auto simp: insert_finalization_def row_insert_Inr_iff)
  assume "review_ok (core_of db)"
  then obtain w :: review_version where "itm_current_version_id i = Some (ver_id w)"
    using current_okD [of "core_of db" i] i(1) by (auto simp: review_ok_def points_to_def)
  then have cv: "itm_current_version_id i = Some (fin_version_id ?f)" using v by (simp add: fresh_finalization_def or_empty_def)
  have "core_of (put_item i' db1) = (core_of db)\<lparr>co_items := row_put itm_id i' (co_items (core_of db)),
      co_finalizations := co_finalizations (core_of db) @ [?f]\<rparr>"
    using db1 by (simp add: core_of_def put_item_def)
  then show "review_step (core_of db) (core_of (put_item i' db1))"
    by (simp only:, intro finalized_item [where i = i]) (use i i' cv db1 in \<open>auto simp: fresh_finalization_def\<close>)
qed (use ins in \<open>auto simp: insert_finalization_def put_item_def\<close>)

lemma finalize_locked_item_sound:
  assumes "finalize_locked_item env c p i vid db = Inr (f, db')" and i: "i \<in> set (db_items db)"
  shows "sound_step db db'"
proof -
  obtain fid db1 where n: "new_id env ''fin'' db = (fid, db1)" by fastforce
  from assms(1) n obtain v db2 where st: "itm_workflow_status i \<noteq> finalized" and v: "ver_id v = or_empty (itm_current_version_id i)"
    and ins: "insert_finalization (fresh_finalization env fid i v) db1 = Inr db2"
    and ev: "sound_step (put_item (i\<lparr>itm_workflow_status := finalized, itm_active_finalization_id := Some fid,
        itm_lock_version := itm_lock_version i + 1, itm_updated_at := env_now env\<rparr>) db2) db'"
    by (auto simp: finalize_locked_item_def Let_def dest!: sound_event get_version_InrD)
  have "db_items db1 = db_items db" using n by (auto simp: new_id_def)
  then have "sound_step db1 (put_item (i\<lparr>itm_workflow_status := finalized, itm_active_finalization_id := Some fid,
        itm_lock_version := itm_lock_version i + 1, itm_updated_at := env_now env\<rparr>) db2)"
    using add_finalization_sound [OF ins _ st v] i by (simp add: next_item_def)
  then show ?thesis using sound_new_id [OF n] ev sound_trans by blast
qed

lemma finalize_version_sound:
  "finalize_version env c pid iid vid conf e db = Inr (r, db') \<Longrightarrow> sound_step db db'"
  by (auto simp: finalize_version_def dest!: get_item_InrD finalize_locked_item_sound)

lemma finalize_target_sound: "finalize_target env c p t db = Inr db' \<Longrightarrow> sound_step db db'"
  by (auto simp: finalize_target_def dest!: get_item_InrD finalize_locked_item_sound split: option.splits)

lemma finalize_project_sound:
  assumes "finalize_project env c pid conf e db = Inr (r, db')"
  shows "sound_step db db'"
proof -
  from assms obtain p :: project and ts db1 p' where "db' = db \<or> (efold (finalize_target env c p) ts db = Inr db1 \<and> db' = put_project p' db1)"
    by (auto simp: finalize_project_def Let_def split: if_splits)
  then show ?thesis
    using sound_efold [of "finalize_target env c p" ts db db1] finalize_target_sound sound_trans sound_put(1) by blast
qed

lemma revoke_package_frame:
  assumes "revoke_package env p i f k (ids, db) = Inr (ids', db')"
  shows "core_of db' = core_of db \<and> db_events db' = db_events db"
  using assms by (auto simp: revoke_package_def Let_def new_id_def insert_defs put_defs core_of_def
      split: option.splits if_splits)

lemma revoke_packages_frame:
  assumes "efold (revoke_package env p i f) ks (ids, db) = Inr (ids', db')"
  shows "core_of db' = core_of db \<and> db_events db' = db_events db"
  using efold_invariant [OF assms, of "\<lambda>s. core_of (snd s) = core_of db \<and> db_events (snd s) = db_events db"]
    revoke_package_frame by (metis prod.collapse snd_conv)

lemma revoke_locked_finalization_sound:
  assumes r: "revoke_locked_finalization env c p i f ks db = Inr (ids, db')"
    and i: "i \<in> set (db_items db)" "itm_workflow_status i = finalized"
    and f: "f \<in> set (db_finalizations db)" "itm_active_finalization_id i = Some (fin_id f)"
  shows "sound_step db db'"
proof -
  let ?i = "i\<lparr>itm_workflow_status := in_review, itm_active_finalization_id := None,
      itm_lock_version := itm_lock_version i + 1, itm_updated_at := env_now env\<rparr>"
  let ?f = "f\<lparr>fin_status := fin_revoked, fin_revoked_at := Some (env_now env)\<rparr>"
  from r obtain db1 where fo: "efold (revoke_package env p ?i f) ks ([], put_item ?i db) = Inr (ids, db1)"
    and ev: "sound_step (put_finalization ?f db1) db'"
    by (auto simp: revoke_locked_finalization_def Let_def dest!: sound_event)
  note fr = revoke_packages_frame [OF fo]
  have core: "core_of (put_finalization ?f db1) = (core_of db)\<lparr>co_items := row_put itm_id ?i (co_items (core_of db)),
      co_finalizations := row_put fin_id ?f (co_finalizations (core_of db))\<rparr>"
    using fr by (simp add: core_of_def put_item_def put_finalization_def)
  have "sound_step db (put_finalization ?f db1)"
  proof (rule sound_core)
    show "review_step (core_of db) (core_of (put_finalization ?f db1))"
      unfolding core by (intro finalization_revoked [where i = i and f = f]) (use i f in \<open>auto simp: next_item_def\<close>)
  qed (use fr in \<open>simp add: put_finalization_def put_item_def\<close>)
  then show ?thesis using ev sound_trans by blast
qed

lemma revoke_finalization_sound:
  "revoke_finalization env c pid iid conf e db = Inr (r, db') \<Longrightarrow> sound_step db db'"
  by (auto simp: revoke_finalization_def active_finalization_of_def Let_def
        dest!: get_item_InrD find_SomeD intro: revoke_locked_finalization_sound)

lemma locked_items_mem: "i \<in> set (locked_project_items db pid) \<longleftrightarrow> i \<in> set (db_items db) \<and> itm_project_ref_id i = pid"
  by (auto simp: locked_project_items_def)

lemma locked_items_distinct: "keys_ok (core_of db) \<Longrightarrow> distinct (map itm_id (locked_project_items db pid))"
  by (simp add: keys_ok_def locked_project_items_def distinct_map_filterI)

text \<open>In a state that satisfies the invariant the authority check succeeds on every project.\<close>

lemma authority_check_passes:
  assumes ok: "review_ok (core_of db)"
  shows "\<exists>active. locked_project_finalization_authority db p (locked_project_items db (prj_id p)) = Inr active"
proof -
  let ?fs = "order_by (\<lambda>f. (fin_review_item_id f, fin_id f)) (filter (\<lambda>f. fin_project_ref_id f = prj_id p) (db_finalizations db))"
  let ?is = "locked_project_items db (prj_id p)"
  have k: "distinct (map fin_id ?fs)" "distinct (map itm_id ?is)"
    using ok by (auto simp: review_ok_def keys_ok_def locked_project_items_def distinct_map_filterI)
  have au: "authority_ok (core_of db)" using ok by (simp add: review_ok_def)
  have "item_authority_ok p ?fs i" if i: "i \<in> set ?is" for i
  proof (cases "itm_workflow_status i = finalized")
    case True
    then obtain f where f: "f \<in> set (db_finalizations db)" "authorised i f"
      using au i by (auto simp: authority_ok_def locked_items_mem)
    then have "row_get fin_id (fin_id f) ?fs = Some f"
      using i k(1) by (intro row_get_mem) (auto simp: authorised_def locked_items_mem)
    then show ?thesis using f True i by (auto simp: item_authority_ok_def authorised_def locked_items_mem)
  next
    case False
    then show ?thesis using au i by (auto simp: authority_ok_def item_authority_ok_def locked_items_mem)
  qed
  moreover have "finalization_authority_ok ?is f" if f: "f \<in> set ?fs" for f
  proof (cases "fin_status f = fin_active")
    case True
    then obtain i where i: "i \<in> set (db_items db)" "authorised i f" using au f by (auto simp: authority_ok_def)
    then have "row_get itm_id (itm_id i) ?is = Some i"
      using f k(2) by (intro row_get_mem) (auto simp: authorised_def locked_items_mem)
    moreover have "itm_workflow_status i = finalized" using au i by (auto simp: authority_ok_def authorised_def)
    ultimately show ?thesis using i by (auto simp: finalization_authority_ok_def authorised_def)
  qed (simp add: finalization_authority_ok_def)
  ultimately show ?thesis by (simp add: locked_project_finalization_authority_def Let_def list_all_iff)
qed

lemma revoke_locked_items:
  assumes "revoke_locked_finalization env c p i f ks db = Inr (ids, db')"
  shows "\<exists>i'. itm_id i' = itm_id i \<and> db_items db' = row_put itm_id i' (db_items db)"
proof -
  let ?i = "i\<lparr>itm_workflow_status := in_review, itm_active_finalization_id := None,
      itm_lock_version := itm_lock_version i + 1, itm_updated_at := env_now env\<rparr>"
  from assms obtain db1 where fo: "efold (revoke_package env p ?i f) ks ([], put_item ?i db) = Inr (ids, db1)"
    and ev: "db_items db' = db_items db1"
    by (auto simp: revoke_locked_finalization_def Let_def put_finalization_def dest!: add_event_frame(2))
  have "itm_id ?i = itm_id i" by simp
  moreover have "db_items db' = row_put itm_id ?i (db_items db)"
    using revoke_packages_frame [OF fo] ev by (simp add: core_of_def put_item_def)
  ultimately show ?thesis by blast
qed

lemma get_item_self:
  assumes "keys_ok (core_of db)" and "t \<in> set (db_items db)" and "get_item db pid (itm_id t) = Inr i"
  shows "i = t"
  using get_item_InrD [OF assms(3)] assms(1,2) by (auto simp: keys_ok_def dest: key_inj)

lemma revoke_target_step:
  assumes r: "revoke_target env c p active ks t db = Inr db'" and ok: "store_ok db"
    and t: "t \<in> set (db_items db)" "itm_workflow_status t = finalized"
  shows "sound_step db db' \<and> (\<forall>j\<in>set (db_items db). itm_id j \<noteq> itm_id t \<longrightarrow> j \<in> set (db_items db'))"
proof -
  have keys: "keys_ok (core_of db)" and au: "authority_ok (core_of db)" using ok by (auto simp: store_ok_def review_ok_def)
  from r obtain i l f ids where i: "get_item db (prj_id p) (itm_id t) = Inr i"
    and l: "row_get fin_id (or_empty (itm_active_finalization_id i)) active = Some l"
    and f: "row_get fin_id (fin_id l) (db_finalizations db) = Some f"
    and rv: "revoke_locked_finalization env c p i f ks db = Inr (ids, db')"
    by (auto simp: revoke_target_def)
  have it: "i = t" by (rule get_item_self [OF keys t(1) i])
  obtain a where a: "itm_active_finalization_id t = Some a" using au t by (auto simp: authority_ok_def)
  then have "fin_id f = a" using l f it by (auto simp: or_empty_def dest!: row_get_SomeD)
  then have "sound_step db db'"
    using revoke_locked_finalization_sound [OF rv] it t f a by (auto dest: row_get_SomeD)
  moreover have "\<forall>j\<in>set (db_items db). itm_id j \<noteq> itm_id t \<longrightarrow> j \<in> set (db_items db')"
    using revoke_locked_items [OF rv] it in_set_row_put_other by metis
  ultimately show ?thesis by blast
qed

lemma revoke_targets_sound:
  assumes "efold (revoke_target env c p active ks) ts db = Inr db'" and "store_ok db" and "distinct (map itm_id ts)"
    and "\<forall>t\<in>set ts. t \<in> set (db_items db) \<and> itm_workflow_status t = finalized"
  shows "sound_step db db'"
  using assms
proof (induction ts arbitrary: db)
  case (Cons t ts)
  from Cons.prems(1) obtain db1 where r: "revoke_target env c p active ks t db = Inr db1"
    and rest: "efold (revoke_target env c p active ks) ts db1 = Inr db'" by auto
  have st: "sound_step db db1" and keep: "\<forall>j\<in>set (db_items db). itm_id j \<noteq> itm_id t \<longrightarrow> j \<in> set (db_items db1)"
    using revoke_target_step [OF r Cons.prems(2)] Cons.prems(4) by auto
  have "sound_step db1 db'"
  proof (rule Cons.IH [OF rest])
    show "store_ok db1" using sound_ok [OF st Cons.prems(2)] .
    show "\<forall>u\<in>set ts. u \<in> set (db_items db1) \<and> itm_workflow_status u = finalized"
      using Cons.prems(3,4) keep by (auto simp: image_iff)
  qed (use Cons.prems(3) in simp)
  then show ?case using st sound_trans by blast
qed simp

lemma revoke_project_finalization_sound:
  assumes "revoke_project_finalization env c pid conf e db = Inr (r, db')"
  shows "sound_step db db'"
proof (rule sound_if_ok)
  assume ok: "store_ok db"
  from assms obtain p :: project and active db1 where
    "db' = db \<or> (efold (revoke_target env c p active (map pkg_id (locked_project_packages db (prj_id p))))
        (filter (\<lambda>i. itm_workflow_status i = finalized) (locked_project_items db (prj_id p))) db = Inr db1
      \<and> sound_step db1 db')"
    by (auto simp: revoke_project_finalization_def Let_def split: if_splits)
  then show "sound_step db db'"
  proof
    assume h: "efold (revoke_target env c p active (map pkg_id (locked_project_packages db (prj_id p))))
        (filter (\<lambda>i. itm_workflow_status i = finalized) (locked_project_items db (prj_id p))) db = Inr db1
      \<and> sound_step db1 db'"
    have d: "distinct (map itm_id (filter (\<lambda>i. itm_workflow_status i = finalized) (locked_project_items db (prj_id p))))"
      using ok by (intro distinct_map_filterI locked_items_distinct) (simp add: store_ok_def review_ok_def)
    have "sound_step db db1"
      by (rule revoke_targets_sound [OF conjunct1 [OF h] ok d]) (simp add: locked_items_mem)
    then show ?thesis using h sound_trans by blast
  qed simp
qed

lemma retry_package_cleanup_frame:
  assumes "retry_package_cleanup env p (ids, db) = Inr (ids', db')"
  shows "core_of db' = core_of db \<and> db_events db' = db_events db"
  using assms by (auto simp: retry_package_cleanup_def settle_invalidations_def put_package_def core_of_def Let_def
      split: if_splits)

lemma retry_finalization_cleanup_sound:
  assumes "retry_finalization_cleanup env pid iid conf e db = Inr (r, db')"
  shows "sound_step db db'"
proof -
  from assms obtain ps ids where "db' = db \<or> efold (retry_package_cleanup env) ps ([], db) = Inr (ids, db')"
    by (auto simp: retry_finalization_cleanup_def Let_def split: if_splits)
  then show ?thesis
  proof
    assume f: "efold (retry_package_cleanup env) ps ([], db) = Inr (ids, db')"
    have "core_of db' = core_of db \<and> db_events db' = db_events db"
      using efold_invariant [OF f, of "\<lambda>s. core_of (snd s) = core_of db \<and> db_events (snd s) = db_events db"]
        retry_package_cleanup_frame by (metis prod.collapse snd_conv)
    then show ?thesis by (auto intro: sound_frame)
  qed simp
qed

end
