(* ===== verification/Packages.thy ===== *)
theory Packages
  imports Finalization Samples
begin

text \<open>
  The temporary packages of finalized originals, as in
  \<open>src/backend/app/modules/final_cut_review/infra/repositories.py\<close>: requesting a package with
  the reuse of a ready one, the storage quota, and the worker's side: claiming a build under a lease,
  publishing the artifact, and recording a failure. The advisory locks of the database are the
  serial execution of the operations; the atomic replacement of the artifact is an observation of
  the environment.
\<close>

section \<open>Storage admission\<close>

definition estimate_zip_stored_storage_bytes :: "int \<Rightarrow> int \<Rightarrow> int \<Rightarrow> int" where
  "estimate_zip_stored_storage_bytes total_bytes file_count encoded_name_bytes =
     total_bytes + 1024 + file_count * 512 + encoded_name_bytes * 2"

definition estimate_package_storage_bytes :: "int \<Rightarrow> string list \<Rightarrow> int" where
  "estimate_package_storage_bytes total_bytes archive_names =
     estimate_zip_stored_storage_bytes total_bytes (int (length archive_names))
       (sum_list (map (\<lambda>n. int (length n)) archive_names))"

definition sum_storage :: "(package \<Rightarrow> bool) \<Rightarrow> db \<Rightarrow> int" where
  "sum_storage P db = sum_list (map pkg_storage_bytes (filter P (db_packages db)))"

definition active_package_storage_reservation_bytes :: "db \<Rightarrow> int" where
  "active_package_storage_reservation_bytes db = sum_storage (\<lambda>p. pkg_storage_reclaimed_at p = None) db"

definition pending_package_storage_reservation_bytes :: "string option \<Rightarrow> db \<Rightarrow> int" where
  "pending_package_storage_reservation_bytes exclude_package_id db =
     sum_storage (\<lambda>p. pkg_status p = preparing \<and> pkg_storage_reclaimed_at p = None
        \<and> Some (pkg_id p) \<noteq> exclude_package_id) db"

definition active_upload_storage_reservation_bytes :: "db \<Rightarrow> int" where
  "active_upload_storage_reservation_bytes db =
     sum_list (map upl_reserved_bytes (filter (\<lambda>u. upl_parts_cleanup_confirmed_at u = None) (db_uploads db)))"

definition ensure_package_filesystem_headroom :: "env \<Rightarrow> db \<Rightarrow> int \<Rightarrow> int \<Rightarrow> exn + unit" where
  "ensure_package_filesystem_headroom env db package_future_reserved_bytes requested_bytes =
     ebind (of_option (ReviewError STORAGE_UNAVAILABLE) (env_roots_share_filesystem env)) (\<lambda>shared_filesystem.
       let upload_reserved_bytes = (if shared_filesystem then active_upload_storage_reservation_bytes db else 0)
       in ebind (of_option (ReviewError STORAGE_UNAVAILABLE) (env_package_disk_free env)) (\<lambda>free_bytes.
            let low_watermark = (if shared_filesystem then cfg_upload_storage_low_watermark_bytes (env_settings env) else 0);
                available = free_bytes - package_future_reserved_bytes - upload_reserved_bytes - requested_bytes
            in guard (\<not> available < low_watermark) (ReviewError STORAGE_UNAVAILABLE)))"

definition validate_package_limits :: "finalization list \<Rightarrow> settings \<Rightarrow> exn + int" where
  "validate_package_limits finalizations cfg =
     (if length finalizations > cfg_max_package_files cfg then raise FILE_TOO_LARGE
      else
        let total_bytes = sum_list (map (\<lambda>f. file_size (fin_media f)) finalizations)
        in if total_bytes > cfg_max_package_bytes cfg then raise FILE_TOO_LARGE else Inr total_bytes)"

section \<open>Responses\<close>

definition package_dto :: "env \<Rightarrow> package \<Rightarrow> package_view" where
  "package_dto env p =
     \<lparr>pv_package = p, pv_file_count = length (pkg_items p),
      pv_download_token =
        (if pkg_status p = ready then Some (env_download_token env (pkg_project_ref_id p) (pkg_id p)) else None),
      pv_download_token_expires_at =
        (if pkg_status p = ready
         then Some (min (pkg_expires_at p)
                (env_now env + seconds (cfg_package_download_token_ttl_seconds (env_settings env))))
         else None)\<rparr>"

section \<open>Reusing a ready package\<close>

type_synonym reuse_integrity = "error_code option \<times> path option \<times> int option \<times> (int \<times> int) option"

definition zip_name :: "string \<Rightarrow> string" where
  "zip_name package_id = package_id @ ''.zip''"

definition ready_package_reuse_integrity :: "env \<Rightarrow> package \<Rightarrow> reuse_integrity" where
  "ready_package_reuse_integrity env p =
     (let root = cfg_package_root (env_settings env);
          storage_error = (Some STORAGE_UNAVAILABLE, None, None, None)
      in if \<not> hex_id ''pkg'' (pkg_id p) then storage_error
         else
           (case contained_path (zip_name (pkg_id p)) root of
              Inl _ \<Rightarrow> storage_error
            | Inr expected_path \<Rightarrow>
                (case env_pin_package env expected_path of
                   Pin_Unsafe \<Rightarrow> storage_error
                 | Pin_OSError \<Rightarrow> storage_error
                 | Pin_Missing \<Rightarrow> (Some PACKAGE_SOURCE_MISSING, Some expected_path, None, None)
                 | Pin_File i \<Rightarrow>
                     let actual_size = fid_size i; identity = (fid_device i, fid_inode i)
                     in (case contained_path (pkg_storage_path p) root of
                           Inl _ \<Rightarrow> storage_error
                         | Inr stored_path \<Rightarrow>
                             if stored_path \<noteq> expected_path \<or> pkg_storage_reclaimed_at p \<noteq> None
                             then (Some STORAGE_UNAVAILABLE, Some expected_path, Some actual_size, Some identity)
                             else if pkg_storage_bytes p \<noteq> actual_size
                                     \<or> (case pkg_sha256 p of None \<Rightarrow> True | Some h \<Rightarrow> \<not> is_sha256 h)
                             then (Some FILE_HASH_MISMATCH, Some expected_path, Some actual_size, Some identity)
                             else if \<not> fid_readable i then storage_error
                             else if Some (fid_sha256 i) \<noteq> pkg_sha256 p
                             then (Some FILE_HASH_MISMATCH, Some expected_path, Some actual_size, Some identity)
                             else (None, Some expected_path, Some actual_size, Some identity)))))"

definition error_code_name :: "error_code \<Rightarrow> string" where
  "error_code_name c =
     (case c of
        VALIDATION_ERROR \<Rightarrow> ''VALIDATION_ERROR''
      | RESOURCE_NOT_FOUND \<Rightarrow> ''RESOURCE_NOT_FOUND''
      | METHOD_NOT_ALLOWED \<Rightarrow> ''METHOD_NOT_ALLOWED''
      | ENTRY_CAPABILITY_DENIED \<Rightarrow> ''ENTRY_CAPABILITY_DENIED''
      | PRINCIPAL_AUTHENTICATION_REQUIRED \<Rightarrow> ''PRINCIPAL_AUTHENTICATION_REQUIRED''
      | PRINCIPAL_PERMISSION_DENIED \<Rightarrow> ''PRINCIPAL_PERMISSION_DENIED''
      | WRITE_GUARD_REQUIRED \<Rightarrow> ''WRITE_GUARD_REQUIRED''
      | WRITE_GUARD_INVALID \<Rightarrow> ''WRITE_GUARD_INVALID''
      | RESOURCE_STATE_CONFLICT \<Rightarrow> ''RESOURCE_STATE_CONFLICT''
      | PORT_OPERATION_NOT_SUPPORTED \<Rightarrow> ''PORT_OPERATION_NOT_SUPPORTED''
      | PLAYBACK_NOT_READY \<Rightarrow> ''PLAYBACK_NOT_READY''
      | VERSION_NOT_CURRENT \<Rightarrow> ''VERSION_NOT_CURRENT''
      | REVIEW_IN_PROGRESS \<Rightarrow> ''REVIEW_IN_PROGRESS''
      | REVIEW_ITEM_FINALIZED \<Rightarrow> ''REVIEW_ITEM_FINALIZED''
      | UNRESOLVED_ISSUES_EXIST \<Rightarrow> ''UNRESOLVED_ISSUES_EXIST''
      | NO_UNRESOLVED_ISSUE \<Rightarrow> ''NO_UNRESOLVED_ISSUE''
      | VERSION_FILE_NOT_READY \<Rightarrow> ''VERSION_FILE_NOT_READY''
      | PROJECT_FRAME_RATE_REQUIRED \<Rightarrow> ''PROJECT_FRAME_RATE_REQUIRED''
      | PROJECT_FRAME_RATE_LOCKED \<Rightarrow> ''PROJECT_FRAME_RATE_LOCKED''
      | MEDIA_FRAME_RATE_UNKNOWN \<Rightarrow> ''MEDIA_FRAME_RATE_UNKNOWN''
      | MEDIA_VARIABLE_FRAME_RATE \<Rightarrow> ''MEDIA_VARIABLE_FRAME_RATE''
      | MEDIA_FRAME_RATE_NOT_ALLOWED \<Rightarrow> ''MEDIA_FRAME_RATE_NOT_ALLOWED''
      | MEDIA_FRAME_RATE_MISMATCH \<Rightarrow> ''MEDIA_FRAME_RATE_MISMATCH''
      | RESPONSIBLE_EDITOR_REQUIRED \<Rightarrow> ''RESPONSIBLE_EDITOR_REQUIRED''
      | RESPONSIBLE_EDITOR_NOT_FOUND \<Rightarrow> ''RESPONSIBLE_EDITOR_NOT_FOUND''
      | DELETION_OUTCOME_UNKNOWN \<Rightarrow> ''DELETION_OUTCOME_UNKNOWN''
      | FILE_HASH_MISMATCH \<Rightarrow> ''FILE_HASH_MISMATCH''
      | UPLOAD_INCOMPLETE \<Rightarrow> ''UPLOAD_INCOMPLETE''
      | IDEMPOTENCY_CONFLICT \<Rightarrow> ''IDEMPOTENCY_CONFLICT''
      | OPTIMISTIC_LOCK_CONFLICT \<Rightarrow> ''OPTIMISTIC_LOCK_CONFLICT''
      | PACKAGE_NO_FINALIZED_FILES \<Rightarrow> ''PACKAGE_NO_FINALIZED_FILES''
      | PACKAGE_SOURCE_MISSING \<Rightarrow> ''PACKAGE_SOURCE_MISSING''
      | PACKAGE_NOT_READY \<Rightarrow> ''PACKAGE_NOT_READY''
      | PACKAGE_EXPIRED \<Rightarrow> ''PACKAGE_EXPIRED''
      | FILE_TYPE_NOT_ALLOWED \<Rightarrow> ''FILE_TYPE_NOT_ALLOWED''
      | FILE_TOO_LARGE \<Rightarrow> ''FILE_TOO_LARGE''
      | STORAGE_UNAVAILABLE \<Rightarrow> ''STORAGE_UNAVAILABLE''
      | INTERNAL_SERVER_ERROR \<Rightarrow> ''INTERNAL_SERVER_ERROR'')"

definition failed_reuse_row :: "int \<Rightarrow> package \<Rightarrow> error_code \<Rightarrow> path option \<Rightarrow> int option \<Rightarrow> package" where
  "failed_reuse_row now p error_code expected_path actual_size =
     (let p = p\<lparr>pkg_status := failed, pkg_sha256 := None, pkg_next_build_attempt_at := None,
                pkg_download_session_hash := None, pkg_download_session_expires_at := None,
                pkg_download_lease_id := None, pkg_download_lease_expires_at := None,
                pkg_failure_details := Some (JObj [(''error_code'', JStr (error_code_name error_code))]),
                pkg_expires_at := min (pkg_expires_at p) now, pkg_updated_at := now\<rparr>;
          p = (case expected_path of None \<Rightarrow> p | Some e \<Rightarrow> p\<lparr>pkg_storage_path := path_str e\<rparr>)
      in if actual_size = None \<and> error_code = PACKAGE_SOURCE_MISSING
         then p\<lparr>pkg_storage_bytes := 0, pkg_storage_reclaimed_at := Some now\<rparr>
         else (case actual_size of None \<Rightarrow> p | Some n \<Rightarrow> p\<lparr>pkg_storage_bytes := n\<rparr>)\<lparr>pkg_storage_reclaimed_at := None\<rparr>)"

definition fail_ready_package_reuse ::
  "env \<Rightarrow> execution_context \<Rightarrow> package \<Rightarrow> error_code \<Rightarrow> path option \<Rightarrow> int option \<Rightarrow> (int \<times> int) option
   \<Rightarrow> db \<Rightarrow> exn + db" where
  "fail_ready_package_reuse env context p error_code expected_path actual_size identity db =
     (let db = put_package (failed_reuse_row (env_now env) p error_code expected_path actual_size) db;
          queued = (if (actual_size = None \<and> error_code = PACKAGE_SOURCE_MISSING) \<or> expected_path = None then []
                    else (case identity of None \<Rightarrow> [] | Some (device, inode) \<Rightarrow> [(pkg_id p, device, inode)]));
          db = db\<lparr>db_post_package_deletions := db_post_package_deletions db @ queued\<rparr>
      in add_event env ''review.package.failed'' context (pkg_project_ref_id p) ''package'' (pkg_id p) 1
           (no_ids\<lparr>ei_package_id := Some (pkg_id p)\<rparr>)
           (JObj [(''error_code'', JStr (error_code_name error_code))]) db)"

section \<open>Requesting a package\<close>

datatype package_reason =
    episode_no_missing_or_invalid
  | active_finalization_conflict
  | original_extension_missing_or_invalid
  | duplicate_episode_no

text \<open>The first loop: each active finalization with its item, and the reasons against it.\<close>

definition finalization_reasons :: "finalization \<Rightarrow> review_item \<Rightarrow> package_reason list" where
  "finalization_reasons f item =
     (case itm_episode_no item of Some n \<Rightarrow> if n \<le> 0 then [episode_no_missing_or_invalid] else []
      | None \<Rightarrow> [episode_no_missing_or_invalid])
     @ (if itm_workflow_status item \<noteq> finalized \<or> itm_active_finalization_id item \<noteq> Some (fin_id f)
           \<or> itm_current_version_id item \<noteq> Some (fin_version_id f)
        then [active_finalization_conflict] else [])
     @ (case package_original_extension (original_filename (fin_media f)) of
          Inl _ \<Rightarrow> [original_extension_missing_or_invalid] | Inr _ \<Rightarrow> [])"

text \<open>The second loop: an actual episode number that more than one entry has.\<close>

definition valid_episodes :: "(finalization \<times> review_item) list \<Rightarrow> int list" where
  "valid_episodes entries =
     List.map_filter (\<lambda>(_, item). case itm_episode_no item of Some n \<Rightarrow> if n \<le> 0 then None else Some n | None \<Rightarrow> None) entries"

definition package_problem_items :: "(finalization \<times> review_item) list \<Rightarrow> (string \<times> package_reason list) list" where
  "package_problem_items entries =
     filter (\<lambda>(_, reasons). reasons \<noteq> [])
       (map (\<lambda>(f, item).
          (itm_id item,
           finalization_reasons f item
           @ (case itm_episode_no item of
                Some n \<Rightarrow> if n > 0 \<and> 1 < count_list (valid_episodes entries) n then [duplicate_episode_no] else []
              | None \<Rightarrow> []))) entries)"

fun finalization_items :: "db \<Rightarrow> finalization list \<Rightarrow> exn + (finalization \<times> review_item) list" where
  "finalization_items db [] = Inr []"
| "finalization_items db (f # fs) =
     ebind (get_item db (fin_project_ref_id f) (fin_review_item_id f)) (\<lambda>item.
     ebind (finalization_items db fs) (\<lambda>rest. Inr ((f, item) # rest)))"

text \<open>The archive names and the item entries of the snapshot.\<close>

definition package_item_json :: "finalization \<Rightarrow> string \<Rightarrow> json" where
  "package_item_json f arcname =
     JObj [(''review_item_id'', JStr (fin_review_item_id f)), (''version_id'', JStr (fin_version_id f)),
           (''finalization_id'', JStr (fin_id f)), (''original_file_id'', JStr (fin_original_file_id f)),
           (''original_filename'', JStr (original_filename (fin_media f))), (''sha256'', JStr (sha256 (fin_media f))),
           (''archive_name'', JStr arcname)]"

definition package_entry ::
  "string \<Rightarrow> finalization \<times> review_item \<Rightarrow> string list \<times> json list \<Rightarrow> exn + string list \<times> json list" where
  "package_entry unified_name entry acc =
     (case (entry, acc) of ((f, item), (archive_names, items)) \<Rightarrow>
        ebind (package_original_extension (original_filename (fin_media f))) (\<lambda>extension.
        ebind (validate_package_archive_name
                 (archive_name_for unified_name (case itm_episode_no item of Some n \<Rightarrow> n | None \<Rightarrow> 0) extension)
                 VALIDATION_ERROR) (\<lambda>arcname.
        ebind (guard (arcname \<notin> set archive_names) (ReviewError RESOURCE_STATE_CONFLICT)) (\<lambda>_.
        Inr (archive_names @ [arcname], items @ [package_item_json f arcname])))))"

definition active_finalizations :: "db \<Rightarrow> string \<Rightarrow> finalization list" where
  "active_finalizations db project_ref_id =
     order_by (\<lambda>f. (fin_review_item_id f, fin_id f))
       (filter (\<lambda>f. fin_project_ref_id f = project_ref_id \<and> fin_status f = fin_active) (db_finalizations db))"

definition existing_preparing :: "db \<Rightarrow> string \<Rightarrow> package option" where
  "existing_preparing db project_ref_id =
     (case order_by (\<lambda>p. (pkg_created_at p, pkg_id p))
             (filter (\<lambda>p. pkg_project_ref_id p = project_ref_id \<and> pkg_status p = preparing) (db_packages db)) of
        [] \<Rightarrow> None | p # _ \<Rightarrow> Some p)"

definition reusable_packages :: "env \<Rightarrow> db \<Rightarrow> string \<Rightarrow> package list" where
  "reusable_packages env db project_ref_id =
     take (nat (cfg_max_pending_package_builds (env_settings env)))
       (order_by (\<lambda>p. - pkg_created_at p)
         (rev (order_by pkg_id
           (filter (\<lambda>p. pkg_project_ref_id p = project_ref_id \<and> pkg_status p = ready
              \<and> pkg_expires_at p > env_now env) (db_packages db)))))"

definition sources_available :: "env \<Rightarrow> db \<Rightarrow> package \<Rightarrow> bool" where
  "sources_available env db p =
     list_all (\<lambda>j.
       case jget_str j ''original_file_id'' of
         None \<Rightarrow> False
       | Some file_id \<Rightarrow>
           (case get_file db file_id of
              None \<Rightarrow> False
            | Some f \<Rightarrow> (case pin_storage_file env (fil_storage_path f) of Pin_File _ \<Rightarrow> True | _ \<Rightarrow> False))) (pkg_items p)"

text \<open>In UTF-8, the four ideographs of the package file name.\<close>

definition PACKAGE_TITLE :: string where
  "PACKAGE_TITLE = map char_of [229 :: nat, 174, 154, 231, 168, 191, 229, 142, 159, 231, 137, 135]"

definition package_filename_for :: "env \<Rightarrow> project \<Rightarrow> string" where
  "package_filename_for env project =
     prj_code project @ ''_'' @ prj_name project @ ''_'' @ PACKAGE_TITLE @ ''_'' @ env_now_stamp env @ ''.zip''"

text \<open>Admission and insertion of a new snapshot, after no ready package could be reused.\<close>

definition admit_package ::
  "env \<Rightarrow> execution_context \<Rightarrow> project \<Rightarrow> string \<Rightarrow> path \<Rightarrow> int \<Rightarrow> int \<Rightarrow> json list \<Rightarrow> db \<Rightarrow> exn + response \<times> db" where
  "admit_package env context project package_id package_path total_bytes estimated_storage_bytes items db =
     (let cfg = env_settings env
      in ebind (guard (\<not> count_rows (\<lambda>p. pkg_status p = preparing) (db_packages db) \<ge> cfg_max_pending_package_builds cfg)
                 (ReviewError RESOURCE_STATE_CONFLICT)) (\<lambda>_.
         ebind (guard (\<not> active_package_storage_reservation_bytes db + estimated_storage_bytes > cfg_max_package_storage_bytes cfg)
                 (ReviewError FILE_TOO_LARGE)) (\<lambda>_.
         ebind (ensure_package_filesystem_headroom env db (pending_package_storage_reservation_bytes None db)
                 estimated_storage_bytes) (\<lambda>_.
         ebind (add_event env ''review.package.requested'' context (prj_id project) ''package'' package_id 1
                 (no_ids\<lparr>ei_package_id := Some package_id\<rparr>) (JObj []) db) (\<lambda>db.
           let snapshot =
             \<lparr>pkg_id = package_id, pkg_project_ref_id = prj_id project, pkg_status = preparing,
              pkg_package_filename = package_filename_for env project, pkg_storage_path = path_str package_path,
              pkg_expires_at = env_now env + seconds (cfg_package_ttl_seconds cfg), pkg_total_bytes = total_bytes,
              pkg_storage_bytes = estimated_storage_bytes, pkg_sha256 = None, pkg_build_attempts = 0,
              pkg_next_build_attempt_at = None, pkg_build_lease_id = None, pkg_build_lease_expires_at = None,
              pkg_download_session_hash = None, pkg_download_session_expires_at = None,
              pkg_download_lease_id = None, pkg_download_lease_expires_at = None,
              pkg_last_download_finished_at = None, pkg_storage_reclaimed_at = None,
              pkg_failure_details = None, pkg_items = items, pkg_created_at = env_now env,
              pkg_updated_at = env_now env\<rparr>
           in ebind (insert_package snapshot db) (\<lambda>db. Inr (R_Package (package_dto env snapshot), db)))))))"

text \<open>The choice between returning an existing package, failing a broken one and admitting a new one.\<close>

definition reuse_or_admit ::
  "env \<Rightarrow> execution_context \<Rightarrow> project \<Rightarrow> string \<Rightarrow> path \<Rightarrow> int \<Rightarrow> int \<Rightarrow> json list \<Rightarrow> db \<Rightarrow> exn + response \<times> db" where
  "reuse_or_admit env context project package_id package_path total_bytes estimated_storage_bytes items db =
     (let matches = (\<lambda>p. pkg_total_bytes p = total_bytes \<and> pkg_items p = items);
          preparing_one = existing_preparing db (prj_id project);
          after_reuse = (\<lambda>db.
            case preparing_one of
              Some p \<Rightarrow>
                if matches p then Inr (R_Package (package_dto env p), db)
                else raise RESOURCE_STATE_CONFLICT
            | None \<Rightarrow> admit_package env context project package_id package_path total_bytes estimated_storage_bytes items db)
      in if (case preparing_one of Some p \<Rightarrow> matches p | None \<Rightarrow> False)
         then Inr (R_Package (package_dto env (the preparing_one)), db)
         else
           (case List.find (\<lambda>p. matches p \<and> sources_available env db p) (reusable_packages env db (prj_id project)) of
              None \<Rightarrow> after_reuse db
            | Some p \<Rightarrow>
                (case ready_package_reuse_integrity env p of
                   (None, _, _, _) \<Rightarrow> Inr (R_Package (package_dto env p), db)
                 | (Some code, expected_path, actual_size, identity) \<Rightarrow>
                     ebind (fail_ready_package_reuse env context p code expected_path actual_size identity db) after_reuse)))"

definition prepare_package ::
  "env \<Rightarrow> execution_context \<Rightarrow> string \<Rightarrow> string option \<Rightarrow> db \<Rightarrow> exn + response \<times> db" where
  "prepare_package env context project_ref_id unified_name_value db =
     ebind (validate_package_unified_name unified_name_value) (\<lambda>unified_name.
     ebind (get_project db project_ref_id) (\<lambda>project.
     ebind (assert_project_active project) (\<lambda>_.
       let finalizations = active_finalizations db (prj_id project)
       in ebind (guard (finalizations \<noteq> []) (ReviewError PACKAGE_NO_FINALIZED_FILES)) (\<lambda>_.
          ebind (finalization_items db finalizations) (\<lambda>entries.
          ebind (guard (package_problem_items entries = []) (ReviewError RESOURCE_STATE_CONFLICT)) (\<lambda>_.
          ebind (validate_package_limits finalizations (env_settings env)) (\<lambda>total_bytes.
            let (package_id, db) = new_id env ''pkg'' db
            in ebind (contained_path (zip_name package_id) (cfg_package_root (env_settings env))) (\<lambda>package_path.
               ebind (efold (package_entry unified_name) entries ([], [])) (\<lambda>(archive_names, items).
               reuse_or_admit env context project package_id package_path total_bytes
                 (estimate_package_storage_bytes total_bytes archive_names) items db)))))))))"

section \<open>The request is sound\<close>

lemma sound_post_deletions [simp, intro]: "sound_step db (db\<lparr>db_post_package_deletions := x\<rparr>)"
  by (rule sound_frame) (simp_all add: core_of_def)

lemma fail_ready_package_reuse_sound:
  "fail_ready_package_reuse env c p code pth sz ident db = Inr db' \<Longrightarrow> sound_step db db'"
  unfolding fail_ready_package_reuse_def Let_def
  by (erule sound_event_after) (blast intro: sound_trans)

lemma admit_package_sound: "admit_package env c p k pth tb es items db = Inr (r, db') \<Longrightarrow> sound_step db db'"
  by (auto simp: admit_package_def Let_def dest!: sound_event sound_insert(8) intro: sound_trans)

lemma reuse_or_admit_sound: "reuse_or_admit env c p k pth tb es items db = Inr (r, db') \<Longrightarrow> sound_step db db'"
  by (auto simp: reuse_or_admit_def Let_def split: option.splits if_splits prod.splits
      dest!: admit_package_sound fail_ready_package_reuse_sound intro: sound_trans)

lemma prepare_package_sound: "prepare_package env c pid name db = Inr (r, db') \<Longrightarrow> sound_step db db'"
  by (auto simp: prepare_package_def new_id_def Let_def dest!: reuse_or_admit_sound dest: sound_after_drawn)

section \<open>Archive names\<close>

lemma in_map_filter: "y \<in> set (List.map_filter f xs) \<longleftrightarrow> (\<exists>x\<in>set xs. f x = Some y)"
  by (auto simp: map_filter_def image_iff)

lemma distinct_count_list: "(\<And>x. x \<in> set xs \<Longrightarrow> \<not> 1 < count_list xs x) \<Longrightarrow> distinct xs"
proof (induction xs)
  case (Cons a xs)
  have "count_list xs a = 0" using Cons.prems [of a] by simp
  then have "a \<notin> set xs" by (simp add: count_list_0_iff)
  moreover have "distinct xs"
  proof (rule Cons.IH)
    fix x assume x: "x \<in> set xs"
    then have "x \<noteq> a" using \<open>a \<notin> set xs\<close> by auto
    then show "\<not> 1 < count_list xs x" using Cons.prems [of x] x by (simp split: if_splits)
  qed
  ultimately show ?case by simp
qed simp

text \<open>What an entry without a reason against it looks like.\<close>

definition sound_entry :: "finalization \<times> review_item \<Rightarrow> bool" where
  "sound_entry e \<longleftrightarrow> (\<exists>n ext. itm_episode_no (snd e) = Some n \<and> 0 < n
     \<and> package_original_extension (original_filename (fin_media (fst e))) = Inr ext)"

definition entry_episode :: "finalization \<times> review_item \<Rightarrow> int" where
  "entry_episode e = (case itm_episode_no (snd e) of Some n \<Rightarrow> n | None \<Rightarrow> 0)"

lemma no_problem_entries:
  assumes "package_problem_items entries = []"
  shows "list_all sound_entry entries \<and> distinct (map entry_episode entries)"
proof -
  have each: "finalization_reasons f i = [] \<and>
      (case itm_episode_no i of Some n \<Rightarrow> \<not> (n > 0 \<and> 1 < count_list (valid_episodes entries) n) | None \<Rightarrow> True)"
    if "(f, i) \<in> set entries" for f i
    using assms that by (auto simp: package_problem_items_def filter_empty_conv split: option.splits if_splits)
  have snd: "sound_entry (f, i)" if "(f, i) \<in> set entries" for f i
    using each [OF that] by (auto simp: sound_entry_def finalization_reasons_def split: option.splits sum.splits if_splits)
  have "valid_episodes es = map entry_episode es" if "list_all sound_entry es" for es
    using that by (induction es) (auto simp: valid_episodes_def map_filter_simps sound_entry_def entry_episode_def)
  then have ve: "valid_episodes entries = map entry_episode entries" using snd unfolding list_all_iff by (metis surj_pair)
  have "distinct (valid_episodes entries)"
  proof (rule distinct_count_list)
    fix n assume "n \<in> set (valid_episodes entries)"
    then obtain f i where e: "(f, i) \<in> set entries" "n = entry_episode (f, i)" by (auto simp: ve)
    then show "\<not> 1 < count_list (valid_episodes entries) n"
      using each [OF e(1)] snd [OF e(1)] by (auto simp: sound_entry_def entry_episode_def)
  qed
  then show ?thesis using snd ve by (auto simp: list_all_iff)
qed

text \<open>The names used so far belong to other, positive, episodes.\<close>

definition names_of_episodes :: "string \<Rightarrow> int set \<Rightarrow> string list \<Rightarrow> bool" where
  "names_of_episodes u eps names \<longleftrightarrow>
     distinct names \<and> (\<forall>a\<in>set names. package_archive_name_is_safe a \<and> (\<exists>n ext. n \<in> eps \<and> 0 < n \<and> a = archive_name_for u n ext))"

lemma package_entry_step:
  assumes e: "sound_entry e" and names: "names_of_episodes u eps names" and new: "entry_episode e \<notin> eps"
  shows "(\<exists>a j. package_entry u e (names, items) = Inr (names @ [a], items @ [j]) \<and> names_of_episodes u (insert (entry_episode e) eps) (names @ [a]))
    \<or> package_entry u e (names, items) = raise VALIDATION_ERROR \<or> package_entry u e (names, items) = raise FILE_TOO_LARGE"
proof -
  obtain f i where fi: "e = (f, i)" by (cases e)
  obtain n ext where n: "itm_episode_no i = Some n" "0 < n" and x: "package_original_extension (original_filename (fin_media f)) = Inr ext"
    using e by (auto simp: sound_entry_def fi)
  have ep: "entry_episode e = n" using n by (simp add: entry_episode_def fi)
  let ?a = "archive_name_for u n ext"
  have fresh: "?a \<notin> set names"
  proof
    assume "?a \<in> set names"
    then obtain m ext' where m: "m \<in> eps" "0 < m" "?a = archive_name_for u m ext'"
      using names by (auto simp: names_of_episodes_def)
    then have "n = m" using archive_name_for_inj [OF m(3)] n by simp
    then show False using m new ep by simp
  qed
  show ?thesis
  proof (cases "package_name_has_path_semantics ?a \<or> int (length ?a) > ZIP_MAX_ARCHIVE_NAME_BYTES")
    case True
    then show ?thesis using n x by (auto simp: package_entry_def fi validate_package_archive_name_def)
  next
    case False
    then have "package_entry u e (names, items) = Inr (names @ [?a], items @ [package_item_json f ?a])"
      using n x fresh by (simp add: package_entry_def fi validate_package_archive_name_def)
    moreover have "names_of_episodes u (insert n eps) (names @ [?a])"
      using names fresh False n unfolding names_of_episodes_def package_archive_name_is_safe_def by auto metis+
    ultimately show ?thesis using ep by blast
  qed
qed

lemma package_entries_fold:
  assumes "list_all sound_entry es" and "distinct (map entry_episode es)" and "names_of_episodes u eps names"
    and "set (map entry_episode es) \<inter> eps = {}"
  shows "(\<exists>names' items'. efold (package_entry u) es (names, items) = Inr (names', items')
      \<and> distinct names' \<and> length names' = length names + length es \<and> length items' = length items + length es
      \<and> list_all package_archive_name_is_safe names')
    \<or> efold (package_entry u) es (names, items) = raise VALIDATION_ERROR
    \<or> efold (package_entry u) es (names, items) = raise FILE_TOO_LARGE"
  using assms
proof (induction es arbitrary: eps names items)
  case Nil
  then show ?case by (auto simp: names_of_episodes_def list_all_iff)
next
  case (Cons e es)
  have e: "sound_entry e" "entry_episode e \<notin> eps" using Cons.prems by auto
  consider (err) "package_entry u e (names, items) = raise VALIDATION_ERROR \<or> package_entry u e (names, items) = raise FILE_TOO_LARGE"
    | (ok) a j where "package_entry u e (names, items) = Inr (names @ [a], items @ [j])"
        "names_of_episodes u (insert (entry_episode e) eps) (names @ [a])"
    using package_entry_step [OF e(1) Cons.prems(3) e(2)] by blast
  then show ?case
  proof cases
    case err
    then show ?thesis by auto
  next
    case ok
    have "set (map entry_episode es) \<inter> insert (entry_episode e) eps = {}" using Cons.prems by auto
    moreover have "list_all sound_entry es" "distinct (map entry_episode es)" using Cons.prems by auto
    ultimately show ?thesis using Cons.IH [OF _ _ ok(2), of "items @ [j]"] ok(1) by auto
  qed
qed

text \<open>
  C34. Once the first pass over a project's finalizations has found nothing wrong, the archive names
  it generates never collide: the second pass can only be refused for a name the archive format
  does not allow, and when it is not refused there is one safe archive name per finalization and no
  two are equal.
\<close>

theorem package_archive_names_unambiguous:
  assumes "package_problem_items entries = []"
  shows "(\<exists>names items. efold (package_entry unified_name) entries ([], []) = Inr (names, items)
      \<and> distinct names \<and> length names = length entries \<and> length items = length entries
      \<and> list_all package_archive_name_is_safe names)
    \<or> efold (package_entry unified_name) entries ([], []) = raise VALIDATION_ERROR
    \<or> efold (package_entry unified_name) entries ([], []) = raise FILE_TOO_LARGE"
  using package_entries_fold [of entries unified_name "{}" "[]" "[]"] no_problem_entries [OF assms]
  by (simp add: names_of_episodes_def)

theorem package_archive_names_unambiguous_witness:
  "package_problem_items [(ex_finalization, ex_final_item)] = []
   \<and> (\<exists>names items. efold (package_entry ''Film'') [(ex_finalization, ex_final_item)] ([], []) = Inr (names, items)
      \<and> distinct names \<and> length names = 1)"
proof -
  let ?es = "[(ex_finalization, ex_final_item)]"
  have no: "package_problem_items ?es = []" by code_simp
  have "succeeds (efold (package_entry ''Film'') ?es ([], []))" by code_simp
  then show ?thesis using package_archive_names_unambiguous [OF no, of "''Film''"] no by (auto simp: succeeds_def)
qed

section \<open>Quota\<close>

lemma admit_package_quota:
  assumes "admit_package env c p k pth tb es items db = Inr (r, db')"
  shows "active_package_storage_reservation_bytes db' \<le> cfg_max_package_storage_bytes (env_settings env)
    \<and> count_rows (\<lambda>p. pkg_status p = preparing) (db_packages db') \<le> cfg_max_pending_package_builds (env_settings env)"
proof -
  from assms obtain db1 s where q: "active_package_storage_reservation_bytes db + es \<le> cfg_max_package_storage_bytes (env_settings env)"
      "count_rows (\<lambda>p. pkg_status p = preparing) (db_packages db) < cfg_max_pending_package_builds (env_settings env)"
    and pk: "db_packages db1 = db_packages db" and ins: "insert_package s db1 = Inr db'"
    and s: "pkg_storage_bytes s = es" "pkg_status s = preparing" "pkg_storage_reclaimed_at s = None"
    by (auto simp: admit_package_def Let_def dest: add_event_frame(6))
  have "db_packages db' = db_packages db @ [s]" using ins pk by (auto simp: insert_package_def row_insert_Inr_iff)
  then show ?thesis using q s by (simp add: active_package_storage_reservation_bytes_def sum_storage_def count_rows_def)
qed

text \<open>
  The storage quota is an admission control: a successful request either leaves the package
  table as it was (an existing package is returned) or ends with the storage reserved by all
  packages, the new one included, within the configured limit and the number of pending builds
  within the queue limit.
\<close>

theorem prepare_package_within_quota:
  assumes "prepare_package env context project_ref_id unified_name db = Inr (r, db')"
  shows "db_packages db' = db_packages db
    \<or> (active_package_storage_reservation_bytes db' \<le> cfg_max_package_storage_bytes (env_settings env)
       \<and> count_rows (\<lambda>p. pkg_status p = preparing) (db_packages db') \<le> cfg_max_pending_package_builds (env_settings env))"
proof -
  from assms obtain project :: project and k pth tb es items n where
    "reuse_or_admit env context project k pth tb es items (db\<lparr>db_drawn := n\<rparr>) = Inr (r, db')"
    by (auto simp: prepare_package_def new_id_def Let_def)
  then have "db_packages db' = db_packages db
    \<or> (\<exists>db1. admit_package env context project k pth tb es items db1 = Inr (r, db'))"
    by (auto simp: reuse_or_admit_def Let_def split: option.splits if_splits prod.splits)
  then show ?thesis using admit_package_quota by blast
qed

theorem prepare_package_within_quota_witness:
  "\<exists>r db'. prepare_package ex_env ex_context ''p1'' (Some ''Film'') ex_final_db = Inr (r, db')
     \<and> (db_packages db' = db_packages ex_final_db
        \<or> active_package_storage_reservation_bytes db' \<le> cfg_max_package_storage_bytes (env_settings ex_env))"
proof -
  have "succeeds (prepare_package ex_env ex_context ''p1'' (Some ''Film'') ex_final_db)" by code_simp
  then obtain r db' where "prepare_package ex_env ex_context ''p1'' (Some ''Film'') ex_final_db = Inr (r, db')"
    by (rule succeeds_pairE)
  then show ?thesis using prepare_package_within_quota by blast
qed

end
