(* ===== verification/Package_Builds.thy ===== *)
theory Package_Builds
  imports Packages
begin

text \<open>
  The worker's side of the packages, as in
  \<open>src/backend/app/modules/final_cut_review/infra/repositories.py\<close>:
  \<open>claim_package_build\<close>, \<open>publish_prepared_package\<close> and
  \<open>record_package_build_failure\<close>. A build runs under a lease; a worker whose lease was taken
  over can neither publish nor fail the package.
\<close>

section \<open>The build lease\<close>

definition preparing_package :: "db \<Rightarrow> string \<Rightarrow> package option" where
  "preparing_package db package_id =
     List.find (\<lambda>p. pkg_id p = package_id \<and> pkg_status p = preparing) (db_packages db)"

definition build_lease_alive :: "int \<Rightarrow> package \<Rightarrow> bool" where
  "build_lease_alive now p = live_lease now (pkg_build_lease_id p) (pkg_build_lease_expires_at p)"

definition build_lease_expired :: "int \<Rightarrow> package \<Rightarrow> bool" where
  "build_lease_expired now p =
     (pkg_build_lease_id p \<noteq> None \<and> (case pkg_build_lease_expires_at p of None \<Rightarrow> False | Some t \<Rightarrow> t \<le> now))"

definition build_attempt_due :: "int \<Rightarrow> package \<Rightarrow> bool" where
  "build_attempt_due now p = (case pkg_next_build_attempt_at p of None \<Rightarrow> True | Some t \<Rightarrow> \<not> t > now)"

definition attempt_failure_json :: "string \<Rightarrow> int \<Rightarrow> bool \<Rightarrow> bool \<Rightarrow> json" where
  "attempt_failure_json error_code attempt retryable storage_reclaimed =
     JObj [(''error_code'', JStr error_code), (''attempt'', JInt attempt), (''retryable'', JBool retryable),
           (''storage_reclaimed'', JBool storage_reclaimed)]"

definition json_of_option :: "json option \<Rightarrow> json" where
  "json_of_option j = (case j of None \<Rightarrow> JNull | Some x \<Rightarrow> x)"

definition last_failure_json :: "string \<Rightarrow> json \<Rightarrow> json" where
  "last_failure_json error_code last_failure = JObj [(''error_code'', JStr error_code), (''last_failure'', last_failure)]"

definition expired_lease_failure :: "settings \<Rightarrow> int \<Rightarrow> package \<Rightarrow> json option" where
  "expired_lease_failure cfg now p =
     (if build_lease_expired now p
      then Some (attempt_failure_json ''PACKAGE_BUILD_LEASE_EXPIRED'' (pkg_build_attempts p)
                   (pkg_build_attempts p < cfg_package_worker_max_attempts cfg) False)
      else None)"

definition interrupt_build :: "settings \<Rightarrow> int \<Rightarrow> package \<Rightarrow> package" where
  "interrupt_build cfg now p =
     p\<lparr>pkg_status := failed, pkg_sha256 := None, pkg_next_build_attempt_at := None, pkg_build_lease_id := None,
       pkg_build_lease_expires_at := None,
       pkg_failure_details :=
         Some (last_failure_json ''PACKAGE_BUILD_INTERRUPTED''
           (case expired_lease_failure cfg now p of Some j \<Rightarrow> j | None \<Rightarrow> json_of_option (pkg_failure_details p))),
       pkg_updated_at := now\<rparr>"

definition grant_build_lease :: "settings \<Rightarrow> int \<Rightarrow> string \<Rightarrow> package \<Rightarrow> package" where
  "grant_build_lease cfg now lease_id p =
     (let lease_expires_at = now + seconds (cfg_package_worker_retry_delay_seconds cfg)
      in p\<lparr>pkg_failure_details :=
             (case expired_lease_failure cfg now p of
                Some j \<Rightarrow> Some (last_failure_json ''PACKAGE_BUILD_RETRY_SCHEDULED'' j)
              | None \<Rightarrow> pkg_failure_details p),
           pkg_build_attempts := pkg_build_attempts p + 1, pkg_next_build_attempt_at := Some lease_expires_at,
           pkg_build_lease_id := Some lease_id, pkg_build_lease_expires_at := Some lease_expires_at,
           pkg_updated_at := now\<rparr>)"

text \<open>What the claim does to the row: refuse, give up, or grant.\<close>

datatype claim_decision = Claim_Skip | Claim_Interrupt package | Claim_Grant package

definition decide_claim :: "settings \<Rightarrow> int \<Rightarrow> string \<Rightarrow> package \<Rightarrow> claim_decision" where
  "decide_claim cfg now lease_id p =
     (if build_lease_alive now p then Claim_Skip
      else if \<not> build_attempt_due now p then Claim_Skip
      else if pkg_build_attempts p \<ge> cfg_package_worker_max_attempts cfg then Claim_Interrupt (interrupt_build cfg now p)
      else Claim_Grant (grant_build_lease cfg now lease_id p))"

section \<open>Sources of a build\<close>

record build_source =
  bs_file_id :: "string option"
  bs_storage_path :: "string option"
  bs_expected_hash :: "string option"
  bs_expected_size :: "int option"
  bs_archive_name :: "string option"

record build_claim =
  bc_package_id :: string
  bc_project_ref_id :: string
  bc_lease_id :: string
  bc_storage_path :: string
  bc_staging_path :: string
  bc_expected_source_bytes :: int
  bc_reserved_storage_bytes :: int
  bc_sources :: "build_source list"

definition ends_with :: "string \<Rightarrow> string \<Rightarrow> bool" where
  "ends_with s name_tail \<longleftrightarrow> length name_tail \<le> length s \<and> drop (length s - length name_tail) s = name_tail"

text \<open>The big conjunction \<open>source_is_valid\<close>, for entries whose fields are strings.\<close>

definition source_rows_valid ::
  "package \<Rightarrow> json \<Rightarrow> file_object option \<Rightarrow> finalization option \<Rightarrow> review_item option \<Rightarrow> bool" where
  "source_rows_valid p j file finalization item =
     (case (file, finalization, item) of
        (Some f, Some fin, Some i) \<Rightarrow>
          jget_str j ''original_file_id'' = Some (fin_original_file_id fin)
          \<and> jget_str j ''review_item_id'' = Some (fin_review_item_id fin)
          \<and> jget_str j ''version_id'' = Some (fin_version_id fin)
          \<and> jget_str j ''original_filename'' = Some (original_filename (fin_media fin))
          \<and> jget_str j ''sha256'' = Some (sha256 (fin_media fin)) \<and> is_sha256 (sha256 (fin_media fin))
          \<and> (case jget_str j ''archive_name'' of None \<Rightarrow> False | Some n \<Rightarrow> package_archive_name_is_safe n)
          \<and> fin_status fin = fin_active \<and> fin_project_ref_id fin = pkg_project_ref_id p
          \<and> itm_project_ref_id i = pkg_project_ref_id p \<and> itm_workflow_status i = finalized
          \<and> itm_active_finalization_id i = jget_str j ''finalization_id''
          \<and> itm_current_version_id i = jget_str j ''version_id''
          \<and> original_filename (fil_media f) = original_filename (fin_media fin)
          \<and> file_size (fil_media f) = file_size (fin_media fin)
          \<and> sha256 (fil_media f) = sha256 (fin_media fin)
      | _ \<Rightarrow> False)"

record claim_state =
  cs_unified_name :: "string option"
  cs_episode_nos :: "int list"
  cs_archive_names :: "string list"
  cs_sources :: "build_source list"

definition claim_source :: "db \<Rightarrow> package \<Rightarrow> json \<Rightarrow> claim_state \<Rightarrow> claim_state" where
  "claim_source db p j s =
     (let file = Option.bind (jget_str j ''original_file_id'') (get_file db);
          finalization = Option.bind (jget_str j ''finalization_id'') (\<lambda>k. row_get fin_id k (db_finalizations db));
          item = Option.bind (jget_str j ''review_item_id'') (\<lambda>k. row_get itm_id k (db_items db));
          archive_name = jget_str j ''archive_name'';
          episode_no = Option.bind item itm_episode_no;
          valid_rows = source_rows_valid p j file finalization item;
          valid_episode = (case episode_no of None \<Rightarrow> False | Some n \<Rightarrow> n > 0 \<and> n \<notin> set (cs_episode_nos s));
          extension = (case finalization of None \<Rightarrow> Inr ''''
                       | Some f \<Rightarrow> package_original_extension (original_filename (fin_media f)));
          valid_extension = (case extension of Inl _ \<Rightarrow> False | Inr _ \<Rightarrow> True);
          ext = (case extension of Inl _ \<Rightarrow> '''' | Inr e \<Rightarrow> e);
          (unified_name, valid_name) =
            (case (archive_name, episode_no) of
               (Some a, Some n) \<Rightarrow>
                 if ext = '''' then (None, False)
                 else
                   let name_tail = episode_tail n ext
                   in if ends_with a name_tail
                      then (let u = take (length a - length name_tail) a
                            in (Some u, case validate_package_unified_name (Some u) of Inl _ \<Rightarrow> False | Inr _ \<Rightarrow> True))
                      else (None, False)
             | _ \<Rightarrow> (None, False));
          same_name = (case (unified_name, cs_unified_name s) of (Some u, Some c) \<Rightarrow> u = c | _ \<Rightarrow> True);
          fresh_name = (case archive_name of None \<Rightarrow> True | Some a \<Rightarrow> a \<notin> set (cs_archive_names s));
          valid = (valid_rows \<and> valid_episode \<and> valid_extension \<and> valid_name \<and> same_name \<and> fresh_name);
          source =
            (case (valid, file, finalization) of
               (True, Some f, Some fin) \<Rightarrow>
                 \<lparr>bs_file_id = jget_str j ''original_file_id'', bs_storage_path = Some (fil_storage_path f),
                  bs_expected_hash = Some (sha256 (fin_media fin)), bs_expected_size = Some (file_size (fin_media fin)),
                  bs_archive_name = archive_name\<rparr>
             | _ \<Rightarrow>
                 \<lparr>bs_file_id = None, bs_storage_path = None, bs_expected_hash = None, bs_expected_size = None,
                  bs_archive_name = None\<rparr>)
      in \<lparr>cs_unified_name = (case (cs_unified_name s, unified_name) of (None, Some u) \<Rightarrow> Some u | (c, _) \<Rightarrow> c),
          cs_episode_nos = (case episode_no of None \<Rightarrow> cs_episode_nos s | Some n \<Rightarrow> cs_episode_nos s @ [n]),
          cs_archive_names = (case archive_name of None \<Rightarrow> cs_archive_names s | Some a \<Rightarrow> cs_archive_names s @ [a]),
          cs_sources = cs_sources s @ [source]\<rparr>)"

definition claim_sources :: "db \<Rightarrow> package \<Rightarrow> build_source list" where
  "claim_sources db p =
     cs_sources (fold (claim_source db p) (pkg_items p)
       \<lparr>cs_unified_name = None, cs_episode_nos = [], cs_archive_names = [], cs_sources = []\<rparr>)"

section \<open>Operations of the worker\<close>

definition package_build_staging_path :: "path \<Rightarrow> string \<Rightarrow> string \<Rightarrow> exn + path" where
  "package_build_staging_path package_root package_id lease_id =
     (if \<not> (hex_id ''pkg'' package_id \<and> hex_id ''build'' lease_id) then raise STORAGE_UNAVAILABLE
      else contained_path (package_id @ ''.'' @ lease_id @ ''.staging.zip'') package_root)"

datatype claim_outcome = claim_skipped | claim_failed | claimed build_claim

definition claim_package_build ::
  "env \<Rightarrow> execution_context \<Rightarrow> string \<Rightarrow> db \<Rightarrow> exn + claim_outcome \<times> db" where
  "claim_package_build env context package_id db =
     (case preparing_package db package_id of
        None \<Rightarrow> Inr (claim_skipped, db)
      | Some p \<Rightarrow>
          let cfg = env_settings env; (lease_id, drawn) = new_id env ''build'' db
          in (case decide_claim cfg (env_now env) lease_id p of
                Claim_Skip \<Rightarrow> Inr (claim_skipped, db)
              | Claim_Interrupt p' \<Rightarrow>
                  ebind (add_event env ''review.package.failed'' context (pkg_project_ref_id p') ''package'' (pkg_id p') 1
                           (no_ids\<lparr>ei_package_id := Some (pkg_id p')\<rparr>)
                           (JObj [(''error_code'', JStr ''PACKAGE_BUILD_INTERRUPTED'')]) (put_package p' db)) (\<lambda>db.
                  Inr (claim_failed, db))
              | Claim_Grant p' \<Rightarrow>
                  let db = put_package p' drawn
                  in ebind (package_build_staging_path (cfg_package_root cfg) (pkg_id p') lease_id) (\<lambda>staging_path.
                     Inr (claimed \<lparr>bc_package_id = pkg_id p', bc_project_ref_id = pkg_project_ref_id p',
                                   bc_lease_id = lease_id, bc_storage_path = pkg_storage_path p',
                                   bc_staging_path = path_str staging_path,
                                   bc_expected_source_bytes = pkg_total_bytes p',
                                   bc_reserved_storage_bytes = pkg_storage_bytes p',
                                   bc_sources = claim_sources db p'\<rparr>, db))))"

record build_artifact =
  ba_package_id :: string
  ba_lease_id :: string
  ba_storage_path :: string
  ba_canonical_path :: string
  ba_sha256 :: string
  ba_storage_bytes :: int
  ba_device :: int
  ba_inode :: int

datatype publish_outcome =
  publish_skipped | artifact_invalid | quota_exceeded | storage_unavailable | published

definition artifact_present :: "env \<Rightarrow> build_artifact \<Rightarrow> path \<Rightarrow> bool" where
  "artifact_present env a artifact_path =
     (case env_pin_package env artifact_path of
        Pin_File i \<Rightarrow> fid_device i = ba_device a \<and> fid_inode i = ba_inode a \<and> fid_size i = ba_storage_bytes a
      | _ \<Rightarrow> False)"

definition publish_row :: "int \<Rightarrow> build_artifact \<Rightarrow> package \<Rightarrow> package" where
  "publish_row now a p =
     p\<lparr>pkg_sha256 := Some (ba_sha256 a), pkg_storage_bytes := ba_storage_bytes a, pkg_storage_reclaimed_at := None,
       pkg_status := ready, pkg_next_build_attempt_at := None, pkg_build_lease_id := None,
       pkg_build_lease_expires_at := None, pkg_updated_at := now\<rparr>"

definition publish_prepared_package ::
  "env \<Rightarrow> execution_context \<Rightarrow> build_artifact \<Rightarrow> db \<Rightarrow> exn + publish_outcome \<times> db" where
  "publish_prepared_package env context a db =
     (let root = cfg_package_root (env_settings env)
      in case preparing_package db (ba_package_id a) of
           None \<Rightarrow> Inr (publish_skipped, db)
         | Some p \<Rightarrow>
             if pkg_build_lease_id p \<noteq> Some (ba_lease_id a) then Inr (publish_skipped, db)
             else
               ebind (contained_path (zip_name (pkg_id p)) root) (\<lambda>expected_path.
               ebind (contained_path (ba_storage_path a) root) (\<lambda>artifact_path.
               ebind (contained_path (ba_canonical_path a) root) (\<lambda>canonical_path.
                 if canonical_path \<noteq> expected_path then Inr (artifact_invalid, db)
                 else
                   ebind (package_build_staging_path root (pkg_id p) (ba_lease_id a)) (\<lambda>staging_path.
                     if artifact_path \<noteq> staging_path then Inr (artifact_invalid, db)
                     else if \<not> artifact_present env a artifact_path then Inr (artifact_invalid, db)
                     else if sum_storage (\<lambda>q. pkg_id q \<noteq> pkg_id p \<and> pkg_storage_reclaimed_at q = None) db + ba_storage_bytes a
                             > cfg_max_package_storage_bytes (env_settings env)
                     then Inr (quota_exceeded, db)
                     else
                       (case ensure_package_filesystem_headroom env db
                               (pending_package_storage_reservation_bytes (Some (pkg_id p)) db) 0 of
                          Inl e \<Rightarrow>
                            Inr (if e = ReviewError STORAGE_UNAVAILABLE then storage_unavailable else quota_exceeded, db)
                        | Inr _ \<Rightarrow>
                            if \<not> env_publish_rename env artifact_path expected_path then Inr (artifact_invalid, db)
                            else
                              let p' = publish_row (env_now env) a p
                              in ebind (add_event env ''review.package.ready'' context (pkg_project_ref_id p') ''package''
                                          (pkg_id p') 1 (no_ids\<lparr>ei_package_id := Some (pkg_id p')\<rparr>) (JObj [])
                                          (put_package p' db)) (\<lambda>db.
                                 Inr (published, db))))))))"

datatype failure_outcome = failure_skipped | failure_retry | failure_failed

definition record_failure_row :: "settings \<Rightarrow> int \<Rightarrow> string \<Rightarrow> bool \<Rightarrow> bool \<Rightarrow> package \<Rightarrow> failure_outcome \<times> package" where
  "record_failure_row cfg now error_code retryable storage_reclaimed p =
     (let failure = attempt_failure_json error_code (pkg_build_attempts p) retryable storage_reclaimed;
          p = p\<lparr>pkg_updated_at := now, pkg_build_lease_id := None, pkg_build_lease_expires_at := None\<rparr>
      in if retryable \<and> pkg_build_attempts p < cfg_package_worker_max_attempts cfg
         then (failure_retry,
               p\<lparr>pkg_next_build_attempt_at := Some (now + seconds (cfg_package_worker_retry_delay_seconds cfg)),
                 pkg_failure_details := Some (last_failure_json ''PACKAGE_BUILD_RETRY_SCHEDULED'' failure)\<rparr>)
         else (failure_failed,
               (if storage_reclaimed then p\<lparr>pkg_storage_bytes := 0, pkg_storage_reclaimed_at := Some now\<rparr> else p)
                 \<lparr>pkg_status := failed, pkg_sha256 := None, pkg_next_build_attempt_at := None,
                  pkg_failure_details := Some failure\<rparr>))"

definition record_package_build_failure ::
  "env \<Rightarrow> execution_context \<Rightarrow> string \<Rightarrow> string \<Rightarrow> string \<Rightarrow> bool \<Rightarrow> bool \<Rightarrow> db \<Rightarrow> exn + failure_outcome \<times> db" where
  "record_package_build_failure env context package_id error_code lease_id retryable storage_reclaimed db =
     (case preparing_package db package_id of
        None \<Rightarrow> Inr (failure_skipped, db)
      | Some p \<Rightarrow>
          if pkg_build_lease_id p \<noteq> Some lease_id then Inr (failure_skipped, db)
          else
            (case record_failure_row (env_settings env) (env_now env) error_code retryable storage_reclaimed p of
               (outcome, p') \<Rightarrow>
                 if outcome = failure_retry then Inr (failure_retry, put_package p' db)
                 else
                   ebind (add_event env ''review.package.failed'' context (pkg_project_ref_id p') ''package'' (pkg_id p') 1
                            (no_ids\<lparr>ei_package_id := Some (pkg_id p')\<rparr>)
                            (JObj [(''error_code'', JStr error_code)]) (put_package p' db)) (\<lambda>db.
                   Inr (failure_failed, db))))"

section \<open>The lease contract\<close>

definition acquire_build_lease :: "settings \<Rightarrow> int \<Rightarrow> string \<Rightarrow> package \<Rightarrow> package option" where
  "acquire_build_lease cfg now lease_id p =
     (case decide_claim cfg now lease_id p of Claim_Grant p' \<Rightarrow> Some p' | _ \<Rightarrow> None)"

text \<open>A worker gives its lease back by publishing or by recording a failure.\<close>

datatype build_report = Report_Artifact build_artifact | Report_Failure string bool bool

definition finish_build :: "settings \<Rightarrow> build_report \<Rightarrow> int \<Rightarrow> string \<Rightarrow> package \<Rightarrow> package option" where
  "finish_build cfg report now lease_id p =
     (if pkg_build_lease_id p \<noteq> Some lease_id then None
      else Some (case report of
          Report_Artifact a \<Rightarrow> publish_row now a p
        | Report_Failure code retryable reclaimed \<Rightarrow> snd (record_failure_row cfg now code retryable reclaimed p)))"

lemma record_failure_row_lease: "pkg_build_lease_id (snd (record_failure_row cfg now code r s p)) = None"
  by (simp add: record_failure_row_def Let_def)

lemma record_failure_row_id [simp]: "pkg_id (snd (record_failure_row cfg now code r s p)) = pkg_id p"
  by (simp add: record_failure_row_def Let_def)

interpretation build_slot: exclusive_lease pkg_build_lease_id build_lease_alive
  "acquire_build_lease cfg" "finish_build cfg report" for cfg report
proof
  show "build_lease_alive now s \<Longrightarrow> pkg_build_lease_id s \<noteq> None" for now s
    by (simp add: build_lease_alive_def live_lease_def)
  show "acquire_build_lease cfg now h s = Some s' \<Longrightarrow> \<not> build_lease_alive now s" for now h s s'
    by (auto simp: acquire_build_lease_def decide_claim_def split: if_splits)
  show "acquire_build_lease cfg now h s = Some s' \<Longrightarrow> pkg_build_lease_id s' = Some h" for now h s s'
    by (auto simp: acquire_build_lease_def decide_claim_def grant_build_lease_def Let_def split: if_splits)
  show "finish_build cfg report now h s = Some s' \<Longrightarrow> pkg_build_lease_id s = Some h" for now h s s'
    by (auto simp: finish_build_def split: if_splits)
  show "finish_build cfg report now h s = Some s' \<Longrightarrow> pkg_build_lease_id s' = None" for now h s s'
    by (auto simp: finish_build_def publish_row_def record_failure_row_lease split: if_splits build_report.splits)
qed

lemma preparing_package_Some:
  "preparing_package db k = Some p \<Longrightarrow> p \<in> set (db_packages db) \<and> pkg_id p = k \<and> pkg_status p = preparing"
  by (auto simp: preparing_package_def dest: find_SomeD)

section \<open>The operations are sound\<close>

lemma claim_package_build_sound: "claim_package_build env c k db = Inr (r, db') \<Longrightarrow> sound_step db db'"
proof -
  have put: "sound_step db (put_package p (db\<lparr>db_drawn := n\<rparr>))" for p n
    using sound_drawn sound_put(5) sound_trans by blast
  show "claim_package_build env c k db = Inr (r, db') \<Longrightarrow> sound_step db db'"
    by (auto simp: claim_package_build_def new_id_def Let_def put
        split: option.splits claim_decision.splits elim!: sound_event_after)
qed

lemma publish_prepared_package_sound: "publish_prepared_package env c a db = Inr (r, db') \<Longrightarrow> sound_step db db'"
  by (auto simp: publish_prepared_package_def Let_def split: option.splits if_splits sum.splits elim!: sound_event_after)

lemma record_package_build_failure_sound:
  "record_package_build_failure env c k code l rt sr db = Inr (r, db') \<Longrightarrow> sound_step db db'"
  by (auto simp: record_package_build_failure_def split: option.splits if_splits prod.splits elim!: sound_event_after)

section \<open>Properties of a build\<close>

lemma preparing_after_put:
  assumes "p \<in> set (db_packages db)" and "pkg_id p' = pkg_id p" and "pkg_status p' = preparing"
  shows "preparing_package (put_package p' db) (pkg_id p) = Some p'"
proof -
  let ?rows = "row_put pkg_id p' (db_packages db)"
  let ?P = "\<lambda>q. pkg_id q = pkg_id p \<and> pkg_status q = preparing"
  have "p' \<in> set ?rows" by (rule in_set_row_put_same [OF assms(1)]) (simp add: assms)
  then have "List.find ?P ?rows \<noteq> None" using assms unfolding find_None_iff by auto
  then obtain q where q: "List.find ?P ?rows = Some q" by auto
  then have "q = p'" using in_set_row_putD [of q pkg_id p' "db_packages db"] find_SomeD [OF q] assms(2) by auto
  then show ?thesis using q by (simp add: preparing_package_def put_package_def)
qed

lemma claimed_row:
  assumes "claim_package_build env c k db = Inr (claimed bc, db')"
  shows "\<exists>p p'. p \<in> set (db_packages db) \<and> pkg_id p = k \<and> preparing_package db' k = Some p'
    \<and> acquire_build_lease (env_settings env) (env_now env) (bc_lease_id bc) p = Some p'"
proof -
  let ?l = "''build_'' @ env_uuid_hex env (db_drawn db)"
  from assms obtain p p' where p: "preparing_package db k = Some p"
    and d: "decide_claim (env_settings env) (env_now env) ?l p = Claim_Grant p'"
    and bc: "bc_lease_id bc = ?l" and db': "db' = put_package p' (db\<lparr>db_drawn := Suc (db_drawn db)\<rparr>)"
    by (auto simp: claim_package_build_def new_id_def Let_def split: option.splits claim_decision.splits)
  have ids: "pkg_id p' = pkg_id p" "pkg_status p' = pkg_status p"
    using d by (auto simp: decide_claim_def grant_build_lease_def Let_def split: if_splits)
  have "preparing_package db' k = Some p'"
    using preparing_after_put [of p "db\<lparr>db_drawn := Suc (db_drawn db)\<rparr>" p'] preparing_package_Some [OF p] ids db' by simp
  moreover have "acquire_build_lease (env_settings env) (env_now env) (bc_lease_id bc) p = Some p'"
    using d bc by (simp add: acquire_build_lease_def)
  ultimately show ?thesis using preparing_package_Some [OF p] by blast
qed

text \<open>
  C11. One worker at a time: from the moment a build is claimed until its lease runs out, any other
  claim of the same package is skipped and changes nothing.
\<close>

theorem package_build_claim_exclusive:
  assumes "claim_package_build env context package_id db = Inr (claimed claim, db')"
    and "env_now env' < env_now env + seconds (cfg_package_worker_retry_delay_seconds (env_settings env))"
  shows "claim_package_build env' context' package_id db' = Inr (claim_skipped, db')"
proof -
  obtain p p' where p': "preparing_package db' package_id = Some p'"
    and a: "acquire_build_lease (env_settings env) (env_now env) (bc_lease_id claim) p = Some p'"
    using claimed_row [OF assms(1)] by blast
  have "build_lease_alive (env_now env') p'"
    using a assms(2) by (auto simp: acquire_build_lease_def decide_claim_def grant_build_lease_def Let_def
        build_lease_alive_def live_lease_def split: if_splits)
  then have "acquire_build_lease (env_settings env') (env_now env') l p' = None" for l
    by (rule build_slot.acquire_exclusive)
  then show ?thesis using p' \<open>build_lease_alive (env_now env') p'\<close>
    by (simp add: claim_package_build_def decide_claim_def new_id_def Let_def)
qed

definition is_claimed :: "exn + claim_outcome \<times> db \<Rightarrow> bool" where
  "is_claimed m = (case m of Inr (claimed _, _) \<Rightarrow> True | _ \<Rightarrow> False)"

lemma is_claimedE: "is_claimed m \<Longrightarrow> (\<And>c db'. m = Inr (claimed c, db') \<Longrightarrow> P) \<Longrightarrow> P"
  by (auto simp: is_claimed_def split: sum.splits prod.splits claim_outcome.splits)

lemma ex_claim: "is_claimed (claim_package_build ex_hex_env ex_context ex_package_id ex_package_db)"
  by code_simp

theorem package_build_claim_exclusive_witness:
  "\<exists>claim db'. claim_package_build ex_hex_env ex_context ex_package_id ex_package_db = Inr (claimed claim, db')
     \<and> claim_package_build ex_hex_env ex_context ex_package_id db' = Inr (claim_skipped, db')"
proof -
  obtain claim db' where c: "claim_package_build ex_hex_env ex_context ex_package_id ex_package_db = Inr (claimed claim, db')"
    using ex_claim by (rule is_claimedE)
  have "claim_package_build ex_hex_env ex_context ex_package_id db' = Inr (claim_skipped, db')"
    by (rule package_build_claim_exclusive [OF c]) (simp add: ex_defs seconds_def)
  then show ?thesis using c by blast
qed

text \<open>
  A worker that lost its lease is harmless: once another worker has claimed the package, a
  report carrying an older lease, an artifact to publish or a failure to record, is skipped and
  leaves the database as it was.
\<close>

theorem stale_build_report_ignored:
  assumes "claim_package_build env context package_id db = Inr (claimed claim, db')"
    and "old_lease \<noteq> bc_lease_id claim" and "ba_package_id artifact = package_id" and "ba_lease_id artifact = old_lease"
  shows "publish_prepared_package env' context' artifact db' = Inr (publish_skipped, db')
    \<and> record_package_build_failure env' context' package_id code old_lease retryable reclaimed db' = Inr (failure_skipped, db')"
proof -
  obtain p p' where p': "preparing_package db' package_id = Some p'"
    and a: "acquire_build_lease (env_settings env) (env_now env) (bc_lease_id claim) p = Some p'"
    using claimed_row [OF assms(1)] by blast
  have "finish_build (env_settings env) (Report_Artifact artifact) 0 old_lease p' = None"
    using build_slot.stale_release_refused [OF a] assms(2) by blast
  then have "pkg_build_lease_id p' \<noteq> Some old_lease" by (auto simp: finish_build_def split: if_splits)
  then show ?thesis using p' assms(3,4) by (simp add: publish_prepared_package_def record_package_build_failure_def Let_def)
qed

definition ex_stale_artifact :: build_artifact where
  "ex_stale_artifact =
     \<lparr>ba_package_id = ex_package_id, ba_lease_id = ''old'', ba_storage_path = '''', ba_canonical_path = '''',
      ba_sha256 = '''', ba_storage_bytes = 1, ba_device = 1, ba_inode = 1\<rparr>"

theorem stale_build_report_ignored_witness:
  "\<exists>claim db'. claim_package_build ex_hex_env ex_context ex_package_id ex_package_db = Inr (claimed claim, db')
     \<and> publish_prepared_package ex_hex_env ex_context ex_stale_artifact db' = Inr (publish_skipped, db')"
proof -
  obtain claim db' where c: "claim_package_build ex_hex_env ex_context ex_package_id ex_package_db = Inr (claimed claim, db')"
    using ex_claim by (rule is_claimedE)
  have "bc_lease_id claim = ''build_'' @ env_uuid_hex ex_hex_env (db_drawn ex_package_db)"
    using c by (auto simp: claim_package_build_def new_id_def Let_def split: option.splits claim_decision.splits)
  then have "''old'' \<noteq> bc_lease_id claim" by simp
  then show ?thesis
    using c stale_build_report_ignored [OF c, of "''old''" ex_stale_artifact] by (auto simp: ex_stale_artifact_def)
qed

text \<open>
  A package never stays in preparation forever: a claim of a due package that has used up its
  attempts fails it, and every granted claim uses up exactly one attempt and stays within the limit.
\<close>

theorem package_build_attempts_bounded:
  assumes "preparing_package db package_id = Some p" and "\<not> build_lease_alive (env_now env) p"
    and "build_attempt_due (env_now env) p" and "claim_package_build env context package_id db = Inr (outcome, db')"
  shows "if pkg_build_attempts p < cfg_package_worker_max_attempts (env_settings env)
    then (\<exists>claim p'. outcome = claimed claim \<and> preparing_package db' package_id = Some p'
      \<and> pkg_build_attempts p' = pkg_build_attempts p + 1
      \<and> pkg_build_attempts p' \<le> cfg_package_worker_max_attempts (env_settings env))
    else outcome = claim_failed \<and> preparing_package db' package_id = None"
proof (cases "pkg_build_attempts p < cfg_package_worker_max_attempts (env_settings env)")
  case True
  let ?l = "''build_'' @ env_uuid_hex env (db_drawn db)"
  let ?p = "grant_build_lease (env_settings env) (env_now env) ?l p"
  have ids: "pkg_id ?p = pkg_id p" "pkg_status ?p = pkg_status p" "pkg_build_attempts ?p = pkg_build_attempts p + 1"
    by (simp_all add: grant_build_lease_def Let_def)
  obtain claim where "outcome = claimed claim" "db' = put_package ?p (db\<lparr>db_drawn := Suc (db_drawn db)\<rparr>)"
    using assms True by (auto simp: claim_package_build_def decide_claim_def new_id_def Let_def)
  then show ?thesis
    using True ids preparing_after_put [of p "db\<lparr>db_drawn := Suc (db_drawn db)\<rparr>" ?p] preparing_package_Some [OF assms(1)] by auto
next
  case False
  let ?p = "interrupt_build (env_settings env) (env_now env) p"
  have ids: "pkg_id ?p = pkg_id p" "pkg_status ?p = failed" by (simp_all add: interrupt_build_def)
  obtain db1 where o: "outcome = claim_failed" and "db_packages db' = row_put pkg_id ?p (db_packages db)"
    using assms False by (auto simp: claim_package_build_def decide_claim_def new_id_def Let_def put_package_def
        dest: add_event_frame(6))
  moreover have "\<not> (pkg_id q = package_id \<and> pkg_status q = preparing)" if "q \<in> set (row_put pkg_id ?p (db_packages db))" for q
    using in_set_row_putD [OF that] ids preparing_package_Some [OF assms(1)] by auto
  ultimately show ?thesis using False by (auto simp: preparing_package_def find_None_iff)
qed

theorem package_build_attempts_bounded_witness:
  "\<exists>claim db' p'. claim_package_build ex_hex_env ex_context ex_package_id ex_package_db = Inr (claimed claim, db')
     \<and> preparing_package db' ex_package_id = Some p' \<and> pkg_build_attempts p' = 1"
proof -
  obtain claim db' where c: "claim_package_build ex_hex_env ex_context ex_package_id ex_package_db = Inr (claimed claim, db')"
    using ex_claim by (rule is_claimedE)
  have p: "preparing_package ex_package_db ex_package_id = Some ex_package" by code_simp
  have "\<not> build_lease_alive (env_now ex_hex_env) ex_package" "build_attempt_due (env_now ex_hex_env) ex_package"
    by code_simp+
  from package_build_attempts_bounded [OF p this c] show ?thesis using c by (auto simp: ex_defs)
qed

end
