(* ===== verification/Downloads.thy ===== *)
theory Downloads
  imports Package_Builds Json_Text
begin

text \<open>
  Downloading a package, as in
  \<open>src/backend/app/modules/final_cut_review/infra/repositories.py\<close>
  (\<open>authorize_package_download_session\<close> to \<open>release_package_download_lease\<close>):
  a session token is bound to the identity of the archive file through a digest, its state moves
  from fresh over started to verified, and one transfer at a time holds the download lease. The
  session token is the text of a cookie: its characters are code points below 256.
\<close>

section \<open>The session digest\<close>

type_synonym download_identity = "int \<times> int \<times> int \<times> int \<times> int"

datatype session_state = fresh | started | verified

definition session_state_name :: "session_state \<Rightarrow> string" where
  "session_state_name s = (case s of fresh \<Rightarrow> ''fresh'' | started \<Rightarrow> ''started'' | verified \<Rightarrow> ''verified'')"

definition session_payload :: "string \<Rightarrow> session_state \<Rightarrow> download_identity \<Rightarrow> string" where
  "session_payload session_token state identity =
     (case identity of
        (device, inode, ctime_ns, mtime_ns, bytes) \<Rightarrow>
          ''['' @ json_quote True (session_state_name state) @ '','' @ py_str device @ '','' @ py_str inode @ '',''
            @ py_str ctime_ns @ '','' @ py_str mtime_ns @ '','' @ py_str bytes @ '','' @ json_quote True session_token @ '']'')"

definition package_download_session_hash :: "env \<Rightarrow> string \<Rightarrow> session_state \<Rightarrow> download_identity \<Rightarrow> string" where
  "package_download_session_hash env session_token state identity =
     env_sha256_hex env (session_payload session_token state identity)"

text \<open>\<open>session_token.encode("utf-8")\<close>.\<close>

definition utf8_encode :: "string \<Rightarrow> string" where
  "utf8_encode s =
     concat (map (\<lambda>c. let n = of_char c :: nat
                      in if n < 128 then [c] else [char_of (192 + n div 64), char_of (128 + n mod 64)]) s)"

definition session_state_of :: "env \<Rightarrow> string \<Rightarrow> string \<Rightarrow> download_identity \<Rightarrow> session_state option" where
  "session_state_of env session_hash session_token identity =
     (case List.find (\<lambda>state. session_hash = package_download_session_hash env session_token state identity)
             [fresh, started, verified] of
        Some state \<Rightarrow> Some state
      | None \<Rightarrow> if session_hash = env_sha256_hex env (utf8_encode session_token) then Some fresh else None)"

section \<open>Operations\<close>

definition download_lease_alive :: "int \<Rightarrow> package \<Rightarrow> bool" where
  "download_lease_alive now p = live_lease now (pkg_download_lease_id p) (pkg_download_lease_expires_at p)"

definition project_package :: "db \<Rightarrow> string \<Rightarrow> string \<Rightarrow> exn + package" where
  "project_package db project_ref_id package_id =
     of_option (ReviewError RESOURCE_NOT_FOUND)
       (List.find (\<lambda>p. pkg_id p = package_id \<and> pkg_project_ref_id p = project_ref_id) (db_packages db))"

definition package_download_file_identity :: "env \<Rightarrow> package \<Rightarrow> exn + download_identity" where
  "package_download_file_identity env p =
     (let root = cfg_package_root (env_settings env)
      in if \<not> hex_id ''pkg'' (pkg_id p) then raise STORAGE_UNAVAILABLE
         else
           (case (contained_path (zip_name (pkg_id p)) root, contained_path (pkg_storage_path p) root) of
              (Inr expected_path, Inr stored_path) \<Rightarrow>
                if stored_path \<noteq> expected_path then raise STORAGE_UNAVAILABLE
                else if pkg_storage_reclaimed_at p \<noteq> None then raise PACKAGE_SOURCE_MISSING
                else
                  (case env_pin_package env expected_path of
                     Pin_Unsafe \<Rightarrow> raise STORAGE_UNAVAILABLE
                   | Pin_OSError \<Rightarrow> raise STORAGE_UNAVAILABLE
                   | Pin_Missing \<Rightarrow> raise PACKAGE_SOURCE_MISSING
                   | Pin_File i \<Rightarrow> Inr (fid_device i, fid_inode i, fid_ctime_ns i, fid_mtime_ns i, fid_size i))
            | _ \<Rightarrow> raise STORAGE_UNAVAILABLE))"

definition identity_size :: "download_identity \<Rightarrow> int" where
  "identity_size identity = snd (snd (snd (snd identity)))"

definition new_token :: "env \<Rightarrow> db \<Rightarrow> string \<times> db" where
  "new_token env db = (env_token env (db_drawn db), db\<lparr>db_drawn := Suc (db_drawn db)\<rparr>)"

definition authorize_package_download_session ::
  "env \<Rightarrow> string \<Rightarrow> string \<Rightarrow> db \<Rightarrow> exn + (string \<times> int) \<times> db" where
  "authorize_package_download_session env project_ref_id package_id db =
     ebind (get_project db project_ref_id) (\<lambda>project.
     ebind (assert_project_visible project) (\<lambda>_.
     ebind (project_package db project_ref_id package_id) (\<lambda>p.
     let now = env_now env
     in if pkg_expires_at p \<le> now then raise PACKAGE_EXPIRED
        else if pkg_status p \<noteq> ready then raise PACKAGE_NOT_READY
        else if pkg_sha256 p = None then raise STORAGE_UNAVAILABLE
        else if download_lease_alive now p then raise RESOURCE_STATE_CONFLICT
        else
          ebind (package_download_file_identity env p) (\<lambda>identity.
          let (token, db) = new_token env db;
              expires_at = min (pkg_expires_at p) (now + seconds (cfg_package_download_session_ttl_seconds (env_settings env)))
          in Inr ((token, expires_at),
                  put_package (p\<lparr>pkg_download_session_hash := Some (package_download_session_hash env token fresh identity),
                                 pkg_download_session_expires_at := Some expires_at, pkg_updated_at := now\<rparr>) db)))))"

definition lock_package_download_storage_bytes :: "env \<Rightarrow> string \<Rightarrow> string \<Rightarrow> db \<Rightarrow> exn + int" where
  "lock_package_download_storage_bytes env project_ref_id package_id db =
     ebind (get_project db project_ref_id) (\<lambda>project.
     ebind (assert_project_visible project) (\<lambda>_.
     ebind (project_package db project_ref_id package_id) (\<lambda>p.
       if pkg_expires_at p \<le> env_now env then raise PACKAGE_EXPIRED
       else if pkg_status p \<noteq> ready then raise PACKAGE_NOT_READY
       else Inr (pkg_storage_bytes p))))"

definition download_cooling :: "settings \<Rightarrow> int \<Rightarrow> package \<Rightarrow> bool" where
  "download_cooling cfg now p =
     (case pkg_last_download_finished_at p of
        None \<Rightarrow> False
      | Some t \<Rightarrow> t + seconds (cfg_package_download_cooldown_seconds cfg) > now)"

text \<open>The two admission checks of \<open>begin_package_download\<close> and the lease it records.\<close>

definition acquire_download_lease :: "settings \<Rightarrow> int \<Rightarrow> string \<Rightarrow> package \<Rightarrow> package option" where
  "acquire_download_lease cfg now lease_id p =
     (if download_lease_alive now p then None
      else if download_cooling cfg now p then None
      else Some (p\<lparr>pkg_download_lease_id := Some lease_id,
                   pkg_download_lease_expires_at := Some (now + seconds (cfg_package_download_lease_seconds cfg)),
                   pkg_updated_at := now\<rparr>))"

record download_grant =
  dg_storage_path :: string
  dg_package_filename :: string
  dg_sha256 :: string
  dg_lease_id :: string
  dg_storage_bytes :: int
  dg_integrity_verified :: bool
  dg_file_identity :: download_identity

definition start_session :: "env \<Rightarrow> string \<Rightarrow> session_state \<Rightarrow> download_identity \<Rightarrow> package \<Rightarrow> package" where
  "start_session env session_token state identity p =
     (if state = fresh
      then p\<lparr>pkg_download_session_hash := Some (package_download_session_hash env session_token started identity)\<rparr>
      else p)"

definition begin_package_download ::
  "env \<Rightarrow> string \<Rightarrow> string \<Rightarrow> string \<Rightarrow> bool \<Rightarrow> db \<Rightarrow> exn + download_grant \<times> db" where
  "begin_package_download env project_ref_id package_id session_token is_resume_request db =
     ebind (get_project db project_ref_id) (\<lambda>project.
     ebind (assert_project_visible project) (\<lambda>_.
     ebind (project_package db project_ref_id package_id) (\<lambda>p.
     let now = env_now env
     in if pkg_expires_at p \<le> now then raise PACKAGE_EXPIRED
        else
          (case (pkg_download_session_hash p, pkg_download_session_expires_at p) of
             (Some session_hash, Some session_end) \<Rightarrow>
               if session_end \<le> now then raise PRINCIPAL_PERMISSION_DENIED
               else
                 (case pkg_sha256 p of
                    None \<Rightarrow> raise PACKAGE_NOT_READY
                  | Some digest \<Rightarrow>
                      if pkg_status p \<noteq> ready then raise PACKAGE_NOT_READY
                      else
                        ebind (package_download_file_identity env p) (\<lambda>identity.
                          if identity_size identity \<noteq> pkg_storage_bytes p then raise FILE_HASH_MISMATCH
                          else
                            (case session_state_of env session_hash session_token identity of
                               None \<Rightarrow> raise PRINCIPAL_PERMISSION_DENIED
                             | Some state \<Rightarrow>
                                 if is_resume_request \<and> state = fresh then raise RESOURCE_STATE_CONFLICT
                                 else
                                   let (lease_id, drawn) = new_token env db
                                   in (case acquire_download_lease (env_settings env) now lease_id p of
                                         None \<Rightarrow> raise RESOURCE_STATE_CONFLICT
                                       | Some p' \<Rightarrow>
                                           Inr (\<lparr>dg_storage_path = pkg_storage_path p', dg_package_filename = pkg_package_filename p',
                                                 dg_sha256 = digest, dg_lease_id = lease_id, dg_storage_bytes = pkg_storage_bytes p',
                                                 dg_integrity_verified = (state = verified), dg_file_identity = identity\<rparr>,
                                                put_package (start_session env session_token state identity p') drawn)))))
           | _ \<Rightarrow> raise PRINCIPAL_PERMISSION_DENIED))))"

text \<open>The lookup of a row by its identifier and the lease it carries.\<close>

definition leased_package :: "db \<Rightarrow> string \<Rightarrow> string \<Rightarrow> (package \<Rightarrow> bool) \<Rightarrow> package option" where
  "leased_package db package_id lease_id cond =
     List.find (\<lambda>p. pkg_id p = package_id \<and> pkg_download_lease_id p = Some lease_id \<and> cond p) (db_packages db)"

definition mark_package_download_session_verified ::
  "env \<Rightarrow> string \<Rightarrow> string \<Rightarrow> string \<Rightarrow> string \<Rightarrow> download_identity \<Rightarrow> db \<Rightarrow> exn + bool \<times> db" where
  "mark_package_download_session_verified env package_id lease_id session_token expected_sha256 verified_file_identity db =
     (case leased_package db package_id lease_id (\<lambda>p. pkg_status p = ready) of
        None \<Rightarrow> Inr (False, db)
      | Some p \<Rightarrow>
          (case pkg_download_session_hash p of
             None \<Rightarrow> Inr (False, db)
           | Some session_hash \<Rightarrow>
               if pkg_sha256 p \<noteq> Some expected_sha256 then Inr (False, db)
               else
                 ebind (package_download_file_identity env p) (\<lambda>current_identity.
                   if current_identity \<noteq> verified_file_identity \<or> identity_size current_identity \<noteq> pkg_storage_bytes p
                   then Inr (False, db)
                   else
                     let started_hash = package_download_session_hash env session_token started current_identity;
                         verified_hash = package_download_session_hash env session_token verified current_identity
                     in if session_hash \<noteq> started_hash \<and> session_hash \<noteq> verified_hash then Inr (False, db)
                        else Inr (True, put_package (p\<lparr>pkg_download_session_hash := Some verified_hash,
                                                       pkg_updated_at := env_now env\<rparr>) db))))"

definition renew_package_download_lease :: "env \<Rightarrow> string \<Rightarrow> string \<Rightarrow> db \<Rightarrow> bool \<times> db" where
  "renew_package_download_lease env package_id lease_id db =
     (case leased_package db package_id lease_id (\<lambda>p. pkg_status p = ready \<and> pkg_storage_reclaimed_at p = None) of
        None \<Rightarrow> (False, db)
      | Some p \<Rightarrow>
          (True, put_package (p\<lparr>pkg_download_lease_expires_at :=
                                  Some (env_now env + seconds (cfg_package_download_lease_seconds (env_settings env))),
                                pkg_updated_at := env_now env\<rparr>) db))"

definition release_download_row :: "bool \<Rightarrow> int \<Rightarrow> package \<Rightarrow> package" where
  "release_download_row fin now p =
     (let p = p\<lparr>pkg_download_lease_id := None, pkg_download_lease_expires_at := None\<rparr>;
          p = (if fin then p\<lparr>pkg_last_download_finished_at := Some now\<rparr> else p)
      in p\<lparr>pkg_updated_at := now\<rparr>)"

definition release_package_download_lease :: "env \<Rightarrow> string \<Rightarrow> string \<Rightarrow> bool \<Rightarrow> db \<Rightarrow> bool \<times> db" where
  "release_package_download_lease env package_id lease_id fin db =
     (case leased_package db package_id lease_id (\<lambda>_. True) of
        None \<Rightarrow> (False, db)
      | Some p \<Rightarrow> (True, put_package (release_download_row fin (env_now env) p) db))"

definition get_package :: "env \<Rightarrow> string \<Rightarrow> string \<Rightarrow> db \<Rightarrow> exn + package" where
  "get_package env project_ref_id package_id db =
     ebind (get_project db project_ref_id) (\<lambda>project.
     ebind (assert_project_visible project) (\<lambda>_.
     ebind (project_package db project_ref_id package_id) (\<lambda>p.
       if pkg_expires_at p < env_now env then raise PACKAGE_EXPIRED
       else if pkg_status p \<noteq> ready then Inr p
       else
         (case contained_path (pkg_storage_path p) (cfg_package_root (env_settings env)) of
            Inl _ \<Rightarrow> raise STORAGE_UNAVAILABLE
          | Inr path \<Rightarrow>
              (case env_pin_package env path of
                 Pin_Unsafe \<Rightarrow> raise STORAGE_UNAVAILABLE
               | Pin_OSError \<Rightarrow> Inl OSError
               | Pin_Missing \<Rightarrow> raise PACKAGE_SOURCE_MISSING
               | Pin_File _ \<Rightarrow> Inr p)))))"


section \<open>The digest text is unambiguous\<close>

lemma comma_split: "CHR '','' \<notin> set a \<Longrightarrow> CHR '','' \<notin> set b \<Longrightarrow> a @ '','' @ r = b @ '','' @ r' \<Longrightarrow> a = b \<and> r = r'"
  by (auto simp: append_eq_append_conv2 append_eq_Cons_conv Cons_eq_append_conv)

lemma py_str_no_comma: "CHR '','' \<notin> set (py_str n)"
proof -
  have "\<not> is_digit (CHR '','')" by (simp add: is_digit_def)
  then show ?thesis using dec_nat_digits by (auto simp: py_str_def list_all_iff)
qed

lemma py_str_inj: "py_str m = py_str n \<Longrightarrow> m = n"
  using py_str_split [of m "[]" n "[]"] by (simp add: delim_def)

lemma state_quote_no_comma: "CHR '','' \<notin> set (json_quote True (session_state_name st))"
  by (cases st) (simp_all add: json_quote_def json_escape_def session_state_name_def)

lemma state_name_inj: "session_state_name s = session_state_name s' \<Longrightarrow> s = s'"
  by (cases s; cases s'; simp add: session_state_name_def)

lemma session_payload_inj:
  assumes "session_payload t s i = session_payload t' s' i'"
  shows "t = t' \<and> s = s' \<and> i = i'"
proof -
  obtain a b c d e where i: "i = (a, b, c, d, e)" by (cases i)
  obtain a' b' c' d' e' where i': "i' = (a', b', c', d', e')" by (cases i')
  note split = comma_split [OF py_str_no_comma py_str_no_comma]
  from assms have "json_quote True (session_state_name s) @ '','' @ py_str a @ '','' @ py_str b @ '','' @ py_str c @ '',''
      @ py_str d @ '','' @ py_str e @ '','' @ json_quote True t @ '']''
    = json_quote True (session_state_name s') @ '','' @ py_str a' @ '','' @ py_str b' @ '','' @ py_str c' @ '',''
      @ py_str d' @ '','' @ py_str e' @ '','' @ json_quote True t' @ '']''"
    by (simp add: session_payload_def i i')
  from comma_split [OF state_quote_no_comma state_quote_no_comma this]
  have st: "session_state_name s = session_state_name s'"
    and r: "py_str a @ '','' @ py_str b @ '','' @ py_str c @ '','' @ py_str d @ '','' @ py_str e @ '','' @ json_quote True t @ '']''
     = py_str a' @ '','' @ py_str b' @ '','' @ py_str c' @ '','' @ py_str d' @ '','' @ py_str e' @ '','' @ json_quote True t' @ '']''"
    using json_quote_inj by auto
  from split [OF r] have a: "a = a'" using py_str_inj by auto
  note r1 = conjunct2 [OF split [OF r]]
  note r2 = conjunct2 [OF split [OF r1]]
  note r3 = conjunct2 [OF split [OF r2]]
  note r4 = conjunct2 [OF split [OF r3]]
  note r5 = conjunct2 [OF split [OF r4]]
  have "b = b'" "c = c'" "d = d'" "e = e'"
    using split [OF r1] split [OF r2] split [OF r3] split [OF r4] py_str_inj by auto
  moreover have "t = t'" using r5 json_quote_inj by simp
  ultimately show ?thesis using st state_name_inj i i' a by blast
qed

section \<open>The lease contract\<close>

definition release_download_lease :: "bool \<Rightarrow> int \<Rightarrow> string \<Rightarrow> package \<Rightarrow> package option" where
  "release_download_lease fin now lease_id p =
     (if pkg_download_lease_id p \<noteq> Some lease_id then None else Some (release_download_row fin now p))"

interpretation download_slot: exclusive_lease pkg_download_lease_id download_lease_alive
  "acquire_download_lease cfg" "release_download_lease fin" for cfg fin
proof
  show "download_lease_alive now s \<Longrightarrow> pkg_download_lease_id s \<noteq> None" for now s
    by (simp add: download_lease_alive_def live_lease_def)
  show "acquire_download_lease cfg now h s = Some s' \<Longrightarrow> \<not> download_lease_alive now s" for now h s s'
    by (auto simp: acquire_download_lease_def split: if_splits)
  show "acquire_download_lease cfg now h s = Some s' \<Longrightarrow> pkg_download_lease_id s' = Some h" for now h s s'
    by (auto simp: acquire_download_lease_def split: if_splits)
  show "release_download_lease fin now h s = Some s' \<Longrightarrow> pkg_download_lease_id s = Some h" for now h s s'
    by (auto simp: release_download_lease_def split: if_splits)
  show "release_download_lease fin now h s = Some s' \<Longrightarrow> pkg_download_lease_id s' = None" for now h s s'
    by (auto simp: release_download_lease_def release_download_row_def Let_def split: if_splits)
qed

section \<open>The operations are sound\<close>

lemma sound_put_package_drawn: "sound_step db (put_package p (db\<lparr>db_drawn := n\<rparr>))"
  using sound_drawn sound_put(5) sound_trans by blast

lemma authorize_package_download_session_sound:
  "authorize_package_download_session env pid kid db = Inr (r, db') \<Longrightarrow> sound_step db db'"
  by (auto simp: authorize_package_download_session_def new_token_def Let_def sound_put_package_drawn split: if_splits)

text \<open>What a granted download has checked.\<close>

lemma begin_package_download_Inr:
  assumes "begin_package_download env pid kid t resume db = Inr (g, db')"
  shows "\<exists>p h e digest i st p'. project_package db pid kid = Inr p \<and> env_now env < pkg_expires_at p
    \<and> pkg_download_session_hash p = Some h \<and> pkg_download_session_expires_at p = Some e \<and> env_now env < e
    \<and> pkg_sha256 p = Some digest \<and> pkg_status p = ready \<and> package_download_file_identity env p = Inr i
    \<and> identity_size i = pkg_storage_bytes p \<and> session_state_of env h t i = Some st \<and> \<not> (resume \<and> st = fresh)
    \<and> acquire_download_lease (env_settings env) (env_now env) (env_token env (db_drawn db)) p = Some p'
    \<and> dg_lease_id g = env_token env (db_drawn db) \<and> dg_integrity_verified g = (st = verified) \<and> dg_file_identity g = i
    \<and> db' = put_package (start_session env t st i p') (db\<lparr>db_drawn := Suc (db_drawn db)\<rparr>)"
proof -
  from assms obtain p :: package where p: "project_package db pid kid = Inr p" and ex: "env_now env < pkg_expires_at p"
    by (auto simp: begin_package_download_def Let_def split: if_splits)
  from assms p ex obtain h e where h: "pkg_download_session_hash p = Some h" "pkg_download_session_expires_at p = Some e" "env_now env < e"
    by (auto simp: begin_package_download_def Let_def split: if_splits option.splits)
  from assms p ex h obtain digest where d: "pkg_sha256 p = Some digest" "pkg_status p = ready"
    by (auto simp: begin_package_download_def Let_def split: if_splits option.splits)
  from assms p ex h d obtain i where i: "package_download_file_identity env p = Inr i" "identity_size i = pkg_storage_bytes p"
    by (auto simp: begin_package_download_def Let_def split: if_splits)
  from assms p ex h d i obtain st where st: "session_state_of env h t i = Some st" "\<not> (resume \<and> st = fresh)"
    by (cases "session_state_of env h t i") (auto simp: begin_package_download_def Let_def split: if_splits)
  from assms p ex h d i st obtain p' where p': "acquire_download_lease (env_settings env) (env_now env) (env_token env (db_drawn db)) p = Some p'"
    by (cases "acquire_download_lease (env_settings env) (env_now env) (env_token env (db_drawn db)) p")
      (auto simp: begin_package_download_def new_token_def Let_def)
  from assms p ex h d i st p' have "dg_lease_id g = env_token env (db_drawn db) \<and> dg_integrity_verified g = (st = verified)
      \<and> dg_file_identity g = i \<and> db' = put_package (start_session env t st i p') (db\<lparr>db_drawn := Suc (db_drawn db)\<rparr>)"
    by (auto simp: begin_package_download_def new_token_def Let_def)
  with p ex h d i st p' show ?thesis by blast
qed

lemma begin_package_download_sound:
  "begin_package_download env pid kid t b db = Inr (r, db') \<Longrightarrow> sound_step db db'"
  by (drule begin_package_download_Inr) (auto simp: sound_put_package_drawn)

lemma mark_package_download_session_verified_sound:
  "mark_package_download_session_verified env kid l t h i db = Inr (r, db') \<Longrightarrow> sound_step db db'"
  by (auto simp: mark_package_download_session_verified_def Let_def split: if_splits option.splits)

lemma download_lease_updates_sound:
  "sound_step db (snd (renew_package_download_lease env kid l db))"
  "sound_step db (snd (release_package_download_lease env kid l fin db))"
  by (auto simp: renew_package_download_lease_def release_package_download_lease_def split: option.splits)

section \<open>Properties of a download\<close>

lemma project_package_Inr:
  "project_package db pid kid = Inr p \<Longrightarrow> p \<in> set (db_packages db) \<and> pkg_id p = kid \<and> pkg_project_ref_id p = pid"
  by (auto simp: project_package_def dest: find_SomeD)

lemma find_after_put:
  assumes "p \<in> set (db_packages db)" and "pkg_id p' = pkg_id p" and "P p'" and "\<And>q. P q \<Longrightarrow> pkg_id q = pkg_id p"
  shows "List.find P (db_packages (put_package p' db)) = Some p'"
proof -
  let ?rows = "row_put pkg_id p' (db_packages db)"
  have "p' \<in> set ?rows" by (rule in_set_row_put_same [OF assms(1)]) (simp add: assms)
  then have "List.find P ?rows \<noteq> None" using assms(3) by (auto simp: find_None_iff)
  then obtain q where q: "List.find P ?rows = Some q" by auto
  then have "q = p'" using in_set_row_putD [of q pkg_id p' "db_packages db"] find_SomeD [OF q] assms(2,4) by auto
  then show ?thesis using q by (simp add: put_package_def)
qed

lemma find_none_after_put:
  assumes "p \<in> set (db_packages db)" and "pkg_id p' = pkg_id p" and "\<not> P p'" and "\<And>q. P q \<Longrightarrow> pkg_id q = pkg_id p"
  shows "List.find P (db_packages (put_package p' db)) = None"
  using in_set_row_putD [of _ pkg_id p' "db_packages db"] assms(2-4) by (fastforce simp: find_None_iff put_package_def)

lemma acquired_row:
  assumes "acquire_download_lease cfg now l p = Some p'"
  shows "pkg_id p' = pkg_id p" "pkg_project_ref_id p' = pkg_project_ref_id p"
    "pkg_download_lease_expires_at p' = Some (now + seconds (cfg_package_download_lease_seconds cfg))"
  using assms by (auto simp: acquire_download_lease_def split: if_splits)

lemma start_session_row [simp]:
  "pkg_id (start_session env t st i p) = pkg_id p"
  "pkg_project_ref_id (start_session env t st i p) = pkg_project_ref_id p"
  "pkg_download_lease_id (start_session env t st i p) = pkg_download_lease_id p"
  "pkg_download_lease_expires_at (start_session env t st i p) = pkg_download_lease_expires_at p"
  by (simp_all add: start_session_def)


text \<open>
  One transfer at a time: from the moment a download is granted until its lease runs out, no
  other download of the package is granted and no new session is authorised, whoever asks and with
  whatever token.
\<close>

theorem package_download_exclusive:
  assumes "begin_package_download env project_ref_id package_id token resume db = Inr (grant, db')"
    and "env_now env' < env_now env + seconds (cfg_package_download_lease_seconds (env_settings env))"
  shows "begin_package_download env' project_ref_id package_id token' resume' db' \<noteq> Inr (grant', db'')
    \<and> authorize_package_download_session env' project_ref_id package_id db' \<noteq> Inr (session, db'')"
proof -
  from begin_package_download_Inr [OF assms(1)] obtain p i st p' where
    p: "project_package db project_ref_id package_id = Inr p"
    and a: "acquire_download_lease (env_settings env) (env_now env) (env_token env (db_drawn db)) p = Some p'"
    and db': "db' = put_package (start_session env token st i p') (db\<lparr>db_drawn := Suc (db_drawn db)\<rparr>)"
    by blast
  let ?q = "start_session env token st i p'"
  have q: "project_package db' project_ref_id package_id = Inr ?q"
    unfolding project_package_def db'
    by (subst find_after_put [of p]) (use project_package_Inr [OF p] acquired_row [OF a] in auto)
  have alive: "download_lease_alive (env_now env') ?q"
    using download_slot.acquire_holds [OF a] acquired_row(3) [OF a] assms(2)
    by (simp add: download_lease_alive_def live_lease_def)
  have "begin_package_download env' project_ref_id package_id token' resume' db' \<noteq> Inr (grant', db'')"
  proof
    assume "begin_package_download env' project_ref_id package_id token' resume' db' = Inr (grant', db'')"
    from begin_package_download_Inr [OF this] q
    have "acquire_download_lease (env_settings env') (env_now env') (env_token env' (db_drawn db')) ?q \<noteq> None" by auto
    then show False using download_slot.acquire_exclusive [OF alive] by simp
  qed
  then show ?thesis using q alive by (auto simp: authorize_package_download_session_def Let_def split: if_splits)
qed

lemma leased_after_acquire:
  assumes "project_package db pid kid = Inr p" and "acquire_download_lease cfg now l p = Some p'" and "l' \<noteq> l"
  shows "leased_package (put_package (start_session env t st i p') (db\<lparr>db_drawn := n\<rparr>)) kid l' P = None"
  unfolding leased_package_def
  by (rule find_none_after_put [of p])
    (use project_package_Inr [OF assms(1)] acquired_row [OF assms(2)] download_slot.acquire_holds [OF assms(2)] assms(3) in auto)

text \<open>
  A transfer that lost its lease is harmless: once another download of the package was granted,
  renewing, releasing or marking as verified under an older lease reports failure and changes nothing.
\<close>

theorem stale_download_lease_ignored:
  assumes "begin_package_download env project_ref_id package_id token resume db = Inr (grant, db')"
    and "old_lease \<noteq> dg_lease_id grant"
  shows "renew_package_download_lease env' package_id old_lease db' = (False, db')
    \<and> release_package_download_lease env' package_id old_lease done_flag db' = (False, db')
    \<and> mark_package_download_session_verified env' package_id old_lease token' digest identity db' = Inr (False, db')"
proof -
  from begin_package_download_Inr [OF assms(1)] obtain p i st p' where
    p: "project_package db project_ref_id package_id = Inr p"
    and a: "acquire_download_lease (env_settings env) (env_now env) (dg_lease_id grant) p = Some p'"
    and db': "db' = put_package (start_session env token st i p') (db\<lparr>db_drawn := Suc (db_drawn db)\<rparr>)"
    by metis
  have "leased_package db' package_id old_lease P = None" for P
    unfolding db' by (rule leased_after_acquire [OF p a assms(2)])
  then show ?thesis
    by (simp add: renew_package_download_lease_def release_package_download_lease_def mark_package_download_session_verified_def)
qed

text \<open>The texts whose digests decide on a presented token.\<close>

definition session_texts :: "string \<Rightarrow> download_identity \<Rightarrow> string list" where
  "session_texts session_token identity =
     utf8_encode session_token # map (\<lambda>state. session_payload session_token state identity) [fresh, started, verified]"

lemma session_state_of_text:
  "session_state_of env h t i = Some st \<Longrightarrow> \<exists>x \<in> set (session_texts t i). env_sha256_hex env x = h"
  by (auto simp: session_state_of_def session_texts_def package_download_session_hash_def
      split: option.splits if_splits dest!: find_SomeD)

lemma utf8_shorter: "length (utf8_encode t) \<le> length (concat (map (json_escape True) t))"
proof (induction t)
  case (Cons c t)
  have "length (if of_char c < (128::nat) then [c] else [char_of (192 + of_char c div 64 :: nat), char_of (128 + of_char c mod 64 :: nat)])
      \<le> length (json_escape True c)"
    by (simp add: json_escape_def Let_def)
  with Cons show ?case by (simp add: utf8_encode_def Let_def)
qed (simp add: utf8_encode_def)

lemma payload_not_token: "utf8_encode t \<noteq> session_payload t s i"
proof
  assume "utf8_encode t = session_payload t s i"
  then have "length (utf8_encode t) = length (session_payload t s i)" by simp
  then show False using utf8_shorter [of t] by (cases i) (simp add: session_payload_def json_quote_def)
qed

lemma identity_cong:
  assumes "pkg_id q = pkg_id p" and "pkg_storage_path q = pkg_storage_path p"
    and "pkg_storage_reclaimed_at q = pkg_storage_reclaimed_at p"
    and "env_settings env' = env_settings env" and "env_pin_package env' = env_pin_package env"
  shows "package_download_file_identity env' q = package_download_file_identity env p"
  unfolding package_download_file_identity_def assms ..

lemma session_text_fresh:
  assumes "x \<in> set (session_texts t i)" and "x = session_payload t fresh j"
  shows "i = j"
  using assms payload_not_token session_payload_inj unfolding session_texts_def
  by (metis (no_types, lifting) imageE list.set_map set_ConsD)

definition session_row :: "env \<Rightarrow> string \<Rightarrow> int \<Rightarrow> download_identity \<Rightarrow> package \<Rightarrow> package" where
  "session_row env token ends identity p =
     p\<lparr>pkg_download_session_hash := Some (package_download_session_hash env token fresh identity),
       pkg_download_session_expires_at := Some ends, pkg_updated_at := env_now env\<rparr>"

lemma authorized_row:
  assumes "authorize_package_download_session env pid kid db = Inr ((token, ends), db')"
    and "project_package db pid kid = Inr p"
  shows "\<exists>i. package_download_file_identity env p = Inr i \<and> project_package db' pid kid = Inr (session_row env token ends i p)
    \<and> pkg_status p = ready \<and> pkg_sha256 p \<noteq> None \<and> env_now env < pkg_expires_at p \<and> \<not> download_lease_alive (env_now env) p
    \<and> ends \<le> pkg_expires_at p \<and> db_projects db' = db_projects db
    \<and> (\<exists>q. get_project db pid = Inr q \<and> prj_deleted_at q = None)"
proof -
  from assms obtain i where i: "package_download_file_identity env p = Inr i"
    and db': "db' = put_package (session_row env token ends i p) (db\<lparr>db_drawn := Suc (db_drawn db)\<rparr>)"
    and rest: "pkg_status p = ready \<and> pkg_sha256 p \<noteq> None \<and> env_now env < pkg_expires_at p
      \<and> \<not> download_lease_alive (env_now env) p \<and> ends \<le> pkg_expires_at p
      \<and> (\<exists>q. get_project db pid = Inr q \<and> prj_deleted_at q = None)"
    by (auto simp: authorize_package_download_session_def new_token_def session_row_def Let_def split: if_splits)
  have "project_package db' pid kid = Inr (session_row env token ends i p)"
    unfolding project_package_def db'
    by (subst find_after_put [of p]) (use project_package_Inr [OF assms(2)] in \<open>auto simp: session_row_def\<close>)
  then show ?thesis using i rest db' by (simp add: put_package_def)
qed


text \<open>
  An authorised download can begin: as long as the session lives, the archive is unchanged and
  has the recorded size, and no finished transfer is too recent, presenting the token is granted; the
  transfer is not yet reported as verified.
\<close>

theorem authorized_download_begins:
  assumes "authorize_package_download_session env project_ref_id package_id db = Inr ((token, ends), db')"
    and "project_package db project_ref_id package_id = Inr p"
    and "package_download_file_identity env p = Inr identity" and "identity_size identity = pkg_storage_bytes p"
    and "env' = env\<lparr>env_now := later\<rparr>" and "env_now env \<le> later" and "later < ends"
    and "\<not> download_cooling (env_settings env) later p"
  shows "\<exists>grant db''. begin_package_download env' project_ref_id package_id token False db' = Inr (grant, db'')
    \<and> \<not> dg_integrity_verified grant \<and> dg_file_identity grant = identity"
proof -
  let ?q = "session_row env token ends identity p"
  obtain digest project where row: "project_package db' project_ref_id package_id = Inr ?q"
    and ok: "pkg_status p = ready" "pkg_sha256 p = Some digest" "ends \<le> pkg_expires_at p" "\<not> download_lease_alive (env_now env) p"
    and prj: "get_project db' project_ref_id = Inr project" "prj_deleted_at project = None"
    using authorized_row [OF assms(1,2)] assms(3) by (auto simp: get_project_def)
  have ident: "package_download_file_identity env' ?q = Inr identity"
    using assms(3,5) identity_cong [of ?q p env' env] by (simp add: session_row_def)
  have free: "\<not> download_lease_alive later ?q"
    using ok(4) assms(6) by (auto simp: download_lease_alive_def live_lease_def session_row_def split: option.splits)
  have cool: "\<not> download_cooling (env_settings env) later ?q"
    using assms(8) by (simp add: download_cooling_def session_row_def)
  have st: "session_state_of env' (package_download_session_hash env token fresh identity) token identity = Some fresh"
    using assms(5) by (simp add: session_state_of_def package_download_session_hash_def)
  obtain p' where "acquire_download_lease (env_settings env) later (env_token env (db_drawn db')) ?q = Some p'"
    using free cool by (auto simp: acquire_download_lease_def)
  moreover have "pkg_status ?q = ready" "pkg_sha256 ?q = Some digest" "later < pkg_expires_at ?q"
    "pkg_storage_bytes ?q = identity_size identity" "pkg_download_session_expires_at ?q = Some ends"
    "pkg_download_session_hash ?q = Some (package_download_session_hash env token fresh identity)"
    using ok assms(4,7) by (simp_all add: session_row_def)
  ultimately show ?thesis
    using row prj ident st assms(5,7) by (simp add: begin_package_download_def new_token_def Let_def)
qed

section \<open>A concrete download\<close>

definition ex_dl_env :: env where
  "ex_dl_env = ex_hex_env\<lparr>env_pin_package := (\<lambda>_. Pin_File ex_identity)\<rparr>"

definition ex_replaced_env :: env where
  "ex_replaced_env = ex_hex_env\<lparr>env_pin_package := (\<lambda>_. Pin_File (ex_identity\<lparr>fid_inode := 8\<rparr>))\<rparr>"

definition ex_dl_package :: package where
  "ex_dl_package = ex_package\<lparr>pkg_status := ready, pkg_sha256 := Some (replicate 64 (CHR ''a'')), pkg_storage_bytes := 100\<rparr>"

definition ex_dl_db :: db where
  "ex_dl_db = ex_final_db\<lparr>db_packages := [ex_dl_package]\<rparr>"

definition ex_session_db :: db where
  "ex_session_db =
     (case authorize_package_download_session ex_dl_env ''p1'' ex_package_id ex_dl_db of Inr (_, db) \<Rightarrow> db | Inl _ \<Rightarrow> ex_dl_db)"

lemma ex_authorize:
  "authorize_package_download_session ex_dl_env ''p1'' ex_package_id ex_dl_db = Inr ((''0'', 301000000), ex_session_db)"
  by code_simp

lemma ex_dl_row: "project_package ex_dl_db ''p1'' ex_package_id = Inr ex_dl_package"
  by code_simp

lemma ex_dl_identity: "package_download_file_identity ex_dl_env ex_dl_package = Inr (1, 7, 5, 5, 100)"
  by code_simp

theorem authorized_download_begins_witness:
  "\<exists>grant db''. begin_package_download (ex_dl_env\<lparr>env_now := 2000000\<rparr>) ''p1'' ex_package_id ''0'' False ex_session_db
      = Inr (grant, db'') \<and> \<not> dg_integrity_verified grant \<and> dg_file_identity grant = (1, 7, 5, 5, 100)"
proof (rule authorized_download_begins [OF ex_authorize ex_dl_row ex_dl_identity _ refl])
  show "identity_size (1, 7, 5, 5, 100) = pkg_storage_bytes ex_dl_package" by code_simp
  show "env_now ex_dl_env \<le> 2000000" by code_simp
  show "(2000000 :: int) < 301000000" by simp
  show "\<not> download_cooling (env_settings ex_dl_env) 2000000 ex_dl_package" by code_simp
qed

lemma ex_begin: "succeeds (begin_package_download ex_dl_env ''p1'' ex_package_id ''0'' False ex_session_db)"
  by code_simp

theorem package_download_exclusive_witness:
  "\<exists>grant db'. begin_package_download ex_dl_env ''p1'' ex_package_id ''0'' False ex_session_db = Inr (grant, db')
     \<and> begin_package_download ex_dl_env ''p1'' ex_package_id ''0'' False db' \<noteq> Inr (grant, db')"
proof -
  obtain grant db' where g: "begin_package_download ex_dl_env ''p1'' ex_package_id ''0'' False ex_session_db = Inr (grant, db')"
    using ex_begin by (rule succeeds_pairE)
  have "begin_package_download ex_dl_env ''p1'' ex_package_id ''0'' False db' \<noteq> Inr (grant, db')"
    using package_download_exclusive [OF g, of ex_dl_env "''0''" False grant db'] by (simp add: ex_dl_env_def ex_defs seconds_def)
  with g show ?thesis by blast
qed

theorem stale_download_lease_ignored_witness:
  "\<exists>grant db'. begin_package_download ex_dl_env ''p1'' ex_package_id ''0'' False ex_session_db = Inr (grant, db')
     \<and> renew_package_download_lease ex_dl_env ex_package_id ''old'' db' = (False, db')"
proof -
  obtain grant db' where g: "begin_package_download ex_dl_env ''p1'' ex_package_id ''0'' False ex_session_db = Inr (grant, db')"
    using ex_begin by (rule succeeds_pairE)
  have "env_token ex_dl_env (db_drawn ex_session_db) \<noteq> ''old''" by code_simp
  then have "''old'' \<noteq> dg_lease_id grant" using begin_package_download_Inr [OF g] by metis
  from stale_download_lease_ignored [OF g this] g show ?thesis by blast
qed

lemma ex_replaced_identity: "package_download_file_identity ex_replaced_env ex_dl_package = Inr (1, 8, 5, 5, 100)"
  by code_simp


end
