(* ===== verification/Deletion.thy ===== *)
theory Deletion
  imports Items Finalization Packages Json_Text
begin

text \<open>
  \<open>DurableDeletionCoordinator\<close> of
  \<open>src/backend/app/modules/final_cut_review/infra/deletion.py\<close> and the target check of
  \<open>src/backend/app/storage_mutation_locks.py\<close>: a deletion records a durable intent and the
  identity of every stored file it will remove, then removes one project or item with everything
  that belongs to it. The \<open>ON DELETE CASCADE\<close> foreign keys (revisions, annotations,
  technical QC tasks and findings) are written out; the storage locks serialise concurrent
  mutations and have no effect on a serial execution beyond the check of their targets.
\<close>

section \<open>Storage targets\<close>

definition canonical_target :: "string \<Rightarrow> exn + string" where
  "canonical_target logical_target =
     (let parts = path_parts logical_target
      in if path_root_of logical_target \<noteq> Relative \<or> length parts \<noteq> 2
            \<or> hd parts \<notin> {''files'', ''packages''} \<or> list_ex (\<lambda>w. w \<in> {'''', ''.'', ''..''}) parts
         then Inl UnsafeFilePathError
         else Inr (parts ! 0 @ ''/'' @ parts ! 1))"

definition acquire_storage_target_mutation_locks :: "string list \<Rightarrow> exn + string list" where
  "acquire_storage_target_mutation_locks logical_targets =
     ebind (efold (\<lambda>t acc. ebind (canonical_target t) (\<lambda>c. Inr (acc @ [c]))) logical_targets [])
       (\<lambda>targets. Inr (remdups (sort targets)))"

section \<open>The scope of a deletion\<close>

record deletion_scope =
  sc_item_ids :: "string list"
  sc_version_ids :: "string list"
  sc_issue_ids :: "string list"
  sc_finalization_ids :: "string list"
  sc_derivative_task_ids :: "string list"

text \<open>\<open>ORDER BY review_item_id, id\<close>.\<close>

definition by_item :: "('r \<Rightarrow> string) \<Rightarrow> ('r \<Rightarrow> string) \<Rightarrow> 'r list \<Rightarrow> 'r list" where
  "by_item item_key key rows = order_by item_key (order_by key rows)"

definition scope_of :: "db \<Rightarrow> string \<Rightarrow> string list \<Rightarrow> deletion_scope" where
  "scope_of db project_ref_id item_ids =
     (if item_ids = []
      then \<lparr>sc_item_ids = [], sc_version_ids = [], sc_issue_ids = [], sc_finalization_ids = [], sc_derivative_task_ids = []\<rparr>
      else
        \<lparr>sc_item_ids = item_ids,
         sc_version_ids =
           map ver_id (by_item ver_review_item_id ver_id
             (filter (\<lambda>v. ver_project_ref_id v = project_ref_id \<and> ver_review_item_id v \<in> set item_ids) (db_versions db))),
         sc_issue_ids =
           map iss_id (by_item iss_review_item_id iss_id
             (filter (\<lambda>s. iss_project_ref_id s = project_ref_id \<and> iss_review_item_id s \<in> set item_ids) (db_issues db))),
         sc_finalization_ids =
           map fin_id (by_item fin_review_item_id fin_id
             (filter (\<lambda>f. fin_project_ref_id f = project_ref_id \<and> fin_review_item_id f \<in> set item_ids) (db_finalizations db))),
         sc_derivative_task_ids =
           map mdt_id (by_item mdt_review_item_id mdt_id
             (filter (\<lambda>t. mdt_project_ref_id t = project_ref_id \<and> mdt_review_item_id t \<in> set item_ids) (db_tasks db)))\<rparr>)"

section \<open>Eligibility\<close>

definition assert_no_active_finalization :: "db \<Rightarrow> deletion_scope \<Rightarrow> exn + unit" where
  "assert_no_active_finalization db scope =
     guard (\<not> list_ex (\<lambda>f. fin_id f \<in> set (sc_finalization_ids scope) \<and> fin_status f = fin_active) (db_finalizations db))
       (ReviewError RESOURCE_STATE_CONFLICT)"

definition assert_item_delete_eligible :: "review_item \<Rightarrow> nat \<Rightarrow> nat \<Rightarrow> finalization list \<Rightarrow> exn + unit" where
  "assert_item_delete_eligible item version_count issue_count finalizations =
     (if itm_active_finalization_id item \<noteq> None \<or> list_ex (\<lambda>f. fin_status f = fin_active) finalizations
      then raise RESOURCE_STATE_CONFLICT
      else
        let explicitly_revoked = (finalizations \<noteq> [] \<and> list_all (\<lambda>f. fin_status f = fin_revoked) finalizations);
            workflow_eligible =
              (itm_workflow_status item = pending_review \<or> (itm_workflow_status item = in_review \<and> explicitly_revoked))
        in guard (workflow_eligible \<and> version_count = 1 \<and> \<not> issue_count > 0 \<and> (finalizations = [] \<or> explicitly_revoked))
             (ReviewError RESOURCE_STATE_CONFLICT))"

definition scope_packages :: "db \<Rightarrow> string \<Rightarrow> package list" where
  "scope_packages db project_ref_id = order_by pkg_id (filter (\<lambda>p. pkg_project_ref_id p = project_ref_id) (db_packages db))"

definition package_finalization_ids :: "package \<Rightarrow> string list" where
  "package_finalization_ids p = List.map_filter (\<lambda>j. jget_str j ''finalization_id'') (pkg_items p)"

definition packages_for_finalizations :: "db \<Rightarrow> string \<Rightarrow> string list \<Rightarrow> package list" where
  "packages_for_finalizations db project_ref_id finalization_ids =
     (if finalization_ids = [] then []
      else
        let package_ids = map inv_package_id (filter (\<lambda>n. inv_finalization_id n \<in> set finalization_ids) (db_invalidations db))
        in filter (\<lambda>p. pkg_id p \<in> set package_ids
             \<or> list_ex (\<lambda>f. f \<in> set finalization_ids) (package_finalization_ids p)) (scope_packages db project_ref_id))"

definition package_is_exclusive_to_finalizations :: "package \<Rightarrow> string list \<Rightarrow> bool" where
  "package_is_exclusive_to_finalizations p finalization_ids =
     (package_finalization_ids p \<noteq> [] \<and> list_all (\<lambda>f. f \<in> set finalization_ids) (package_finalization_ids p))"

definition package_unleased :: "int \<Rightarrow> package \<Rightarrow> exn + unit" where
  "package_unleased now p =
     (if pkg_status p = preparing then raise RESOURCE_STATE_CONFLICT
      else guard (\<not> (live_lease now (pkg_build_lease_id p) (pkg_build_lease_expires_at p)
                    \<or> live_lease now (pkg_download_lease_id p) (pkg_download_lease_expires_at p)))
             (ReviewError RESOURCE_STATE_CONFLICT))"

definition assert_cleanup_not_leased :: "env \<Rightarrow> db \<Rightarrow> deletion_scope \<Rightarrow> package list \<Rightarrow> exn + unit" where
  "assert_cleanup_not_leased env db scope packages =
     ebind (guard (\<not> list_ex (\<lambda>t. mdt_id t \<in> set (sc_derivative_task_ids scope) \<and> mdt_status t = task_running
               \<and> (case mdt_lease_expires_at t of None \<Rightarrow> False | Some e \<Rightarrow> e > env_now env)) (db_tasks db))
             (ReviewError RESOURCE_STATE_CONFLICT)) (\<lambda>_.
       efold (\<lambda>p _. package_unleased (env_now env) p) packages ())"

section \<open>The intent and its artifacts\<close>

definition json_opt :: "string option \<Rightarrow> json" where
  "json_opt x = (case x of None \<Rightarrow> JNull | Some s \<Rightarrow> JStr s)"

definition intent_clash :: "deletion_intent \<Rightarrow> deletion_intent \<Rightarrow> bool" where
  "intent_clash r q \<longleftrightarrow> dli_operation_identity_hash r = dli_operation_identity_hash q"

definition artifact_clash :: "deletion_artifact \<Rightarrow> deletion_artifact \<Rightarrow> bool" where
  "artifact_clash r q \<longleftrightarrow> dla_deletion_intent_id r = dla_deletion_intent_id q
     \<and> dla_relative_logical_target r = dla_relative_logical_target q"

definition fresh_intent :: "env \<Rightarrow> string \<Rightarrow> string \<Rightarrow> string \<Rightarrow> string option \<Rightarrow> deletion_intent" where
  "fresh_intent env execution_identity command_type project_ref_id review_item_id =
     (let subject_type = (if review_item_id = None then ''project'' else ''review_item'');
          operation_identity_hash =
            env_sha256_hex env (json_dumps (JObj
              [(''execution_identity'', JStr execution_identity), (''command_type'', JStr command_type),
               (''subject_type'', JStr subject_type), (''project_ref_id'', JStr project_ref_id),
               (''review_item_id'', json_opt review_item_id)]))
      in \<lparr>dli_id = ''delete_'' @ take 32 (env_sha256_hex env operation_identity_hash), dli_command_type = command_type,
          dli_operation_identity_hash = operation_identity_hash, dli_subject_project = (review_item_id = None),
          dli_project_ref_id_snapshot = project_ref_id, dli_review_item_id_snapshot = review_item_id,
          dli_status = intent_pending, dli_attempts = 0, dli_last_error_code = None, dli_cleanup_claim_id = None,
          dli_cleanup_claim_expires_at = None, dli_completed_at = None, dli_created_at = env_now env,
          dli_updated_at = env_now env\<rparr>)"

definition create_intent ::
  "env \<Rightarrow> string \<Rightarrow> string \<Rightarrow> string \<Rightarrow> string option \<Rightarrow> db \<Rightarrow> exn + deletion_intent \<times> db" where
  "create_intent env execution_identity command_type project_ref_id review_item_id db =
     (let intent = fresh_intent env execution_identity command_type project_ref_id review_item_id
      in ebind (row_insert dli_id intent_clash intent (db_intents db)) (\<lambda>rows.
         Inr (intent, db\<lparr>db_intents := rows\<rparr>)))"

text \<open>The dictionary of candidates: \<open>d[k] = v\<close> keeps the position of a key it already has.\<close>

definition dict_set :: "string \<Rightarrow> 'v \<Rightarrow> (string \<times> 'v) list \<Rightarrow> (string \<times> 'v) list" where
  "dict_set k v d = (if k \<in> fst ` set d then map (\<lambda>(k', w). if k' = k then (k', v) else (k', w)) d else d @ [(k, v)])"

definition dict_setdefault :: "string \<Rightarrow> 'v \<Rightarrow> (string \<times> 'v) list \<Rightarrow> (string \<times> 'v) list" where
  "dict_setdefault k v d = (if k \<in> fst ` set d then d else d @ [(k, v)])"

definition candidate_opt :: "string option \<Rightarrow> artifact_kind \<Rightarrow> (string \<times> artifact_kind) list \<Rightarrow> (string \<times> artifact_kind) list" where
  "candidate_opt file_id kind d =
     (case file_id of None \<Rightarrow> d | Some f \<Rightarrow> if f = '''' then d else dict_setdefault f kind d)"

definition version_candidates :: "review_version \<Rightarrow> (string \<times> artifact_kind) list \<Rightarrow> (string \<times> artifact_kind) list" where
  "version_candidates v d =
     candidate_opt (ver_thumbnail_asset_id v) thumbnail_artifact
       (candidate_opt (ver_playback_asset_id v) playback_derivative
         (dict_set (ver_original_file_id v) original_media d))"

definition task_candidates :: "derivative_task \<Rightarrow> (string \<times> artifact_kind) list \<Rightarrow> (string \<times> artifact_kind) list" where
  "task_candidates t d =
     (let kind = (if mdt_kind t = thumbnail then thumbnail_artifact else playback_derivative);
          d = candidate_opt (mdt_output_file_id t) kind d
      in if mdt_kind t = thumbnail
         then fold (\<lambda>f. dict_setdefault f thumbnail_artifact) (thumbnail_variant_file_ids (mdt_result_details t)) d
         else d)"

definition scope_file_candidates :: "db \<Rightarrow> deletion_scope \<Rightarrow> (string \<times> artifact_kind) list" where
  "scope_file_candidates db scope =
     fold task_candidates (filter (\<lambda>t. mdt_id t \<in> set (sc_derivative_task_ids scope)) (db_tasks db))
       (fold version_candidates (filter (\<lambda>v. ver_id v \<in> set (sc_version_ids scope)) (db_versions db)) [])"

definition acquire_scope_storage_mutation_locks ::
  "db \<Rightarrow> deletion_scope \<Rightarrow> package list \<Rightarrow> exn + (string \<times> artifact_kind) list" where
  "acquire_scope_storage_mutation_locks db scope packages =
     (let candidates = scope_file_candidates db scope
      in ebind (acquire_storage_target_mutation_locks
                  (map (\<lambda>(f, _). ''files/'' @ f) candidates @ map (\<lambda>p. ''packages/'' @ zip_name (pkg_id p)) packages)) (\<lambda>_.
         Inr candidates))"

definition file_has_reference_outside_scope :: "db \<Rightarrow> string \<Rightarrow> deletion_scope \<Rightarrow> bool" where
  "file_has_reference_outside_scope db file_id scope =
     (list_ex (\<lambda>v. (ver_original_file_id v = file_id \<or> ver_playback_asset_id v = Some file_id
          \<or> ver_thumbnail_asset_id v = Some file_id) \<and> ver_id v \<notin> set (sc_version_ids scope)) (db_versions db)
      \<or> list_ex (\<lambda>f. fin_original_file_id f = file_id \<and> fin_id f \<notin> set (sc_finalization_ids scope)) (db_finalizations db)
      \<or> list_ex (\<lambda>t. mdt_id t \<notin> set (sc_derivative_task_ids scope)
          \<and> (mdt_output_file_id t = Some file_id
             \<or> file_id \<in> set (thumbnail_variant_file_ids (mdt_result_details t)))) (db_tasks db))"

text \<open>An artifact row: what has to be removed from storage, and the identity it must still have.\<close>

definition artifact_row :: "env \<Rightarrow> deletion_intent \<Rightarrow> artifact_kind \<Rightarrow> string \<Rightarrow> file_identity \<Rightarrow> string \<Rightarrow> deletion_artifact" where
  "artifact_row env intent kind target i expected_sha256 =
     \<lparr>dla_id = ''artifact_'' @ take 32 (env_sha256_hex env (dli_id intent @ [CHR 0x00] @ target)),
      dla_deletion_intent_id = dli_id intent, dla_artifact_kind = kind, dla_relative_logical_target = target,
      dla_expected_device = fid_device i, dla_expected_inode = fid_inode i, dla_expected_ctime_ns = fid_ctime_ns i,
      dla_expected_size = fid_size i, dla_expected_sha256 = expected_sha256, dla_status = artifact_pending,
      dla_attempts = 0, dla_last_error_code = None, dla_quarantined_at = None, dla_deleted_at = None,
      dla_created_at = env_now env, dla_updated_at = env_now env\<rparr>"

text \<open>The check constraint \<open>ck_review_deletion_artifacts_strong_identity\<close>.\<close>

definition artifact_identity_ok :: "deletion_artifact \<Rightarrow> bool" where
  "artifact_identity_ok r \<longleftrightarrow> dla_expected_device r \<ge> 0 \<and> dla_expected_inode r \<ge> 0
     \<and> dla_expected_ctime_ns r \<ge> 0 \<and> dla_expected_size r > 0"

definition insert_artifact :: "deletion_artifact \<Rightarrow> db \<Rightarrow> exn + db" where
  "insert_artifact r db =
     ebind (guard (artifact_identity_ok r) IntegrityError) (\<lambda>_.
     ebind (row_insert dla_id artifact_clash r (db_artifacts db)) (\<lambda>rows. Inr (db\<lparr>db_artifacts := rows\<rparr>)))"

definition capture_file_artifact :: "env \<Rightarrow> deletion_intent \<Rightarrow> file_object \<Rightarrow> artifact_kind \<Rightarrow> db \<Rightarrow> exn + db" where
  "capture_file_artifact env intent file kind db =
     (let root = cfg_storage_root (env_settings env)
      in if \<not> managed_file_id (fil_id file) then raise STORAGE_UNAVAILABLE
         else if \<not> is_sha256 (sha256 (fil_media file)) then raise STORAGE_UNAVAILABLE
         else
           ebind (contained_path (''files/'' @ fil_id file) root) (\<lambda>expected_path.
           ebind (contained_path (fil_storage_path file) root) (\<lambda>actual_path.
             if actual_path \<noteq> expected_path then raise STORAGE_UNAVAILABLE
             else
               (case env_pin_storage env actual_path of
                  Pin_Unsafe \<Rightarrow> raise STORAGE_UNAVAILABLE
                | Pin_OSError \<Rightarrow> raise STORAGE_UNAVAILABLE
                | Pin_Missing \<Rightarrow> Inr db
                | Pin_File i \<Rightarrow>
                    insert_artifact (artifact_row env intent kind (''files/'' @ fil_id file) i (sha256 (fil_media file))) db))))"

definition capture_scope_file ::
  "env \<Rightarrow> deletion_intent \<Rightarrow> deletion_scope \<Rightarrow> string \<times> artifact_kind \<Rightarrow> string list \<times> db \<Rightarrow> exn + string list \<times> db" where
  "capture_scope_file env intent scope candidate acc =
     (case (candidate, acc) of
        ((file_id, kind), (deletable, db)) \<Rightarrow>
          if file_has_reference_outside_scope db file_id scope then Inr acc
          else
            (case get_file db file_id of
               None \<Rightarrow> Inr acc
             | Some file \<Rightarrow> ebind (capture_file_artifact env intent file kind db) (\<lambda>db. Inr (deletable @ [file_id], db))))"

definition capture_scope_files ::
  "env \<Rightarrow> deletion_intent \<Rightarrow> deletion_scope \<Rightarrow> (string \<times> artifact_kind) list \<Rightarrow> db \<Rightarrow> exn + string list \<times> db" where
  "capture_scope_files env intent scope candidates db = efold (capture_scope_file env intent scope) candidates ([], db)"

definition capture_package :: "env \<Rightarrow> deletion_intent \<Rightarrow> package \<Rightarrow> string list \<times> db \<Rightarrow> exn + string list \<times> db" where
  "capture_package env intent p acc =
     (case acc of (captured, db) \<Rightarrow>
        let root = cfg_package_root (env_settings env)
        in if \<not> hex_id ''pkg'' (pkg_id p) then raise STORAGE_UNAVAILABLE
           else
             ebind (contained_path (zip_name (pkg_id p)) root) (\<lambda>expected_path.
             ebind (contained_path (pkg_storage_path p) root) (\<lambda>actual_path.
               if actual_path \<noteq> expected_path then raise STORAGE_UNAVAILABLE
               else
                 (case env_pin_package env actual_path of
                    Pin_Unsafe \<Rightarrow> raise STORAGE_UNAVAILABLE
                  | Pin_OSError \<Rightarrow> raise STORAGE_UNAVAILABLE
                  | Pin_Missing \<Rightarrow> Inr (captured @ [pkg_id p], db)
                  | Pin_File i \<Rightarrow>
                      (case pkg_sha256 p of
                         None \<Rightarrow> raise STORAGE_UNAVAILABLE
                       | Some digest \<Rightarrow>
                           if \<not> is_sha256 digest then raise STORAGE_UNAVAILABLE
                           else
                             ebind (insert_artifact
                                      (artifact_row env intent project_package (''packages/'' @ zip_name (pkg_id p)) i digest) db) (\<lambda>db.
                             Inr (captured @ [pkg_id p], db)))))))"

definition capture_packages :: "env \<Rightarrow> deletion_intent \<Rightarrow> package list \<Rightarrow> db \<Rightarrow> exn + string list \<times> db" where
  "capture_packages env intent packages db = efold (capture_package env intent) packages ([], db)"

section \<open>Removing the rows\<close>

definition event_in_scope :: "deletion_scope \<Rightarrow> string list \<Rightarrow> outbox_event \<Rightarrow> bool" where
  "event_in_scope scope package_ids e =
     (let hit = (\<lambda>ids column. (case column of None \<Rightarrow> False | Some x \<Rightarrow> x \<in> set ids) \<or> evt_aggregate_id e \<in> set ids)
      in hit (sc_item_ids scope) (evt_review_item_id e) \<or> hit (sc_version_ids scope) (evt_version_id e)
         \<or> hit (sc_issue_ids scope) (evt_issue_id e) \<or> hit (sc_finalization_ids scope) (evt_finalization_id e)
         \<or> hit package_ids (evt_package_id e))"

definition deleted_event :: "project \<Rightarrow> deletion_scope \<Rightarrow> string list \<Rightarrow> bool \<Rightarrow> outbox_event \<Rightarrow> bool" where
  "deleted_event project scope package_ids delete_project e \<longleftrightarrow>
     evt_project_ref_id e = prj_id project \<and> (delete_project \<or> event_in_scope scope package_ids e)"

text \<open>The loop over the upload sessions of the deleted files.\<close>

definition detach_deleted_files :: "env \<Rightarrow> string list \<Rightarrow> upload_session list \<Rightarrow> upload_session list" where
  "detach_deleted_files env file_ids uploads =
     List.map_filter (\<lambda>u.
       if (case upl_file_id u of None \<Rightarrow> True | Some f \<Rightarrow> f \<notin> set file_ids) then Some u
       else if upl_parts_cleanup_confirmed_at u \<noteq> None \<and> upl_received_parts u = [] then None
       else Some (u\<lparr>upl_file_id := None,
                    upl_parts_cleanup_confirmed_at :=
                      (if upl_received_parts u \<noteq> [] then None else upl_parts_cleanup_confirmed_at u),
                    upl_updated_at := env_now env\<rparr>)) uploads"

definition delete_scope :: "env \<Rightarrow> project \<Rightarrow> deletion_scope \<Rightarrow> string list \<Rightarrow> string list \<Rightarrow> bool \<Rightarrow> db \<Rightarrow> db" where
  "delete_scope env project scope package_ids file_ids delete_project db =
     (let gone = deleted_event project scope package_ids delete_project;
          event_ids = map evt_event_id (filter gone (db_events db));
          versions = set (sc_version_ids scope); issues = set (sc_issue_ids scope);
          finalizations = set (sc_finalization_ids scope)
      in db\<lparr>db_receipts := filter (\<lambda>r. rcp_event_id r \<notin> set event_ids) (db_receipts db),
            db_events := filter (\<lambda>e. evt_event_id e \<notin> set event_ids) (db_events db),
            db_invalidations :=
              filter (\<lambda>n. inv_finalization_id n \<notin> finalizations \<and> inv_package_id n \<notin> set package_ids) (db_invalidations db),
            db_messages := filter (\<lambda>m. msg_issue_id m \<notin> issues) (db_messages db),
            db_decisions := filter (\<lambda>d. dec_version_id d \<notin> versions) (db_decisions db),
            db_issues := filter (\<lambda>s. iss_id s \<notin> issues) (db_issues db),
            db_revisions := filter (\<lambda>r. rev_issue_id r \<notin> issues) (db_revisions db),
            db_annotations := filter (\<lambda>a. ann_issue_id a \<notin> issues) (db_annotations db),
            db_finalizations := filter (\<lambda>f. fin_id f \<notin> finalizations) (db_finalizations db),
            db_tasks := filter (\<lambda>t. mdt_id t \<notin> set (sc_derivative_task_ids scope)) (db_tasks db),
            db_versions := filter (\<lambda>v. ver_id v \<notin> versions) (db_versions db),
            db_qc_tasks := filter (\<lambda>t. qct_version_id t \<notin> versions) (db_qc_tasks db),
            db_qc_findings :=
              filter (\<lambda>f. qcf_version_id f \<notin> versions
                \<and> (case qcf_issue_id f of None \<Rightarrow> True | Some s \<Rightarrow> s \<notin> issues)) (db_qc_findings db),
            db_items := filter (\<lambda>i. itm_id i \<notin> set (sc_item_ids scope)) (db_items db),
            db_packages := filter (\<lambda>p. pkg_id p \<notin> set package_ids) (db_packages db),
            db_uploads := detach_deleted_files env file_ids (db_uploads db),
            db_files := filter (\<lambda>f. fil_id f \<notin> set file_ids) (db_files db),
            db_projects := (if delete_project then filter (\<lambda>p. prj_id p \<noteq> prj_id project) (db_projects db)
                            else db_projects db)\<rparr>)"

definition finish_database_deletion :: "env \<Rightarrow> deletion_intent \<Rightarrow> db \<Rightarrow> db" where
  "finish_database_deletion env intent db =
     (if count_rows (\<lambda>a. dla_deletion_intent_id a = dli_id intent) (db_artifacts db) = 0
      then db\<lparr>db_intents := row_put dli_id
                (intent\<lparr>dli_status := intent_complete, dli_completed_at := Some (env_now env), dli_updated_at := env_now env\<rparr>)
                (db_intents db)\<rparr>
      else db\<lparr>db_post_intents :=
                (if dli_id intent \<in> set (db_post_intents db) then db_post_intents db else db_post_intents db @ [dli_id intent])\<rparr>)"

section \<open>The commands\<close>

definition delete_project :: "env \<Rightarrow> string \<Rightarrow> string \<Rightarrow> bool \<Rightarrow> int option \<Rightarrow> db \<Rightarrow> exn + response \<times> db" where
  "delete_project env execution_identity project_ref_id confirmed expected_version db =
     ebind (guard (length execution_identity = 64) (ReviewError RESOURCE_STATE_CONFLICT)) (\<lambda>_.
     ebind (guard confirmed (ReviewError VALIDATION_ERROR)) (\<lambda>_.
     ebind (get_project db project_ref_id) (\<lambda>project.
     ebind (assert_project_active project) (\<lambda>_.
     ebind (expect_lock (prj_lock_version project) expected_version) (\<lambda>_.
     let items = order_by itm_id (filter (\<lambda>i. itm_project_ref_id i = prj_id project) (db_items db))
     in ebind (guard (\<not> list_ex (\<lambda>i. itm_workflow_status i = finalized \<or> itm_active_finalization_id i \<noteq> None) items)
                 (ReviewError RESOURCE_STATE_CONFLICT)) (\<lambda>_.
        let scope = scope_of db (prj_id project) (map itm_id items); packages = scope_packages db (prj_id project)
        in ebind (assert_no_active_finalization db scope) (\<lambda>_.
           ebind (assert_cleanup_not_leased env db scope packages) (\<lambda>_.
           ebind (acquire_scope_storage_mutation_locks db scope packages) (\<lambda>candidates.
           ebind (create_intent env execution_identity ''DeleteProject'' (prj_id project) None db) (\<lambda>(intent, db).
           ebind (capture_scope_files env intent scope candidates db) (\<lambda>(file_ids, db).
           ebind (capture_packages env intent packages db) (\<lambda>(package_ids, db).
           Inr (R_ProjectDeleted (prj_id project),
                finish_database_deletion env intent (delete_scope env project scope package_ids file_ids True db))))))))))))))"

definition delete_item_core ::
  "env \<Rightarrow> string \<Rightarrow> string \<Rightarrow> project \<Rightarrow> string \<Rightarrow> int option \<Rightarrow> db \<Rightarrow> exn + response \<times> db" where
  "delete_item_core env execution_identity command_type project review_item_id expected_version db =
     ebind (assert_project_active project) (\<lambda>_.
     ebind (get_item db (prj_id project) review_item_id) (\<lambda>item.
     ebind (expect_lock (itm_lock_version item) expected_version) (\<lambda>_.
     let scope = scope_of db (prj_id project) [itm_id item];
         finalizations = order_by fin_id (filter (\<lambda>f. fin_id f \<in> set (sc_finalization_ids scope)) (db_finalizations db))
     in ebind (assert_item_delete_eligible item (length (sc_version_ids scope)) (length (sc_issue_ids scope)) finalizations) (\<lambda>_.
        let packages = packages_for_finalizations db (prj_id project) (sc_finalization_ids scope)
        in ebind (assert_cleanup_not_leased env db scope packages) (\<lambda>_.
           let deletable_packages = filter (\<lambda>p. package_is_exclusive_to_finalizations p (sc_finalization_ids scope)) packages
           in ebind (acquire_scope_storage_mutation_locks db scope deletable_packages) (\<lambda>candidates.
              ebind (create_intent env execution_identity command_type (prj_id project) (Some (itm_id item)) db) (\<lambda>(intent, db).
              ebind (capture_scope_files env intent scope candidates db) (\<lambda>(file_ids, db).
              ebind (capture_packages env intent deletable_packages db) (\<lambda>(package_ids, db).
              ebind (reconcile_project_thumbnail_groups env (prj_id project) False None
                       (delete_scope env project scope package_ids file_ids False db)) (\<lambda>db.
              Inr (R_ItemDeleted (prj_id project) (itm_id item), finish_database_deletion env intent db)))))))))))"

definition delete_review_item ::
  "env \<Rightarrow> string \<Rightarrow> string \<Rightarrow> string \<Rightarrow> bool \<Rightarrow> int option \<Rightarrow> db \<Rightarrow> exn + response \<times> db" where
  "delete_review_item env execution_identity project_ref_id review_item_id confirmed expected_version db =
     ebind (guard (length execution_identity = 64) (ReviewError RESOURCE_STATE_CONFLICT)) (\<lambda>_.
     ebind (guard confirmed (ReviewError VALIDATION_ERROR)) (\<lambda>_.
     ebind (get_project db project_ref_id) (\<lambda>project.
     delete_item_core env execution_identity ''DeleteReviewItem'' project review_item_id expected_version db)))"

text \<open>The two \<open>except\<close> clauses of the batch loop.\<close>

definition batch_error_code :: "exn \<Rightarrow> error_code option" where
  "batch_error_code e =
     (case e of ReviewError code \<Rightarrow> Some code | IntegrityError \<Rightarrow> Some RESOURCE_STATE_CONFLICT | _ \<Rightarrow> None)"

text \<open>One round of the batch loop: a savepoint that is rolled back when the item is refused.\<close>

definition delete_batch_item ::
  "env \<Rightarrow> string \<Rightarrow> project \<Rightarrow> string \<Rightarrow> (string \<times> deletion_outcome) list \<times> db
   \<Rightarrow> exn + (string \<times> deletion_outcome) list \<times> db" where
  "delete_batch_item env execution_identity project review_item_id acc =
     (case acc of (results, db) \<Rightarrow>
        (case delete_item_core env execution_identity ''DeleteReviewItemsBatch'' project review_item_id None db of
           Inr result \<Rightarrow> Inr (results @ [(review_item_id, outcome_deleted)], snd result)
         | Inl e \<Rightarrow>
             (case batch_error_code e of
                Some code \<Rightarrow> Inr (results @ [(review_item_id, outcome_failed code)], db)
              | None \<Rightarrow> Inl e)))"

definition delete_review_items_batch ::
  "env \<Rightarrow> string \<Rightarrow> string \<Rightarrow> string list \<Rightarrow> bool \<Rightarrow> db \<Rightarrow> exn + response \<times> db" where
  "delete_review_items_batch env execution_identity project_ref_id review_item_ids confirmed db =
     ebind (guard (length execution_identity = 64) (ReviewError RESOURCE_STATE_CONFLICT)) (\<lambda>_.
     ebind (guard confirmed (ReviewError VALIDATION_ERROR)) (\<lambda>_.
     ebind (get_project db project_ref_id) (\<lambda>project.
     ebind (assert_project_active project) (\<lambda>_.
     ebind (acquire_scope_storage_mutation_locks db (scope_of db (prj_id project) review_item_ids)
              (scope_packages db (prj_id project))) (\<lambda>_.
     ebind (efold (delete_batch_item env execution_identity project) review_item_ids ([], db)) (\<lambda>(results, db).
     Inr (R_ItemsDeleted (prj_id project) results, db)))))))"

section \<open>What the steps leave alone\<close>

lemma set_by_item [simp]: "set (by_item f g rows) = set rows"
  by (simp add: by_item_def order_by_def)

lemma scope_sets:
  "set (sc_item_ids (scope_of db pid ks)) = set ks"
  "set (sc_version_ids (scope_of db pid ks))
     = ver_id ` {v \<in> set (db_versions db). ver_project_ref_id v = pid \<and> ver_review_item_id v \<in> set ks}"
  "set (sc_issue_ids (scope_of db pid ks))
     = iss_id ` {s \<in> set (db_issues db). iss_project_ref_id s = pid \<and> iss_review_item_id s \<in> set ks}"
  "set (sc_finalization_ids (scope_of db pid ks))
     = fin_id ` {f \<in> set (db_finalizations db). fin_project_ref_id f = pid \<and> fin_review_item_id f \<in> set ks}"
  "set (sc_derivative_task_ids (scope_of db pid ks))
     = mdt_id ` {t \<in> set (db_tasks db). mdt_project_ref_id t = pid \<and> mdt_review_item_id t \<in> set ks}"
  by (auto simp: scope_of_def)

lemma create_intent_frame:
  "create_intent env e ct pid iid db = Inr (intent, db') \<Longrightarrow> \<exists>rows. db' = db\<lparr>db_intents := rows\<rparr>"
  by (auto simp: create_intent_def Let_def)

lemma insert_artifact_frame: "insert_artifact a db = Inr db' \<Longrightarrow> db' = db\<lparr>db_artifacts := db_artifacts db @ [a]\<rparr>"
  by (auto simp: insert_artifact_def row_insert_Inr_iff)

text \<open>Capturing only appends artifacts.\<close>

definition appended :: "db \<Rightarrow> db \<Rightarrow> bool" where
  "appended db db' \<longleftrightarrow> (\<exists>new. db' = db\<lparr>db_artifacts := db_artifacts db @ new\<rparr>)"

lemma appended_refl: "appended db db"
  unfolding appended_def by (intro exI [of _ "[]"]) simp

lemma appended_trans: "appended a b \<Longrightarrow> appended b c \<Longrightarrow> appended a c"
proof -
  assume "appended a b" "appended b c"
  then obtain x y where "b = a\<lparr>db_artifacts := db_artifacts a @ x\<rparr>" "c = b\<lparr>db_artifacts := db_artifacts b @ y\<rparr>"
    unfolding appended_def by blast
  then show "appended a c" unfolding appended_def by (intro exI [of _ "x @ y"]) simp
qed

lemma appended_insert: "insert_artifact a db = Inr db' \<Longrightarrow> appended db db'"
  using insert_artifact_frame [of a db db'] unfolding appended_def by blast

lemma capture_file_appended: "capture_file_artifact env n f k db = Inr db' \<Longrightarrow> appended db db'"
  by (auto simp: capture_file_artifact_def Let_def appended_refl appended_insert split: if_splits pin.splits)

lemma capture_scope_file_appended: "capture_scope_file env n scope c a = Inr b \<Longrightarrow> appended (snd a) (snd b)"
  by (auto simp: capture_scope_file_def appended_refl capture_file_appended split: prod.splits if_splits option.splits)

lemma capture_package_appended: "capture_package env n p a = Inr b \<Longrightarrow> appended (snd a) (snd b)"
  by (auto simp: capture_package_def Let_def appended_refl appended_insert split: prod.splits if_splits option.splits pin.splits)

lemma capture_appended:
  "capture_scope_files env n scope cs db = Inr (ids, db') \<Longrightarrow> appended db db'"
  "capture_packages env n ps db = Inr (pids, db') \<Longrightarrow> appended db db'"
proof -
  let ?R = "\<lambda>(a :: string list \<times> db) b. appended (snd a) (snd b)"
  show "capture_scope_files env n scope cs db = Inr (ids, db') \<Longrightarrow> appended db db'"
    unfolding capture_scope_files_def
    using efold_relation [of "capture_scope_file env n scope" cs "([], db)" "(ids, db')" ?R]
      appended_refl appended_trans capture_scope_file_appended by auto
  show "capture_packages env n ps db = Inr (pids, db') \<Longrightarrow> appended db db'"
    unfolding capture_packages_def
    using efold_relation [of "capture_package env n" ps "([], db)" "(pids, db')" ?R]
      appended_refl appended_trans capture_package_appended by auto
qed

text \<open>The tables a deletion reads and removes from are the ones it started with.\<close>

lemma captured_frame:
  assumes "create_intent env e ct pid iid db = Inr (n, db1)" and "capture_scope_files env n scope cs db1 = Inr (fs, db2)"
    and "capture_packages env n ps db2 = Inr (ks, db3)"
  shows "\<exists>rows arts. db3 = db\<lparr>db_intents := rows, db_artifacts := arts\<rparr>"
proof -
  obtain rows where "db1 = db\<lparr>db_intents := rows\<rparr>" using create_intent_frame [OF assms(1)] by blast
  moreover have "appended db1 db3" using capture_appended(1) [OF assms(2)] capture_appended(2) [OF assms(3)] appended_trans by blast
  ultimately show ?thesis unfolding appended_def by auto
qed

section \<open>A deletion is a workflow step\<close>

text \<open>Under the invariant the rows in scope are exactly the rows of the items in scope.\<close>

lemma scope_exact:
  assumes "review_ok (core_of db)" and "\<forall>i \<in> set (db_items db). itm_id i \<in> set ks \<longrightarrow> itm_project_ref_id i = pid"
  shows "v \<in> set (db_versions db) \<Longrightarrow> ver_id v \<in> set (sc_version_ids (scope_of db pid ks)) \<longleftrightarrow> ver_review_item_id v \<in> set ks"
    and "s \<in> set (db_issues db) \<Longrightarrow> iss_id s \<in> set (sc_issue_ids (scope_of db pid ks)) \<longleftrightarrow> iss_review_item_id s \<in> set ks"
    and "f \<in> set (db_finalizations db) \<Longrightarrow> fin_id f \<in> set (sc_finalization_ids (scope_of db pid ks)) \<longleftrightarrow> fin_review_item_id f \<in> set ks"
proof -
  have keys: "distinct (map ver_id (db_versions db))" "distinct (map iss_id (db_issues db))" "distinct (map fin_id (db_finalizations db))"
    using assms(1) by (simp_all add: review_ok_def keys_ok_def comp_def)
  have own: "ownership_ok (core_of db)" using assms(1) by (simp add: review_ok_def)
  have pid: "p = pid" if "owned (db_items db) k p" "k \<in> set ks" for k p
    using that assms(2) unfolding owned_def by blast
  show "ver_id v \<in> set (sc_version_ids (scope_of db pid ks)) \<longleftrightarrow> ver_review_item_id v \<in> set ks" if v: "v \<in> set (db_versions db)"
  proof -
    have "owned (db_items db) (ver_review_item_id v) (ver_project_ref_id v)" using own v by (simp add: ownership_ok_def)
    then show ?thesis using pid v key_inj [OF keys(1) v] unfolding scope_sets by (auto simp: image_iff)
  qed
  show "iss_id s \<in> set (sc_issue_ids (scope_of db pid ks)) \<longleftrightarrow> iss_review_item_id s \<in> set ks" if v: "s \<in> set (db_issues db)"
  proof -
    have "owned (db_items db) (iss_review_item_id s) (iss_project_ref_id s)" using own v by (simp add: ownership_ok_def)
    then show ?thesis using pid v key_inj [OF keys(2) v] unfolding scope_sets by (auto simp: image_iff)
  qed
  show "fin_id f \<in> set (sc_finalization_ids (scope_of db pid ks)) \<longleftrightarrow> fin_review_item_id f \<in> set ks" if v: "f \<in> set (db_finalizations db)"
  proof -
    have "owned (db_items db) (fin_review_item_id f) (fin_project_ref_id f)" using own v by (simp add: ownership_ok_def)
    then show ?thesis using pid v key_inj [OF keys(3) v] unfolding scope_sets by (auto simp: image_iff)
  qed
qed

lemma delete_scope_sound:
  assumes "\<forall>i \<in> set (db_items db). itm_id i \<in> set ks \<longrightarrow> itm_project_ref_id i = pid"
  shows "sound_step db (delete_scope env p (scope_of db pid ks) pks fs dp (db\<lparr>db_intents := rows, db_artifacts := arts\<rparr>))"
    (is "sound_step db ?db'")
proof (rule sound_if_ok)
  assume "store_ok db"
  then have ok: "review_ok (core_of db)" and ord: "outbox_ordered db" by (simp_all add: store_ok_def)
  note exact = scope_exact [OF ok assms]
  have "filter (\<lambda>v. ver_id v \<notin> set (sc_version_ids (scope_of db pid ks))) (db_versions db)
      = filter (\<lambda>v. ver_review_item_id v \<notin> set ks) (db_versions db)" using exact(1) by (intro filter_cong) auto
  moreover have "filter (\<lambda>s. iss_id s \<notin> set (sc_issue_ids (scope_of db pid ks))) (db_issues db)
      = filter (\<lambda>s. iss_review_item_id s \<notin> set ks) (db_issues db)" using exact(2) by (intro filter_cong) auto
  moreover have "filter (\<lambda>f. fin_id f \<notin> set (sc_finalization_ids (scope_of db pid ks))) (db_finalizations db)
      = filter (\<lambda>f. fin_review_item_id f \<notin> set ks) (db_finalizations db)" using exact(3) by (intro filter_cong) auto
  ultimately have "core_of ?db' = (core_of db)
      \<lparr>co_items := filter (\<lambda>i. itm_id i \<notin> set ks) (co_items (core_of db)),
       co_versions := filter (\<lambda>v. ver_review_item_id v \<notin> set ks) (co_versions (core_of db)),
       co_finalizations := filter (\<lambda>f. fin_review_item_id f \<notin> set ks) (co_finalizations (core_of db)),
       co_issues := filter (\<lambda>s. iss_review_item_id s \<notin> set ks) (co_issues (core_of db))\<rparr>"
    by (simp add: core_of_def delete_scope_def Let_def scope_sets(1) filter_map comp_def)
  then have "review_step (core_of db) (core_of ?db')" by (simp only: items_deleted)
  moreover have "outbox_ordered ?db'"
    using ord by (simp add: outbox_ordered_def delete_scope_def Let_def sorted_wrt_map sorted_wrt_filter)
  ultimately show "sound_step db ?db'" by (simp add: sound_step_def r_into_rtranclp)
qed

lemma finish_database_deletion_sound: "sound_step db (finish_database_deletion env n db)"
  by (rule sound_frame) (auto simp: finish_database_deletion_def core_of_def)

text \<open>The shape of a successful deletion.\<close>

lemma delete_project_Inr:
  assumes "delete_project env e pid cf ev db = Inr (r, db')"
  obtains p ks n db1 fs db2 ps rows arts where "get_project db pid = Inr p" and "cf"
    and "assert_project_active p = Inr ()" and "expect_lock (prj_lock_version p) ev = Inr ()"
    and "set ks = itm_id ` {i \<in> set (db_items db). itm_project_ref_id i = prj_id p}"
    and "\<forall>i \<in> set (db_items db). itm_project_ref_id i = prj_id p \<longrightarrow>
         itm_workflow_status i \<noteq> finalized \<and> itm_active_finalization_id i = None"
    and "assert_no_active_finalization db (scope_of db (prj_id p) ks) = Inr ()"
    and "assert_cleanup_not_leased env db (scope_of db (prj_id p) ks) (scope_packages db (prj_id p)) = Inr ()"
    and "create_intent env e ''DeleteProject'' (prj_id p) None db = Inr (n, db1)"
    and "capture_scope_files env n (scope_of db (prj_id p) ks) (scope_file_candidates db (scope_of db (prj_id p) ks)) db1 = Inr (fs, db2)"
    and "capture_packages env n (scope_packages db (prj_id p)) db2 = Inr (ps, db\<lparr>db_intents := rows, db_artifacts := arts\<rparr>)"
    and "db' = finish_database_deletion env n
         (delete_scope env p (scope_of db (prj_id p) ks) ps fs True (db\<lparr>db_intents := rows, db_artifacts := arts\<rparr>))"
    and "r = R_ProjectDeleted (prj_id p)"
proof -
  from assms obtain p :: project where p: "get_project db pid = Inr p" by (auto simp: delete_project_def)
  define items where "items = order_by itm_id (filter (\<lambda>i. itm_project_ref_id i = prj_id p) (db_items db))"
  define ks where "ks = map itm_id items"
  from assms p obtain n db1 fs db2 ps db3 where
    g: "cf" "assert_project_active p = Inr ()" "expect_lock (prj_lock_version p) ev = Inr ()"
       "\<not> list_ex (\<lambda>i. itm_workflow_status i = finalized \<or> itm_active_finalization_id i \<noteq> None) items"
       "assert_no_active_finalization db (scope_of db (prj_id p) ks) = Inr ()"
       "assert_cleanup_not_leased env db (scope_of db (prj_id p) ks) (scope_packages db (prj_id p)) = Inr ()"
    and c: "create_intent env e ''DeleteProject'' (prj_id p) None db = Inr (n, db1)"
       "capture_scope_files env n (scope_of db (prj_id p) ks) (scope_file_candidates db (scope_of db (prj_id p) ks)) db1 = Inr (fs, db2)"
       "capture_packages env n (scope_packages db (prj_id p)) db2 = Inr (ps, db3)"
    and db': "db' = finish_database_deletion env n (delete_scope env p (scope_of db (prj_id p) ks) ps fs True db3)" "r = R_ProjectDeleted (prj_id p)"
    unfolding delete_project_def Let_def items_def [symmetric] ks_def [symmetric]
    by (auto simp: acquire_scope_storage_mutation_locks_def Let_def items_def [symmetric] ks_def [symmetric] split: prod.splits)
  obtain rows arts where db3: "db3 = db\<lparr>db_intents := rows, db_artifacts := arts\<rparr>" using captured_frame [OF c] by blast
  have items: "set items = {i \<in> set (db_items db). itm_project_ref_id i = prj_id p}" by (auto simp: items_def order_by_def)
  show thesis
  proof (rule that [OF p g(1-3) _ _ g(5,6) c(1,2)])
    show "set ks = itm_id ` {i \<in> set (db_items db). itm_project_ref_id i = prj_id p}" using items by (simp add: ks_def)
    show "\<forall>i \<in> set (db_items db). itm_project_ref_id i = prj_id p \<longrightarrow>
         itm_workflow_status i \<noteq> finalized \<and> itm_active_finalization_id i = None"
      using g(4) items by (auto simp: list_ex_iff)
  qed (use c(3) db' db3 in simp_all)
qed

lemma delete_item_core_Inr:
  assumes "delete_item_core env e ct p iid ev db = Inr (r, db')"
  obtains i n db1 fs db2 pkgs ps rows arts db4 where "get_item db (prj_id p) iid = Inr i"
    and "assert_project_active p = Inr ()" and "expect_lock (itm_lock_version i) ev = Inr ()"
    and "assert_item_delete_eligible i (length (sc_version_ids (scope_of db (prj_id p) [itm_id i])))
           (length (sc_issue_ids (scope_of db (prj_id p) [itm_id i])))
           (order_by fin_id (filter (\<lambda>f. fin_id f \<in> set (sc_finalization_ids (scope_of db (prj_id p) [itm_id i]))) (db_finalizations db))) = Inr ()"
    and "assert_cleanup_not_leased env db (scope_of db (prj_id p) [itm_id i])
           (packages_for_finalizations db (prj_id p) (sc_finalization_ids (scope_of db (prj_id p) [itm_id i]))) = Inr ()"
    and "create_intent env e ct (prj_id p) (Some (itm_id i)) db = Inr (n, db1)"
    and "capture_scope_files env n (scope_of db (prj_id p) [itm_id i]) (scope_file_candidates db (scope_of db (prj_id p) [itm_id i])) db1 = Inr (fs, db2)"
    and "capture_packages env n pkgs db2 = Inr (ps, db\<lparr>db_intents := rows, db_artifacts := arts\<rparr>)"
    and "reconcile_project_thumbnail_groups env (prj_id p) False None
         (delete_scope env p (scope_of db (prj_id p) [itm_id i]) ps fs False (db\<lparr>db_intents := rows, db_artifacts := arts\<rparr>)) = Inr db4"
    and "db' = finish_database_deletion env n db4" and "r = R_ItemDeleted (prj_id p) (itm_id i)"
proof -
  from assms obtain i :: review_item where i: "get_item db (prj_id p) iid = Inr i" by (auto simp: delete_item_core_def)
  define scope where "scope = scope_of db (prj_id p) [itm_id i]"
  define pkgs where "pkgs = filter (\<lambda>q. package_is_exclusive_to_finalizations q (sc_finalization_ids scope))
      (packages_for_finalizations db (prj_id p) (sc_finalization_ids scope))"
  from assms i obtain n db1 fs db2 ps db3 db4 where
    g: "assert_project_active p = Inr ()" "expect_lock (itm_lock_version i) ev = Inr ()"
       "assert_item_delete_eligible i (length (sc_version_ids scope)) (length (sc_issue_ids scope))
           (order_by fin_id (filter (\<lambda>f. fin_id f \<in> set (sc_finalization_ids scope)) (db_finalizations db))) = Inr ()"
       "assert_cleanup_not_leased env db scope (packages_for_finalizations db (prj_id p) (sc_finalization_ids scope)) = Inr ()"
    and c: "create_intent env e ct (prj_id p) (Some (itm_id i)) db = Inr (n, db1)"
       "capture_scope_files env n scope (scope_file_candidates db scope) db1 = Inr (fs, db2)"
       "capture_packages env n pkgs db2 = Inr (ps, db3)"
    and rc: "reconcile_project_thumbnail_groups env (prj_id p) False None (delete_scope env p scope ps fs False db3) = Inr db4"
    and db': "db' = finish_database_deletion env n db4" "r = R_ItemDeleted (prj_id p) (itm_id i)"
    by (auto simp: delete_item_core_def acquire_scope_storage_mutation_locks_def Let_def scope_def [symmetric] pkgs_def [symmetric]
        split: prod.splits)
  obtain rows arts where db3: "db3 = db\<lparr>db_intents := rows, db_artifacts := arts\<rparr>" using captured_frame [OF c] by blast
  show thesis
    by (rule that [OF i g(1,2) _ _ c(1) _ _ _ db']) (use g c rc db3 in \<open>simp_all add: scope_def\<close>)
qed

lemma delete_project_sound:
  assumes "delete_project env e pid cf ev db = Inr (r, db')"
  shows "sound_step db db'"
  using assms
proof (rule delete_project_Inr)
  fix p :: project and ks n db1 fs db2 ps rows arts
  assume ks: "set ks = itm_id ` {i \<in> set (db_items db). itm_project_ref_id i = prj_id p}"
    and db': "db' = finish_database_deletion env n
         (delete_scope env p (scope_of db (prj_id p) ks) ps fs True (db\<lparr>db_intents := rows, db_artifacts := arts\<rparr>))"
  show "sound_step db db'"
  proof (rule sound_if_ok)
    assume "store_ok db"
    then have "distinct (map itm_id (db_items db))" by (simp add: store_ok_def review_ok_def keys_ok_def)
    then have "\<forall>i \<in> set (db_items db). itm_id i \<in> set ks \<longrightarrow> itm_project_ref_id i = prj_id p"
      using ks by (auto dest: key_inj)
    then show "sound_step db db'"
      unfolding db' using delete_scope_sound finish_database_deletion_sound sound_trans by blast
  qed
qed

lemma delete_item_core_sound:
  assumes "delete_item_core env e ct p iid ev db = Inr (r, db')"
  shows "sound_step db db'"
  using assms
proof (rule delete_item_core_Inr)
  fix i n db1 fs db2 pkgs ps rows arts db4
  assume i: "get_item db (prj_id p) iid = Inr i"
    and rc: "reconcile_project_thumbnail_groups env (prj_id p) False None
         (delete_scope env p (scope_of db (prj_id p) [itm_id i]) ps fs False (db\<lparr>db_intents := rows, db_artifacts := arts\<rparr>)) = Inr db4"
    and db': "db' = finish_database_deletion env n db4"
  show "sound_step db db'"
  proof (rule sound_if_ok)
    assume "store_ok db"
    then have "distinct (map itm_id (db_items db))" by (simp add: store_ok_def review_ok_def keys_ok_def)
    then have "\<forall>j \<in> set (db_items db). itm_id j \<in> set [itm_id i] \<longrightarrow> itm_project_ref_id j = prj_id p"
      using get_item_InrD [OF i] by (auto dest: key_inj)
    from delete_scope_sound [OF this] reconcile_sound [OF rc] have "sound_step db db4" by (rule sound_trans)
    then show "sound_step db db'"
      unfolding db' by (rule sound_trans) (rule finish_database_deletion_sound)
  qed
qed

lemma delete_review_item_sound: "delete_review_item env e pid iid cf ev db = Inr (r, db') \<Longrightarrow> sound_step db db'"
  by (auto simp: delete_review_item_def dest!: delete_item_core_sound)

lemma delete_batch_item_sound: "delete_batch_item env e p k a = Inr b \<Longrightarrow> sound_step (snd a) (snd b)"
  by (cases a) (auto simp: delete_batch_item_def split: sum.splits option.splits dest: delete_item_core_sound)

lemma delete_review_items_batch_sound:
  assumes "delete_review_items_batch env e pid ks cf db = Inr (r, db')"
  shows "sound_step db db'"
proof -
  from assms obtain p results where f: "efold (delete_batch_item env e p) ks ([], db) = Inr (results, db')"
    by (auto simp: delete_review_items_batch_def)
  have "sound_step (snd ([] :: (string \<times> deletion_outcome) list, db)) (snd (results, db'))"
    by (rule efold_relation [OF f]) (use sound_trans delete_batch_item_sound in blast)+
  then show ?thesis by simp
qed

end
