(* ===== verification/Deletion_Safety.thy ===== *)
theory Deletion_Safety
  imports Deletion Samples
begin

text \<open>
  What a durable deletion promises: the rows of the project or item are gone and nothing else, no
  file that is still referenced is removed, every stored file that is removed has a durable
  artifact with the identity it must still have, and a batch decides every item on its own.
\<close>

section \<open>References to stored files\<close>

definition version_refs :: "review_version \<Rightarrow> string set" where
  "version_refs v = {f. ver_original_file_id v = f \<or> ver_playback_asset_id v = Some f \<or> ver_thumbnail_asset_id v = Some f}"

definition task_refs :: "derivative_task \<Rightarrow> string set" where
  "task_refs t = {f. mdt_output_file_id t = Some f \<or> f \<in> set (thumbnail_variant_file_ids (mdt_result_details t))}"

definition file_refs :: "db \<Rightarrow> string set" where
  "file_refs db = (\<Union>v\<in>set (db_versions db). version_refs v) \<union> fin_original_file_id ` set (db_finalizations db)
     \<union> (\<Union>t\<in>set (db_tasks db). task_refs t)"

definition detail_refs :: "thumb_details \<Rightarrow> string set" where
  "detail_refs d = {f. td_variant_0 d = Some f \<or> td_variant_3000 d = Some f}"

lemma detail_refs_desired [simp]: "detail_refs (d\<lparr>td_desired_frame_ms := n\<rparr>) = detail_refs d"
  by (simp add: detail_refs_def)

lemma details_json_refs: "set (thumbnail_variant_file_ids (Some (details_json d))) \<subseteq> detail_refs d"
proof -
  have "jget (details_json d) ''variants'' = Some (JObj (opt_field ''0'' (td_variant_0 d) @ opt_field ''3000'' (td_variant_3000 d)))"
    by (simp add: details_json_def jget_def opt_field_def map_add_def split: option.split)
  then show ?thesis
    by (auto simp: thumbnail_variant_file_ids_def List.map_filter_def nonempty_str_def opt_field_def detail_refs_def
        split: option.splits if_splits)
qed

lemma normalize_refs:
  assumes "normalize_thumbnail_result_details (mdt_result_details t) out = Inr d"
  shows "detail_refs d \<subseteq> set (thumbnail_variant_file_ids (mdt_result_details t)) \<union> {f. out = Some f}"
proof -
  let ?v = "\<lambda>k. case (case mdt_result_details t of None \<Rightarrow> None | Some j \<Rightarrow> jget j ''variants'') of
      Some (JObj kvs) \<Rightarrow> nonempty_str (map_of kvs k) | _ \<Rightarrow> None"
  have "td_variant_3000 d = ?v ''3000''" and "td_variant_0 d = ?v ''0'' \<or> td_variant_0 d = out \<or> td_variant_0 d = None"
    using assms by (auto simp: normalize_thumbnail_result_details_def Let_def split: option.splits if_splits)
  moreover have "f \<in> set (thumbnail_variant_file_ids (mdt_result_details t))" if "?v k = Some f" "k \<in> {''0'', ''3000''}" for k f
    using that by (auto simp: thumbnail_variant_file_ids_def List.map_filter_def split: option.splits json.splits)
  ultimately show ?thesis by (auto simp: detail_refs_def)
qed

lemma normalize_rows_refs:
  "normalize_rows rows = Inr out \<Longrightarrow> (v, t, d) \<in> set out \<Longrightarrow> detail_refs d \<subseteq> task_refs t"
proof (induction rows arbitrary: out rule: normalize_rows.induct)
  case (2 v' t' rows)
  from "2.prems"(1) obtain d' rest where
    d: "normalize_thumbnail_result_details (mdt_result_details t')
          (if mdt_output_file_id t' \<noteq> None \<and> mdt_output_file_id t' \<noteq> Some '''' \<and> mdt_output_file_id t' = ver_thumbnail_asset_id v'
           then mdt_output_file_id t' else None) = Inr d'"
    and r: "normalize_rows rows = Inr rest" "out = (v', t', d') # rest" by auto
  have "detail_refs d' \<subseteq> task_refs t'"
    using normalize_refs [OF d] unfolding task_refs_def by (auto split: if_splits)
  then show ?case using "2.IH" [OF r(1)] r(2) "2.prems"(2) by auto
qed simp

lemma thumbnail_rows_task: "(v, t) \<in> set (thumbnail_rows db pid) \<Longrightarrow> t \<in> set (db_tasks db)"
  by (auto simp: thumbnail_rows_def)

text \<open>Updating the task and the pointer of a row brings no new file into use.\<close>

lemma put_refs:
  assumes "file_refs db \<subseteq> R"
  shows "task_refs t \<subseteq> R \<Longrightarrow> file_refs (put_task t db) \<subseteq> R"
    and "version_refs v \<subseteq> R \<Longrightarrow> file_refs (put_version v db) \<subseteq> R"
  using assms by (auto simp: file_refs_def put_task_def put_version_def dest!: in_set_row_putD)

lemma reconcile_tasks_refs:
  "task_refs (reconcile_unsigned now disc d t) \<subseteq> task_refs t \<union> detail_refs d"
  "reconcile_signed now desired d v t = (t', pt) \<Longrightarrow> task_refs t' \<subseteq> task_refs t \<union> detail_refs d \<and> set_option pt \<subseteq> detail_refs d"
proof -
  show "task_refs (reconcile_unsigned now disc d t) \<subseteq> task_refs t \<union> detail_refs d"
    using details_json_refs [of d] details_json_refs [of "d\<lparr>td_desired_frame_ms := THUMBNAIL_FRAME_ZERO_MS\<rparr>"]
    by (auto simp: reconcile_unsigned_def requeue_task_def task_refs_def Let_def)
  assume "reconcile_signed now desired d v t = (t', pt)"
  then show "task_refs t' \<subseteq> task_refs t \<union> detail_refs d \<and> set_option pt \<subseteq> detail_refs d"
    using details_json_refs [of "d\<lparr>td_desired_frame_ms := desired\<rparr>"]
    by (auto simp: reconcile_signed_def requeue_task_def task_refs_def detail_refs_def Let_def split: option.splits if_splits)
qed

lemma reconcile_row_refs:
  assumes "reconcile_row now disc des (v, t, d) db = Inr db'" and "file_refs db \<subseteq> R"
    and "version_refs v \<subseteq> R" and "task_refs t \<subseteq> R" and "detail_refs d \<subseteq> R"
  shows "file_refs db' \<subseteq> R \<and> db' = db\<lparr>db_versions := db_versions db', db_tasks := db_tasks db'\<rparr>"
proof -
  obtain t' pt where t': "task_refs t' \<subseteq> task_refs t \<union> detail_refs d" "set_option pt \<subseteq> detail_refs d"
    and db': "db' = (case pt of None \<Rightarrow> put_task t' db | Some f \<Rightarrow> put_version (v\<lparr>ver_thumbnail_asset_id := Some f\<rparr>) (put_task t' db))"
  proof (cases "td_frame_signature d")
    case None
    then show thesis using that [of "reconcile_unsigned now disc d t" None] reconcile_tasks_refs(1) assms(1)
      by (auto simp: reconcile_row_def)
  next
    case (Some sig)
    then obtain desired where "map_of des (mdt_id t) = Some desired" using assms(1) by (auto simp: reconcile_row_def)
    moreover obtain t' pt where "reconcile_signed now desired d v t = (t', pt)" by fastforce
    ultimately show thesis using that [of t' pt] reconcile_tasks_refs(2) assms(1) Some
      by (auto simp: reconcile_row_def Let_def)
  qed
  have "file_refs (put_task t' db) \<subseteq> R" using put_refs(1) [OF assms(2)] t'(1) assms(4,5) by blast
  moreover have "version_refs (v\<lparr>ver_thumbnail_asset_id := Some f\<rparr>) \<subseteq> R" if "pt = Some f" for f
    using assms(3,5) t'(2) that by (auto simp: version_refs_def)
  ultimately have "file_refs db' \<subseteq> R" unfolding db' using put_refs(2) by (cases pt) auto
  moreover have "db' = db\<lparr>db_versions := db_versions db', db_tasks := db_tasks db'\<rparr>"
    unfolding db' by (cases pt) (simp_all add: put_task_def put_version_def)
  ultimately show ?thesis by blast
qed

lemma reconcile_refs:
  assumes "reconcile_project_thumbnail_groups env pid disc ch db = Inr db'"
  shows "file_refs db' \<subseteq> file_refs db \<and> db' = db\<lparr>db_versions := db_versions db', db_tasks := db_tasks db'\<rparr>"
proof -
  obtain rows des where rows: "normalize_rows (thumbnail_rows db pid) = Inr rows"
    and f: "efold (reconcile_row (env_now env) disc des) rows db = Inr db'"
    using assms by (auto simp: reconcile_project_thumbnail_groups_def Let_def)
  let ?I = "\<lambda>s. file_refs s \<subseteq> file_refs db \<and> s = db\<lparr>db_versions := db_versions s, db_tasks := db_tasks s\<rparr>"
  show ?thesis
  proof (rule efold_invariant [OF f, of ?I])
    show "?I db" by simp
  next
    fix x s s' assume x: "x \<in> set rows" and s: "?I s" and s': "reconcile_row (env_now env) disc des x s = Inr s'"
    obtain v t d where xe: "x = (v, t, d)" by (cases x) auto
    note mem = normalize_rows_mem [OF rows x [unfolded xe]]
    have "version_refs v \<subseteq> file_refs db" and t: "task_refs t \<subseteq> file_refs db"
      using thumbnail_rows_mem [OF mem] thumbnail_rows_task [OF mem] unfolding file_refs_def by auto
    moreover from t normalize_rows_refs [OF rows x [unfolded xe]] have "detail_refs d \<subseteq> file_refs db" by blast
    ultimately have "file_refs s' \<subseteq> file_refs db" and e: "s' = s\<lparr>db_versions := db_versions s', db_tasks := db_tasks s'\<rparr>"
      using reconcile_row_refs [OF s' [unfolded xe]] s t by blast+
    moreover have "s' = db\<lparr>db_versions := db_versions s', db_tasks := db_tasks s'\<rparr>"
    proof -
      from s have "s = db\<lparr>db_versions := db_versions s, db_tasks := db_tasks s\<rparr>" by simp
      then obtain vs ts where "s = db\<lparr>db_versions := vs, db_tasks := ts\<rparr>" by blast
      then show ?thesis by (subst e) simp
    qed
    ultimately show "?I s'" by simp
  qed
qed

section \<open>What is captured\<close>

lemma appended_sel:
  assumes "appended db db'"
  shows "db_versions db' = db_versions db" "db_finalizations db' = db_finalizations db" "db_tasks db' = db_tasks db"
    "db_files db' = db_files db" "db_intents db' = db_intents db" "set (db_artifacts db) \<subseteq> set (db_artifacts db')"
  using assms by (auto simp: appended_def)

lemma capture_packages_ids:
  assumes "capture_packages env n ps db = Inr (ks, db')"
  shows "ks = map pkg_id ps"
proof -
  have step: "capture_package env n p (acc, d) = Inr b \<Longrightarrow> \<exists>d'. b = (acc @ [pkg_id p], d')" for p acc d b
    by (auto simp: capture_package_def Let_def split: if_splits option.splits pin.splits)
  have "efold (capture_package env n) ps (acc, db) = Inr (ks, db') \<Longrightarrow> ks = acc @ map pkg_id ps" for acc db
  proof (induction ps arbitrary: acc db)
    case (Cons p ps)
    then show ?case using step by fastforce
  qed simp
  from this [of "[]" db] show ?thesis using assms by (simp add: capture_packages_def)
qed

text \<open>The stored file of a row is gone already, or an artifact of the intent holds its identity.\<close>

definition accounted :: "env \<Rightarrow> string \<Rightarrow> db \<Rightarrow> file_object \<Rightarrow> bool" where
  "accounted env intent_id db f \<longleftrightarrow>
     (\<exists>path. contained_path (fil_storage_path f) (cfg_storage_root (env_settings env)) = Inr path
        \<and> (case env_pin_storage env path of
             Pin_Missing \<Rightarrow> True
           | Pin_File i \<Rightarrow> (\<exists>a \<in> set (db_artifacts db).
               dla_deletion_intent_id a = intent_id \<and> dla_relative_logical_target a = ''files/'' @ fil_id f
               \<and> dla_expected_device a = fid_device i \<and> dla_expected_inode a = fid_inode i
               \<and> dla_expected_size a = fid_size i \<and> dla_expected_sha256 a = sha256 (fil_media f)
               \<and> dla_status a = artifact_pending)
           | _ \<Rightarrow> False))"

lemma accounted_mono: "accounted env k db f \<Longrightarrow> set (db_artifacts db) \<subseteq> set (db_artifacts db') \<Longrightarrow> accounted env k db' f"
  unfolding accounted_def by (fastforce split: pin.splits)

lemma capture_file_accounted: "capture_file_artifact env n f kind db = Inr db' \<Longrightarrow> accounted env (dli_id n) db' f"
  by (auto simp: capture_file_artifact_def accounted_def artifact_row_def Let_def
      split: if_splits pin.splits dest!: insert_artifact_frame)

lemma capture_scope_file_cases:
  assumes "capture_scope_file env n scope (f, kind) (ids, db) = Inr b"
  shows "b = (ids, db) \<or> (\<exists>row db'. b = (ids @ [f], db') \<and> \<not> file_has_reference_outside_scope db f scope
    \<and> get_file db f = Some row \<and> accounted env (dli_id n) db' row \<and> appended db db')"
  using assms capture_file_accounted capture_file_appended
  by (fastforce simp: capture_scope_file_def split: if_splits option.splits)

lemma reference_appended:
  "appended db db' \<Longrightarrow> file_has_reference_outside_scope db' f scope = file_has_reference_outside_scope db f scope"
  by (simp add: file_has_reference_outside_scope_def appended_sel)

lemma capture_scope_files_safe:
  assumes "capture_scope_files env n scope cands db = Inr (ids, db')"
  shows "\<forall>f \<in> set ids. \<not> file_has_reference_outside_scope db f scope
    \<and> (\<exists>row. get_file db f = Some row \<and> accounted env (dli_id n) db' row)"
proof -
  let ?I = "\<lambda>(ids, s). appended db s \<and> (\<forall>f \<in> set ids. \<not> file_has_reference_outside_scope db f scope
    \<and> (\<exists>row. get_file db f = Some row \<and> accounted env (dli_id n) s row))"
  have "?I (ids, db')"
  proof (rule efold_invariant [of "capture_scope_file env n scope" cands "([], db)" "(ids, db')" ?I])
    fix x s s' assume "?I s" and st: "capture_scope_file env n scope x s = Inr s'"
    obtain f kind where x: "x = (f, kind)" by fastforce
    obtain ks d where s: "s = (ks, d)" by fastforce
    from \<open>?I s\<close> s have i: "?I (ks, d)" by simp
    from capture_scope_file_cases [OF st [unfolded x s]] show "?I s'"
    proof (elim disjE exE conjE)
      assume "s' = (ks, d)" then show ?thesis using i by simp
    next
      fix row d' assume *: "s' = (ks @ [f], d')" "\<not> file_has_reference_outside_scope d f scope"
        "get_file d f = Some row" "accounted env (dli_id n) d' row" "appended d d'"
      have a: "appended db d" using i by simp
      have "\<not> file_has_reference_outside_scope db f scope" using *(2) reference_appended [OF a] by simp
      moreover have "get_file db f = Some row" using *(3) appended_sel(4) [OF a] by (simp add: get_file_def)
      moreover have "appended db d'" using a *(5) by (rule appended_trans)
      moreover have "accounted env (dli_id n) d' r" if "accounted env (dli_id n) d r" for r
        using that appended_sel(6) [OF *(5)] by (rule accounted_mono)
      ultimately show ?thesis using i *(1,4) by auto
    qed
  qed (use assms in \<open>simp_all add: capture_scope_files_def appended_refl\<close>)
  then show ?thesis by simp
qed

text \<open>The concrete deletions run with a digest of the right width, and with a file that two projects share.\<close>

definition ex_del_env :: env where
  "ex_del_env = ex_env\<lparr>env_sha256_hex := (\<lambda>s. take 64 (s @ replicate 64 (CHR ''0'')))\<rparr>"

definition ex_execution :: string where
  "ex_execution = replicate 64 (CHR ''e'')"

definition ex_shared_db :: db where
  "ex_shared_db = ex_ready_db\<lparr>db_versions :=
     [ex_ready_version, ex_ready_version\<lparr>ver_id := ''v2'', ver_project_ref_id := ''p2'', ver_review_item_id := ''i2''\<rparr>]\<rparr>"

section \<open>Files\<close>

lemma outside_scope_refs:
  assumes "f \<in> file_refs (delete_scope env p scope ps fs dp db)"
  shows "file_has_reference_outside_scope db f scope"
  using assms by (auto simp: file_refs_def delete_scope_def Let_def file_has_reference_outside_scope_def list_ex_iff
      version_refs_def task_refs_def)

lemma captured_intent:
  assumes "create_intent env e ct pid iid db = Inr (n, db1)" and "capture_scope_files env n scope cs db1 = Inr (fs, db2)"
    and "capture_packages env n pkgs db2 = Inr (ps, db3)"
  shows "n \<in> set (db_intents db3)" "db_files db3 = db_files db" "file_refs (delete_scope env p scope ps fs dp db3) \<inter> set fs = {}"
    "\<forall>f \<in> set fs. \<exists>row. get_file db f = Some row \<and> accounted env (dli_id n) db3 row"
proof -
  note a = capture_appended(1) [OF assms(2)] and b = capture_appended(2) [OF assms(3)]
  have ab: "appended db1 db3" using a b by (rule appended_trans)
  obtain rows where r: "db1 = db\<lparr>db_intents := rows\<rparr>" using create_intent_frame [OF assms(1)] by blast
  have "n \<in> set (db_intents db1)" using assms(1) by (auto simp: create_intent_def Let_def row_insert_Inr_iff)
  then show "n \<in> set (db_intents db3)" using appended_sel(5) [OF ab] by simp
  show "db_files db3 = db_files db" using appended_sel(4) [OF ab] r by simp
  note safe = capture_scope_files_safe [OF assms(2)]
  show "file_refs (delete_scope env p scope ps fs dp db3) \<inter> set fs = {}"
    using safe outside_scope_refs reference_appended [OF ab] by fastforce
  show "\<forall>f \<in> set fs. \<exists>row. get_file db f = Some row \<and> accounted env (dli_id n) db3 row"
    using safe accounted_mono [OF _ appended_sel(6) [OF b]] r by (fastforce simp: get_file_def)
qed

lemma finish_sel:
  "db_files (finish_database_deletion env n db) = db_files db" "db_artifacts (finish_database_deletion env n db) = db_artifacts db"
  "file_refs (finish_database_deletion env n db) = file_refs db"
  "n \<in> set (db_intents db) \<Longrightarrow> dli_id n \<in> dli_id ` set (db_intents (finish_database_deletion env n db))"
  "a \<in> set (db_artifacts db) \<Longrightarrow> dla_deletion_intent_id a = dli_id n \<Longrightarrow> dli_id n \<in> set (db_post_intents (finish_database_deletion env n db))"
  by (auto simp: finish_database_deletion_def file_refs_def count_rows_zero_iff)

lemma accounted_cong:
  assumes "db_artifacts db = db_artifacts db'"
  shows "accounted env k db f = accounted env k db' f"
  unfolding accounted_def assms ..

lemma finished_deletion:
  assumes c: "create_intent env e ct pid iid db = Inr (n, db1)" "capture_scope_files env n scope cs db1 = Inr (fs, db2)"
      "capture_packages env n pkgs db2 = Inr (ps, db3)"
    and d4: "dbd = (delete_scope env p scope ps fs dp db3)\<lparr>db_versions := vs, db_tasks := ts\<rparr>"
    and refs: "file_refs dbd \<subseteq> file_refs (delete_scope env p scope ps fs dp db3)"
    and db': "db' = finish_database_deletion env n dbd"
  shows "\<exists>k fs. db_files db' = filter (\<lambda>f. fil_id f \<notin> set fs) (db_files db) \<and> file_refs db' \<inter> set fs = {}
    \<and> (\<forall>f \<in> set fs. \<exists>row. get_file db f = Some row \<and> accounted env k db' row)
    \<and> (\<exists>m \<in> set (db_intents db'). dli_id m = k)
    \<and> (\<forall>a \<in> set (db_artifacts db'). dla_deletion_intent_id a = k \<longrightarrow> k \<in> set (db_post_intents db'))"
proof (rule exI [of _ "dli_id n"], rule exI [of _ fs], intro conjI)
  note i = captured_intent [OF c]
  have sel: "db_artifacts dbd = db_artifacts db3" "db_intents dbd = db_intents db3"
    "db_files dbd = filter (\<lambda>f. fil_id f \<notin> set fs) (db_files db)"
    using i(2) by (simp_all add: d4 delete_scope_def Let_def)
  show "db_files db' = filter (\<lambda>f. fil_id f \<notin> set fs) (db_files db)" by (simp add: db' finish_sel sel)
  show "file_refs db' \<inter> set fs = {}" using refs i(3) by (auto simp: db' finish_sel)
  have "db_artifacts db' = db_artifacts db3" by (simp add: db' finish_sel sel)
  note same = accounted_cong [OF this]
  show "\<forall>f \<in> set fs. \<exists>row. get_file db f = Some row \<and> accounted env (dli_id n) db' row" using i(4) by (simp add: same)
  show "\<exists>m \<in> set (db_intents db'). dli_id m = dli_id n" unfolding db' using finish_sel(4) [of n dbd env] i(1) sel by auto
  show "\<forall>a \<in> set (db_artifacts db'). dla_deletion_intent_id a = dli_id n \<longrightarrow> dli_id n \<in> set (db_post_intents db')"
    unfolding db' finish_sel(2) using finish_sel(5) by blast
qed

lemma deletion_outcome:
  assumes "delete_project env e pid cf ev db = Inr (r, db') \<or> delete_review_item env e pid iid cf ev db = Inr (r, db')"
  shows "\<exists>k fs. db_files db' = filter (\<lambda>f. fil_id f \<notin> set fs) (db_files db) \<and> file_refs db' \<inter> set fs = {}
    \<and> (\<forall>f \<in> set fs. \<exists>row. get_file db f = Some row \<and> accounted env k db' row)
    \<and> (\<exists>m \<in> set (db_intents db'). dli_id m = k)
    \<and> (\<forall>a \<in> set (db_artifacts db'). dla_deletion_intent_id a = k \<longrightarrow> k \<in> set (db_post_intents db'))"
  using assms
proof
  assume "delete_project env e pid cf ev db = Inr (r, db')"
  then show ?thesis
  proof (rule delete_project_Inr)
    fix p :: project and ks n db1 fs db2 ps rows arts
    let ?db4 = "delete_scope env p (scope_of db (prj_id p) ks) ps fs True (db\<lparr>db_intents := rows, db_artifacts := arts\<rparr>)"
    assume c: "create_intent env e ''DeleteProject'' (prj_id p) None db = Inr (n, db1)"
      "capture_scope_files env n (scope_of db (prj_id p) ks) (scope_file_candidates db (scope_of db (prj_id p) ks)) db1 = Inr (fs, db2)"
      "capture_packages env n (scope_packages db (prj_id p)) db2 = Inr (ps, db\<lparr>db_intents := rows, db_artifacts := arts\<rparr>)"
      and "db' = finish_database_deletion env n ?db4"
    then show ?thesis
      using finished_deletion [OF c, where dbd = ?db4 and p = p and dp = True and vs = "db_versions ?db4" and ts = "db_tasks ?db4"]
      by simp
  qed
next
  assume "delete_review_item env e pid iid cf ev db = Inr (r, db')"
  then obtain p where "delete_item_core env e ''DeleteReviewItem'' p iid ev db = Inr (r, db')"
    by (auto simp: delete_review_item_def)
  then show ?thesis
  proof (rule delete_item_core_Inr)
    fix i n db1 fs db2 pkgs ps rows arts db4
    let ?scope = "scope_of db (prj_id p) [itm_id i]"
    let ?del = "delete_scope env p ?scope ps fs False (db\<lparr>db_intents := rows, db_artifacts := arts\<rparr>)"
    assume c: "create_intent env e ''DeleteReviewItem'' (prj_id p) (Some (itm_id i)) db = Inr (n, db1)"
      "capture_scope_files env n ?scope (scope_file_candidates db ?scope) db1 = Inr (fs, db2)"
      "capture_packages env n pkgs db2 = Inr (ps, db\<lparr>db_intents := rows, db_artifacts := arts\<rparr>)"
      and rc: "reconcile_project_thumbnail_groups env (prj_id p) False None ?del = Inr db4"
      and "db' = finish_database_deletion env n db4"
    then show ?thesis
      using finished_deletion [OF c, where dbd = db4 and p = p and dp = False and vs = "db_versions db4" and ts = "db_tasks db4"]
        reconcile_refs [OF rc] by blast
  qed
qed

text \<open>
  C7. A deletion of a project or of an item never removes the row of a stored file that is still
  in use: every file that a remaining version (original, playback, thumbnail), finalization or
  derivative task (output or variant) refers to keeps its row, also after the thumbnails of the
  rest of the project have been reconciled.
\<close>

theorem deletion_keeps_referenced_files:
  assumes "delete_project env e pid cf ev db = Inr (r, db') \<or> delete_review_item env e pid iid cf ev db = Inr (r, db')"
    and "f \<in> file_refs db'" and "f \<in> fil_id ` set (db_files db)"
  shows "f \<in> fil_id ` set (db_files db')"
proof -
  obtain fs where "db_files db' = filter (\<lambda>f. fil_id f \<notin> set fs) (db_files db)" "file_refs db' \<inter> set fs = {}"
    using deletion_outcome [OF assms(1)] by blast
  then show ?thesis using assms(2,3) by auto
qed

theorem deletion_keeps_referenced_files_witness:
  "\<exists>r db'. delete_project ex_del_env ex_execution ''p1'' True None ex_shared_db = Inr (r, db')
     \<and> ex_file_id \<in> file_refs db' \<and> ex_file_id \<in> fil_id ` set (db_files db')"
proof -
  have "succeeds (delete_project ex_del_env ex_execution ''p1'' True None ex_shared_db)" by code_simp
  then obtain r db' where run: "delete_project ex_del_env ex_execution ''p1'' True None ex_shared_db = Inr (r, db')"
    by (rule succeeds_pairE)
  have "(case delete_project ex_del_env ex_execution ''p1'' True None ex_shared_db of
      Inr (_, db') \<Rightarrow> list_ex (\<lambda>v. ver_original_file_id v = ex_file_id) (db_versions db') | _ \<Rightarrow> False)" by code_simp
  then have ref: "ex_file_id \<in> file_refs db'" using run by (auto simp: list_ex_iff file_refs_def version_refs_def)
  have "ex_file_id \<in> fil_id ` set (db_files ex_shared_db)"
    by (simp add: ex_shared_db_def ex_ready_db_def ex_file_def)
  then show ?thesis using deletion_keeps_referenced_files [OF disjI1 [OF run] ref] run ref by blast
qed

text \<open>
  C32. No stored file is forgotten: when a deletion removes the row of a file, either the file is
  already missing from storage or the deletion's intent holds a pending artifact with the file's
  device, inode, size and digest; and an intent that holds an artifact is handed to the
  post-commit cleanup.
\<close>

theorem deleted_files_have_artifacts:
  assumes "delete_project env e pid cf ev db = Inr (r, db') \<or> delete_review_item env e pid iid cf ev db = Inr (r, db')"
    and "distinct (map fil_id (db_files db))" and "f \<in> set (db_files db)" and "f \<notin> set (db_files db')"
  shows "\<exists>n \<in> set (db_intents db'). accounted env (dli_id n) db' f
    \<and> ((\<exists>a \<in> set (db_artifacts db'). dla_deletion_intent_id a = dli_id n) \<longrightarrow> dli_id n \<in> set (db_post_intents db'))"
proof -
  obtain k fs where o: "db_files db' = filter (\<lambda>f. fil_id f \<notin> set fs) (db_files db)"
    "\<forall>f \<in> set fs. \<exists>row. get_file db f = Some row \<and> accounted env k db' row"
    "\<exists>m \<in> set (db_intents db'). dli_id m = k"
    "\<forall>a \<in> set (db_artifacts db'). dla_deletion_intent_id a = k \<longrightarrow> k \<in> set (db_post_intents db')"
    using deletion_outcome [OF assms(1)] by blast
  have "fil_id f \<in> set fs" using o(1) assms(3,4) by auto
  then obtain row where row: "get_file db (fil_id f) = Some row" "accounted env k db' row" using o(2) by blast
  have "row = f" using row(1) assms(2,3) row_get_mem unfolding get_file_def by fastforce
  with row(2) have "accounted env k db' f" by simp
  then show ?thesis using o(3,4) by metis
qed

theorem deleted_files_have_artifacts_witness:
  "\<exists>r db'. delete_project ex_del_env ex_execution ''p1'' True None ex_ready_db = Inr (r, db')
     \<and> (\<exists>n \<in> set (db_intents db'). accounted ex_del_env (dli_id n) db' ex_file
          \<and> ((\<exists>a \<in> set (db_artifacts db'). dla_deletion_intent_id a = dli_id n) \<longrightarrow> dli_id n \<in> set (db_post_intents db')))"
proof -
  have "succeeds (delete_project ex_del_env ex_execution ''p1'' True None ex_ready_db)" by code_simp
  then obtain r db' where run: "delete_project ex_del_env ex_execution ''p1'' True None ex_ready_db = Inr (r, db')"
    by (rule succeeds_pairE)
  have "(case delete_project ex_del_env ex_execution ''p1'' True None ex_ready_db of
      Inr (_, db') \<Rightarrow> db_files db' = [] | _ \<Rightarrow> False)" by code_simp
  then have "ex_file \<notin> set (db_files db')" using run by simp
  moreover have "distinct (map fil_id (db_files ex_ready_db))" "ex_file \<in> set (db_files ex_ready_db)"
    by (simp_all add: ex_ready_db_def)
  ultimately show ?thesis using deleted_files_have_artifacts [OF disjI1 [OF run]] run by blast
qed

section \<open>Rows\<close>

lemma captured_projects:
  assumes "ownership_ok (core_of db)" and "keys_ok (core_of db)"
    and ks: "set ks = itm_id ` {i \<in> set (db_items db). itm_project_ref_id i = pid}"
  shows "i \<in> set (db_items db) \<Longrightarrow> itm_id i \<in> set ks \<longleftrightarrow> itm_project_ref_id i = pid"
    and "owned (db_items db) k p \<Longrightarrow> k \<in> set ks \<longleftrightarrow> p = pid"
proof -
  have keys: "distinct (map itm_id (db_items db))" using assms(2) by (simp add: keys_ok_def)
  show one: "itm_id i \<in> set ks \<longleftrightarrow> itm_project_ref_id i = pid" if "i \<in> set (db_items db)" for i
    using that ks key_inj [OF keys] by auto
  show "k \<in> set ks \<longleftrightarrow> p = pid" if "owned (db_items db) k p"
    using that one unfolding owned_def by blast
qed


lemma ex_ready_ok: "store_ok ex_ready_db"
  by (simp add: store_ok_def review_ok_def keys_ok_def current_ok_def numbering_ok_def authority_ok_def issues_ok_def
      ownership_ok_def owned_def points_to_def outbox_ordered_def core_of_def strip_assets_def ex_defs)


section \<open>Batches\<close>

lemma delete_item_core_items:
  assumes "delete_item_core env e ct p iid ev db = Inr (r, db')"
  shows "db_items db' = filter (\<lambda>i. itm_id i \<noteq> iid) (db_items db)"
  using assms
proof (rule delete_item_core_Inr)
  fix i :: review_item and n db1 fs db2 pkgs ps rows arts db4
  let ?del = "delete_scope env p (scope_of db (prj_id p) [itm_id i]) ps fs False (db\<lparr>db_intents := rows, db_artifacts := arts\<rparr>)"
  assume i: "get_item db (prj_id p) iid = Inr i"
    and rc: "reconcile_project_thumbnail_groups env (prj_id p) False None ?del = Inr db4"
    and db': "db' = finish_database_deletion env n db4"
  have "db4 = ?del\<lparr>db_versions := db_versions db4, db_tasks := db_tasks db4\<rparr>" using reconcile_refs [OF rc] by blast
  then obtain vs ts where "db4 = ?del\<lparr>db_versions := vs, db_tasks := ts\<rparr>" by blast
  then have "db_items db4 = db_items ?del" by simp
  then show ?thesis using get_item_InrD [OF i] by (simp add: db' finish_database_deletion_def delete_scope_def Let_def scope_sets(1))
qed

lemma delete_batch_item_result:
  assumes "delete_batch_item env e p k (results, db) = Inr (results', db')"
  shows "\<exists>x. results' = results @ [(k, x)]
    \<and> (x = outcome_deleted \<longrightarrow> db_items db' = filter (\<lambda>i. itm_id i \<noteq> k) (db_items db))
    \<and> (x \<noteq> outcome_deleted \<longrightarrow> db' = db)"
  using assms delete_item_core_items
  by (fastforce simp: delete_batch_item_def split: sum.splits option.splits)

lemma delete_batch_results:
  assumes "efold (delete_batch_item env e p) ks (results, db) = Inr (results', db')"
  shows "\<exists>xs. results' = results @ xs \<and> map fst xs = ks
    \<and> db_items db' = filter (\<lambda>i. (itm_id i, outcome_deleted) \<notin> set xs) (db_items db)"
  using assms
proof (induction ks arbitrary: results db)
  case (Cons k ks)
  then obtain results1 db1 where one: "delete_batch_item env e p k (results, db) = Inr (results1, db1)"
    and rest: "efold (delete_batch_item env e p) ks (results1, db1) = Inr (results', db')" by auto
  obtain x where x: "results1 = results @ [(k, x)]" "x = outcome_deleted \<Longrightarrow> db_items db1 = filter (\<lambda>i. itm_id i \<noteq> k) (db_items db)"
    "x \<noteq> outcome_deleted \<Longrightarrow> db1 = db" using delete_batch_item_result [OF one] by blast
  obtain xs where xs: "results' = results1 @ xs" "map fst xs = ks"
    "db_items db' = filter (\<lambda>i. (itm_id i, outcome_deleted) \<notin> set xs) (db_items db1)" using Cons.IH [OF rest] by blast
  have "db_items db' = filter (\<lambda>i. (itm_id i, outcome_deleted) \<notin> set ((k, x) # xs)) (db_items db)"
    using xs(3) x(2,3) by (cases "x = outcome_deleted") (auto intro: filter_cong)
  then show ?case using x(1) xs(1,2) by (intro exI [of _ "(k, x) # xs"]) simp
qed simp

text \<open>
  A batch deletion answers for every requested item, once and in the order of the request, and
  the items that are gone afterwards are exactly those it reports as deleted: an item that is
  refused stays, whatever happens to the others.
\<close>

theorem batch_deletion_reports:
  assumes "delete_review_items_batch env e pid ks cf db = Inr (R_ItemsDeleted pid' results, db')"
  shows "cf \<and> pid' = pid \<and> map fst results = ks
    \<and> db_items db' = filter (\<lambda>i. (itm_id i, outcome_deleted) \<notin> set results) (db_items db)"
proof -
  from assms obtain p where p: "get_project db pid = Inr p" "cf" "pid' = prj_id p"
    and f: "efold (delete_batch_item env e p) ks ([], db) = Inr (results, db')"
    by (auto simp: delete_review_items_batch_def)
  have "prj_id p = pid" using p by (auto simp: get_project_Inr dest: row_get_SomeD)
  then show ?thesis using delete_batch_results [OF f] p(2,3) by auto
qed

theorem batch_deletion_reports_witness:
  "\<exists>results db'. delete_review_items_batch ex_del_env ex_execution ''p1'' [''i0'', ''i1''] True ex_ready_db
       = Inr (R_ItemsDeleted ''p1'' results, db')
     \<and> results = [(''i0'', outcome_failed RESOURCE_NOT_FOUND), (''i1'', outcome_deleted)] \<and> db_items db' = []"
proof -
  let ?core = "\<lambda>k. delete_item_core ex_del_env ex_execution ''DeleteReviewItemsBatch'' ex_project k None ex_ready_db"
  let ?locks = "acquire_scope_storage_mutation_locks ex_ready_db (scope_of ex_ready_db ''p1'' [''i0'', ''i1'']) (scope_packages ex_ready_db ''p1'')"
  have gone: "?core ''i0'' = Inl (ReviewError RESOURCE_NOT_FOUND)" by code_simp
  have "succeeds (?core ''i1'')" by code_simp
  then obtain r db' where core: "?core ''i1'' = Inr (r, db')" by (rule succeeds_pairE)
  have "succeeds ?locks" by code_simp
  then obtain ls where locks: "?locks = Inr ls" by (rule succeedsE)
  have ids: "length ex_execution = 64" "prj_id ex_project = ''p1''" by (simp_all add: ex_execution_def ex_project_def)
  have project: "get_project ex_ready_db ''p1'' = Inr ex_project" "assert_project_active ex_project = Inr ()"
    by (simp_all add: get_project_Inr ex_ready_db_def ex_db_def ex_project_def)
  have run: "delete_review_items_batch ex_del_env ex_execution ''p1'' [''i0'', ''i1''] True ex_ready_db
      = Inr (R_ItemsDeleted ''p1'' [(''i0'', outcome_failed RESOURCE_NOT_FOUND), (''i1'', outcome_deleted)], db')"
    unfolding delete_review_items_batch_def project ids ebind_simps guard_simps locks
    by (simp add: delete_batch_item_def batch_error_code_def gone core ids project locks)
  show ?thesis
    using batch_deletion_reports [OF run] run by (simp add: ex_ready_db_def ex_db_def ex_item_def)
qed

end
