(* ===== verification/Frames.thy ===== *)
theory Frames
  imports Projects Downloads Deletion_Safety Issues
begin

text \<open>
  What no handler touches: the idempotency records and the operation log belong to the layers around
  a handler. \<open>ledger\<close> is the pair of them; every step a handler is made of keeps it.
\<close>

definition ledger :: "db \<Rightarrow> idempotency_record list \<times> operation_log list" where
  "ledger db = (db_idempotency db, db_logs db)"

named_theorems ledger_dest

lemma ledger_put [simp]:
  "ledger (put_project p db) = ledger db" "ledger (put_editor e db) = ledger db" "ledger (put_item i db) = ledger db"
  "ledger (put_version v db) = ledger db" "ledger (put_issue s db) = ledger db" "ledger (put_task t db) = ledger db"
  "ledger (put_qc_task q db) = ledger db" "ledger (put_finalization f db) = ledger db" "ledger (put_package k db) = ledger db"
  "ledger (put_invalidation n db) = ledger db"
  by (simp_all add: ledger_def put_defs)

lemma ledger_insert [ledger_dest]:
  "insert_project p db = Inr db' \<Longrightarrow> ledger db' = ledger db" "insert_editor e db = Inr db' \<Longrightarrow> ledger db' = ledger db"
  "insert_item i db = Inr db' \<Longrightarrow> ledger db' = ledger db" "insert_version v db = Inr db' \<Longrightarrow> ledger db' = ledger db"
  "insert_task t db = Inr db' \<Longrightarrow> ledger db' = ledger db" "insert_qc_task q db = Inr db' \<Longrightarrow> ledger db' = ledger db"
  "insert_issue s db = Inr db' \<Longrightarrow> ledger db' = ledger db" "insert_revision r db = Inr db' \<Longrightarrow> ledger db' = ledger db"
  "insert_annotation a db = Inr db' \<Longrightarrow> ledger db' = ledger db" "insert_message m db = Inr db' \<Longrightarrow> ledger db' = ledger db"
  "insert_finalization f db = Inr db' \<Longrightarrow> ledger db' = ledger db" "insert_package k db = Inr db' \<Longrightarrow> ledger db' = ledger db"
  "insert_invalidation n db = Inr db' \<Longrightarrow> ledger db' = ledger db" "insert_event v' db = Inr db' \<Longrightarrow> ledger db' = ledger db"
  by (auto simp: ledger_def insert_defs)

lemma ledger_drawn [simp]: "ledger (db\<lparr>db_drawn := n\<rparr>) = ledger db"
  by (simp add: ledger_def)

lemma ledger_new_id [ledger_dest]: "new_id env pfx db = (x, db') \<Longrightarrow> ledger db' = ledger db"
  by (auto simp: new_id_def ledger_def)

lemma ledger_add_event [ledger_dest]: "add_event env et c pid aty aid av ids pl db = Inr db' \<Longrightarrow> ledger db' = ledger db"
  by (auto simp: ledger_def dest!: add_event_Inr)

lemma ledger_efold:
  assumes "efold f xs db = Inr db'" and "\<And>x a b. x \<in> set xs \<Longrightarrow> f x a = Inr b \<Longrightarrow> ledger b = ledger a"
  shows "ledger db' = ledger db"
  using efold_relation [of f xs db db' "\<lambda>a b. ledger b = ledger a"] assms by auto

section \<open>Projects and editors\<close>

lemma project_ledger [ledger_dest]:
  "create_project env c code name des ext n d db = Inr (r, db') \<Longrightarrow> ledger db' = ledger db"
  "update_project env c p code' name des ev db = Inr (r, db') \<Longrightarrow> ledger db' = ledger db"
  "lock_project_frame_rate env c p n d ev db = Inr (r, db') \<Longrightarrow> ledger db' = ledger db"
  "archive_project env c p ev db = Inr (r, db') \<Longrightarrow> ledger db' = ledger db"
  "restore_project env c p ev db = Inr (r, db') \<Longrightarrow> ledger db' = ledger db"
  "create_responsible_editor env name db = Inr (r, db') \<Longrightarrow> ledger db' = ledger db"
  "rename_responsible_editor env e name ev db = Inr (r, db') \<Longrightarrow> ledger db' = ledger db"
  by (auto simp: create_project_def update_project_def lock_project_frame_rate_def archive_project_def restore_project_def
      create_responsible_editor_def rename_responsible_editor_def Let_def split: prod.splits dest!: ledger_dest)

lemma rerun_ledger [ledger_dest]: "rerun_project_technical_qc env p db = Inr (r, db') \<Longrightarrow> ledger db' = ledger db"
proof -
  assume "rerun_project_technical_qc env p db = Inr (r, db')"
  then obtain ts where f: "efold (qc_queue_target env) ts db = Inr db'" by (auto simp: rerun_project_technical_qc_def Let_def)
  show ?thesis
    by (rule ledger_efold [OF f]) (auto simp: qc_queue_target_def split: prod.splits option.splits dest!: ledger_dest)
qed

section \<open>Items\<close>

lemma reconcile_ledger [ledger_dest]: "reconcile_project_thumbnail_groups env p d c db = Inr db' \<Longrightarrow> ledger db' = ledger db"
proof -
  assume "reconcile_project_thumbnail_groups env p d c db = Inr db'"
  then obtain vs ts where "db' = db\<lparr>db_versions := vs, db_tasks := ts\<rparr>" using reconcile_refs by blast
  then show ?thesis by (simp add: ledger_def)
qed

lemma create_version_ledger [ledger_dest]:
  "create_version env pid iid f pv no note summ eid en db = Inr (v, db') \<Longrightarrow> ledger db' = ledger db"
  by (auto simp: create_version_def new_id_def Let_def dest!: ledger_dest)

lemma ledger_versions [simp]: "ledger (db\<lparr>db_versions := vs\<rparr>) = ledger db"
  by (simp add: ledger_def)

lemma item_ledger [ledger_dest]:
  "create_review_item env c p f e code ep title note db = Inr (r, db') \<Longrightarrow> ledger db' = ledger db"
  "update_review_item env c p i ep' title' ev db = Inr (r, db') \<Longrightarrow> ledger db' = ledger db"
  "start_review env c p i ev db = Inr (r, db') \<Longrightarrow> ledger db' = ledger db"
  "upload_review_version env c p i f e note summ re ev db = Inr (r, db') \<Longrightarrow> ledger db' = ledger db"
  by (auto simp: create_review_item_def update_review_item_def start_review_def upload_review_version_def new_id_def Let_def
      split: if_splits dest!: ledger_dest)

section \<open>Issues\<close>

lemma issue_step_ledger [ledger_dest]:
  "create_annotation_if_present env s a db = Inr (x, db') \<Longrightarrow> ledger db' = ledger db"
  "record_review_issue_created env c i s b db = Inr db' \<Longrightarrow> ledger db' = ledger db"
  by (auto simp: create_annotation_if_present_def record_review_issue_created_def issue_event_def Let_def
      split: prod.splits if_splits option.splits dest!: ledger_dest)

lemma issue_ledger [ledger_dest]:
  "create_review_issue env c p i v t n content a ev db = Inr (r, db') \<Longrightarrow> ledger db' = ledger db"
  "update_review_issue env c p i v s content' a ev db = Inr (r, db') \<Longrightarrow> ledger db' = ledger db"
  "add_review_message env c p i v s content db = Inr (r, db') \<Longrightarrow> ledger db' = ledger db"
  "resolve_issue env c p i v s ev db = Inr (r, db') \<Longrightarrow> ledger db' = ledger db"
  "reopen_issue env c p i v s ev db = Inr (r, db') \<Longrightarrow> ledger db' = ledger db"
  "soft_delete_issue env c p i v s ev db = Inr (r, db') \<Longrightarrow> ledger db' = ledger db"
  by (auto simp: create_review_issue_def update_review_issue_def add_review_message_def resolve_issue_def reopen_issue_def
      soft_delete_issue_def write_issue_and_sync_def issue_event_def sync_item_workflow_for_current_issues_def
      new_id_def Let_def split: if_splits option.splits dest!: ledger_dest)

section \<open>Finalization\<close>

lemma finalize_locked_ledger [ledger_dest]: "finalize_locked_item env c p i v db = Inr (f, db') \<Longrightarrow> ledger db' = ledger db"
  by (auto simp: finalize_locked_item_def new_id_def Let_def dest!: ledger_dest)

lemma ledger_efold_snd:
  assumes "efold f xs a = Inr b" and "\<And>x a b. x \<in> set xs \<Longrightarrow> f x a = Inr b \<Longrightarrow> ledger (snd b) = ledger (snd a)"
  shows "ledger (snd b) = ledger (snd a)"
  using efold_relation [of f xs a b "\<lambda>a b. ledger (snd b) = ledger (snd a)"] assms by auto

lemma revoke_locked_ledger [ledger_dest]: "revoke_locked_finalization env c p i f ks db = Inr (x, db') \<Longrightarrow> ledger db' = ledger db"
proof -
  have one: "revoke_package env p i f k a = Inr b \<Longrightarrow> ledger (snd b) = ledger (snd a)" for i f k a b
    by (auto simp: revoke_package_def Let_def split: prod.splits option.splits if_splits dest!: ledger_dest)
  have "efold (revoke_package env p i f) ks a = Inr b \<Longrightarrow> ledger (snd b) = ledger (snd a)" for i f ks a b
    using ledger_efold_snd one by blast
  then show "revoke_locked_finalization env c p i f ks db = Inr (x, db') \<Longrightarrow> ledger db' = ledger db"
    by (fastforce simp: revoke_locked_finalization_def Let_def split: prod.splits dest!: ledger_dest)
qed

lemma finalization_ledger [ledger_dest]:
  "finalize_version env c p i v ok ev db = Inr (r, db') \<Longrightarrow> ledger db' = ledger db"
  "revoke_finalization env c p i ok ev db = Inr (r, db') \<Longrightarrow> ledger db' = ledger db"
  by (auto simp: finalize_version_def revoke_finalization_def Let_def split: prod.splits if_splits dest!: ledger_dest)

lemma finalize_target_ledger: "finalize_target env c p t a = Inr b \<Longrightarrow> ledger b = ledger a"
  by (auto simp: finalize_target_def split: option.splits prod.splits dest!: ledger_dest)

lemma revoke_target_ledger: "revoke_target env c p act ks t a = Inr b \<Longrightarrow> ledger b = ledger a"
  by (auto simp: revoke_target_def split: prod.splits dest!: ledger_dest)

lemma project_finalization_ledger [ledger_dest]:
  "finalize_project env c p ok ev db = Inr (r, db') \<Longrightarrow> ledger db' = ledger db"
  "revoke_project_finalization env c p ok ev db = Inr (r, db') \<Longrightarrow> ledger db' = ledger db"
proof -
  have "efold (finalize_target env c p) ts a = Inr b \<Longrightarrow> ledger b = ledger a" for p ts a b
    by (rule ledger_efold) (auto dest: finalize_target_ledger)
  then show "finalize_project env c p ok ev db = Inr (r, db') \<Longrightarrow> ledger db' = ledger db"
    by (auto simp: finalize_project_def Let_def split: if_splits)
  have "efold (revoke_target env c p act ks) ts a = Inr b \<Longrightarrow> ledger b = ledger a" for p act ks ts a b
    by (rule ledger_efold) (auto dest: revoke_target_ledger)
  then show "revoke_project_finalization env c p ok ev db = Inr (r, db') \<Longrightarrow> ledger db' = ledger db"
    by (auto simp: revoke_project_finalization_def Let_def split: if_splits)
qed

lemma retry_ledger [ledger_dest]: "retry_finalization_cleanup env p i ok ev db = Inr (r, db') \<Longrightarrow> ledger db' = ledger db"
proof -
  have one: "retry_package_cleanup env p a = Inr b \<Longrightarrow> ledger (snd b) = ledger (snd a)" for p a b
    by (auto simp: retry_package_cleanup_def settle_invalidations_def Let_def ledger_def put_defs split: prod.splits if_splits)
  show "retry_finalization_cleanup env p i ok ev db = Inr (r, db') \<Longrightarrow> ledger db' = ledger db"
    by (auto simp: retry_finalization_cleanup_def Let_def split: prod.splits if_splits dest!: ledger_efold_snd [OF _ one])
qed

section \<open>Packages and deletions\<close>

lemma package_ledger [ledger_dest]:
  "fail_ready_package_reuse env c q code ep sz idn db = Inr db' \<Longrightarrow> ledger db' = ledger db"
  "admit_package env c p k pp tb sb js db = Inr (r, db') \<Longrightarrow> ledger db' = ledger db"
proof -
  have "ledger (db\<lparr>db_post_package_deletions := x\<rparr>) = ledger db" for db x by (simp add: ledger_def)
  then show "fail_ready_package_reuse env c q code ep sz idn db = Inr db' \<Longrightarrow> ledger db' = ledger db"
    by (auto simp: fail_ready_package_reuse_def Let_def dest!: ledger_dest)
  show "admit_package env c p k pp tb sb js db = Inr (r, db') \<Longrightarrow> ledger db' = ledger db"
    by (auto simp: admit_package_def Let_def dest!: ledger_dest)
qed

lemma prepare_ledger [ledger_dest]:
  "reuse_or_admit env c p k pp tb sb js db = Inr (r, db') \<Longrightarrow> ledger db' = ledger db"
  "prepare_package env c pid name db = Inr (r, db') \<Longrightarrow> ledger db' = ledger db"
proof -
  show reuse: "reuse_or_admit env c p k pp tb sb js db = Inr (r, db') \<Longrightarrow> ledger db' = ledger db" for p k pp tb sb js db
    by (auto simp: reuse_or_admit_def Let_def split: if_splits option.splits prod.splits dest!: ledger_dest)
  show "prepare_package env c pid name db = Inr (r, db') \<Longrightarrow> ledger db' = ledger db"
    by (auto simp: prepare_package_def new_id_def Let_def dest!: reuse)
qed

lemma delete_scope_ledger [simp]:
  "ledger (delete_scope env p sc ps fs dp db) = ledger db" "ledger (finish_database_deletion env n db) = ledger db"
  by (simp_all add: ledger_def delete_scope_def finish_database_deletion_def Let_def)

lemma captured_ledger: "ledger (db\<lparr>db_intents := rows, db_artifacts := arts\<rparr>) = ledger db"
  by (simp add: ledger_def)

lemma delete_item_core_ledger: "delete_item_core env e ct p iid ev db = Inr (r, db') \<Longrightarrow> ledger db' = ledger db"
  by (erule delete_item_core_Inr) (auto simp: captured_ledger dest!: reconcile_ledger)

lemma deletion_ledger [ledger_dest]:
  "delete_project env e pid cf ev db = Inr (r, db') \<Longrightarrow> ledger db' = ledger db"
  "delete_review_item env e pid iid cf ev db = Inr (r, db') \<Longrightarrow> ledger db' = ledger db"
  "delete_review_items_batch env e pid ks cf db = Inr (r, db') \<Longrightarrow> ledger db' = ledger db"
proof -
  show "delete_project env e pid cf ev db = Inr (r, db') \<Longrightarrow> ledger db' = ledger db"
    by (erule delete_project_Inr) (auto simp: captured_ledger)
  show "delete_review_item env e pid iid cf ev db = Inr (r, db') \<Longrightarrow> ledger db' = ledger db"
    by (auto simp: delete_review_item_def dest!: delete_item_core_ledger)
  have one: "delete_batch_item env e p k a = Inr b \<Longrightarrow> ledger (snd b) = ledger (snd a)" for p k a b
    by (cases a) (auto simp: delete_batch_item_def split: sum.splits option.splits dest: delete_item_core_ledger)
  show "delete_review_items_batch env e pid ks cf db = Inr (r, db') \<Longrightarrow> ledger db' = ledger db"
    by (auto simp: delete_review_items_batch_def split: prod.splits dest!: ledger_efold_snd [OF _ one])
qed

end
