(* ===== verification/Commands.thy ===== *)
theory Commands
  imports Contracts Access Frames
begin

text \<open>
  The command side of the service: \<open>SqlAlchemyReviewRepository.execute\<close> with the
  idempotency records and the operation log of
  \<open>src/backend/app/modules/final_cut_review/infra/repositories.py\<close>, the command bus of
  \<open>application/command_handlers.py\<close> and the transaction around a command,
  \<open>run_command\<close> of \<open>review_http/command_routes.py\<close>.
\<close>

section \<open>Hashes of a request\<close>

definition stable_hash :: "env \<Rightarrow> json \<Rightarrow> string" where
  "stable_hash env value = env_sha256_hex env (json_dumps value)"

definition canonical_request_hash :: "env \<Rightarrow> string \<Rightarrow> json \<Rightarrow> string" where
  "canonical_request_hash env command_type payload =
     env_sha256_hex env (json_dumps (JObj [(''command_type'', JStr command_type), (''payload'', payload)]))"

definition principal_fingerprint :: "env \<Rightarrow> execution_context \<Rightarrow> string" where
  "principal_fingerprint env context =
     (let principal = ctx_principal context
      in env_sha256_hex env (json_dumps (JObj
           [(''kind'', JStr (pr_kind principal)), (''id'', json_opt (pr_id principal)),
            (''project_ref_ids'', JList (map JStr (sort (pr_project_ref_ids principal))))])))"

definition json_int_opt :: "int option \<Rightarrow> json" where
  "json_int_opt x = (case x of None \<Rightarrow> JNull | Some n \<Rightarrow> JInt n)"

definition execution_identity :: "env \<Rightarrow> string \<Rightarrow> json \<Rightarrow> execution_context \<Rightarrow> int option \<Rightarrow> string" where
  "execution_identity env command_type payload context expected_version =
     stable_hash env (JObj
       [(''command_type'', JStr command_type), (''payload'', payload),
        (''expected_version'', json_int_opt expected_version),
        (''principal_kind'', JStr (pr_kind (ctx_principal context))),
        (''principal_id'', json_opt (pr_id (ctx_principal context)))])"

section \<open>Idempotency\<close>

definition put_idempotency :: "idempotency_record \<Rightarrow> db \<Rightarrow> db" where
  "put_idempotency r db = db\<lparr>db_idempotency := row_put idm_key r (db_idempotency db)\<rparr>"

definition idempotency_replay ::
  "env \<Rightarrow> idempotency_record \<Rightarrow> string \<Rightarrow> string \<Rightarrow> string \<Rightarrow> db \<Rightarrow> exn + response option \<times> db" where
  "idempotency_replay env existing command_type request_hash principal_hash db =
     (if idm_principal_hash existing \<noteq> principal_hash then raise PRINCIPAL_PERMISSION_DENIED
      else if idm_command_type existing \<noteq> command_type \<or> idm_request_hash existing \<noteq> request_hash
      then raise IDEMPOTENCY_CONFLICT
      else if idm_status_code existing = 200
      then
        if command_type = ''PrepareFinalizedPackage''
        then
          (case idm_response existing of
             R_Package view \<Rightarrow>
               let package_id = pkg_id (pv_package view); project_ref_id = pkg_project_ref_id (pv_package view)
               in ebind (get_project db project_ref_id) (\<lambda>project.
                  ebind (assert_project_visible project) (\<lambda>_.
                  ebind (of_option (ReviewError RESOURCE_NOT_FOUND)
                           (List.find (\<lambda>p. pkg_id p = package_id \<and> pkg_project_ref_id p = project_ref_id) (db_packages db))) (\<lambda>package.
                  if pkg_expires_at package < env_now env then raise PACKAGE_EXPIRED
                  else if pkg_status package = ready \<and> fst (ready_package_reuse_integrity env package) \<noteq> None
                  then Inr (None, put_idempotency (existing\<lparr>idm_response := R_Reserved, idm_status_code := 102\<rparr>) db)
                  else Inr (Some (R_Package (package_dto env package)), db))))
           | _ \<Rightarrow> raise IDEMPOTENCY_CONFLICT)
        else Inr (Some (idm_response existing), db)
      else raise IDEMPOTENCY_CONFLICT)"

definition reserve_idempotency ::
  "env \<Rightarrow> string \<Rightarrow> string \<Rightarrow> string \<Rightarrow> string \<Rightarrow> db \<Rightarrow> exn + response option \<times> db" where
  "reserve_idempotency env key command_type request_hash principal_hash db =
     (case row_get idm_key key (db_idempotency db) of
        Some existing \<Rightarrow> idempotency_replay env existing command_type request_hash principal_hash db
      | None \<Rightarrow>
          Inr (None, db\<lparr>db_idempotency := db_idempotency db @
            [\<lparr>idm_key = key, idm_command_type = command_type, idm_request_hash = request_hash,
              idm_principal_hash = principal_hash, idm_response = R_Reserved, idm_status_code = 102,
              idm_created_at = env_now env\<rparr>]\<rparr>))"

text \<open>The stored response of a package never keeps its download token.\<close>

definition persisted_response :: "string \<Rightarrow> response \<Rightarrow> response" where
  "persisted_response command_type response =
     (if command_type = ''PrepareFinalizedPackage''
      then (case response of
              R_Package view \<Rightarrow> R_Package (view\<lparr>pv_download_token := None, pv_download_token_expires_at := None\<rparr>)
            | _ \<Rightarrow> response)
      else response)"

definition complete_idempotency :: "string \<Rightarrow> response \<Rightarrow> db \<Rightarrow> exn + db" where
  "complete_idempotency key response db =
     (case row_get idm_key key (db_idempotency db) of
        None \<Rightarrow> raise IDEMPOTENCY_CONFLICT
      | Some record \<Rightarrow>
          Inr (put_idempotency (record\<lparr>idm_response := persisted_response (idm_command_type record) response,
                                       idm_status_code := 200\<rparr>) db))"

section \<open>Dispatch\<close>

definition dispatch ::
  "env \<Rightarrow> execution_context \<Rightarrow> string \<Rightarrow> int option \<Rightarrow> command \<Rightarrow> db \<Rightarrow> exn + response \<times> db" where
  "dispatch env context identity expected_version c =
     (case c of
        CreateProject code name description external n d \<Rightarrow> create_project env context code name description external n d
      | UpdateProject p code name description \<Rightarrow> update_project env context p code name description expected_version
      | LockProjectFrameRate p n d \<Rightarrow> lock_project_frame_rate env context p n d expected_version
      | RerunProjectTechnicalQc p \<Rightarrow> rerun_project_technical_qc env p
      | CreateResponsibleEditor name \<Rightarrow> create_responsible_editor env name
      | RenameResponsibleEditor e name \<Rightarrow> rename_responsible_editor env e name expected_version
      | ArchiveProject p \<Rightarrow> archive_project env context p expected_version
      | RestoreProject p \<Rightarrow> restore_project env context p expected_version
      | DeleteProject p ok \<Rightarrow> delete_project env identity p ok expected_version
      | CreateReviewItem p f e code ep title note \<Rightarrow> create_review_item env context p f e code ep title note
      | UpdateReviewItem p i ep title \<Rightarrow> update_review_item env context p i ep title expected_version
      | DeleteReviewItem p i ok \<Rightarrow> delete_review_item env identity p i ok expected_version
      | DeleteReviewItemsBatch p ids ok \<Rightarrow> delete_review_items_batch env identity p ids ok
      | UploadReviewVersion p i f e note summary reason \<Rightarrow>
          upload_review_version env context p i f e note summary reason expected_version
      | StartReview p i \<Rightarrow> start_review env context p i expected_version
      | CreateReviewIssue p i v t n content a \<Rightarrow> create_review_issue env context p i v t n content a expected_version
      | UpdateReviewIssue p i v s content a \<Rightarrow> update_review_issue env context p i v s content a expected_version
      | AddReviewMessage p i v s content \<Rightarrow> add_review_message env context p i v s content
      | ResolveReviewIssue p i v s \<Rightarrow> resolve_issue env context p i v s expected_version
      | ReopenReviewIssue p i v s \<Rightarrow> reopen_issue env context p i v s expected_version
      | SoftDeleteReviewIssue p i v s \<Rightarrow> soft_delete_issue env context p i v s expected_version
      | FinalizeProject p ok \<Rightarrow> finalize_project env context p ok expected_version
      | RevokeProjectFinalization p ok \<Rightarrow> revoke_project_finalization env context p ok expected_version
      | FinalizeVersion p i v ok \<Rightarrow> finalize_version env context p i v ok expected_version
      | RevokeFinalization p i ok \<Rightarrow> revoke_finalization env context p i ok expected_version
      | RetryFinalizationCleanup p i ok \<Rightarrow> retry_finalization_cleanup env p i ok expected_version
      | PrepareFinalizedPackage p name \<Rightarrow> prepare_package env context p name)"

text \<open>The \<open>except\<close> clauses of \<open>execute\<close>.\<close>

definition execute_error :: "exn \<Rightarrow> exn" where
  "execute_error e =
     (case e of KeyError \<Rightarrow> ReviewError VALIDATION_ERROR | IntegrityError \<Rightarrow> ReviewError RESOURCE_STATE_CONFLICT | _ \<Rightarrow> e)"

definition execute ::
  "env \<Rightarrow> string \<Rightarrow> json \<Rightarrow> execution_context \<Rightarrow> int option \<Rightarrow> db \<Rightarrow> exn + response \<times> db" where
  "execute env command_type payload context expected_version db =
     map_sum execute_error id
       (ebind (read_command command_type payload) (\<lambda>c.
        dispatch env context (execution_identity env command_type payload context expected_version) expected_version c db))"

section \<open>The command bus\<close>

text \<open>The checks before anything is read or written.\<close>

definition admit_command :: "env \<Rightarrow> string \<Rightarrow> json \<Rightarrow> execution_context \<Rightarrow> exn + unit" where
  "admit_command env command_type payload context =
     ebind (of_option (ReviewError VALIDATION_ERROR) (map_of COMMAND_CAPABILITIES command_type)) (\<lambda>capability.
     ebind (assert_write_allowed (env_settings env) context) (\<lambda>_.
     ebind (guard (entry_allows (ctx_entry_source context) capability) (ReviewError ENTRY_CAPABILITY_DENIED)) (\<lambda>_.
     authorize context (jget_str payload ''project_ref_id''))))"

definition bus_execute ::
  "env \<Rightarrow> string \<Rightarrow> json \<Rightarrow> execution_context \<Rightarrow> int option \<Rightarrow> string option \<Rightarrow> db \<Rightarrow> exn + response \<times> db" where
  "bus_execute env command_type payload context expected_version idempotency_key db =
     ebind (admit_command env command_type payload context) (\<lambda>_.
     if command_type \<in> set IDEMPOTENT_COMMANDS
     then
       (case idempotency_key of
          None \<Rightarrow> raise VALIDATION_ERROR
        | Some key \<Rightarrow>
            if key = '''' then raise VALIDATION_ERROR
            else
              ebind (reserve_idempotency env key command_type (canonical_request_hash env command_type payload)
                       (principal_fingerprint env context) db) (\<lambda>(replay, db).
              case replay of
                Some response \<Rightarrow> Inr (response, db)
              | None \<Rightarrow>
                  ebind (execute env command_type payload context expected_version db) (\<lambda>(response, db).
                  ebind (complete_idempotency key response db) (\<lambda>db.
                  Inr (response, db)))))
     else execute env command_type payload context expected_version db)"

section \<open>Handlers are sound and leave the ledger alone\<close>

lemma dispatch_sound: "dispatch env context idn ev c db = Inr (r, db') \<Longrightarrow> sound_step db db'"
  by (cases c)
    (auto simp: dispatch_def dest: create_project_sound project_commands_sound editor_commands_sound rerun_project_technical_qc_sound
      create_review_item_sound update_review_item_sound start_review_sound upload_review_version_sound create_review_issue_sound
      update_review_issue_sound add_review_message_sound issue_decisions_sound finalize_version_sound finalize_project_sound
      revoke_finalization_sound revoke_project_finalization_sound retry_finalization_cleanup_sound prepare_package_sound
      delete_project_sound delete_review_item_sound delete_review_items_batch_sound)

lemma dispatch_ledger: "dispatch env context idn ev c db = Inr (r, db') \<Longrightarrow> ledger db' = ledger db"
  by (cases c) (auto simp: dispatch_def dest: ledger_dest)

lemma execute_Inr:
  "execute env ct j context ev db = Inr (r, db') \<Longrightarrow>
   \<exists>c. read_command ct j = Inr c \<and> dispatch env context (execution_identity env ct j context ev) ev c db = Inr (r, db')"
  by (cases "read_command ct j"; cases "dispatch env context (execution_identity env ct j context ev) ev (projr (read_command ct j)) db")
    (auto simp: execute_def)

lemma execute_sound: "execute env ct j context ev db = Inr (r, db') \<Longrightarrow> sound_step db db'"
  using execute_Inr dispatch_sound by blast

lemma execute_ledger: "execute env ct j context ev db = Inr (r, db') \<Longrightarrow> ledger db' = ledger db"
  using execute_Inr dispatch_ledger by blast

section \<open>The bus\<close>

lemma sound_ledger [simp]: "sound_step db (db\<lparr>db_idempotency := xs\<rparr>)" "sound_step db (db\<lparr>db_logs := ys\<rparr>)"
  by (rule sound_frame; simp add: core_of_def)+

lemma replay_frame:
  "idempotency_replay env x ct h p db = Inr (replay, db') \<Longrightarrow> db' = db \<or> (\<exists>y. db' = put_idempotency y db)"
  by (auto simp: idempotency_replay_def Let_def split: if_splits response.splits)

lemma reserve_sound: "reserve_idempotency env key ct h p db = Inr (replay, db') \<Longrightarrow> sound_step db db'"
  by (auto simp: reserve_idempotency_def put_idempotency_def split: option.splits dest!: replay_frame)

lemma complete_sound: "complete_idempotency key r db = Inr db' \<Longrightarrow> sound_step db db'"
  by (auto simp: complete_idempotency_def put_idempotency_def split: option.splits)

lemma bus_execute_cases:
  assumes "bus_execute env ct j context ev key db = Inr (r, db')"
  obtains (direct) "ct \<notin> set IDEMPOTENT_COMMANDS" "execute env ct j context ev db = Inr (r, db')"
  | (replayed) k where "ct \<in> set IDEMPOTENT_COMMANDS" "key = Some k"
      "reserve_idempotency env k ct (canonical_request_hash env ct j) (principal_fingerprint env context) db = Inr (Some r, db')"
  | (executed) k db1 db2 where "ct \<in> set IDEMPOTENT_COMMANDS" "key = Some k"
      "reserve_idempotency env k ct (canonical_request_hash env ct j) (principal_fingerprint env context) db = Inr (None, db1)"
      "execute env ct j context ev db1 = Inr (r, db2)" "complete_idempotency k r db2 = Inr db'"
proof (cases "ct \<in> set IDEMPOTENT_COMMANDS")
  case False
  then show thesis using assms direct by (auto simp: bus_execute_def)
next
  case True
  obtain k replay db1 where "key = Some k"
    "reserve_idempotency env k ct (canonical_request_hash env ct j) (principal_fingerprint env context) db = Inr (replay, db1)"
    "(case replay of Some r' \<Rightarrow> r = r' \<and> db' = db1
      | None \<Rightarrow> \<exists>db2. execute env ct j context ev db1 = Inr (r, db2) \<and> complete_idempotency k r db2 = Inr db')"
    using assms True by (auto simp: bus_execute_def split: option.splits if_splits)
  then show thesis using True replayed executed by (cases replay) auto
qed

lemma bus_execute_sound: "bus_execute env ct j context ev key db = Inr (r, db') \<Longrightarrow> sound_step db db'"
  by (erule bus_execute_cases) (auto dest!: execute_sound reserve_sound complete_sound intro: sound_trans)

text \<open>The record a successful idempotent command leaves behind.\<close>

definition completed :: "env \<Rightarrow> string \<Rightarrow> json \<Rightarrow> execution_context \<Rightarrow> response \<Rightarrow> idempotency_record option \<Rightarrow> bool" where
  "completed env ct j context r x \<longleftrightarrow>
     (\<exists>y. x = Some y \<and> idm_command_type y = ct \<and> idm_request_hash y = canonical_request_hash env ct j
        \<and> idm_principal_hash y = principal_fingerprint env context \<and> idm_status_code y = 200
        \<and> (ct \<noteq> ''PrepareFinalizedPackage'' \<longrightarrow> idm_response y = r))"

lemma ledger_idempotency: "ledger db' = ledger db \<Longrightarrow> db_idempotency db' = db_idempotency db"
  by (simp add: ledger_def)

lemma executed_record:
  assumes "row_get idm_key k (db_idempotency db1) = Some x" and "execute env ct j context ev db1 = Inr (r, db2)"
    and "complete_idempotency k r db2 = Inr db'"
  shows "row_get idm_key k (db_idempotency db')
    = Some (x\<lparr>idm_response := persisted_response (idm_command_type x) r, idm_status_code := 200\<rparr>)"
proof -
  have "db_idempotency db2 = db_idempotency db1" using execute_ledger [OF assms(2)] by (rule ledger_idempotency)
  moreover have "idm_key x = k" using row_get_SomeD [OF assms(1)] by simp
  ultimately show ?thesis using assms(1,3) by (auto simp: complete_idempotency_def put_idempotency_def row_get_put)
qed

lemma completed_after:
  assumes "bus_execute env ct j context ev (Some k) db = Inr (r, db')" and "ct \<in> set IDEMPOTENT_COMMANDS"
  shows "completed env ct j context r (row_get idm_key k (db_idempotency db'))"
  using assms(1)
proof (cases rule: bus_execute_cases)
  case (replayed k')
  then show ?thesis
    by (auto simp: completed_def reserve_idempotency_def idempotency_replay_def Let_def split: option.splits if_splits response.splits)
next
  case (executed k' db1 db2)
  obtain x where x: "row_get idm_key k (db_idempotency db1) = Some x" "idm_command_type x = ct"
      "idm_request_hash x = canonical_request_hash env ct j" "idm_principal_hash x = principal_fingerprint env context"
  proof (cases "row_get idm_key k (db_idempotency db)")
    case None
    then show thesis using executed(2,3) that by (auto simp: reserve_idempotency_def row_get_append)
  next
    case (Some y)
    then have "idm_key y = k" by (auto dest: row_get_SomeD)
    with Some show thesis using executed(2,3) that
      by (auto simp: reserve_idempotency_def idempotency_replay_def put_idempotency_def row_get_put Let_def
          split: if_splits response.splits)
  qed
  then show ?thesis
    using executed_record [OF x(1) executed(4)] executed(2,5) by (auto simp: completed_def persisted_response_def)
qed (use assms(2) in simp)

lemma replay_other_key:
  "idempotency_replay env x ct h p db = Inr (replay, db') \<Longrightarrow> idm_key x \<noteq> k \<Longrightarrow>
   row_get idm_key k (db_idempotency db') = row_get idm_key k (db_idempotency db)"
  by (auto simp: idempotency_replay_def put_idempotency_def Let_def split: if_splits response.splits)

lemma reserve_other_key:
  "reserve_idempotency env k' ct h p db = Inr (replay, db') \<Longrightarrow> k' \<noteq> k \<Longrightarrow>
   row_get idm_key k (db_idempotency db') = row_get idm_key k (db_idempotency db)"
  by (auto simp: reserve_idempotency_def row_get_append split: option.splits dest: row_get_SomeD replay_other_key)

lemma complete_other_key:
  "complete_idempotency k' r db = Inr db' \<Longrightarrow> k' \<noteq> k \<Longrightarrow>
   row_get idm_key k (db_idempotency db') = row_get idm_key k (db_idempotency db)"
  by (auto simp: complete_idempotency_def put_idempotency_def row_get_put split: option.splits dest!: row_get_SomeD)

text \<open>Commands under other keys.\<close>

definition other_command :: "string \<Rightarrow> db \<Rightarrow> db \<Rightarrow> bool" where
  "other_command k db db' \<longleftrightarrow> (\<exists>env ct j context ev key r. bus_execute env ct j context ev key db = Inr (r, db') \<and> key \<noteq> Some k)"

lemma other_command_keeps: "other_command k db db' \<Longrightarrow> row_get idm_key k (db_idempotency db') = row_get idm_key k (db_idempotency db)"
proof -
  assume "other_command k db db'"
  then obtain env ct j cx ev key r where run: "bus_execute env ct j cx ev key db = Inr (r, db')" and k: "key \<noteq> Some k"
    by (auto simp: other_command_def)
  from run show ?thesis
  proof (cases rule: bus_execute_cases)
    case direct
    then show ?thesis using ledger_idempotency [OF execute_ledger] by metis
  next
    case (replayed k')
    then show ?thesis using reserve_other_key k by blast
  next
    case (executed k' db1 db2)
    have "db_idempotency db2 = db_idempotency db1" using execute_ledger [OF executed(4)] by (rule ledger_idempotency)
    then show ?thesis using reserve_other_key [OF executed(3), of k] complete_other_key [OF executed(5), of k] k executed(2) by simp
  qed
qed

lemma other_commands_keep:
  "(other_command k)\<^sup>*\<^sup>* db db' \<Longrightarrow> row_get idm_key k (db_idempotency db') = row_get idm_key k (db_idempotency db)"
  by (induction rule: rtranclp_induct) (auto dest: other_command_keeps)

lemma completed_replays:
  assumes "completed env ct j context r (row_get idm_key k (db_idempotency db))" and "ct \<in> set IDEMPOTENT_COMMANDS" and "k \<noteq> ''''"
    and "ct \<noteq> ''PrepareFinalizedPackage''" and "env_sha256_hex env' = env_sha256_hex env"
    and "admit_command env' ct j context = Inr ()"
  shows "bus_execute env' ct j context ev (Some k) db = Inr (r, db)"
  using assms by (auto simp: completed_def bus_execute_def reserve_idempotency_def idempotency_replay_def
      canonical_request_hash_def principal_fingerprint_def Let_def)

text \<open>
  C4. An idempotent command takes effect at most once: after a command has succeeded under a key,
  and after any number of other commands, a retry of the same request under that key by the same
  principal returns the recorded response and changes nothing - whatever version it now expects and
  whatever time it is. (A package request is the exception: it answers with the state of the
  package.)
\<close>

theorem idempotent_replay:
  assumes "bus_execute env ct j context ev (Some k) db = Inr (r, db1)" and "ct \<in> set IDEMPOTENT_COMMANDS" and "k \<noteq> ''''"
    and "ct \<noteq> ''PrepareFinalizedPackage''" and "(other_command k)\<^sup>*\<^sup>* db1 db2"
    and "env_sha256_hex env' = env_sha256_hex env" and "admit_command env' ct j context = Inr ()"
  shows "bus_execute env' ct j context ev' (Some k) db2 = Inr (r, db2)"
proof -
  have "completed env ct j context r (row_get idm_key k (db_idempotency db2))"
    using completed_after [OF assms(1,2)] other_commands_keep [OF assms(5)] by simp
  then show ?thesis using completed_replays assms(2-4,6,7) by blast
qed

text \<open>
  C33. A key cannot be reused for something else: after a command has succeeded under a key, another
  request under the same key - of another type, or with a payload that is not the same JSON value up
  to the order of keys - is refused with an idempotency conflict, provided the digest does not map
  the two request texts to the same value.
\<close>

theorem reused_key_conflicts:
  assumes "bus_execute env ct j context ev (Some k) db = Inr (r, db1)" and "ct \<in> set IDEMPOTENT_COMMANDS" and "k \<noteq> ''''"
    and "(other_command k)\<^sup>*\<^sup>* db1 db2" and "env_sha256_hex env' = env_sha256_hex env"
    and "ct' \<in> set IDEMPOTENT_COMMANDS" and "admit_command env' ct' j' context = Inr ()"
    and "ct' \<noteq> ct \<or> json_canon j' \<noteq> json_canon j"
    and "canonical_request_hash env ct j = canonical_request_hash env ct' j' \<Longrightarrow>
         json_dumps (JObj [(''command_type'', JStr ct), (''payload'', j)])
         = json_dumps (JObj [(''command_type'', JStr ct'), (''payload'', j')])"
  shows "bus_execute env' ct' j' context ev' (Some k) db2 = raise IDEMPOTENCY_CONFLICT"
proof -
  obtain y where y: "row_get idm_key k (db_idempotency db2) = Some y" "idm_command_type y = ct"
      "idm_request_hash y = canonical_request_hash env ct j" "idm_principal_hash y = principal_fingerprint env context"
    using completed_after [OF assms(1,2)] other_commands_keep [OF assms(4)] by (auto simp: completed_def)
  have same: "principal_fingerprint env' = principal_fingerprint env" "canonical_request_hash env' = canonical_request_hash env"
    using assms(5) by (auto simp: principal_fingerprint_def canonical_request_hash_def fun_eq_iff)
  have "ct' \<noteq> ct \<or> canonical_request_hash env ct j \<noteq> canonical_request_hash env ct' j'"
    using assms(8,9) by (auto simp: json_dumps_def dest!: json_text_inj)
  then show ?thesis using assms(3,6,7) y
    by (auto simp: bus_execute_def reserve_idempotency_def idempotency_replay_def same)
qed

theorem idempotent_replay_witness:
  "\<exists>r db1. bus_execute ex_env ''CreateResponsibleEditor'' (JObj [(''display_name'', JStr ''Ann'')]) ex_context None (Some ''k1'') ex_db = Inr (r, db1)
     \<and> bus_execute (ex_env\<lparr>env_now := 7\<rparr>) ''CreateResponsibleEditor'' (JObj [(''display_name'', JStr ''Ann'')]) ex_context (Some 3) (Some ''k1'') db1
         = Inr (r, db1)"
proof -
  let ?j = "JObj [(''display_name'', JStr ''Ann'')]"
  have "succeeds (bus_execute ex_env ''CreateResponsibleEditor'' ?j ex_context None (Some ''k1'') ex_db)" by code_simp
  then obtain r db1 where run: "bus_execute ex_env ''CreateResponsibleEditor'' ?j ex_context None (Some ''k1'') ex_db = Inr (r, db1)"
    by (rule succeeds_pairE)
  have "admit_command (ex_env\<lparr>env_now := 7\<rparr>) ''CreateResponsibleEditor'' ?j ex_context = Inr ()" by code_simp
  moreover have "''CreateResponsibleEditor'' \<in> set IDEMPOTENT_COMMANDS" by (simp add: IDEMPOTENT_COMMANDS_def)
  ultimately show ?thesis
    using idempotent_replay [OF run _ _ _ rtranclp.rtrancl_refl, of "ex_env\<lparr>env_now := 7\<rparr>" "Some 3"] run by simp
qed

theorem reused_key_conflicts_witness:
  "\<exists>r db1. bus_execute ex_env ''CreateResponsibleEditor'' (JObj [(''display_name'', JStr ''Ann'')]) ex_context None (Some ''k1'') ex_db = Inr (r, db1)
     \<and> bus_execute ex_env ''CreateResponsibleEditor'' (JObj [(''display_name'', JStr ''Bob'')]) ex_context None (Some ''k1'') db1
         = raise IDEMPOTENCY_CONFLICT"
proof -
  let ?j = "\<lambda>s. JObj [(''display_name'', JStr s)]"
  have "succeeds (bus_execute ex_env ''CreateResponsibleEditor'' (?j ''Ann'') ex_context None (Some ''k1'') ex_db)" by code_simp
  then obtain r db1 where run: "bus_execute ex_env ''CreateResponsibleEditor'' (?j ''Ann'') ex_context None (Some ''k1'') ex_db = Inr (r, db1)"
    by (rule succeeds_pairE)
  have admit: "admit_command ex_env ''CreateResponsibleEditor'' (?j ''Bob'') ex_context = Inr ()" by code_simp
  have idem: "''CreateResponsibleEditor'' \<in> set IDEMPOTENT_COMMANDS" by (simp add: IDEMPOTENT_COMMANDS_def)
  have key: "''k1'' \<noteq> ''''" by simp
  have other: "json_canon (?j ''Bob'') \<noteq> json_canon (?j ''Ann'')" by simp
  have hash: "canonical_request_hash ex_env ct a = canonical_request_hash ex_env ct' b \<Longrightarrow>
      json_dumps (JObj [(''command_type'', JStr ct), (''payload'', a)]) = json_dumps (JObj [(''command_type'', JStr ct'), (''payload'', b)])"
    for ct ct' a b by (simp add: canonical_request_hash_def ex_env_def)
  have "bus_execute ex_env ''CreateResponsibleEditor'' (?j ''Bob'') ex_context None (Some ''k1'') db1 = raise IDEMPOTENCY_CONFLICT"
    by (rule reused_key_conflicts [OF run idem key rtranclp.rtrancl_refl refl idem admit disjI2 [OF other] hash])
  then show ?thesis using run by blast
qed

end
