(* ===== verification/Transactions.thy ===== *)
theory Transactions
  imports Commands
begin

text \<open>
  The transaction around a command: \<open>run_command\<close> of
  \<open>src/backend/app/modules/review_http/command_routes.py\<close> with the request checks before
  it, and the operation log of the repository. A command that fails is rolled back; its log entry is
  written in a transaction of its own. Whether the commit succeeds is an input: a commit that raises
  may or may not have been applied. The storage work that is queued for after the commit stays in
  the queues of the state; the next command starts with empty ones, as every request has a session
  of its own.
\<close>

section \<open>The operation log\<close>

definition or_default :: "string \<Rightarrow> string \<Rightarrow> string" where
  "or_default d s = (if s = '''' then d else s)"

definition bounded :: "env \<Rightarrow> nat \<Rightarrow> string \<Rightarrow> string" where
  "bounded env limit value = concat (take limit (map (\<lambda>c. if env_printable env c then c else ''?'') (code_points value)))"

definition operation_identity_hash ::
  "env \<Rightarrow> execution_context \<Rightarrow> string option \<Rightarrow> string \<Rightarrow> string option \<Rightarrow> string \<Rightarrow> string option \<Rightarrow> string" where
  "operation_identity_hash env context identity command_type idempotency_key resource_type resource_id =
     (let command_identity =
        (case idempotency_key of
           Some key \<Rightarrow> env_sha256_hex env key
         | None \<Rightarrow>
             (case identity of
                Some x \<Rightarrow> if length x = 64 then x else env_sha256_hex env (ctx_request_id context)
              | None \<Rightarrow> env_sha256_hex env (ctx_request_id context)))
      in stable_hash env (JObj
           [(''command_identity'', JStr command_identity), (''command_type'', JStr command_type),
            (''resource_type'', JStr resource_type), (''resource_id'', json_opt resource_id),
            (''principal_kind'', JStr (pr_kind (ctx_principal context))),
            (''principal_id'', json_opt (pr_id (ctx_principal context)))]))"

text \<open>What an entry is about; the client address and the fingerprint of the browser are not modelled.\<close>

record operation =
  opr_command_type :: string
  opr_idempotency_key :: "string option"
  opr_identity :: "string option"
  opr_resource_type :: string
  opr_resource_id :: "string option"

definition operation_hash :: "env \<Rightarrow> execution_context \<Rightarrow> operation \<Rightarrow> string" where
  "operation_hash env context o1 =
     operation_identity_hash env context (opr_identity o1) (opr_command_type o1) (opr_idempotency_key o1)
       (opr_resource_type o1) (opr_resource_id o1)"

definition add_operation_log ::
  "env \<Rightarrow> execution_context \<Rightarrow> operation \<Rightarrow> string \<Rightarrow> string option \<Rightarrow> string option \<Rightarrow> db \<Rightarrow> db" where
  "add_operation_log env context o1 result error_code failure_stage db =
     db\<lparr>db_logs := db_logs db @
       [\<lparr>olg_request_id = or_default ''unknown'' (bounded env 64 (ctx_request_id context)),
         olg_entry_source =
           (if ctx_entry_source context \<in> {''edit'', ''review'', ''embedded'', ''unspecified''}
            then ctx_entry_source context else ''unspecified''),
         olg_command_type = or_default ''UnknownCommand'' (bounded env 128 (opr_command_type o1)),
         olg_capability = map_option (bounded env 128) (map_of COMMAND_CAPABILITIES (opr_command_type o1)),
         olg_principal_kind = or_default ''anonymous'' (bounded env 32 (pr_kind (ctx_principal context))),
         olg_principal_id = map_option (bounded env 128) (pr_id (ctx_principal context)),
         olg_idempotency_key_hash = map_option (env_sha256_hex env) (opr_idempotency_key o1),
         olg_operation_identity_hash = operation_hash env context o1,
         olg_resource_type = or_default ''request'' (bounded env 32 (opr_resource_type o1)),
         olg_resource_id = map_option (bounded env 128) (opr_resource_id o1), olg_result = result,
         olg_error_code = map_option (bounded env 64) error_code,
         olg_failure_stage = map_option (bounded env 32) failure_stage, olg_created_at = env_now env\<rparr>]\<rparr>"

definition persist_failed_operation_log ::
  "env \<Rightarrow> execution_context \<Rightarrow> operation \<Rightarrow> string \<Rightarrow> string \<Rightarrow> db \<Rightarrow> db" where
  "persist_failed_operation_log env context o1 error_code failure_stage db =
     add_operation_log env context o1 ''error'' (Some error_code) (Some failure_stage) db"

text \<open>An unknown outcome is recorded only when no committed outcome is visible; the unique index on
  unknown outcomes keeps it to one entry.\<close>

definition persist_uncertain_operation_log :: "env \<Rightarrow> execution_context \<Rightarrow> operation \<Rightarrow> string \<Rightarrow> db \<Rightarrow> db" where
  "persist_uncertain_operation_log env context o1 failure_stage db =
     (let same = (\<lambda>result l. olg_operation_identity_hash l = operation_hash env context o1 \<and> olg_result l = result)
      in if list_ex (same ''ok'') (db_logs db) then db
         else if list_ex (same ''unknown'') (db_logs db) then db
         else add_operation_log env context o1 ''unknown'' (Some ''COMMIT_OUTCOME_UNKNOWN'') (Some failure_stage) db)"

section \<open>Request checks\<close>

definition LOCK_REQUIRED_COMMANDS :: "string list" where
  "LOCK_REQUIRED_COMMANDS =
     [''UpdateProject'', ''LockProjectFrameRate'', ''RenameResponsibleEditor'', ''ArchiveProject'', ''RestoreProject'',
      ''DeleteProject'', ''UpdateReviewItem'', ''DeleteReviewItem'', ''UploadReviewVersion'', ''StartReview'',
      ''CreateReviewIssue'', ''UpdateReviewIssue'', ''ResolveReviewIssue'', ''ReopenReviewIssue'', ''SoftDeleteReviewIssue'',
      ''FinalizeProject'', ''RevokeProjectFinalization'', ''FinalizeVersion'', ''RevokeFinalization'', ''RetryFinalizationCleanup'']"

definition strip_quotes :: "string \<Rightarrow> string" where
  "strip_quotes s = rev (dropWhile (\<lambda>c. c = CHR 0x22) (rev (dropWhile (\<lambda>c. c = CHR 0x22) s)))"

definition parse_if_match :: "string option \<Rightarrow> exn + int option" where
  "parse_if_match if_match =
     (case if_match of
        None \<Rightarrow> Inr None
      | Some text \<Rightarrow>
          if text = '''' then Inr None
          else (case py_int (strip_quotes (py_strip text)) of None \<Rightarrow> raise VALIDATION_ERROR | Some n \<Rightarrow> Inr (Some n)))"

definition expected_lock_for :: "string \<Rightarrow> string option \<Rightarrow> exn + int option" where
  "expected_lock_for command_type if_match =
     ebind (parse_if_match if_match) (\<lambda>expected.
     ebind (guard (\<not> (command_type \<in> set LOCK_REQUIRED_COMMANDS \<and> expected = None)) (ReviewError VALIDATION_ERROR)) (\<lambda>_.
     Inr expected))"

definition normalize_idempotency_key :: "string option \<Rightarrow> exn + string" where
  "normalize_idempotency_key key =
     (case key of
        None \<Rightarrow> raise VALIDATION_ERROR
      | Some k \<Rightarrow> if py_len k < 1 \<or> py_len k > 256 then raise VALIDATION_ERROR else Inr k)"

definition audit_resource :: "(string \<times> string) list \<Rightarrow> string \<times> string option" where
  "audit_resource path_payload =
     (case map_of path_payload ''issue_id'' of
        Some x \<Rightarrow> (''review_issue'', Some x)
      | None \<Rightarrow>
          (case map_of path_payload ''version_id'' of
             Some x \<Rightarrow> (''review_version'', Some x)
           | None \<Rightarrow>
               (case map_of path_payload ''review_item_id'' of
                  Some x \<Rightarrow> (''review_item'', Some x)
                | None \<Rightarrow>
                    (case map_of path_payload ''project_ref_id'' of
                       Some x \<Rightarrow> (''project'', Some x)
                     | None \<Rightarrow> (''request'', None)))))"

record envelope =
  cmd_command_id :: string
  cmd_command_type :: string
  cmd_payload :: json

text \<open>The stage a check belongs to, and the key that is logged when it fails.\<close>

definition at_stage :: "string option \<Rightarrow> string \<Rightarrow> exn + 'a \<Rightarrow> (string option \<times> string \<times> exn) + 'a" where
  "at_stage key stage m = map_sum (\<lambda>e. (key, stage, e)) id m"

definition command_inputs ::
  "string \<Rightarrow> envelope \<Rightarrow> (string \<times> string) list \<Rightarrow> string option \<Rightarrow> string option
   \<Rightarrow> (string option \<times> string \<times> exn) + (string option \<times> int option)" where
  "command_inputs fixed_command_type envelope path_payload idempotency_key if_match =
     (let invalid = ReviewError VALIDATION_ERROR; payload = cmd_payload envelope
      in ebind (at_stage idempotency_key ''command_type'' (guard (cmd_command_type envelope = fixed_command_type) invalid)) (\<lambda>_.
         ebind (at_stage idempotency_key ''idempotency_key''
                  (if fixed_command_type \<in> set IDEMPOTENT_COMMANDS
                   then ebind (normalize_idempotency_key idempotency_key) (\<lambda>k.
                        ebind (guard (k = cmd_command_id envelope) invalid) (\<lambda>_. Inr (Some k)))
                   else Inr None)) (\<lambda>key.
         ebind (at_stage key ''payload'' (guard (null_free payload) invalid)) (\<lambda>_.
         ebind (at_stage key ''path_payload''
                  (guard (list_all (\<lambda>(k, v). jget payload k = Some (JStr v)) path_payload) invalid)) (\<lambda>_.
         ebind (at_stage key ''lock'' (expected_lock_for fixed_command_type if_match)) (\<lambda>expected.
         Inr (key, expected)))))))"

section \<open>The transaction\<close>

definition DEFINITIVE_UPLOAD_BINDING_REJECTION_CODES :: "string list" where
  "DEFINITIVE_UPLOAD_BINDING_REJECTION_CODES =
     [''PROJECT_FRAME_RATE_REQUIRED'', ''MEDIA_FRAME_RATE_UNKNOWN'', ''MEDIA_VARIABLE_FRAME_RATE'',
      ''MEDIA_FRAME_RATE_NOT_ALLOWED'', ''MEDIA_FRAME_RATE_MISMATCH'', ''RESPONSIBLE_EDITOR_NOT_FOUND'']"

definition cleanup_rejected_unbound_upload ::
  "env \<Rightarrow> string \<Rightarrow> json \<Rightarrow> execution_context \<Rightarrow> string \<Rightarrow> db \<Rightarrow> db" where
  "cleanup_rejected_unbound_upload env command_type payload context error_code db =
     (if command_type \<notin> {''CreateReviewItem'', ''UploadReviewVersion''} then db
      else if error_code \<notin> set DEFINITIVE_UPLOAD_BINDING_REJECTION_CODES then db
      else
        (case jget_str payload ''original_file_id'' of
           None \<Rightarrow> db
         | Some file_id \<Rightarrow>
             if file_id = '''' then db
             else
               (case cleanup_unbound_uploaded_file env file_id context db of
                  Inr (True, db') \<Rightarrow> db'
                | _ \<Rightarrow> db)))"

definition exn_code :: "exn \<Rightarrow> string" where
  "exn_code e = (case e of ReviewError code \<Rightarrow> error_code_name code | _ \<Rightarrow> ''INTERNAL_SERVER_ERROR'')"

datatype commit_outcome = Commit_Ok | Commit_Raises exn bool

definition fresh_session :: "db \<Rightarrow> db" where
  "fresh_session db = db\<lparr>db_post_file_deletions := [], db_post_package_deletions := [], db_post_intents := []\<rparr>"

text \<open>The handlers of \<open>run_command\<close> for an exception before the commit: the database's
  refusal is reported as a conflict, any other error as it is.\<close>

definition failed_command ::
  "env \<Rightarrow> execution_context \<Rightarrow> operation \<Rightarrow> json \<Rightarrow> string \<Rightarrow> exn \<Rightarrow> db \<Rightarrow> (exn + response) \<times> db" where
  "failed_command env context o1 payload stage e db =
     (if e = IntegrityError
      then (raise RESOURCE_STATE_CONFLICT,
            persist_failed_operation_log env context o1 (error_code_name RESOURCE_STATE_CONFLICT) stage db)
      else (Inl e,
            cleanup_rejected_unbound_upload env (opr_command_type o1) payload context (exn_code e)
              (persist_failed_operation_log env context o1 (exn_code e) stage db)))"

definition finish_command ::
  "env \<Rightarrow> execution_context \<Rightarrow> operation \<Rightarrow> commit_outcome \<Rightarrow> response \<Rightarrow> db \<Rightarrow> db \<Rightarrow> (exn + response) \<times> db" where
  "finish_command env context o1 commit response before after =
     (let logged = add_operation_log env context o1 ''ok'' None None after
      in case commit of
           Commit_Ok \<Rightarrow> (Inr response, logged)
         | Commit_Raises e applied \<Rightarrow>
             let visible = (if applied then logged else before)
             in if e = IntegrityError
                then (raise RESOURCE_STATE_CONFLICT,
                      persist_failed_operation_log env context o1 (error_code_name RESOURCE_STATE_CONFLICT) ''commit'' visible)
                else (Inl e, persist_uncertain_operation_log env context o1 ''commit'' visible))"

definition run_command ::
  "env \<Rightarrow> commit_outcome \<Rightarrow> string \<Rightarrow> envelope \<Rightarrow> (string \<times> string) list \<Rightarrow> execution_context \<Rightarrow> string option
   \<Rightarrow> string option \<Rightarrow> db \<Rightarrow> (exn + response) \<times> db" where
  "run_command env commit fixed_command_type envelope path_payload context idempotency_key if_match db =
     (let db = fresh_session db; payload = cmd_payload envelope; (resource_type, resource_id) = audit_resource path_payload;
          about = (\<lambda>key identity. \<lparr>opr_command_type = fixed_command_type, opr_idempotency_key = key, opr_identity = identity,
                     opr_resource_type = resource_type, opr_resource_id = resource_id\<rparr>)
      in case command_inputs fixed_command_type envelope path_payload idempotency_key if_match of
           Inl (key, stage, e) \<Rightarrow> failed_command env context (about key None) payload stage e db
         | Inr (key, expected) \<Rightarrow>
             let identity =
                   (case admit_command env fixed_command_type payload context of
                      Inl _ \<Rightarrow> None
                    | Inr _ \<Rightarrow> Some (execution_identity env fixed_command_type payload context expected));
                 o1 = about key identity
             in case bus_execute env fixed_command_type payload context expected
                       (Some (case key of Some k \<Rightarrow> k | None \<Rightarrow> cmd_command_id envelope)) db of
                  Inl e \<Rightarrow> failed_command env context o1 payload ''execution'' e db
                | Inr (response, db') \<Rightarrow> finish_command env context o1 commit response db db')"

section \<open>Soundness\<close>

lemma core_fresh [simp]: "core_of (fresh_session db) = core_of db" "db_events (fresh_session db) = db_events db"
  "db_logs (fresh_session db) = db_logs db" "db_idempotency (fresh_session db) = db_idempotency db"
  by (simp_all add: fresh_session_def core_of_def)

lemma log_frame:
  "\<exists>l. add_operation_log env c o1 res err st db = db\<lparr>db_logs := db_logs db @ [l]\<rparr> \<and> olg_result l = res
     \<and> olg_operation_identity_hash l = operation_hash env c o1 \<and> olg_error_code l = map_option (bounded env 64) err"
  unfolding add_operation_log_def by (rule exI, intro conjI, rule refl) simp_all

lemma uncertain_frame:
  "persist_uncertain_operation_log env c o1 st db = db
   \<or> (\<exists>l. persist_uncertain_operation_log env c o1 st db = db\<lparr>db_logs := db_logs db @ [l]\<rparr> \<and> olg_result l = ''unknown''
        \<and> (\<forall>l' \<in> set (db_logs db). olg_operation_identity_hash l' = olg_operation_identity_hash l \<longrightarrow> olg_result l' \<notin> {''ok'', ''unknown''}))"
  by (auto simp: persist_uncertain_operation_log_def add_operation_log_def list_ex_iff)

lemma cleanup_rejected_frame:
  "\<exists>us fs q. cleanup_rejected_unbound_upload env ct j c code db = db\<lparr>db_uploads := us, db_files := fs, db_post_file_deletions := q\<rparr>"
proof -
  have same: "\<exists>us fs q. db = db\<lparr>db_uploads := us, db_files := fs, db_post_file_deletions := q\<rparr>" for db :: db
    by (intro exI [of _ "db_uploads db"] exI [of _ "db_files db"] exI [of _ "db_post_file_deletions db"]) simp
  have "cleanup_unbound_uploaded_file env f c db = Inr (b, db') \<Longrightarrow>
      \<exists>us fs q. db' = db\<lparr>db_uploads := us, db_files := fs, db_post_file_deletions := q\<rparr>" for f b db'
    using same [of db]
    by (auto simp: cleanup_unbound_uploaded_file_def delete_file_object_if_unreferenced_def Let_def split: option.splits if_splits)
  then show ?thesis using same [of db]
    by (auto simp: cleanup_rejected_unbound_upload_def split: option.splits sum.splits bool.splits)
qed

lemma failed_command_frame:
  "\<exists>l us fs q. snd (failed_command env c o1 j st e db)
     = db\<lparr>db_logs := db_logs db @ [l], db_uploads := us, db_files := fs, db_post_file_deletions := q\<rparr>
   \<and> olg_result l = ''error'' \<and> (\<exists>e'. fst (failed_command env c o1 j st e db) = Inl e')"
proof (cases "e = IntegrityError")
  case True
  then show ?thesis
    by (intro exI [of _ "last (db_logs (add_operation_log env c o1 ''error'' (Some (error_code_name RESOURCE_STATE_CONFLICT)) (Some st) db))"]
        exI [of _ "db_uploads db"] exI [of _ "db_files db"] exI [of _ "db_post_file_deletions db"])
      (simp add: failed_command_def persist_failed_operation_log_def add_operation_log_def)
next
  case False
  let ?logged = "persist_failed_operation_log env c o1 (exn_code e) st db"
  obtain l where l: "?logged = db\<lparr>db_logs := db_logs db @ [l]\<rparr>" "olg_result l = ''error''"
    using log_frame [of env c o1 "''error''"] unfolding persist_failed_operation_log_def by blast
  obtain us fs q where "cleanup_rejected_unbound_upload env (opr_command_type o1) j c (exn_code e) ?logged
      = ?logged\<lparr>db_uploads := us, db_files := fs, db_post_file_deletions := q\<rparr>" using cleanup_rejected_frame by blast
  then show ?thesis using False l by (auto simp: failed_command_def)
qed

lemma failed_command_sound: "sound_step db (snd (failed_command env c o1 j st e db))"
proof -
  obtain l us fs q where "snd (failed_command env c o1 j st e db)
      = db\<lparr>db_logs := db_logs db @ [l], db_uploads := us, db_files := fs, db_post_file_deletions := q\<rparr>"
    using failed_command_frame [of env c o1 j st e db] by blast
  then show ?thesis by (intro sound_frame) (simp_all add: core_of_def)
qed

lemma finish_command_sound:
  assumes "sound_step db db'"
  shows "sound_step db (snd (finish_command env c o1 commit r db db'))"
proof -
  have log: "sound_step a (add_operation_log env c o1 res err st a)" for a res err st
    by (simp add: add_operation_log_def)
  have unc: "sound_step a (persist_uncertain_operation_log env c o1 st a)" for a st
    using uncertain_frame [of env c o1 st a] by auto
  have ok: "sound_step db (add_operation_log env c o1 ''ok'' None None db')" using assms log by (rule sound_trans)
  show ?thesis
    using sound_trans [OF ok log] sound_trans [OF ok unc] log unc ok
    by (auto simp: finish_command_def persist_failed_operation_log_def Let_def split: commit_outcome.splits)
qed

lemma fresh_session_sound: "sound_step db (fresh_session db)"
  by (rule sound_frame) simp_all

text \<open>The three ways a command can end.\<close>

lemma run_command_cases:
  obtains (refused) o1 st e where "run_command env commit ct v pp c key im db = failed_command env c o1 (cmd_payload v) st e (fresh_session db)"
      "opr_command_type o1 = ct"
  | (finished) o1 r db' ev k where "bus_execute env ct (cmd_payload v) c ev (Some k) (fresh_session db) = Inr (r, db')"
      "run_command env commit ct v pp c key im db = finish_command env c o1 commit r (fresh_session db) db'"
proof -
  obtain rt rid where res: "audit_resource pp = (rt, rid)" by fastforce
  show thesis
  proof (cases "command_inputs ct v pp key im")
    case (Inl x)
    obtain k st e where x: "x = (k, st, e)" by (cases x)
    let ?o = "\<lparr>opr_command_type = ct, opr_idempotency_key = k, opr_identity = None, opr_resource_type = rt, opr_resource_id = rid\<rparr>"
    have "run_command env commit ct v pp c key im db = failed_command env c ?o (cmd_payload v) st e (fresh_session db)"
      using Inl res x by (simp add: run_command_def Let_def)
    then show thesis by (rule refused) simp
  next
    case (Inr x)
    obtain k ev where x: "x = (k, ev)" by fastforce
    let ?k = "case k of Some k \<Rightarrow> k | None \<Rightarrow> cmd_command_id v"
    show thesis
    proof (cases "bus_execute env ct (cmd_payload v) c ev (Some ?k) (fresh_session db)")
      case (Inl e)
      let ?i = "case admit_command env ct (cmd_payload v) c of Inl _ \<Rightarrow> None | Inr _ \<Rightarrow> Some (execution_identity env ct (cmd_payload v) c ev)"
      let ?o = "\<lparr>opr_command_type = ct, opr_idempotency_key = k, opr_identity = ?i, opr_resource_type = rt, opr_resource_id = rid\<rparr>"
      have "run_command env commit ct v pp c key im db = failed_command env c ?o (cmd_payload v) ''execution'' e (fresh_session db)"
        using Inl res \<open>command_inputs ct v pp key im = Inr x\<close> x by (simp add: run_command_def Let_def)
      then show thesis by (rule refused) simp
    next
      case (Inr y)
      obtain r db' where "y = (r, db')" by fastforce
      then show thesis using finished Inr res \<open>command_inputs ct v pp key im = Inr x\<close> x by (auto simp: run_command_def Let_def)
    qed
  qed
qed

lemma run_command_sound: "sound_step db (snd (run_command env commit ct v pp c key im db))"
proof (cases rule: run_command_cases [of env commit ct v pp c key im db])
  case (refused o1 st e)
  then show ?thesis using sound_trans [OF fresh_session_sound failed_command_sound] by simp
next
  case (finished o1 r db' ev k)
  then show ?thesis using sound_trans [OF fresh_session_sound finish_command_sound [OF bus_execute_sound]] by simp
qed

section \<open>The audit trail\<close>

lemma bus_execute_logs: "bus_execute env ct j context ev key db = Inr (r, db') \<Longrightarrow> db_logs db' = db_logs db"
proof (erule bus_execute_cases, goal_cases)
  case 1
  then show ?case using execute_ledger by (fastforce simp: ledger_def)
next
  case (2 k)
  then show ?case by (auto simp: reserve_idempotency_def put_idempotency_def split: option.splits dest!: replay_frame)
next
  case (3 k db1 db2)
  have "db_logs db1 = db_logs db" using 3(3) by (auto simp: reserve_idempotency_def put_idempotency_def split: option.splits dest!: replay_frame)
  moreover have "db_logs db2 = db_logs db1" using execute_ledger [OF 3(4)] by (simp add: ledger_def)
  ultimately show ?case using 3(5) by (auto simp: complete_idempotency_def put_idempotency_def split: option.splits)
qed

lemma failed_command_logs:
  "\<exists>l e'. db_logs (snd (failed_command env c o1 j st e db)) = db_logs db @ [l] \<and> olg_result l = ''error''
     \<and> fst (failed_command env c o1 j st e db) = Inl e' \<and> olg_error_code l = Some (bounded env 64 (exn_code e'))"
proof (cases "e = IntegrityError")
  case True
  then show ?thesis
    using log_frame [of env c o1 "''error''" "Some (error_code_name RESOURCE_STATE_CONFLICT)" "Some st" db]
    by (auto simp: failed_command_def persist_failed_operation_log_def exn_code_def)
next
  case False
  let ?logged = "persist_failed_operation_log env c o1 (exn_code e) st db"
  obtain l where "?logged = db\<lparr>db_logs := db_logs db @ [l]\<rparr>" "olg_result l = ''error''"
      "olg_error_code l = Some (bounded env 64 (exn_code e))"
    using log_frame [of env c o1 "''error''" "Some (exn_code e)" "Some st" db] unfolding persist_failed_operation_log_def by auto
  moreover obtain us fs q where "cleanup_rejected_unbound_upload env (opr_command_type o1) j c (exn_code e) ?logged
      = ?logged\<lparr>db_uploads := us, db_files := fs, db_post_file_deletions := q\<rparr>" using cleanup_rejected_frame by blast
  ultimately show ?thesis using False by (simp add: failed_command_def)
qed


text \<open>What a command leaves behind when it fails before its commit.\<close>

lemma failed_commit_ok:
  assumes "run_command env Commit_Ok ct v pp c key im db = (Inl e, db')"
  obtains o1 st e0 where "opr_command_type o1 = ct" "(Inl e, db') = failed_command env c o1 (cmd_payload v) st e0 (fresh_session db)"
proof (cases rule: run_command_cases [of env Commit_Ok ct v pp c key im db])
  case (refused o1 st e0)
  show thesis using refused(1) assms by (intro that [OF refused(2)]) simp
next
  case (finished o1 r db2 ev k)
  then show thesis using assms by (simp add: finish_command_def Let_def)
qed


text \<open>An unknown outcome of an operation is on record once, and never beside a success that preceded it.\<close>

definition unknown_once :: "db \<Rightarrow> bool" where
  "unknown_once db \<longleftrightarrow> distinct (map olg_operation_identity_hash (filter (\<lambda>l. olg_result l = ''unknown'') (db_logs db)))"

lemma unknown_once_append:
  "unknown_once (a\<lparr>db_logs := db_logs a @ [l]\<rparr>) \<longleftrightarrow>
     unknown_once a \<and> (olg_result l = ''unknown'' \<longrightarrow>
       (\<forall>l'\<in>set (db_logs a). olg_operation_identity_hash l' = olg_operation_identity_hash l \<longrightarrow> olg_result l' \<noteq> ''unknown''))"
  by (auto simp: unknown_once_def image_iff)

lemma unknown_once_cong: "db_logs a = db_logs b \<Longrightarrow> unknown_once a = unknown_once b"
  by (simp add: unknown_once_def)

lemma unknown_once_log:
  "res \<noteq> ''unknown'' \<Longrightarrow> unknown_once (add_operation_log env c o1 res err st db) = unknown_once db"
  using log_frame [of env c o1 res err st db] unknown_once_append by auto

lemma unknown_once_uncertain: "unknown_once db \<Longrightarrow> unknown_once (persist_uncertain_operation_log env c o1 st db)"
  using uncertain_frame [of env c o1 st db] by (auto simp: unknown_once_append)

lemma unknown_once_finish:
  assumes "unknown_once db" and "unknown_once db'"
  shows "unknown_once (snd (finish_command env c o1 commit r db db'))"
  using assms by (auto simp: finish_command_def persist_failed_operation_log_def Let_def unknown_once_log
      split: commit_outcome.splits intro!: unknown_once_uncertain)

text \<open>
  However a command ends - also when the commit raises, whether or not it was applied - the
  operation log holds at most one unknown outcome per operation identity.
\<close>

theorem unknown_outcome_once:
  assumes "unknown_once db"
  shows "unknown_once (snd (run_command env commit ct v pp c key im db))"
proof (cases rule: run_command_cases [of env commit ct v pp c key im db])
  case (refused o1 st e)
  obtain l where "db_logs (snd (failed_command env c o1 (cmd_payload v) st e (fresh_session db))) = db_logs db @ [l]" "olg_result l = ''error''"
    using failed_command_logs [of env c o1 "cmd_payload v" st e "fresh_session db"] by auto
  then show ?thesis using refused assms by (simp add: unknown_once_def)
next
  case (finished o1 r db' ev k)
  have fresh: "unknown_once (fresh_session db)" using assms by (simp add: unknown_once_def)
  moreover have "unknown_once db'" using fresh bus_execute_logs [OF finished(1)] unknown_once_cong by blast
  ultimately show ?thesis using finished(2) unknown_once_finish by simp
qed

text \<open>Concrete requests: an editor is created, and a request whose type does not match its route.\<close>

definition ex_envelope :: envelope where
  "ex_envelope = \<lparr>cmd_command_id = ''k1'', cmd_command_type = ''CreateResponsibleEditor'',
     cmd_payload = JObj [(''display_name'', JStr ''Ann'')]\<rparr>"



theorem unknown_outcome_once_witness:
  "unknown_once ex_db \<and> unknown_once (snd (run_command ex_env (Commit_Raises OSError False) ''CreateResponsibleEditor'' ex_envelope []
     ex_context (Some ''k1'') None ex_db))"
proof -
  have "unknown_once ex_db" by (simp add: unknown_once_def ex_defs)
  then show ?thesis using unknown_outcome_once by blast
qed

end
