(* ===== verification/Derivatives.thy ===== *)
theory Derivatives
  imports Media_Containers Transactions
begin

text \<open>
  The database side of the media worker, \<open>src/backend/app/media_derivatives.py\<close>: a task is
  claimed under a lease, the lease is renewed while the transformation runs, the derived file is
  published on its version, or the failure is recorded. The transformation itself and the placement of the
  file in storage are parameters: a function from the claim to a prepared file or an error.
\<close>

section \<open>Claims and prepared files\<close>

record media_claim =
  mcl_task_id :: string
  mcl_lease_id :: string
  mcl_kind :: derivative_kind
  mcl_project_ref_id :: string
  mcl_review_item_id :: string
  mcl_version_id :: string
  mcl_source_file_id :: string
  mcl_source_storage_path :: string
  mcl_source_owner_id :: string
  mcl_source_owner_kind :: string
  mcl_source :: media
  mcl_thumbnail_frame_ms :: int
  mcl_thumbnail_signature :: "string option"

record prepared_derivative =
  prd_output_file_id :: string
  prd_storage_path :: path
  prd_sha256 :: string
  prd_size :: int
  prd_duration_ms :: int
  prd_width :: int
  prd_height :: int
  prd_fps_num :: int
  prd_fps_den :: int
  prd_mime_type :: string
  prd_thumbnail_frame_ms :: int
  prd_thumbnail_signature :: "string option"
  prd_source_video_codec_class :: "string option"
  prd_thumbnail_decode_acceleration :: "string option"

text \<open>The worker's own error class, and the exceptions of everything it calls.\<close>

datatype worker_exn = Media_Exn media_error | Lease_Lost | Service_Exn exn

definition kind_name :: "derivative_kind \<Rightarrow> string" where
  "kind_name k = (case k of playback_faststart \<Rightarrow> ''playback_faststart'' | thumbnail \<Rightarrow> ''thumbnail'')"

definition task_status_name :: "task_status \<Rightarrow> string" where
  "task_status_name s =
     (case s of task_queued \<Rightarrow> ''queued'' | task_running \<Rightarrow> ''running'' | task_ready \<Rightarrow> ''ready'' | task_failed \<Rightarrow> ''failed'')"

definition output_file_id :: "env \<Rightarrow> string \<Rightarrow> derivative_kind \<Rightarrow> int \<Rightarrow> string option \<Rightarrow> string" where
  "output_file_id env task_id kind thumbnail_frame_ms playback_variant =
     (let variant =
            (if kind = thumbnail \<and> thumbnail_frame_ms \<noteq> 0 then [CHR 0x00] @ ''frame-ms='' @ py_str thumbnail_frame_ms
             else case (kind, playback_variant) of
                    (playback_faststart, Some x) \<Rightarrow> [CHR 0x00] @ ''variant='' @ x
                  | _ \<Rightarrow> '''')
      in ''media_'' @ take 32 (env_sha256_hex env
           (''media-derivative-v1'' @ [CHR 0x00] @ task_id @ [CHR 0x00] @ kind_name kind @ variant)))"

definition output_extension :: "derivative_kind \<Rightarrow> string" where
  "output_extension k = (case k of playback_faststart \<Rightarrow> ''.mp4'' | thumbnail \<Rightarrow> ''.jpg'')"

definition lease_deadline_is_future :: "int option \<Rightarrow> int \<Rightarrow> bool" where
  "lease_deadline_is_future deadline now = (case deadline of None \<Rightarrow> False | Some d \<Rightarrow> d > now)"

definition canonical_source_path :: "env \<Rightarrow> media_claim \<Rightarrow> worker_exn + path" where
  "canonical_source_path env claim =
     (let root = cfg_storage_root (env_settings env)
      in ebind (map_sum Service_Exn id (contained_path (mcl_source_storage_path claim) root)) (\<lambda>source_path.
         ebind (map_sum Service_Exn id (contained_path (''files/'' @ mcl_source_file_id claim) root)) (\<lambda>expected.
         if source_path \<noteq> expected
         then Inl (Media_Exn (MediaDerivativeError ''MEDIA_DERIVATIVE_SOURCE_PATH_INVALID'' ''source'' False))
         else Inr source_path)))"

definition probe_matches_source :: "media_probe \<Rightarrow> media_claim \<Rightarrow> bool" where
  "probe_matches_source probe claim \<longleftrightarrow>
     prb_width probe = width (mcl_source claim) \<and> prb_height probe = height (mcl_source claim)
     \<and> prb_fps_num probe = fps_num (mcl_source claim) \<and> prb_fps_den probe = fps_den (mcl_source claim)
     \<and> \<bar>prb_duration_ms probe - duration_ms (mcl_source claim)\<bar> \<le> 1000"

section \<open>Claiming a task\<close>

text \<open>The rows a worker locks, in the order of the locks.\<close>

definition locked_rows ::
  "db \<Rightarrow> string \<Rightarrow> string \<Rightarrow> string \<Rightarrow> string \<Rightarrow> (project \<times> review_item \<times> review_version \<times> derivative_task) option" where
  "locked_rows db project_ref_id review_item_id version_id task_id =
     (case (row_get prj_id project_ref_id (db_projects db),
            List.find (\<lambda>i. itm_id i = review_item_id \<and> itm_project_ref_id i = project_ref_id) (db_items db),
            List.find (\<lambda>v. ver_id v = version_id \<and> ver_project_ref_id v = project_ref_id
               \<and> ver_review_item_id v = review_item_id) (db_versions db),
            row_get mdt_id task_id (db_tasks db)) of
        (Some p, Some i, Some v, Some t) \<Rightarrow> Some (p, i, v, t)
      | _ \<Rightarrow> None)"

definition claim_rows :: "db \<Rightarrow> media_claim \<Rightarrow> (project \<times> review_item \<times> review_version \<times> derivative_task) option" where
  "claim_rows db claim =
     locked_rows db (mcl_project_ref_id claim) (mcl_review_item_id claim) (mcl_version_id claim) (mcl_task_id claim)"

definition task_due :: "int \<Rightarrow> derivative_task \<Rightarrow> bool" where
  "task_due now t \<longleftrightarrow>
     (mdt_status t = task_queued \<and> \<not> lease_deadline_is_future (mdt_next_attempt_at t) now)
     \<or> (mdt_status t = task_running \<and> mdt_lease_expires_at t \<noteq> None
        \<and> \<not> lease_deadline_is_future (mdt_lease_expires_at t) now)"

text \<open>The facts of the file that a version records.\<close>

definition same_source :: "media \<Rightarrow> media \<Rightarrow> bool" where
  "same_source a b \<longleftrightarrow> sha256 a = sha256 b \<and> file_size a = file_size b \<and> duration_ms a = duration_ms b
     \<and> width a = width b \<and> height a = height b \<and> fps_num a = fps_num b \<and> fps_den a = fps_den b"

definition is_current_of :: "review_item \<Rightarrow> review_version \<Rightarrow> bool" where
  "is_current_of i v \<longleftrightarrow> ver_is_current v \<and> itm_current_version_id i = Some (ver_id v)"

text \<open>
  Why a due task is failed instead of claimed; only a deleted project clears the retry time. The
  kinds of a task are an enumeration, so the check for an unknown kind never applies.
\<close>

definition claim_refusal ::
  "settings \<Rightarrow> db \<Rightarrow> project \<Rightarrow> review_item \<Rightarrow> review_version \<Rightarrow> derivative_task \<Rightarrow> string option" where
  "claim_refusal cfg db p i v t =
     (if prj_deleted_at p \<noteq> None then Some ''MEDIA_DERIVATIVE_PROJECT_DELETED''
      else if mdt_attempts t \<ge> cfg_media_worker_max_attempts cfg then Some ''MEDIA_DERIVATIVE_ATTEMPTS_EXHAUSTED''
      else
        (case get_file db (ver_original_file_id v) of
           None \<Rightarrow> Some ''MEDIA_DERIVATIVE_SOURCE_MISSING''
         | Some source \<Rightarrow>
             if \<not> same_source (ver_media v) (fil_media source) then Some ''MEDIA_DERIVATIVE_SOURCE_METADATA_MISMATCH''
             else if mdt_kind t = thumbnail \<and> \<not> is_current_of i v then Some ''MEDIA_DERIVATIVE_VERSION_NOT_CURRENT''
             else None))"

definition refused_task :: "int \<Rightarrow> project \<Rightarrow> string \<Rightarrow> derivative_task \<Rightarrow> derivative_task" where
  "refused_task now p code t =
     t\<lparr>mdt_status := task_failed,
       mdt_next_attempt_at := (if prj_deleted_at p \<noteq> None then None else mdt_next_attempt_at t),
       mdt_lease_id := None, mdt_lease_expires_at := None, mdt_error_code := Some code,
       mdt_failure_details := Some (JObj [(''stage'', JStr ''claim'')]), mdt_updated_at := now\<rparr>"

definition leased_task :: "settings \<Rightarrow> int \<Rightarrow> string \<Rightarrow> derivative_task \<Rightarrow> derivative_task" where
  "leased_task cfg now lease_id t =
     t\<lparr>mdt_status := task_running, mdt_attempts := mdt_attempts t + 1, mdt_next_attempt_at := None,
       mdt_lease_id := Some lease_id, mdt_lease_expires_at := Some (now + seconds (cfg_media_worker_lease_seconds cfg)),
       mdt_error_code := None, mdt_failure_details := None, mdt_updated_at := now\<rparr>"

definition media_claim_of :: "string \<Rightarrow> derivative_task \<Rightarrow> file_object \<Rightarrow> thumb_details \<Rightarrow> media_claim" where
  "media_claim_of lease_id t source d =
     \<lparr>mcl_task_id = mdt_id t, mcl_lease_id = lease_id, mcl_kind = mdt_kind t, mcl_project_ref_id = mdt_project_ref_id t,
      mcl_review_item_id = mdt_review_item_id t, mcl_version_id = mdt_version_id t, mcl_source_file_id = fil_id source,
      mcl_source_storage_path = fil_storage_path source, mcl_source_owner_id = fil_owner_principal_id source,
      mcl_source_owner_kind = fil_owner_principal_kind source, mcl_source = fil_media source,
      mcl_thumbnail_frame_ms = (if mdt_kind t = thumbnail then td_desired_frame_ms d else THUMBNAIL_FRAME_ZERO_MS),
      mcl_thumbnail_signature = (if mdt_kind t = thumbnail then td_frame_signature d else None)\<rparr>"

definition grant_task :: "env \<Rightarrow> file_object \<Rightarrow> derivative_task \<Rightarrow> db \<Rightarrow> exn + media_claim \<times> db" where
  "grant_task env source t db =
     (let (lease_id, db) = new_id env ''lease'' db; leased = leased_task (env_settings env) (env_now env) lease_id t
      in ebind (normalize_thumbnail_result_details (mdt_result_details t)
                  (if mdt_kind t = thumbnail then mdt_output_file_id t else None)) (\<lambda>d.
         Inr (media_claim_of lease_id t source d, put_task leased db)))"

definition due_candidate :: "int \<Rightarrow> string option \<Rightarrow> db \<Rightarrow> derivative_task option" where
  "due_candidate now task_id db =
     (case order_by (\<lambda>t. (mdt_created_at t, mdt_id t))
             (filter (\<lambda>t. task_due now t \<and> (case task_id of None \<Rightarrow> True | Some k \<Rightarrow> mdt_id t = k)) (db_tasks db)) of
        [] \<Rightarrow> None
      | t # _ \<Rightarrow> Some t)"

definition claim_task :: "env \<Rightarrow> string option \<Rightarrow> db \<Rightarrow> exn + (string \<times> media_claim option) \<times> db" where
  "claim_task env task_id db =
     (case due_candidate (env_now env) task_id db of
        None \<Rightarrow>
          Inr (((case Option.bind task_id (\<lambda>k. row_get mdt_id k (db_tasks db)) of
                   Some t \<Rightarrow> task_status_name (mdt_status t)
                 | None \<Rightarrow> ''skipped''), None), db)
      | Some c \<Rightarrow>
          (case locked_rows db (mdt_project_ref_id c) (mdt_review_item_id c) (mdt_version_id c) (mdt_id c) of
             None \<Rightarrow> Inr ((''skipped'', None), db)
           | Some (p, i, v, t) \<Rightarrow>
               if \<not> task_due (env_now env) t then Inr ((task_status_name (mdt_status t), None), db)
               else
                 (case claim_refusal (env_settings env) db p i v t of
                    Some code \<Rightarrow> Inr ((''failed'', None), put_task (refused_task (env_now env) p code t) db)
                  | None \<Rightarrow>
                      (case get_file db (ver_original_file_id v) of
                         None \<Rightarrow> Inr ((''failed'', None), put_task (refused_task (env_now env) p ''MEDIA_DERIVATIVE_SOURCE_MISSING'' t) db)
                       | Some source \<Rightarrow>
                           ebind (grant_task env source t db) (\<lambda>(claim, db). Inr ((''claimed'', Some claim), db))))))"

section \<open>Holding the lease\<close>

definition holds_lease :: "int \<Rightarrow> string \<Rightarrow> derivative_task \<Rightarrow> bool" where
  "holds_lease now lease_id t \<longleftrightarrow> mdt_status t = task_running \<and> mdt_lease_id t = Some lease_id
     \<and> lease_deadline_is_future (mdt_lease_expires_at t) now"

definition renew_lease :: "env \<Rightarrow> media_claim \<Rightarrow> db \<Rightarrow> bool \<times> db" where
  "renew_lease env claim db =
     (case claim_rows db claim of
        None \<Rightarrow> (False, db)
      | Some (p, i, v, t) \<Rightarrow>
          if prj_deleted_at p \<noteq> None \<or> \<not> holds_lease (env_now env) (mcl_lease_id claim) t then (False, db)
          else if mcl_kind claim = thumbnail \<and> \<not> is_current_of i v then (False, db)
          else
            (True, put_task (t\<lparr>mdt_lease_expires_at :=
                Some (env_now env + seconds (cfg_media_worker_lease_seconds (env_settings env))),
                mdt_updated_at := env_now env\<rparr>) db))"

definition lease_is_current :: "env \<Rightarrow> media_claim \<Rightarrow> db \<Rightarrow> bool" where
  "lease_is_current env claim db =
     (case row_get mdt_id (mcl_task_id claim) (db_tasks db) of
        None \<Rightarrow> False
      | Some t \<Rightarrow> holds_lease (env_now env) (mcl_lease_id claim) t)"

section \<open>Publication\<close>

definition derived_file :: "env \<Rightarrow> media_claim \<Rightarrow> prepared_derivative \<Rightarrow> file_object" where
  "derived_file env claim prepared =
     \<lparr>fil_id = prd_output_file_id prepared,
      fil_media =
        \<lparr>original_filename = prd_output_file_id prepared @ output_extension (mcl_kind claim),
         mime_type = prd_mime_type prepared, file_size = prd_size prepared, sha256 = prd_sha256 prepared,
         duration_ms = prd_duration_ms prepared, width = prd_width prepared, height = prd_height prepared,
         fps_num = prd_fps_num prepared, fps_den = prd_fps_den prepared, media_probe_version = ''ffmpeg-derivative-v1''\<rparr>,
      fil_storage_path = path_str (prd_storage_path prepared), fil_owner_principal_id = mcl_source_owner_id claim,
      fil_owner_principal_kind = mcl_source_owner_kind claim, fil_created_at = env_now env\<rparr>"

definition same_derived_file :: "file_object \<Rightarrow> file_object \<Rightarrow> bool" where
  "same_derived_file a b \<longleftrightarrow> same_source (fil_media a) (fil_media b) \<and> fil_storage_path a = fil_storage_path b
     \<and> mime_type (fil_media a) = mime_type (fil_media b) \<and> fil_owner_principal_id a = fil_owner_principal_id b
     \<and> fil_owner_principal_kind a = fil_owner_principal_kind b"

definition ensure_derived_file :: "env \<Rightarrow> media_claim \<Rightarrow> prepared_derivative \<Rightarrow> db \<Rightarrow> worker_exn + db" where
  "ensure_derived_file env claim prepared db =
     (case get_file db (prd_output_file_id prepared) of
        None \<Rightarrow> Inr (db\<lparr>db_files := db_files db @ [derived_file env claim prepared]\<rparr>)
      | Some f \<Rightarrow>
          if same_derived_file f (derived_file env claim prepared) then Inr db
          else Inl (Media_Exn (MediaDerivativeError ''MEDIA_DERIVATIVE_FILE_ID_CONFLICT'' ''publish'' False)))"

text \<open>
  \<open>details["variants"][str(frame)]\<close>; claims are made for the frames at zero and three seconds
  only.
\<close>

definition variant_of :: "thumb_details \<Rightarrow> int \<Rightarrow> string option" where
  "variant_of d frame_ms = (if frame_ms = THUMBNAIL_FRAME_ZERO_MS then td_variant_0 d
     else if frame_ms = THUMBNAIL_FALLBACK_FRAME_MS then td_variant_3000 d else None)"

definition add_variant :: "prepared_derivative \<Rightarrow> thumb_details \<Rightarrow> thumb_details" where
  "add_variant prepared d =
     (let f = prd_output_file_id prepared; frame_ms = prd_thumbnail_frame_ms prepared;
          d = (if frame_ms = THUMBNAIL_FRAME_ZERO_MS then d\<lparr>td_variant_0 := Some f\<rparr>
               else if frame_ms = THUMBNAIL_FALLBACK_FRAME_MS then d\<lparr>td_variant_3000 := Some f\<rparr> else d);
          d = (case prd_thumbnail_signature prepared of None \<Rightarrow> d | Some s \<Rightarrow> d\<lparr>td_frame_signature := Some s\<rparr>);
          d = (case prd_source_video_codec_class prepared of None \<Rightarrow> d | Some c \<Rightarrow> d\<lparr>td_source_video_codec_class := Some c\<rparr>)
      in case prd_thumbnail_decode_acceleration prepared of
           None \<Rightarrow> d
         | Some a \<Rightarrow>
             if frame_ms = THUMBNAIL_FRAME_ZERO_MS then d\<lparr>td_acceleration_0 := Some a\<rparr>
             else if frame_ms = THUMBNAIL_FALLBACK_FRAME_MS then d\<lparr>td_acceleration_3000 := Some a\<rparr> else d)"

definition free_task :: "int \<Rightarrow> derivative_task \<Rightarrow> derivative_task" where
  "free_task now t =
     t\<lparr>mdt_next_attempt_at := None, mdt_lease_id := None, mdt_lease_expires_at := None, mdt_error_code := None,
       mdt_failure_details := None, mdt_updated_at := now\<rparr>"

text \<open>The task after the publication and the file the version points to, if it is already the desired one.\<close>

definition published_task :: "int \<Rightarrow> derivative_kind \<Rightarrow> prepared_derivative \<Rightarrow> derivative_task \<Rightarrow> exn + derivative_task \<times> string option" where
  "published_task now kind prepared t =
     (if kind = thumbnail
      then
        ebind (normalize_thumbnail_result_details (mdt_result_details t) (mdt_output_file_id t)) (\<lambda>d.
          let d = add_variant prepared d; f = variant_of d (td_desired_frame_ms d);
              t = (free_task now t)\<lparr>mdt_result_details := Some (details_json d)\<rparr>
          in Inr (case f of
                    None \<Rightarrow> (t\<lparr>mdt_status := task_queued, mdt_attempts := 0\<rparr>, None)
                  | Some g \<Rightarrow> (t\<lparr>mdt_status := task_ready, mdt_output_file_id := Some g\<rparr>, Some g)))
      else
        let f = prd_output_file_id prepared
        in Inr ((free_task now t)\<lparr>mdt_status := task_ready, mdt_output_file_id := Some f\<rparr>, Some f))"

definition point_version :: "derivative_kind \<Rightarrow> string option \<Rightarrow> review_version \<Rightarrow> db \<Rightarrow> db" where
  "point_version kind f v db =
     (case f of
        None \<Rightarrow> db
      | Some g \<Rightarrow> put_version (case kind of playback_faststart \<Rightarrow> v\<lparr>ver_playback_asset_id := Some g\<rparr>
                                       | thumbnail \<Rightarrow> v\<lparr>ver_thumbnail_asset_id := Some g\<rparr>) db)"

definition regroup_after :: "env \<Rightarrow> media_claim \<Rightarrow> prepared_derivative \<Rightarrow> db \<Rightarrow> exn + db" where
  "regroup_after env claim prepared db =
     (if mcl_kind claim = thumbnail \<and> prd_thumbnail_frame_ms prepared = THUMBNAIL_FRAME_ZERO_MS
      then reconcile_project_thumbnail_groups env (mcl_project_ref_id claim) True (Some (mcl_task_id claim)) db
      else Inr db)"

text \<open>The answer of a publication: a playback file is ready, a thumbnail may be queued again for another frame.\<close>

definition publication_answer :: "media_claim \<Rightarrow> derivative_task \<Rightarrow> db \<Rightarrow> string" where
  "publication_answer claim t db =
     (case mcl_kind claim of
        playback_faststart \<Rightarrow> ''ready''
      | thumbnail \<Rightarrow> task_status_name (mdt_status (case row_get mdt_id (mcl_task_id claim) (db_tasks db) of Some t \<Rightarrow> t | None \<Rightarrow> t)))"

text \<open>The part of the publication after its guards.\<close>

definition publish_held ::
  "env \<Rightarrow> media_claim \<Rightarrow> prepared_derivative \<Rightarrow> review_version \<Rightarrow> derivative_task \<Rightarrow> db \<Rightarrow> worker_exn + string \<times> db" where
  "publish_held env claim prepared v t db =
     ebind (ensure_derived_file env claim prepared db) (\<lambda>db.
     ebind (map_sum Service_Exn id (published_task (env_now env) (mcl_kind claim) prepared t)) (\<lambda>(t, f).
     ebind (map_sum Service_Exn id (regroup_after env claim prepared (point_version (mcl_kind claim) f v (put_task t db)))) (\<lambda>db.
     Inr (publication_answer claim t db, db))))"

definition publish_database :: "env \<Rightarrow> media_claim \<Rightarrow> prepared_derivative \<Rightarrow> db \<Rightarrow> worker_exn + string \<times> db" where
  "publish_database env claim prepared db =
     (case claim_rows db claim of
        None \<Rightarrow> Inr (''skipped'', db)
      | Some (p, i, v, t) \<Rightarrow>
          if prj_deleted_at p \<noteq> None then Inr (''skipped'', db)
          else if mdt_status t = task_ready \<and> mdt_output_file_id t = Some (prd_output_file_id prepared) then Inr (''ready'', db)
          else if \<not> holds_lease (env_now env) (mcl_lease_id claim) t then Inr (''skipped'', db)
          else if mcl_kind claim = thumbnail \<and> \<not> is_current_of i v then Inr (''skipped'', db)
          else publish_held env claim prepared v t db)"

text \<open>The state a worker finds when its publication raised: committed or not, or not to be known.\<close>

definition publication_database_state :: "media_claim \<Rightarrow> prepared_derivative \<Rightarrow> db \<Rightarrow> bool option" where
  "publication_database_state claim prepared db =
     (case (claim_rows db claim, get_file db (prd_output_file_id prepared)) of
        (Some (p, i, v, t), Some f) \<Rightarrow>
          if sha256 (fil_media f) \<noteq> prd_sha256 prepared \<or> file_size (fil_media f) \<noteq> prd_size prepared
             \<or> fil_storage_path f \<noteq> path_str (prd_storage_path prepared) then Some False
          else if mcl_kind claim = playback_faststart
          then Some (mdt_status t = task_ready \<and> mdt_output_file_id t = Some (prd_output_file_id prepared)
                     \<and> ver_playback_asset_id v = Some (prd_output_file_id prepared))
          else
            (case normalize_thumbnail_result_details (mdt_result_details t) (mdt_output_file_id t) of
               Inl _ \<Rightarrow> None
             | Inr d \<Rightarrow> Some (variant_of d (prd_thumbnail_frame_ms prepared) = Some (prd_output_file_id prepared)))
      | _ \<Rightarrow> Some False)"

text \<open>
  The publication with its commit: the answer or the error, whether the placed file is discarded,
  and the database. A skipped or repeated publication does not commit.
\<close>

definition publish_with_reconciliation ::
  "env \<Rightarrow> commit_outcome \<Rightarrow> media_claim \<Rightarrow> prepared_derivative \<Rightarrow> db \<Rightarrow> (worker_exn + string) \<times> bool \<times> db" where
  "publish_with_reconciliation env commit claim prepared db =
     (let attempt =
            (case publish_database env claim prepared db of
               Inl e \<Rightarrow> (Inl e, db)
             | Inr (r, db') \<Rightarrow>
                 if r = ''skipped'' \<or> db' = db then (Inr r, db)
                 else (case commit of
                         Commit_Ok \<Rightarrow> (Inr r, db')
                       | Commit_Raises e applied \<Rightarrow> (Inl (Service_Exn e), if applied then db' else db)))
      in case attempt of
           (Inr r, db) \<Rightarrow> (Inr r, r = ''skipped'', db)
         | (Inl e, db) \<Rightarrow>
             (case publication_database_state claim prepared db of
                Some True \<Rightarrow> (Inr ''ready'', False, db)
              | Some False \<Rightarrow> (Inl e, True, db)
              | None \<Rightarrow> (Inl e, False, db)))"

section \<open>Failure\<close>

definition failed_attempt :: "settings \<Rightarrow> int \<Rightarrow> media_error \<Rightarrow> derivative_task \<Rightarrow> derivative_task" where
  "failed_attempt cfg now error t =
     (case error of MediaDerivativeError code stage retryable \<Rightarrow>
        let retry = retryable \<and> mdt_attempts t < cfg_media_worker_max_attempts cfg
        in t\<lparr>mdt_status := (if retry then task_queued else task_failed),
             mdt_next_attempt_at := (if retry then Some (now + seconds (cfg_media_worker_retry_delay_seconds cfg)) else None),
             mdt_lease_id := None, mdt_lease_expires_at := None, mdt_error_code := Some code,
             mdt_failure_details := Some (JObj [(''stage'', JStr stage), (''attempt'', JInt (mdt_attempts t))]),
             mdt_updated_at := now\<rparr>)"

definition record_media_failure :: "env \<Rightarrow> media_claim \<Rightarrow> media_error \<Rightarrow> db \<Rightarrow> string \<times> db" where
  "record_media_failure env claim error db =
     (case row_get mdt_id (mcl_task_id claim) (db_tasks db) of
        None \<Rightarrow> (''skipped'', db)
      | Some t \<Rightarrow>
          if \<not> holds_lease (env_now env) (mcl_lease_id claim) t then (''skipped'', db)
          else
            let t = failed_attempt (env_settings env) (env_now env) error t
            in (task_status_name (mdt_status t), put_task t db))"

text \<open>The \<open>except\<close> clauses of \<open>_process_media_derivative\<close>.\<close>

definition worker_failure :: "worker_exn \<Rightarrow> media_error option" where
  "worker_failure e =
     (case e of
        Lease_Lost \<Rightarrow> None
      | Media_Exn m \<Rightarrow> Some m
      | Service_Exn OSError \<Rightarrow> Some (MediaDerivativeError ''MEDIA_DERIVATIVE_STORAGE_FAILED'' ''storage'' True)
      | Service_Exn UnsafeFilePathError \<Rightarrow> Some (MediaDerivativeError ''MEDIA_DERIVATIVE_STORAGE_FAILED'' ''storage'' True)
      | Service_Exn _ \<Rightarrow> Some (MediaDerivativeError ''MEDIA_DERIVATIVE_FAILED'' ''worker'' True))"

definition after_failure :: "env \<Rightarrow> media_claim \<Rightarrow> worker_exn \<Rightarrow> db \<Rightarrow> string \<times> db" where
  "after_failure env claim e db =
     (case worker_failure e of None \<Rightarrow> (''skipped'', db) | Some m \<Rightarrow> record_media_failure env claim m db)"

text \<open>
  One run of the worker on a task: claimed at the first instant, prepared, checked at the second
  instant and placed, published at the third. \<open>prepare\<close> and \<open>place\<close> are the
  transformation and the move into storage.
\<close>

definition process_media_derivative ::
  "env \<Rightarrow> env \<Rightarrow> env \<Rightarrow> commit_outcome \<Rightarrow> (media_claim \<Rightarrow> worker_exn + prepared_derivative)
   \<Rightarrow> (prepared_derivative \<Rightarrow> worker_exn + prepared_derivative) \<Rightarrow> string \<Rightarrow> db \<Rightarrow> exn + string \<times> db" where
  "process_media_derivative env1 env2 env3 commit prepare place task_id db =
     ebind (claim_task env1 (Some task_id) db) (\<lambda>((status, claim), db).
       case claim of
         None \<Rightarrow> Inr (status, db)
       | Some claim \<Rightarrow>
           (case prepare claim of
              Inl e \<Rightarrow> Inr (after_failure env3 claim e db)
            | Inr prepared \<Rightarrow>
                if \<not> lease_is_current env2 claim db then Inr (''skipped'', db)
                else
                  (case place prepared of
                     Inl e \<Rightarrow> Inr (after_failure env3 claim e db)
                   | Inr prepared \<Rightarrow>
                       (case publish_with_reconciliation env3 commit claim prepared db of
                          (Inr r, _, db) \<Rightarrow> Inr (r, db)
                        | (Inl e, _, db) \<Rightarrow> Inr (after_failure env3 claim e db)))))"

section \<open>The lease of a task\<close>

definition task_holder :: "derivative_task \<Rightarrow> string option" where
  "task_holder t = (if mdt_status t = task_running then mdt_lease_id t else None)"

definition task_leased :: "int \<Rightarrow> derivative_task \<Rightarrow> bool" where
  "task_leased now t \<longleftrightarrow> mdt_status t = task_running \<and> mdt_lease_id t \<noteq> None \<and> lease_deadline_is_future (mdt_lease_expires_at t) now"

definition take_task :: "settings \<Rightarrow> int \<Rightarrow> string \<Rightarrow> derivative_task \<Rightarrow> derivative_task option" where
  "take_task cfg now lease_id t = (if task_due now t then Some (leased_task cfg now lease_id t) else None)"

definition give_up_task :: "settings \<Rightarrow> media_error \<Rightarrow> int \<Rightarrow> string \<Rightarrow> derivative_task \<Rightarrow> derivative_task option" where
  "give_up_task cfg error now lease_id t = (if holds_lease now lease_id t then Some (failed_attempt cfg now error t) else None)"

lemma failed_attempt_sel [simp]:
  "mdt_id (failed_attempt cfg now e t) = mdt_id t" "mdt_status (failed_attempt cfg now e t) \<noteq> task_running"
  "mdt_lease_id (failed_attempt cfg now e t) = None"
  by (cases e, simp add: failed_attempt_def Let_def)+

lemma leased_task_sel [simp]:
  "mdt_id (leased_task cfg now l t) = mdt_id t" "mdt_status (leased_task cfg now l t) = task_running"
  "mdt_lease_id (leased_task cfg now l t) = Some l" "mdt_attempts (leased_task cfg now l t) = mdt_attempts t + 1"
  "mdt_lease_expires_at (leased_task cfg now l t) = Some (now + seconds (cfg_media_worker_lease_seconds cfg))"
  by (simp_all add: leased_task_def)

interpretation media_slot: exclusive_lease task_holder task_leased "take_task cfg" "give_up_task cfg error" for cfg error
proof
  show "task_leased now t \<Longrightarrow> task_holder t \<noteq> None" for now t by (simp add: task_leased_def task_holder_def)
  show "take_task cfg now h t = Some t' \<Longrightarrow> \<not> task_leased now t" for now h t t'
    by (auto simp: take_task_def task_due_def task_leased_def split: if_splits)
  show "take_task cfg now h t = Some t' \<Longrightarrow> task_holder t' = Some h" for now h t t'
    by (auto simp: take_task_def task_holder_def split: if_splits)
  show "give_up_task cfg error now h t = Some t' \<Longrightarrow> task_holder t = Some h" for now h t t'
    by (auto simp: give_up_task_def holds_lease_def task_holder_def split: if_splits)
  show "give_up_task cfg error now h t = Some t' \<Longrightarrow> task_holder t' = None" for now h t t'
    by (auto simp: give_up_task_def task_holder_def split: if_splits)
qed

lemma row_put_mem: "q \<in> set (row_put key r rows) \<Longrightarrow> key q = key r \<Longrightarrow> q = r"
  by (auto simp: row_put_def split: if_splits)

lemma row_put_has: "q \<in> set rows \<Longrightarrow> key q = key r \<Longrightarrow> r \<in> set (row_put key r rows)"
  by (auto simp: row_put_def image_iff)

lemma locked_rows_SomeD:
  assumes "locked_rows db pid iid vid tid = Some (p, i, v, t)"
  shows "row_get prj_id pid (db_projects db) = Some p" "row_get mdt_id tid (db_tasks db) = Some t"
    "v \<in> set (db_versions db)" "ver_id v = vid" "i \<in> set (db_items db)" "t \<in> set (db_tasks db)" "mdt_id t = tid"
  using assms by (auto simp: locked_rows_def find_Some_iff row_get_def split: option.splits)

text \<open>A granted claim: the row was due, and afterwards it is leased to the claim.\<close>

lemma claim_task_granted:
  assumes "claim_task env k db = Inr ((st, Some claim), db')"
  obtains t lease source d n where "t \<in> set (db_tasks db)" "task_due (env_now env) t"
    "mdt_attempts t < cfg_media_worker_max_attempts (env_settings env)" "claim = media_claim_of lease t source d"
    "db' = put_task (leased_task (env_settings env) (env_now env) lease t) (db\<lparr>db_drawn := n\<rparr>)"
proof -
  from assms obtain c t :: derivative_task and p :: project and i :: review_item and v :: review_version and source :: file_object where l: "locked_rows db (mdt_project_ref_id c) (mdt_review_item_id c) (mdt_version_id c) (mdt_id c) = Some (p, i, v, t)"
    and due: "task_due (env_now env) t" and ok: "claim_refusal (env_settings env) db p i v t = None"
    and g: "grant_task env source t db = Inr (claim, db')"
    by (auto simp: claim_task_def split: option.splits if_splits)
  have "mdt_attempts t < cfg_media_worker_max_attempts (env_settings env)"
    using ok by (auto simp: claim_refusal_def split: if_splits)
  then show ?thesis using g due locked_rows_SomeD(6) [OF l] that
    by (auto simp: grant_task_def new_id_def Let_def)
qed

lemma stale_worker:
  assumes "\<And>t. row_get mdt_id (mcl_task_id c) (db_tasks db) = Some t \<Longrightarrow> \<not> holds_lease (env_now env) (mcl_lease_id c) t \<and> mdt_status t = task_running"
  shows "renew_lease env c db = (False, db) \<and> \<not> lease_is_current env c db \<and> record_media_failure env c e db = (''skipped'', db)
    \<and> publish_database env c p db = Inr (''skipped'', db)"
proof -
  have rows: "claim_rows db c = None \<or> (\<exists>p i v t. claim_rows db c = Some (p, i, v, t) \<and> \<not> holds_lease (env_now env) (mcl_lease_id c) t \<and> mdt_status t = task_running)"
    using assms locked_rows_SomeD(2) unfolding claim_rows_def by (metis not_Some_eq prod_cases4)
  then show ?thesis using assms
    by (auto simp: renew_lease_def lease_is_current_def record_media_failure_def publish_database_def split: option.splits)
qed


section \<open>Publication\<close>

lemma strip_playback [simp]: "strip_assets (v\<lparr>ver_playback_asset_id := x\<rparr>) = strip_assets v"
  by (simp add: strip_assets_def)

lemma map_sum_Inr_iff: "map_sum f id m = Inr x \<longleftrightarrow> m = Inr x"
  by (cases m) auto

lemma find_snoc: "List.find P xs = None \<Longrightarrow> P y \<Longrightarrow> List.find P (xs @ [y]) = Some y"
  by (induction xs) (auto split: if_splits)

lemma find_row_put:
  assumes "List.find P rows = Some x" and "\<And>y. P y \<Longrightarrow> key y = key r" and "P r"
  shows "List.find P (row_put key r rows) = Some r"
  using assms(1)
proof (induction rows)
  case (Cons a rows)
  show ?case
  proof (cases "key a = key r")
    case False
    then have "\<not> P a" using assms(2) by blast
    then show ?thesis using Cons False by (simp add: row_put_def)
  qed (simp add: row_put_def assms(3))
qed simp

lemma ensure_derived_file_Inr:
  assumes "ensure_derived_file env claim prepared db = Inr db'"
  shows "\<exists>fs f. db' = db\<lparr>db_files := fs\<rparr> \<and> get_file db' (prd_output_file_id prepared) = Some f \<and> same_derived_file f (derived_file env claim prepared)"
proof (cases "get_file db (prd_output_file_id prepared)")
  case None
  then have "get_file (db\<lparr>db_files := db_files db @ [derived_file env claim prepared]\<rparr>) (prd_output_file_id prepared) = Some (derived_file env claim prepared)"
    unfolding get_file_def row_get_def by (simp add: find_snoc derived_file_def)
  then show ?thesis using assms None by (auto simp: ensure_derived_file_def same_derived_file_def same_source_def)
next
  case (Some f)
  then show ?thesis using assms by (auto simp: ensure_derived_file_def intro!: exI [of _ "db_files db"] split: if_splits)
qed

text \<open>A publication that goes through on the worker's own claim.\<close>

lemma publish_held_Inr:
  assumes "publish_held env claim prepared v t db = Inr (r, db')"
  obtains fs f t' g where "get_file (db\<lparr>db_files := fs\<rparr>) (prd_output_file_id prepared) = Some f"
    "same_derived_file f (derived_file env claim prepared)" "published_task (env_now env) (mcl_kind claim) prepared t = Inr (t', g)"
    "regroup_after env claim prepared (point_version (mcl_kind claim) g v (put_task t' (db\<lparr>db_files := fs\<rparr>))) = Inr db'"
    "r = publication_answer claim t' db'"
proof -
  obtain db1 t' g where e: "ensure_derived_file env claim prepared db = Inr db1"
    and p: "published_task (env_now env) (mcl_kind claim) prepared t = Inr (t', g)"
      "regroup_after env claim prepared (point_version (mcl_kind claim) g v (put_task t' db1)) = Inr db'" "r = publication_answer claim t' db'"
    using assms by (auto simp: publish_held_def map_sum_Inr_iff)
  obtain fs f where "db1 = db\<lparr>db_files := fs\<rparr>" "get_file db1 (prd_output_file_id prepared) = Some f" "same_derived_file f (derived_file env claim prepared)"
    using ensure_derived_file_Inr [OF e] by blast
  then show ?thesis using that p by blast
qed

lemma publish_database_Inr:
  assumes "publish_database env claim prepared db = Inr (r, db')"
  obtains "db' = db" "r = ''skipped'' \<or> r = ''ready''"
  | p i v t where "claim_rows db claim = Some (p, i, v, t)" "holds_lease (env_now env) (mcl_lease_id claim) t"
    "publish_held env claim prepared v t db = Inr (r, db')"
proof (cases "claim_rows db claim")
  case None
  then show ?thesis using assms that(1) by (simp add: publish_database_def)
next
  case (Some a)
  then show ?thesis using assms that by (cases a) (auto simp: publish_database_def split: if_splits)
qed

lemma regroup_playback [simp]: "mcl_kind claim = playback_faststart \<Longrightarrow> regroup_after env claim prepared db = Inr db"
  by (simp add: regroup_after_def)

lemma playback_publication:
  assumes "publish_database env claim prepared db = Inr (r, db')" and "db' \<noteq> db" and "mcl_kind claim = playback_faststart"
  obtains p i v t fs f where "claim_rows db claim = Some (p, i, v, t)" "holds_lease (env_now env) (mcl_lease_id claim) t" "r = ''ready''"
    "get_file (db\<lparr>db_files := fs\<rparr>) (prd_output_file_id prepared) = Some f" "same_derived_file f (derived_file env claim prepared)"
    "db' = put_version (v\<lparr>ver_playback_asset_id := Some (prd_output_file_id prepared)\<rparr>)
       (put_task ((free_task (env_now env) t)\<lparr>mdt_status := task_ready, mdt_output_file_id := Some (prd_output_file_id prepared)\<rparr>)
         (db\<lparr>db_files := fs\<rparr>))"
  using assms(1)
proof (rule publish_database_Inr)
  fix p :: project and i :: review_item and v t
  assume rows: "claim_rows db claim = Some (p, i, v, t)" "holds_lease (env_now env) (mcl_lease_id claim) t"
    and held: "publish_held env claim prepared v t db = Inr (r, db')"
  obtain fs f t' g where f: "get_file (db\<lparr>db_files := fs\<rparr>) (prd_output_file_id prepared) = Some f" "same_derived_file f (derived_file env claim prepared)"
    and pub: "published_task (env_now env) (mcl_kind claim) prepared t = Inr (t', g)"
    and re: "regroup_after env claim prepared (point_version (mcl_kind claim) g v (put_task t' (db\<lparr>db_files := fs\<rparr>))) = Inr db'"
    and r: "r = publication_answer claim t' db'"
    by (rule publish_held_Inr [OF held])
  have g: "g = Some (prd_output_file_id prepared)"
    "t' = (free_task (env_now env) t)\<lparr>mdt_status := task_ready, mdt_output_file_id := Some (prd_output_file_id prepared)\<rparr>"
    using pub assms(3) by (auto simp: published_task_def Let_def)
  have "r = ''ready''" using r assms(3) by (simp add: publication_answer_def)
  moreover have "db' = put_version (v\<lparr>ver_playback_asset_id := Some (prd_output_file_id prepared)\<rparr>) (put_task t' (db\<lparr>db_files := fs\<rparr>))"
    using re assms(3) g(1) by (simp add: point_version_def)
  ultimately show thesis using that [OF rows _ f] unfolding g(2) by blast
qed (use assms(2) in simp)

text \<open>
  C13. Publishing a playback file does exactly that: the version the task was claimed for points to the
  file, the task is ready with it and its lease is gone, and the file object has the digest, size and
  place of the prepared file; no other version, no other task and no other table changes.
\<close>

theorem playback_published:
  assumes "publish_database env claim prepared db = Inr (r, db')" and "db' \<noteq> db" and "mcl_kind claim = playback_faststart"
  shows "r = ''ready''
    \<and> (\<exists>f. get_file db' (prd_output_file_id prepared) = Some f \<and> sha256 (fil_media f) = prd_sha256 prepared
         \<and> file_size (fil_media f) = prd_size prepared \<and> fil_storage_path f = path_str (prd_storage_path prepared))
    \<and> (\<exists>v\<in>set (db_versions db'). ver_id v = mcl_version_id claim) \<and> (\<exists>t\<in>set (db_tasks db'). mdt_id t = mcl_task_id claim)
    \<and> (\<forall>v\<in>set (db_versions db'). if ver_id v = mcl_version_id claim then ver_playback_asset_id v = Some (prd_output_file_id prepared)
         else v \<in> set (db_versions db))
    \<and> (\<forall>t\<in>set (db_tasks db'). if mdt_id t = mcl_task_id claim
         then mdt_status t = task_ready \<and> mdt_output_file_id t = Some (prd_output_file_id prepared) \<and> mdt_lease_id t = None
         else t \<in> set (db_tasks db))
    \<and> db' = db\<lparr>db_files := db_files db', db_versions := db_versions db', db_tasks := db_tasks db'\<rparr>"
proof -
  let ?f = "prd_output_file_id prepared"
  obtain p i v t fs f where rows: "claim_rows db claim = Some (p, i, v, t)" and r: "r = ''ready''"
    and f: "get_file (db\<lparr>db_files := fs\<rparr>) ?f = Some f" "same_derived_file f (derived_file env claim prepared)"
    and d: "db' = put_version (v\<lparr>ver_playback_asset_id := Some ?f\<rparr>)
       (put_task ((free_task (env_now env) t)\<lparr>mdt_status := task_ready, mdt_output_file_id := Some ?f\<rparr>) (db\<lparr>db_files := fs\<rparr>))"
    by (rule playback_publication [OF assms])
  define t' where t': "t' = (free_task (env_now env) t)\<lparr>mdt_status := task_ready, mdt_output_file_id := Some ?f\<rparr>"
  note db' = d [folded t']
  have l: "v \<in> set (db_versions db)" "ver_id v = mcl_version_id claim" "t \<in> set (db_tasks db)" "mdt_id t = mcl_task_id claim"
    using locked_rows_SomeD [of db "mcl_project_ref_id claim" "mcl_review_item_id claim" "mcl_version_id claim" "mcl_task_id claim" p i v t] rows
    by (simp_all add: claim_rows_def)
  have tables: "db_versions db' = row_put ver_id (v\<lparr>ver_playback_asset_id := Some ?f\<rparr>) (db_versions db)"
    "db_tasks db' = row_put mdt_id t' (db_tasks db)" "db_files db' = fs" by (simp_all add: db' put_version_def put_task_def)
  have ids: "mdt_id t' = mdt_id t" by (simp add: t' free_task_def)
  show ?thesis
  proof (intro conjI)
    show "r = ''ready''" by (rule r)
    show "\<exists>f. get_file db' ?f = Some f \<and> sha256 (fil_media f) = prd_sha256 prepared
         \<and> file_size (fil_media f) = prd_size prepared \<and> fil_storage_path f = path_str (prd_storage_path prepared)"
      using f by (simp add: get_file_def tables(3) same_derived_file_def same_source_def derived_file_def)
    show "\<exists>w\<in>set (db_versions db'). ver_id w = mcl_version_id claim" "\<exists>q\<in>set (db_tasks db'). mdt_id q = mcl_task_id claim"
      unfolding tables
      by (rule bexI [OF _ row_put_has [OF l(1)]], use l(2) in simp_all, rule bexI [OF _ row_put_has [OF l(3)]], use l(4) ids in simp_all)
    show "\<forall>w\<in>set (db_versions db'). if ver_id w = mcl_version_id claim then ver_playback_asset_id w = Some ?f else w \<in> set (db_versions db)"
      using l(2) by (auto simp: tables row_put_def)
    show "\<forall>q\<in>set (db_tasks db'). if mdt_id q = mcl_task_id claim
         then mdt_status q = task_ready \<and> mdt_output_file_id q = Some ?f \<and> mdt_lease_id q = None else q \<in> set (db_tasks db)"
      using l(4) ids by (auto simp: tables row_put_def t' free_task_def)
    show "db' = db\<lparr>db_files := db_files db', db_versions := db_versions db', db_tasks := db_tasks db'\<rparr>"
      by (simp add: db' put_version_def put_task_def)
  qed
qed


section \<open>The worker keeps the workflow\<close>

lemma refused_task_core [simp]: "mdt_id (refused_task now p code t) = mdt_id t"
  by (simp add: refused_task_def)

lemma claim_task_sound:
  assumes "claim_task env k db = Inr (r, db')"
  shows "sound_step db db'"
proof -
  have "sound_step db (put_task t (db\<lparr>db_drawn := n\<rparr>))" for t n
    by (rule sound_trans [OF sound_drawn sound_put(3)])
  then show ?thesis
    using assms by (auto simp: claim_task_def grant_task_def new_id_def Let_def split: option.splits if_splits)
qed

lemma renew_lease_sound: "renew_lease env claim db = (r, db') \<Longrightarrow> sound_step db db'"
  by (auto simp: renew_lease_def split: option.splits if_splits)

lemma record_media_failure_sound: "record_media_failure env claim e db = (r, db') \<Longrightarrow> sound_step db db'"
  by (auto simp: record_media_failure_def Let_def split: option.splits if_splits)

lemma files_sound [simp, intro]: "sound_step db (db\<lparr>db_files := fs\<rparr>)"
  by (rule sound_frame) (simp_all add: core_of_def)

lemma point_version_sound:
  assumes "v \<in> set (db_versions db)"
  shows "sound_step db (point_version kind g v db)"
proof (rule sound_if_ok)
  assume ok: "store_ok db"
  have "distinct (map ver_id (db_versions db))" using ok by (simp add: store_ok_def review_ok_def keys_ok_def comp_def)
  then have "core_of (put_version w db) = core_of db" if "strip_assets w = strip_assets v" for w
    by (rule put_version_core [where v = v]) (use assms that in auto)
  then show "sound_step db (point_version kind g v db)"
    by (cases g; cases kind) (auto simp: point_version_def put_version_def intro!: sound_frame)
qed

lemma publish_database_sound:
  assumes "publish_database env claim prepared db = Inr (r, db')"
  shows "sound_step db db'"
  using assms
proof (rule publish_database_Inr)
  fix p :: project and i :: review_item and v t
  assume rows: "claim_rows db claim = Some (p, i, v, t)" and held: "publish_held env claim prepared v t db = Inr (r, db')"
  obtain fs f t' g where re: "regroup_after env claim prepared (point_version (mcl_kind claim) g v (put_task t' (db\<lparr>db_files := fs\<rparr>))) = Inr db'"
    by (rule publish_held_Inr [OF held])
  have v: "v \<in> set (db_versions db)" using locked_rows_SomeD(3) rows unfolding claim_rows_def by blast
  have "sound_step db (db\<lparr>db_files := fs\<rparr>)" by simp
  also have "sound_step \<dots> (put_task t' (db\<lparr>db_files := fs\<rparr>))" by simp
  also have "sound_step \<dots> (point_version (mcl_kind claim) g v (put_task t' (db\<lparr>db_files := fs\<rparr>)))"
    by (rule point_version_sound) (simp add: v put_task_def)
  also have "sound_step \<dots> db'" using re by (auto simp: regroup_after_def intro: reconcile_sound split: if_splits)
  finally show ?thesis .
qed simp

lemma publish_with_reconciliation_sound: "sound_step db (snd (snd (publish_with_reconciliation env commit claim prepared db)))"
  using publish_database_sound [of env claim prepared db]
  by (auto simp: publish_with_reconciliation_def Let_def split: sum.splits commit_outcome.splits option.splits bool.splits)

section \<open>A concrete task\<close>

definition ex_playback_task :: derivative_task where
  "ex_playback_task = ex_task\<lparr>mdt_kind := playback_faststart, mdt_status := task_queued, mdt_attempts := 0, mdt_output_file_id := None\<rparr>"

definition ex_media_db :: db where
  "ex_media_db = ex_ready_db\<lparr>db_tasks := [ex_playback_task]\<rparr>"

definition ex_media_claim :: media_claim where
  "ex_media_claim = media_claim_of ''lease_0'' ex_playback_task ex_file
     \<lparr>td_backfill_operation_id = None, td_frame_signature = None, td_variant_0 = None, td_variant_3000 = None, td_acceleration_0 = None,
      td_acceleration_3000 = None, td_source_video_codec_class = None, td_desired_frame_ms = 0\<rparr>"

definition ex_prepared :: prepared_derivative where
  "ex_prepared =
     \<lparr>prd_output_file_id = ''m1'', prd_storage_path = [''srv'', ''storage'', ''files'', ''m1''], prd_sha256 = ''s'', prd_size = 9,
      prd_duration_ms = 60000, prd_width = 1920, prd_height = 1080, prd_fps_num = 25, prd_fps_den = 1, prd_mime_type = ''video/mp4'',
      prd_thumbnail_frame_ms = 0, prd_thumbnail_signature = None, prd_source_video_codec_class = None, prd_thumbnail_decode_acceleration = None\<rparr>"

lemma ex_media_claimed: "map_sum id fst (claim_task ex_env None ex_media_db) = Inr (''claimed'', Some ex_media_claim)"
  by code_simp

definition ex_leased_db :: db where
  "ex_leased_db = ex_ready_db\<lparr>db_tasks := [leased_task ex_settings 1000000 ''lease_0'' ex_playback_task]\<rparr>"

definition ex_publication :: "worker_exn + string \<times> db" where
  "ex_publication = publish_database ex_env ex_media_claim ex_prepared ex_leased_db"

lemma ex_published:
  "(case ex_publication of Inr (r, db) \<Rightarrow> map ver_playback_asset_id (db_versions db) | _ \<Rightarrow> []) = [Some ''m1'']"
  "map ver_playback_asset_id (db_versions ex_leased_db) = [Some ex_file_id]"
  by code_simp+

lemma ex_publicationE:
  obtains r db' where "publish_database ex_env ex_media_claim ex_prepared ex_leased_db = Inr (r, db')" "db' \<noteq> ex_leased_db"
proof -
  have "ex_file_id \<noteq> ''m1''" by code_simp
  moreover obtain r db' where run: "publish_database ex_env ex_media_claim ex_prepared ex_leased_db = Inr (r, db')"
    and "map ver_playback_asset_id (db_versions db') = [Some ''m1'']"
    using ex_published(1) by (auto simp: ex_publication_def split: sum.splits)
  ultimately have "map ver_playback_asset_id (db_versions db') \<noteq> map ver_playback_asset_id (db_versions ex_leased_db)"
    by (simp add: ex_published(2))
  then have "db' \<noteq> ex_leased_db" by blast
  then show ?thesis using run that by blast
qed

lemma ex_media_kind: "mcl_kind ex_media_claim = playback_faststart"
  by (simp add: ex_media_claim_def media_claim_of_def ex_playback_task_def)


theorem playback_published_witness:
  "\<exists>r db'. publish_database ex_env ex_media_claim ex_prepared ex_leased_db = Inr (r, db') \<and> r = ''ready''
     \<and> (\<exists>f. get_file db' ''m1'' = Some f \<and> sha256 (fil_media f) = ''s'' \<and> file_size (fil_media f) = 9)"
proof -
  obtain r db' where run: "publish_database ex_env ex_media_claim ex_prepared ex_leased_db = Inr (r, db')" "db' \<noteq> ex_leased_db"
    by (rule ex_publicationE)
  have "prd_output_file_id ex_prepared = ''m1''" "prd_sha256 ex_prepared = ''s''" "prd_size ex_prepared = 9" by (simp_all add: ex_prepared_def)
  then show ?thesis using run(1) playback_published [OF run ex_media_kind] by auto
qed


end
