(* ===== verification/Upload_Parts.thy ===== *)
theory Upload_Parts
  imports Safe_Paths
begin

text \<open>
  \<open>src/backend/app/upload_parts.py\<close>: the in-memory limiter that admits part uploads and
  exclusive operations on an upload, and the names of the part files. The limiter is a machine whose
  steps are atomic, as every method holds the lock; its counters are shown to be exactly the leases
  that are still held.
\<close>

section \<open>The admission limiter\<close>

record limiter =
  lim_total :: int
  lim_by_principal :: "string \<rightharpoonup> int"
  lim_by_upload :: "string \<rightharpoonup> int"
  lim_exclusive :: "string set"

definition new_limiter :: limiter where
  "new_limiter = \<lparr>lim_total = 0, lim_by_principal = Map.empty, lim_by_upload = Map.empty, lim_exclusive = {}\<rparr>"

definition counter :: "(string \<rightharpoonup> int) \<Rightarrow> string \<Rightarrow> int" where
  "counter m k = (case m k of None \<Rightarrow> 0 | Some n \<Rightarrow> n)"

record limits =
  max_per_principal :: int
  max_per_upload :: int
  max_total :: int

definition try_acquire :: "limits \<Rightarrow> string \<Rightarrow> string \<Rightarrow> limiter \<Rightarrow> exn + limiter option" where
  "try_acquire lim principal_key upload_id l =
     (if principal_key = '''' \<or> min (min (max_per_principal lim) (max_per_upload lim)) (max_total lim) < 1 then Inl ValueError
      else
        let principal_count = counter (lim_by_principal l) principal_key;
            upload_count = counter (lim_by_upload l) upload_id
        in if upload_id \<in> lim_exclusive l \<or> lim_total l \<ge> max_total lim
              \<or> principal_count \<ge> max_per_principal lim \<or> upload_count \<ge> max_per_upload lim
           then Inr None
           else Inr (Some (l\<lparr>lim_total := lim_total l + 1,
                             lim_by_principal := (lim_by_principal l)(principal_key \<mapsto> principal_count + 1),
                             lim_by_upload := (lim_by_upload l)(upload_id \<mapsto> upload_count + 1)\<rparr>)))"

definition try_acquire_exclusive :: "string \<Rightarrow> limiter \<Rightarrow> exn + limiter option" where
  "try_acquire_exclusive upload_id l =
     (if upload_id = '''' then Inl ValueError
      else if upload_id \<in> lim_exclusive l \<or> counter (lim_by_upload l) upload_id > 0 then Inr None
      else Inr (Some (l\<lparr>lim_exclusive := insert upload_id (lim_exclusive l)\<rparr>)))"

definition decrement :: "string \<Rightarrow> int \<Rightarrow> (string \<rightharpoonup> int) \<Rightarrow> string \<rightharpoonup> int" where
  "decrement k n m = (if n = 1 then m(k := None) else m(k \<mapsto> n - 1))"

definition release_part :: "string \<Rightarrow> string \<Rightarrow> limiter \<Rightarrow> exn + limiter" where
  "release_part principal_key upload_id l =
     ebind (of_option KeyError (lim_by_principal l principal_key)) (\<lambda>principal_count.
     ebind (of_option KeyError (lim_by_upload l upload_id)) (\<lambda>upload_count.
     Inr (l\<lparr>lim_by_principal := decrement principal_key principal_count (lim_by_principal l),
            lim_by_upload := decrement upload_id upload_count (lim_by_upload l), lim_total := lim_total l - 1\<rparr>)))"

definition release_exclusive :: "string \<Rightarrow> limiter \<Rightarrow> exn + limiter" where
  "release_exclusive upload_id l =
     ebind (guard (upload_id \<in> lim_exclusive l) KeyError) (\<lambda>_.
     Inr (l\<lparr>lim_exclusive := lim_exclusive l - {upload_id}\<rparr>))"

text \<open>A lease object knows whether it has been released; releasing it again does nothing.\<close>

record part_lease =
  pl_principal_key :: string
  pl_upload_id :: string
  pl_released :: bool

record operation_lease =
  xl_upload_id :: string
  xl_released :: bool

definition part_lease_release :: "part_lease \<Rightarrow> limiter \<Rightarrow> exn + part_lease \<times> limiter" where
  "part_lease_release x l =
     (if pl_released x then Inr (x, l)
      else ebind (release_part (pl_principal_key x) (pl_upload_id x) l) (\<lambda>l. Inr (x\<lparr>pl_released := True\<rparr>, l)))"

definition exclusive_lease_release :: "operation_lease \<Rightarrow> limiter \<Rightarrow> exn + operation_lease \<times> limiter" where
  "exclusive_lease_release x l =
     (if xl_released x then Inr (x, l)
      else ebind (release_exclusive (xl_upload_id x) l) (\<lambda>l. Inr (x\<lparr>xl_released := True\<rparr>, l)))"

text \<open>The process: the limiter and the lease objects it has handed out.\<close>

record admission =
  adm_limiter :: limiter
  adm_parts :: "part_lease list"
  adm_exclusives :: "operation_lease list"

definition no_admissions :: admission where
  "no_admissions = \<lparr>adm_limiter = new_limiter, adm_parts = [], adm_exclusives = []\<rparr>"

datatype admission_op = Acquire_Part string string | Acquire_Exclusive string | Release_Part nat | Release_Exclusive nat

definition admission_step :: "limits \<Rightarrow> admission_op \<Rightarrow> admission \<Rightarrow> exn + admission" where
  "admission_step lim x s =
     (case x of
        Acquire_Part p u \<Rightarrow>
          ebind (try_acquire lim p u (adm_limiter s)) (\<lambda>got.
            case got of
              None \<Rightarrow> Inr s
            | Some l \<Rightarrow> Inr (s\<lparr>adm_limiter := l,
                adm_parts := adm_parts s @ [\<lparr>pl_principal_key = p, pl_upload_id = u, pl_released = False\<rparr>]\<rparr>))
      | Acquire_Exclusive u \<Rightarrow>
          ebind (try_acquire_exclusive u (adm_limiter s)) (\<lambda>got.
            case got of
              None \<Rightarrow> Inr s
            | Some l \<Rightarrow> Inr (s\<lparr>adm_limiter := l,
                adm_exclusives := adm_exclusives s @ [\<lparr>xl_upload_id = u, xl_released = False\<rparr>]\<rparr>))
      | Release_Part i \<Rightarrow>
          if i < length (adm_parts s)
          then ebind (part_lease_release (adm_parts s ! i) (adm_limiter s)) (\<lambda>(x, l).
                 Inr (s\<lparr>adm_limiter := l, adm_parts := (adm_parts s)[i := x]\<rparr>))
          else Inr s
      | Release_Exclusive i \<Rightarrow>
          if i < length (adm_exclusives s)
          then ebind (exclusive_lease_release (adm_exclusives s ! i) (adm_limiter s)) (\<lambda>(x, l).
                 Inr (s\<lparr>adm_limiter := l, adm_exclusives := (adm_exclusives s)[i := x]\<rparr>))
          else Inr s)"

section \<open>The names of part files\<close>

definition split_dot :: "string \<Rightarrow> string list" where
  "split_dot s =
     (let add = (\<lambda>c acc. if c = CHR ''.'' then [] # acc else (case acc of w # ws \<Rightarrow> (c # w) # ws | [] \<Rightarrow> [[c]]))
      in foldr add s [[]])"

text \<open>\<open>[1-9][0-9]*\<close>\<close>

definition part_number :: "string \<Rightarrow> int option" where
  "part_number s = (case s of c # _ \<Rightarrow> if c \<noteq> CHR ''0'' \<and> list_all is_digit s then int_digits 0 s else None | [] \<Rightarrow> None)"

definition UPLOAD_ID_RE :: "string \<Rightarrow> bool" where
  "UPLOAD_ID_RE s = hex_id ''upl'' s"

definition UNIQUE_PART_RE :: "string \<Rightarrow> (string \<times> int) option" where
  "UNIQUE_PART_RE s =
     (case split_dot s of
        [u, parts, n, token, part] \<Rightarrow>
          if UPLOAD_ID_RE u \<and> parts = ''parts'' \<and> hex_run 32 token \<and> part = ''part''
          then map_option (\<lambda>k. (u, k)) (part_number n) else None
      | _ \<Rightarrow> None)"

definition LEGACY_PART_RE :: "string \<Rightarrow> (string \<times> int) option" where
  "LEGACY_PART_RE s =
     (case split_dot s of
        [u, parts, n] \<Rightarrow> if UPLOAD_ID_RE u \<and> parts = ''parts'' then map_option (\<lambda>k. (u, k)) (part_number n) else None
      | _ \<Rightarrow> None)"

definition LEGACY_STAGING_RE :: "string \<Rightarrow> (string \<times> int) option" where
  "LEGACY_STAGING_RE s =
     (case split_dot s of
        [u, n, token, part] \<Rightarrow>
          if UPLOAD_ID_RE u \<and> hex_run 32 token \<and> part = ''part'' then map_option (\<lambda>k. (u, k)) (part_number n) else None
      | _ \<Rightarrow> None)"

definition upload_part_name :: "string \<Rightarrow> int \<Rightarrow> string \<Rightarrow> string" where
  "upload_part_name upload_id part_no token = upload_id @ ''.parts.'' @ py_str part_no @ ''.'' @ token @ ''.part''"

text \<open>The root is the managed directory after it has been opened; \<open>token\<close> is the random suffix.\<close>

definition new_upload_part_path :: "path \<Rightarrow> string \<Rightarrow> int \<Rightarrow> string \<Rightarrow> exn + path" where
  "new_upload_part_path upload_root upload_id part_no token =
     (if \<not> UPLOAD_ID_RE upload_id \<or> part_no < 1 then Inl ValueError
      else Inr (upload_root @ [upload_part_name upload_id part_no token]))"

definition validated_upload_part_path :: "string \<Rightarrow> path \<Rightarrow> string \<Rightarrow> string \<Rightarrow> int \<Rightarrow> exn + path" where
  "validated_upload_part_path path_value upload_root upload_id temp_path part_no =
     (if \<not> UPLOAD_ID_RE upload_id \<or> part_no < 1 then Inl ValueError
      else
        ebind (contained_path path_value upload_root) (\<lambda>target.
        ebind (contained_path temp_path upload_root) (\<lambda>expected_temp.
        ebind (guard (expected_temp = upload_root @ [upload_id @ ''.parts'']) UnsafeFilePathError) (\<lambda>_.
          let legacy_path = upload_root @ [upload_id @ ''.parts.'' @ py_str part_no];
              unique_matches = (target \<noteq> [] \<and> butlast target = upload_root
                \<and> UNIQUE_PART_RE (last target) = Some (upload_id, part_no))
          in ebind (guard (target = legacy_path \<or> unique_matches) UnsafeFilePathError) (\<lambda>_.
             Inr target)))))"

definition is_managed_upload_candidate_name :: "string \<Rightarrow> bool" where
  "is_managed_upload_candidate_name filename =
     (UNIQUE_PART_RE filename \<noteq> None \<or> LEGACY_PART_RE filename \<noteq> None \<or> LEGACY_STAGING_RE filename \<noteq> None)"

definition upload_identity_from_candidate_name :: "string \<Rightarrow> (string \<times> int) option" where
  "upload_identity_from_candidate_name filename =
     (case UNIQUE_PART_RE filename of
        Some x \<Rightarrow> Some x
      | None \<Rightarrow> (case LEGACY_PART_RE filename of Some x \<Rightarrow> Some x | None \<Rightarrow> LEGACY_STAGING_RE filename))"

section \<open>The counters are the held leases\<close>

definition held :: "admission \<Rightarrow> (string \<times> string) multiset" where
  "held s = mset (map (\<lambda>x. (pl_principal_key x, pl_upload_id x)) (filter (\<lambda>x. \<not> pl_released x) (adm_parts s)))"

definition held_exclusive :: "admission \<Rightarrow> string multiset" where
  "held_exclusive s = mset (map xl_upload_id (filter (\<lambda>x. \<not> xl_released x) (adm_exclusives s)))"

definition by_principal :: "(string \<times> string) multiset \<Rightarrow> string \<Rightarrow> int" where
  "by_principal M p = int (size (filter_mset (\<lambda>x. fst x = p) M))"

definition by_upload :: "(string \<times> string) multiset \<Rightarrow> string \<Rightarrow> int" where
  "by_upload M u = int (size (filter_mset (\<lambda>x. snd x = u) M))"

definition positive :: "int \<Rightarrow> int option" where
  "positive n = (if n = 0 then None else Some n)"

definition admission_ok :: "limits \<Rightarrow> admission \<Rightarrow> bool" where
  "admission_ok lim s \<longleftrightarrow>
     lim_total (adm_limiter s) = int (size (held s)) \<and> size (held s) \<le> nat (max_total lim)
     \<and> (\<forall>p. lim_by_principal (adm_limiter s) p = positive (by_principal (held s) p)
           \<and> by_principal (held s) p \<le> max 0 (max_per_principal lim))
     \<and> (\<forall>u. lim_by_upload (adm_limiter s) u = positive (by_upload (held s) u)
           \<and> by_upload (held s) u \<le> max 0 (max_per_upload lim))
     \<and> (\<forall>u. count (held_exclusive s) u = (if u \<in> lim_exclusive (adm_limiter s) then 1 else 0))
     \<and> (\<forall>u \<in> lim_exclusive (adm_limiter s). by_upload (held s) u = 0)"

lemma held_snoc [simp]:
  "held (s\<lparr>adm_limiter := l, adm_parts := adm_parts s @ [\<lparr>pl_principal_key = p, pl_upload_id = u, pl_released = False\<rparr>]\<rparr>)
   = add_mset (p, u) (held s)"
  "held (s\<lparr>adm_limiter := l, adm_exclusives := xs\<rparr>) = held s"
  "held_exclusive (s\<lparr>adm_limiter := l, adm_exclusives := adm_exclusives s @ [\<lparr>xl_upload_id = u, xl_released = False\<rparr>]\<rparr>)
   = add_mset u (held_exclusive s)"
  "held_exclusive (s\<lparr>adm_limiter := l, adm_parts := ys\<rparr>) = held_exclusive s"
  by (simp_all add: held_def held_exclusive_def)

lemma by_add [simp]:
  "by_principal (add_mset (p, u) M) q = (if q = p then by_principal M q + 1 else by_principal M q)"
  "by_upload (add_mset (p, u) M) w = (if w = u then by_upload M w + 1 else by_upload M w)"
  by (auto simp: by_principal_def by_upload_def)

lemma by_nonneg [simp]: "0 \<le> by_principal M p" "0 \<le> by_upload M u"
  by (simp_all add: by_principal_def by_upload_def)

lemma counter_positive: "m k = positive n \<Longrightarrow> counter m k = n"
  by (simp add: counter_def positive_def)

lemma decrement_positive:
  "m k = positive n \<Longrightarrow> 0 < n \<Longrightarrow> decrement k n m j = (if j = k then positive (n - 1) else m j)"
  by (auto simp: decrement_def positive_def)

text \<open>Marking a held lease released takes it out of the multiset.\<close>

lemma mset_release:
  assumes "i < length xs" and "P (xs ! i)" and "\<not> P y"
  shows "mset (map f (filter P xs)) = add_mset (f (xs ! i)) (mset (map f (filter P (xs[i := y]))))"
  using assms by (induction xs arbitrary: i) (auto simp: nth_Cons split: nat.splits)


lemma acquire_part_ok:
  assumes "admission_ok lim s" and "admission_step lim (Acquire_Part p u) s = Inr s'"
  shows "admission_ok lim s'"
proof (cases "s' = s")
  case False
  then obtain l where l: "try_acquire lim p u (adm_limiter s) = Inr (Some l)"
    "s' = s\<lparr>adm_limiter := l, adm_parts := adm_parts s @ [\<lparr>pl_principal_key = p, pl_upload_id = u, pl_released = False\<rparr>]\<rparr>"
    using assms(2) by (auto simp: admission_step_def split: option.splits)
  have ok: "lim_total (adm_limiter s) = int (size (held s))" "\<And>p. lim_by_principal (adm_limiter s) p = positive (by_principal (held s) p)"
    "\<And>u. lim_by_upload (adm_limiter s) u = positive (by_upload (held s) u)" using assms(1) by (simp_all add: admission_ok_def)
  have g: "u \<notin> lim_exclusive (adm_limiter s)" "int (size (held s)) < max_total lim" "by_principal (held s) p < max_per_principal lim"
    "by_upload (held s) u < max_per_upload lim"
    and eff: "l = (adm_limiter s)\<lparr>lim_total := lim_total (adm_limiter s) + 1,
         lim_by_principal := (lim_by_principal (adm_limiter s))(p \<mapsto> by_principal (held s) p + 1),
         lim_by_upload := (lim_by_upload (adm_limiter s))(u \<mapsto> by_upload (held s) u + 1)\<rparr>"
    using l(1) by (auto simp: try_acquire_def Let_def ok counter_positive [OF ok(2)] counter_positive [OF ok(3)] split: if_splits)
  have pos: "0 \<le> n \<Longrightarrow> positive (n + 1) = Some (n + 1)" for n :: int by (simp add: positive_def)
  show ?thesis using assms(1) g unfolding l(2) eff admission_ok_def held_snoc by (auto simp: pos)
qed (use assms in simp)

lemma acquire_exclusive_ok:
  assumes "admission_ok lim s" and "admission_step lim (Acquire_Exclusive u) s = Inr s'"
  shows "admission_ok lim s'"
proof (cases "s' = s")
  case False
  then obtain l where l: "try_acquire_exclusive u (adm_limiter s) = Inr (Some l)"
    "s' = s\<lparr>adm_limiter := l, adm_exclusives := adm_exclusives s @ [\<lparr>xl_upload_id = u, xl_released = False\<rparr>]\<rparr>"
    using assms(2) by (auto simp: admission_step_def split: option.splits)
  have "lim_by_upload (adm_limiter s) u = positive (by_upload (held s) u)" using assms(1) by (simp add: admission_ok_def)
  then have "u \<notin> lim_exclusive (adm_limiter s) \<and> \<not> 0 < by_upload (held s) u
      \<and> l = (adm_limiter s)\<lparr>lim_exclusive := insert u (lim_exclusive (adm_limiter s))\<rparr>"
    using l(1) by (auto simp: try_acquire_exclusive_def counter_positive split: if_splits)
  moreover have "0 \<le> by_upload (held s) u" by simp
  ultimately have g: "u \<notin> lim_exclusive (adm_limiter s)" "by_upload (held s) u = 0"
    and eff: "l = (adm_limiter s)\<lparr>lim_exclusive := insert u (lim_exclusive (adm_limiter s))\<rparr>" by linarith+
  show ?thesis using assms(1) g unfolding l(2) eff admission_ok_def held_snoc by auto
qed (use assms in simp)

text \<open>A lease that is held is known to the limiter, so releasing it cannot fail.\<close>

lemma release_part_ok:
  assumes "admission_ok lim s"
  shows "\<exists>s'. admission_step lim (Release_Part i) s = Inr s' \<and> admission_ok lim s'"
proof (cases "i < length (adm_parts s) \<and> \<not> pl_released (adm_parts s ! i)")
  case True
  let ?x = "adm_parts s ! i" and ?l = "adm_limiter s"
  let ?p = "pl_principal_key ?x" and ?u = "pl_upload_id ?x"
  let ?ys = "(adm_parts s)[i := ?x\<lparr>pl_released := True\<rparr>]"
  let ?M = "mset (map (\<lambda>x. (pl_principal_key x, pl_upload_id x)) (filter (\<lambda>x. \<not> pl_released x) ?ys))"
  have h: "held s = add_mset (?p, ?u) ?M"
    unfolding held_def using True by (intro mset_release [where P = "\<lambda>x. \<not> pl_released x"]) simp_all
  have ok: "lim_by_principal ?l q = positive (by_principal (held s) q)" "lim_by_upload ?l w = positive (by_upload (held s) w)" for q w
    using assms by (simp_all add: admission_ok_def)
  have some: "lim_by_principal ?l ?p = Some (by_principal ?M ?p + 1)" "lim_by_upload ?l ?u = Some (by_upload ?M ?u + 1)"
    using ok(1) [of ?p] ok(2) [of ?u] by (auto simp: h positive_def by_principal_def by_upload_def)
  let ?l' = "?l\<lparr>lim_by_principal := decrement ?p (by_principal ?M ?p + 1) (lim_by_principal ?l),
       lim_by_upload := decrement ?u (by_upload ?M ?u + 1) (lim_by_upload ?l), lim_total := lim_total ?l - 1\<rparr>"
  let ?s' = "s\<lparr>adm_limiter := ?l', adm_parts := ?ys\<rparr>"
  have step: "admission_step lim (Release_Part i) s = Inr ?s'"
    using True some by (simp add: admission_step_def part_lease_release_def release_part_def)
  have h': "held ?s' = ?M" by (simp add: held_def)
  have dec: "decrement ?p (by_principal ?M ?p + 1) (lim_by_principal ?l) q = positive (by_principal ?M q)"
    "decrement ?u (by_upload ?M ?u + 1) (lim_by_upload ?l) w = positive (by_upload ?M w)" for q w
  proof -
    have "lim_by_principal ?l ?p = positive (by_principal ?M ?p + 1)" "lim_by_upload ?l ?u = positive (by_upload ?M ?u + 1)"
      using ok(1) [of ?p] ok(2) [of ?u] by (simp_all add: h)
    moreover have "0 < by_principal ?M ?p + 1" "0 < by_upload ?M ?u + 1"
      using by_nonneg(1) [of ?M ?p] by_nonneg(2) [of ?M ?u] by linarith+
    ultimately show "decrement ?p (by_principal ?M ?p + 1) (lim_by_principal ?l) q = positive (by_principal ?M q)"
      "decrement ?u (by_upload ?M ?u + 1) (lim_by_upload ?l) w = positive (by_upload ?M w)"
      using ok(1) [of q] ok(2) [of w] by (simp_all add: decrement_positive h split: if_splits)
  qed
  have mono: "by_principal ?M q \<le> by_principal (held s) q" "by_upload ?M w \<le> by_upload (held s) w" for q w
    by (simp_all add: h)
  have "admission_ok lim ?s'"
    unfolding admission_ok_def h'
  proof (intro conjI allI ballI)
    fix q w
    show "by_principal ?M q \<le> max 0 (max_per_principal lim)" "by_upload ?M w \<le> max 0 (max_per_upload lim)"
      using mono(1) [of q] mono(2) [of w] assms unfolding admission_ok_def by (meson order_trans)+
  next
    fix w assume "w \<in> lim_exclusive (adm_limiter ?s')"
    then have "by_upload (held s) w = 0" using assms by (simp add: admission_ok_def)
    then show "by_upload ?M w = 0" using mono(2) [of w] by_nonneg(2) [of ?M w] by linarith
  qed (use assms dec h in \<open>simp_all add: admission_ok_def\<close>)
  then show ?thesis using step by blast
next
  case False
  then have "admission_step lim (Release_Part i) s = Inr s"
    by (auto simp: admission_step_def part_lease_release_def)
  then show ?thesis using assms by blast
qed

lemma release_exclusive_ok:
  assumes "admission_ok lim s"
  shows "\<exists>s'. admission_step lim (Release_Exclusive i) s = Inr s' \<and> admission_ok lim s'"
proof (cases "i < length (adm_exclusives s) \<and> \<not> xl_released (adm_exclusives s ! i)")
  case True
  let ?x = "adm_exclusives s ! i" and ?l = "adm_limiter s"
  let ?u = "xl_upload_id ?x" and ?ys = "(adm_exclusives s)[i := ?x\<lparr>xl_released := True\<rparr>]"
  let ?M = "mset (map xl_upload_id (filter (\<lambda>x. \<not> xl_released x) ?ys))"
  have h: "held_exclusive s = add_mset ?u ?M"
    unfolding held_exclusive_def using True by (intro mset_release [where P = "\<lambda>x. \<not> xl_released x"]) simp_all
  have ex: "count (held_exclusive s) w = (if w \<in> lim_exclusive ?l then 1 else 0)" for w
    using assms by (simp add: admission_ok_def)
  have mem: "?u \<in> lim_exclusive ?l" using ex [of ?u] h by (auto split: if_splits)
  let ?s' = "s\<lparr>adm_limiter := ?l\<lparr>lim_exclusive := lim_exclusive ?l - {?u}\<rparr>, adm_exclusives := ?ys\<rparr>"
  have step: "admission_step lim (Release_Exclusive i) s = Inr ?s'"
    using True mem by (simp add: admission_step_def exclusive_lease_release_def release_exclusive_def)
  have "held_exclusive ?s' = ?M" by (simp add: held_exclusive_def)
  moreover have "count ?M w = (if w \<in> lim_exclusive ?l - {?u} then 1 else 0)" for w
    using ex [of w] mem by (auto simp: h split: if_splits)
  ultimately have "admission_ok lim ?s'" using assms by (simp add: admission_ok_def)
  then show ?thesis using step by blast
next
  case False
  then have "admission_step lim (Release_Exclusive i) s = Inr s"
    by (auto simp: admission_step_def exclusive_lease_release_def)
  then show ?thesis using assms by blast
qed

interpretation admission: checked_machine "admission_step lim" "admission_ok lim" for lim
proof
  fix s x s'
  assume "admission_ok lim s" and "admission_step lim x s = Inr s'"
  then show "admission_ok lim s'"
    using acquire_part_ok [of lim s _ _ s'] acquire_exclusive_ok [of lim s _ s'] release_part_ok [of lim s] release_exclusive_ok [of lim s]
    by (cases x) (metis sum.inject(2))+
qed

lemma no_admissions_ok: "admission_ok lim no_admissions"
  by (simp add: admission_ok_def no_admissions_def new_limiter_def held_def held_exclusive_def by_principal_def by_upload_def positive_def)

text \<open>
  C29. Whatever part uploads and exclusive operations are admitted and released, in whatever order
  and however often a lease is released, the number of part leases held is within every limit (in
  total, per principal and per upload), the limiter's counters are exactly those numbers, an upload
  under an exclusive operation has no part lease, and releasing a lease never fails.
\<close>

theorem upload_admission_exact:
  assumes "reachable_by (admission_step lim) no_admissions s"
  shows "int (size (held s)) \<le> max 0 (max_total lim) \<and> by_principal (held s) p \<le> max 0 (max_per_principal lim)
    \<and> by_upload (held s) u \<le> max 0 (max_per_upload lim) \<and> lim_total (adm_limiter s) = int (size (held s))
    \<and> counter (lim_by_principal (adm_limiter s)) p = by_principal (held s) p
    \<and> counter (lim_by_upload (adm_limiter s)) u = by_upload (held s) u
    \<and> (u \<in># held_exclusive s \<longrightarrow> by_upload (held s) u = 0 \<and> count (held_exclusive s) u = 1)
    \<and> (\<forall>i. \<exists>s1 s2. admission_step lim (Release_Part i) s = Inr s1 \<and> admission_step lim (Release_Exclusive i) s = Inr s2)"
proof -
  have ok: "admission_ok lim s" by (rule admission.reachable_invar [OF assms no_admissions_ok])
  then have "count (held_exclusive s) u = (if u \<in> lim_exclusive (adm_limiter s) then 1 else 0)" by (simp add: admission_ok_def)
  then have "u \<in># held_exclusive s \<longleftrightarrow> u \<in> lim_exclusive (adm_limiter s)" by (auto simp: count_greater_zero_iff [symmetric] split: if_splits)
  moreover have "counter (lim_by_principal (adm_limiter s)) p = by_principal (held s) p"
    "counter (lim_by_upload (adm_limiter s)) u = by_upload (held s) u"
    using ok by (simp_all add: admission_ok_def counter_positive)
  moreover have "\<exists>s1 s2. admission_step lim (Release_Part i) s = Inr s1 \<and> admission_step lim (Release_Exclusive i) s = Inr s2" for i
    using release_part_ok [OF ok, of i] release_exclusive_ok [OF ok, of i] by blast
  ultimately show ?thesis using ok unfolding admission_ok_def by auto
qed

definition ex_limits :: limits where
  "ex_limits = \<lparr>max_per_principal = 2, max_per_upload = 1, max_total = 3\<rparr>"

theorem upload_admission_exact_witness:
  "int (size (held (run_ops (admission_step ex_limits) [Acquire_Part ''u1'' ''upl_a'', Acquire_Part ''u1'' ''upl_a'', Release_Part 0] no_admissions))) \<le> 3"
  using upload_admission_exact [OF run_ops_reachable, of ex_limits
      "[Acquire_Part ''u1'' ''upl_a'', Acquire_Part ''u1'' ''upl_a'', Release_Part 0]"] by (simp add: ex_limits_def)

section \<open>Names round trip\<close>

lemma split_dot_plain: "CHR ''.'' \<notin> set w \<Longrightarrow> split_dot w = [w]"
  by (induction w) (auto simp: split_dot_def Let_def)

lemma split_dot_append: "CHR ''.'' \<notin> set w \<Longrightarrow> split_dot (w @ CHR ''.'' # s) = w # split_dot s"
  by (induction w) (auto simp: split_dot_def Let_def)

lemmas split_parts = split_dot_append [of "''parts''", simplified]

lemma hex_no_dot: "list_all is_hex s \<Longrightarrow> CHR ''.'' \<notin> set s"
  by (auto simp: list_all_iff is_hex_def is_digit_def)

lemma upload_id_no_dot: "UPLOAD_ID_RE u \<Longrightarrow> CHR ''.'' \<notin> set u"
  by (auto simp: UPLOAD_ID_RE_def hex_id_def hex_run_def prefix_def dest: hex_no_dot)

lemma digits_no_dot: "list_all is_digit s \<Longrightarrow> CHR ''.'' \<notin> set s"
  by (auto simp: list_all_iff is_digit_def)

lemma int_digits_append:
  "list_all is_digit (s @ [c]) \<Longrightarrow> int_digits acc (s @ [c]) = map_option (\<lambda>n. 10 * n + (of_char c - 48)) (int_digits acc s)"
  by (induction s arbitrary: acc) auto

lemma digit_value: "d < 10 \<Longrightarrow> (of_char (digit_char d) :: int) = 48 + int d"
  using of_char_digit [of d] by (metis of_nat_add of_nat_numeral of_nat_of_char)

lemma int_digits_dec: "int_digits 0 (dec_nat n) = Some (int n)"
proof (induction n rule: dec_nat.induct)
  case (1 n)
  show ?case
  proof (cases "n < 10")
    case True
    then show ?thesis using digit_value [of n] is_digit_digit_char [of n] by (simp add: dec_nat.simps [of n])
  next
    case False
    have "dec_nat n = dec_nat (n div 10) @ [digit_char (n mod 10)]" using False by (simp add: dec_nat.simps [of n])
    moreover have "list_all is_digit (dec_nat (n div 10) @ [digit_char (n mod 10)])"
      using dec_nat_digits [of "n div 10"] is_digit_digit_char [of "n mod 10"] by simp
    moreover have "10 * int (n div 10) + int (n mod 10) = int n" by presburger
    ultimately show ?thesis using int_digits_append [of "dec_nat (n div 10)"] 1 [OF False] digit_value [of "n mod 10"]
      by simp
  qed
qed

lemma dec_nat_hd: "0 < n \<Longrightarrow> hd (dec_nat n) \<noteq> CHR ''0''"
proof (induction n rule: dec_nat.induct)
  case (1 n)
  have "digit_char n \<noteq> CHR ''0''" if "n < 10" "0 < n" using of_char_digit [of n] that by auto
  then show ?case using 1 by (cases "n < 10") (simp_all add: dec_nat.simps [of n] hd_append)
qed

lemma part_number_str: "1 \<le> n \<Longrightarrow> part_number (py_str n) = Some n"
  using int_digits_dec [of "nat n"] dec_nat_hd [of "nat n"] dec_nat_digits [of "nat n"]
  by (auto simp: part_number_def py_str_def split: list.splits)

lemma unique_name_matches:
  assumes "UPLOAD_ID_RE u" and "1 \<le> n" and "hex_run 32 token"
  shows "UNIQUE_PART_RE (upload_part_name u n token) = Some (u, n)"
proof -
  have "split_dot (upload_part_name u n token) = [u, ''parts'', py_str n, token, ''part'']"
  proof -
    have "CHR ''.'' \<notin> set u" "CHR ''.'' \<notin> set (py_str n)" "CHR ''.'' \<notin> set token"
      using upload_id_no_dot [OF assms(1)] digits_no_dot [OF py_str_pos_digits, of n] assms(2,3) hex_no_dot [of token]
      by (simp_all add: hex_run_def)
    then show ?thesis by (simp add: upload_part_name_def split_dot_append split_dot_plain split_parts)
  qed
  then show ?thesis using assms by (simp add: UNIQUE_PART_RE_def part_number_str)
qed

lemma contained_path_str:
  assumes "normal root" and "rel \<noteq> []" and "normal rel"
  shows "contained_path (path_str (root @ rel)) root = Inr (root @ rel)"
proof -
  have n: "normal (root @ rel)" using assms by (simp add: normal_def)
  then have "path_parts (path_str (root @ rel)) = root @ rel"
    using assms(2) path_str_split [OF n] by (auto simp: path_parts_def normal_def list_all_iff plain_def intro!: filter_True)
  moreover have "path_root_of (path_str (root @ rel)) = Absolute" using n assms(2) path_root_of_path_str by blast
  ultimately show ?thesis
    using assms n by (auto simp: contained_path_def Let_def normalise_normal normal_def list_ex_iff list_all_iff plain_def)
qed

lemma upload_id_plain: "UPLOAD_ID_RE u \<Longrightarrow> CHR ''/'' \<notin> set s \<Longrightarrow> plain (u @ s)"
proof -
  assume u: "UPLOAD_ID_RE u" and s: "CHR ''/'' \<notin> set s"
  have "length u > 2" "CHR ''/'' \<notin> set u"
    using u by (auto simp: UPLOAD_ID_RE_def dest!: hex_id_length) (use u hex_id_no_slash [of "''upl''"] in \<open>auto simp: UPLOAD_ID_RE_def\<close>)
  moreover have "plain w" if "length w > 2" "CHR ''/'' \<notin> set w" for w using that by (auto simp: plain_def)
  ultimately show ?thesis using s by simp
qed

text \<open>
  The file name given to a new part is accepted when the part is registered, for the same upload
  and the same part number, and the cleanup reads the same upload and part number back from it;
  registered under another upload or part number it is refused.
\<close>

theorem part_path_roundtrip:
  assumes "normal root" and "new_upload_part_path root u n token = Inr p" and "hex_run 32 token"
  shows "validated_upload_part_path (path_str p) root u (path_str (root @ [u @ ''.parts''])) n = Inr p
    \<and> upload_identity_from_candidate_name (last p) = Some (u, n)
    \<and> ((u', n') \<noteq> (u, n) \<longrightarrow> \<not> (\<exists>q. validated_upload_part_path (path_str p) root u' temp n' = Inr q))"
proof -
  let ?name = "upload_part_name u n token"
  have u: "UPLOAD_ID_RE u" "1 \<le> n" and p: "p = root @ [?name]"
    using assms(2) by (auto simp: new_upload_part_path_def split: if_splits)
  have re: "UNIQUE_PART_RE ?name = Some (u, n)" by (rule unique_name_matches [OF u assms(3)])
  have slash: "CHR ''/'' \<notin> set (py_str n)" "CHR ''/'' \<notin> set token"
    using py_str_pos_digits [of n] u(2) assms(3) by (auto simp: list_all_iff is_digit_def hex_run_def dest: hex_not_sep)
  have pl: "plain ?name" "plain (u @ ''.parts'')"
    using u(1) slash by (auto simp: upload_part_name_def intro!: upload_id_plain)
  have c: "contained_path (path_str p) root = Inr p" "contained_path (path_str (root @ [u @ ''.parts''])) root = Inr (root @ [u @ ''.parts''])"
    unfolding p using pl by (auto intro!: contained_path_str [OF assms(1)] simp: normal_def)
  have "?name \<noteq> u' @ ''.parts.'' @ py_str n'" if "UPLOAD_ID_RE u'" "1 \<le> n'" for u' n'
  proof
    assume e: "?name = u' @ ''.parts.'' @ py_str n'"
    have "split_dot (u' @ CHR ''.'' # ''parts'' @ CHR ''.'' # py_str n') = [u', ''parts'', py_str n']"
      using upload_id_no_dot [OF that(1)] digits_no_dot [OF py_str_pos_digits, of n'] that(2)
      by (simp add: split_dot_append split_dot_plain split_parts)
    then have "UNIQUE_PART_RE (u' @ ''.parts.'' @ py_str n') = None" by (simp add: UNIQUE_PART_RE_def)
    then show False using re e by simp
  qed
  then show ?thesis
    using u re c by (auto simp: validated_upload_part_path_def upload_identity_from_candidate_name_def p)
qed

theorem part_path_roundtrip_witness:
  "let u = ''upl_'' @ replicate 32 (CHR ''a''); t = replicate 32 (CHR ''0''); p = [''srv'', ''uploads'', upload_part_name u 12 t]
   in upload_identity_from_candidate_name (last p) = Some (u, 12)
      \<and> \<not> (\<exists>q. validated_upload_part_path (path_str p) [''srv'', ''uploads''] u ''x'' 13 = Inr q)"
proof -
  let ?u = "''upl_'' @ replicate 32 (CHR ''a'')" and ?t = "replicate 32 (CHR ''0'')"
  have a: "normal [''srv'', ''uploads'']" and t: "hex_run 32 ?t" by code_simp+
  have n: "new_upload_part_path [''srv'', ''uploads''] ?u 12 ?t = Inr ([''srv'', ''uploads''] @ [upload_part_name ?u 12 ?t])" by code_simp
  show ?thesis using part_path_roundtrip [OF a n t, of ?u 13 "''x''"] by (simp add: Let_def)
qed

end
