(* ===== verification/Uploads.thy ===== *)
theory Uploads
  imports Commands Upload_Parts Media_Files
begin

text \<open>
  Resumable uploads: \<open>LocalMediaService\<close> of \<open>src/backend/app/modules/review_media/service.py\<close>
  and the transactions around it in \<open>src/backend/app/modules/review_http/upload_routes.py\<close>.
  An upload reserves quota, receives numbered parts in any order, and is completed under an expiring
  finalization lease: the parts are joined into the final file, which is checked and published. The
  files on disk are observations: \<open>env_pin_storage\<close> for the identity of a file, and
  \<open>final_storage\<close> for what the finalizer reads.
\<close>

section \<open>Sessions\<close>

definition upload_root :: "env \<Rightarrow> path" where
  "upload_root env = cfg_storage_root (env_settings env) @ [''uploads'']"

definition file_root :: "env \<Rightarrow> path" where
  "file_root env = cfg_storage_root (env_settings env) @ [''files'']"

definition put_upload :: "upload_session \<Rightarrow> db \<Rightarrow> db" where
  "put_upload u db = db\<lparr>db_uploads := row_put upl_id u (db_uploads db)\<rparr>"

definition get_upload_row :: "db \<Rightarrow> string \<Rightarrow> exn + upload_session" where
  "get_upload_row db upload_id = of_option (ReviewError RESOURCE_NOT_FOUND) (row_get upl_id upload_id (db_uploads db))"

definition assert_upload_owner :: "execution_context \<Rightarrow> upload_session \<Rightarrow> exn + unit" where
  "assert_upload_owner context u =
     (case pr_id (ctx_principal context) of
        None \<Rightarrow> raise PRINCIPAL_AUTHENTICATION_REQUIRED
      | Some p \<Rightarrow>
          if p = '''' then raise PRINCIPAL_AUTHENTICATION_REQUIRED
          else guard (upl_owner_principal_id u = p \<and> upl_owner_principal_kind u = pr_kind (ctx_principal context))
                 (ReviewError PRINCIPAL_PERMISSION_DENIED))"

definition owned_upload :: "execution_context \<Rightarrow> db \<Rightarrow> string \<Rightarrow> exn + upload_session" where
  "owned_upload context db upload_id =
     ebind (get_upload_row db upload_id) (\<lambda>u. ebind (assert_upload_owner context u) (\<lambda>_. Inr u))"

definition received_size :: "upload_session \<Rightarrow> int" where
  "received_size u = sum_list (map (\<lambda>(_, p). part_size p) (upl_received_parts u))"

definition upload_dto :: "upload_session \<Rightarrow> upload_view" where
  "upload_dto u =
     \<lparr>uv_upload_id = upl_id u, uv_status = (if upl_status u = finalizing then receiving else upl_status u),
      uv_original_filename = upl_original_filename u, uv_mime_type = upl_mime_type u,
      uv_declared_size = upl_declared_size u, uv_received_size = received_size u, uv_file_id = upl_file_id u\<rparr>"

definition get_upload :: "execution_context \<Rightarrow> string \<Rightarrow> db \<Rightarrow> exn + upload_view" where
  "get_upload context upload_id db = ebind (owned_upload context db upload_id) (\<lambda>u. Inr (upload_dto u))"

section \<open>Starting an upload\<close>

record upload_request =
  req_original_filename :: string
  req_mime_type :: string
  req_file_size :: int
  req_sha256 :: string
  req_duration_ms :: "int option"
  req_width :: "int option"
  req_height :: "int option"
  req_fps_num :: "int option"
  req_fps_den :: "int option"

definition UPLOAD_PEAK_RESERVATION_MULTIPLIER :: int where
  "UPLOAD_PEAK_RESERVATION_MULTIPLIER = 2"

definition active_reservation :: "upload_session \<Rightarrow> bool" where
  "active_reservation u \<longleftrightarrow> upl_parts_cleanup_confirmed_at u = None"

definition principal_reservation :: "principal_ref \<Rightarrow> upload_session \<Rightarrow> bool" where
  "principal_reservation p u \<longleftrightarrow> active_reservation u \<and> Some (upl_owner_principal_id u) = pr_id p \<and> upl_owner_principal_kind u = pr_kind p"

definition reserved_sum :: "(upload_session \<Rightarrow> bool) \<Rightarrow> db \<Rightarrow> int" where
  "reserved_sum P db = sum_list (map upl_reserved_bytes (filter P (db_uploads db)))"

definition reserve_upload_quota :: "env \<Rightarrow> execution_context \<Rightarrow> int \<Rightarrow> db \<Rightarrow> exn + unit" where
  "reserve_upload_quota env context reservation_bytes db =
     (let cfg = env_settings env; mine = principal_reservation (ctx_principal context);
          global_count = count_rows active_reservation (db_uploads db); global_bytes = reserved_sum active_reservation db;
          principal_count = count_rows mine (db_uploads db); principal_bytes = reserved_sum mine db;
          conflict = ReviewError RESOURCE_STATE_CONFLICT; unavailable = ReviewError STORAGE_UNAVAILABLE
      in ebind (guard (\<not> global_count \<ge> cfg_max_active_upload_sessions_global cfg) conflict) (\<lambda>_.
         ebind (guard (\<not> principal_count \<ge> cfg_max_active_upload_sessions_per_principal cfg) conflict) (\<lambda>_.
         ebind (guard (\<not> global_bytes + reservation_bytes > cfg_max_reserved_upload_bytes_global cfg) conflict) (\<lambda>_.
         ebind (guard (\<not> principal_bytes + reservation_bytes > cfg_max_reserved_upload_bytes_per_principal cfg) conflict) (\<lambda>_.
         ebind (of_option unavailable (env_storage_disk_free env)) (\<lambda>free_bytes.
         ebind (of_option unavailable (env_roots_share_filesystem env)) (\<lambda>shared.
           let package_reserved_bytes = (if shared then pending_package_storage_reservation_bytes None db else 0)
           in guard (\<not> free_bytes - global_bytes - package_reserved_bytes - reservation_bytes
                       < cfg_upload_storage_low_watermark_bytes cfg) unavailable)))))))"

text \<open>\<open>_contained_path\<close>: an unsafe path is reported as a validation error.\<close>

definition upload_contained_path :: "string \<Rightarrow> path \<Rightarrow> exn + path" where
  "upload_contained_path value root =
     (case contained_path value root of Inl e \<Rightarrow> Inl (if e = UnsafeFilePathError then ReviewError VALIDATION_ERROR else e) | Inr p \<Rightarrow> Inr p)"

definition fresh_upload :: "env \<Rightarrow> execution_context \<Rightarrow> upload_request \<Rightarrow> string \<Rightarrow> string \<Rightarrow> path \<Rightarrow> upload_session" where
  "fresh_upload env context req principal_id upload_id temp_path =
     (let reservation_bytes = req_file_size req * UPLOAD_PEAK_RESERVATION_MULTIPLIER
      in \<lparr>upl_id = upload_id, upl_original_filename = req_original_filename req,
          upl_mime_type = req_mime_type req, upl_declared_size = req_file_size req,
          upl_expected_sha256 = req_sha256 req, upl_status = initiated, upl_temp_path = path_str temp_path,
          upl_owner_principal_id = principal_id, upl_owner_principal_kind = pr_kind (ctx_principal context),
          upl_received_parts = [], upl_reserved_bytes = reservation_bytes,
          upl_parts_cleanup_confirmed_at = None, upl_finalization_lease_id = None,
          upl_finalization_lease_expires_at = None, upl_finalization_file_id = None,
          upl_finalization_idempotency_key_hash = None, upl_finalization_request_hash = None,
          upl_file_id = None, upl_duration_ms = case_option 1000 id (req_duration_ms req),
          upl_width = case_option 1920 id (req_width req), upl_height = case_option 1080 id (req_height req),
          upl_fps_num = case_option 25 id (req_fps_num req), upl_fps_den = case_option 1 id (req_fps_den req),
          upl_created_at = env_now env, upl_updated_at = env_now env\<rparr>)"

definition init_upload :: "env \<Rightarrow> execution_context \<Rightarrow> upload_request \<Rightarrow> db \<Rightarrow> exn + upload_view \<times> db" where
  "init_upload env context req db =
     (case pr_id (ctx_principal context) of
        None \<Rightarrow> raise PRINCIPAL_AUTHENTICATION_REQUIRED
      | Some principal_id \<Rightarrow>
          let reservation_bytes = req_file_size req * UPLOAD_PEAK_RESERVATION_MULTIPLIER
          in ebind (guard (principal_id \<noteq> '''') (ReviewError PRINCIPAL_AUTHENTICATION_REQUIRED)) (\<lambda>_.
             ebind (guard (req_mime_type req \<in> set ALLOWED_MIME) (ReviewError FILE_TYPE_NOT_ALLOWED)) (\<lambda>_.
             ebind (guard (media_name_matches (req_original_filename req) (req_mime_type req)) (ReviewError FILE_TYPE_NOT_ALLOWED)) (\<lambda>_.
             ebind (guard (\<not> req_file_size req > cfg_max_upload_bytes (env_settings env)) (ReviewError FILE_TOO_LARGE)) (\<lambda>_.
             ebind (reserve_upload_quota env context reservation_bytes db) (\<lambda>_.
               let (upload_id, db) = new_id env ''upl'' db
               in ebind (upload_contained_path (path_str (upload_root env @ [upload_id @ ''.parts''])) (upload_root env)) (\<lambda>temp_path.
                    let u = fresh_upload env context req principal_id upload_id temp_path
                    in ebind (row_insert upl_id (\<lambda>_ _. False) u (db_uploads db)) (\<lambda>rows.
                       Inr (upload_dto u, db\<lparr>db_uploads := rows\<rparr>)))))))))"

section \<open>Receiving parts\<close>

definition max_part_write_bytes :: "env \<Rightarrow> upload_session \<Rightarrow> int \<Rightarrow> exn + int" where
  "max_part_write_bytes env u part_no =
     (let parts = upl_received_parts u; conflict = ReviewError RESOURCE_STATE_CONFLICT
      in ebind (guard (\<not> int (length parts) > cfg_max_upload_parts (env_settings env)) conflict) (\<lambda>_.
         ebind (guard (list_all (\<lambda>(_, p). 0 < part_size p) parts) conflict) (\<lambda>_.
           let remaining = upl_declared_size u - sum_list (map (\<lambda>(_, p). part_size p) (filter (\<lambda>(k, _). k \<noteq> part_no) parts))
           in ebind (guard (\<not> remaining \<le> 0) (ReviewError FILE_TOO_LARGE)) (\<lambda>_.
              Inr (min (cfg_max_upload_part_bytes (env_settings env)) remaining)))))"

definition ensure_can_receive_part :: "env \<Rightarrow> execution_context \<Rightarrow> string \<Rightarrow> int \<Rightarrow> db \<Rightarrow> exn + upload_session" where
  "ensure_can_receive_part env context upload_id part_no db =
     ebind (guard (1 \<le> part_no \<and> part_no \<le> cfg_max_upload_parts (env_settings env)) (ReviewError VALIDATION_ERROR)) (\<lambda>_.
     ebind (owned_upload context db upload_id) (\<lambda>u.
     ebind (guard (upl_status u = initiated \<or> upl_status u = receiving) (ReviewError RESOURCE_STATE_CONFLICT)) (\<lambda>_.
     Inr u)))"

definition ensure_can_stream_part :: "env \<Rightarrow> execution_context \<Rightarrow> string \<Rightarrow> int \<Rightarrow> db \<Rightarrow> exn + int" where
  "ensure_can_stream_part env context upload_id part_no db =
     ebind (ensure_can_receive_part env context upload_id part_no db) (\<lambda>u. max_part_write_bytes env u part_no)"

definition claim_part_stream :: "env \<Rightarrow> execution_context \<Rightarrow> string \<Rightarrow> int \<Rightarrow> db \<Rightarrow> exn + int \<times> db" where
  "claim_part_stream env context upload_id part_no db =
     ebind (ensure_can_receive_part env context upload_id part_no db) (\<lambda>u.
     ebind (max_part_write_bytes env u part_no) (\<lambda>n.
     Inr (n, put_upload (u\<lparr>upl_updated_at := env_now env\<rparr>) db)))"

text \<open>\<open>except (OSError, ValueError)\<close>: an unsafe path is an \<open>OSError\<close> too.\<close>

definition path_error_as :: "error_code \<Rightarrow> exn + 'a \<Rightarrow> exn + 'a" where
  "path_error_as code m = (case m of Inl e \<Rightarrow> Inl (if e \<in> {OSError, ValueError, UnsafeFilePathError} then ReviewError code else e) | Inr x \<Rightarrow> Inr x)"

definition staged_part :: "env \<Rightarrow> upload_session \<Rightarrow> int \<Rightarrow> string \<Rightarrow> int \<Rightarrow> exn + path" where
  "staged_part env u part_no staged_path bytes =
     path_error_as VALIDATION_ERROR
       (ebind (validated_upload_part_path staged_path (upload_root env) (upl_id u) (upl_temp_path u) part_no) (\<lambda>p.
          case env_pin_storage env p of
            Pin_Unsafe \<Rightarrow> Inl UnsafeFilePathError
          | Pin_OSError \<Rightarrow> Inl OSError
          | Pin_Missing \<Rightarrow> raise STORAGE_UNAVAILABLE
          | Pin_File i \<Rightarrow> ebind (guard (fid_size i = bytes) (ReviewError STORAGE_UNAVAILABLE)) (\<lambda>_. Inr p)))"

definition part_get :: "int \<Rightarrow> (int \<times> upload_part) list \<Rightarrow> upload_part option" where
  "part_get k parts = map_of parts k"

text \<open>\<open>received_parts[str(part_no)] = ...\<close>\<close>

definition part_set :: "int \<Rightarrow> upload_part \<Rightarrow> (int \<times> upload_part) list \<Rightarrow> (int \<times> upload_part) list" where
  "part_set k p parts =
     (if part_get k parts = None then parts @ [(k, p)] else map (\<lambda>(j, q). if j = k then (k, p) else (j, q)) parts)"

record prepared_part =
  pp_response :: upload_view
  pp_candidate_path :: path
  pp_superseded_path :: "path option"

definition superseded_part :: "env \<Rightarrow> upload_session \<Rightarrow> int \<Rightarrow> path \<Rightarrow> exn + path option" where
  "superseded_part env u part_no staged_path =
     (case part_get part_no (upl_received_parts u) of
        None \<Rightarrow> Inr None
      | Some existing \<Rightarrow>
          ebind (path_error_as RESOURCE_STATE_CONFLICT
                   (validated_upload_part_path (part_path existing) (upload_root env) (upl_id u) (upl_temp_path u) part_no)) (\<lambda>p.
          Inr (if p \<noteq> staged_path then Some p else None)))"

text \<open>The upload is locked by \<open>ensure_can_receive_part\<close> in the same transaction.\<close>

definition put_part_file ::
  "env \<Rightarrow> execution_context \<Rightarrow> string \<Rightarrow> int \<Rightarrow> string \<Rightarrow> int \<Rightarrow> db \<Rightarrow> exn + prepared_part \<times> db" where
  "put_part_file env context upload_id part_no staged_path bytes db =
     (let cfg = env_settings env
      in ebind (ensure_can_receive_part env context upload_id part_no db) (\<lambda>u.
         ebind (guard (\<not> bytes \<le> 0) (ReviewError VALIDATION_ERROR)) (\<lambda>_.
         ebind (guard (\<not> bytes > cfg_max_upload_part_bytes cfg) (ReviewError FILE_TOO_LARGE)) (\<lambda>_.
         ebind (max_part_write_bytes env u part_no) (\<lambda>max_write_bytes.
         ebind (guard (\<not> bytes > max_write_bytes) (ReviewError FILE_TOO_LARGE)) (\<lambda>_.
         ebind (staged_part env u part_no staged_path bytes) (\<lambda>p.
           let parts = upl_received_parts u;
               existing_part_size = (case part_get part_no parts of None \<Rightarrow> 0 | Some q \<Rightarrow> part_size q);
               current_size = received_size u - existing_part_size + bytes
           in ebind (guard (\<not> (part_get part_no parts = None \<and> int (length parts) \<ge> cfg_max_upload_parts cfg))
                       (ReviewError VALIDATION_ERROR)) (\<lambda>_.
              ebind (guard (\<not> (current_size > upl_declared_size u \<or> current_size > cfg_max_upload_bytes cfg))
                       (ReviewError FILE_TOO_LARGE)) (\<lambda>_.
              ebind (superseded_part env u part_no p) (\<lambda>superseded.
                let u' = u\<lparr>upl_received_parts := part_set part_no \<lparr>part_size = bytes, part_path = path_str p\<rparr> parts,
                           upl_status := receiving, upl_updated_at := env_now env\<rparr>
                in Inr (\<lparr>pp_response = upload_dto u', pp_candidate_path = p, pp_superseded_path = superseded\<rparr>,
                        put_upload u' db)))))))))))"

section \<open>Completing an upload\<close>

definition completion_part_paths :: "env \<Rightarrow> upload_session \<Rightarrow> exn + path list" where
  "completion_part_paths env u =
     ebind (guard (\<not> int (length (upl_received_parts u)) > cfg_max_upload_parts (env_settings env)) (ReviewError RESOURCE_STATE_CONFLICT)) (\<lambda>_.
     efold (\<lambda>(k, p) acc.
              ebind (path_error_as RESOURCE_STATE_CONFLICT
                       (validated_upload_part_path (part_path p) (upload_root env) (upl_id u) (upl_temp_path u) k)) (\<lambda>path.
              Inr (acc @ [path])))
       (order_by fst (upl_received_parts u)) [])"

record finalization_claim =
  fc_upload_id :: string
  fc_lease_id :: string
  fc_file_id :: string
  fc_recovered_expired_lease :: bool
  fc_resumed_active_lease :: bool
  fc_original_filename :: string
  fc_mime_type :: string
  fc_declared_size :: int
  fc_expected_sha256 :: string
  fc_owner_principal_id :: string
  fc_owner_principal_kind :: string
  fc_part_paths :: "path list"

record prepared_completion =
  pc_response :: upload_view
  pc_final :: "(path \<times> int \<times> int) option"
  pc_part_paths :: "path list"

datatype completion_claim = Claimed finalization_claim | Completed prepared_completion

text \<open>The lease test of a finalizing upload: an upload without an expiry counts as leased.\<close>

definition finalization_lease_alive :: "int \<Rightarrow> upload_session \<Rightarrow> bool" where
  "finalization_lease_alive now u \<longleftrightarrow> (case upl_finalization_lease_expires_at u of None \<Rightarrow> True | Some t \<Rightarrow> t > now)"

definition same_completion :: "string \<Rightarrow> string \<Rightarrow> upload_session \<Rightarrow> bool" where
  "same_completion key_hash request_hash u \<longleftrightarrow>
     upl_finalization_idempotency_key_hash u = Some key_hash \<and> upl_finalization_request_hash u = Some request_hash
     \<and> key_hash \<noteq> '''' \<and> request_hash \<noteq> ''''"

definition present :: "string option \<Rightarrow> string option" where
  "present x = (case x of Some s \<Rightarrow> if s = '''' then None else Some s | None \<Rightarrow> None)"

text \<open>Which file and lease identity the completion works under, and how it came by them.\<close>

definition completion_identity ::
  "env \<Rightarrow> string \<Rightarrow> string \<Rightarrow> bool \<Rightarrow> string \<Rightarrow> string \<Rightarrow> upload_session \<Rightarrow> exn + (string \<times> string \<times> bool \<times> bool)" where
  "completion_identity env key_hash request_hash allow_resume new_file new_lease u =
     (let conflict = ReviewError RESOURCE_STATE_CONFLICT
      in if upl_status u = finalizing
         then
           ebind (guard (same_completion key_hash request_hash u) (ReviewError IDEMPOTENCY_CONFLICT)) (\<lambda>_.
             let resumed = finalization_lease_alive (env_now env) u
             in ebind (guard (\<not> (resumed \<and> \<not> allow_resume)) conflict) (\<lambda>_.
                ebind (of_option conflict (present (upl_finalization_file_id u))) (\<lambda>file_id.
                  if resumed
                  then ebind (of_option conflict (present (upl_finalization_lease_id u))) (\<lambda>lease_id. Inr (file_id, lease_id, False, True))
                  else Inr (file_id, new_lease, True, False))))
         else if upl_status u = initiated \<or> upl_status u = receiving then Inr (new_file, new_lease, False, False)
         else Inl conflict)"

definition grant_finalization_lease :: "env \<Rightarrow> string \<Rightarrow> string \<Rightarrow> string \<Rightarrow> string \<Rightarrow> upload_session \<Rightarrow> upload_session" where
  "grant_finalization_lease env key_hash request_hash file_id lease_id u =
     u\<lparr>upl_status := finalizing, upl_finalization_lease_id := Some lease_id,
       upl_finalization_lease_expires_at := Some (env_now env + seconds (cfg_upload_finalization_lease_seconds (env_settings env))),
       upl_finalization_file_id := Some file_id, upl_finalization_idempotency_key_hash := Some key_hash,
       upl_finalization_request_hash := Some request_hash, upl_updated_at := env_now env\<rparr>"

definition claim_completion ::
  "env \<Rightarrow> execution_context \<Rightarrow> string \<Rightarrow> string \<Rightarrow> string \<Rightarrow> bool \<Rightarrow> db \<Rightarrow> exn + completion_claim \<times> db" where
  "claim_completion env context upload_id key_hash request_hash allow_resume db =
     ebind (guard (is_sha256 key_hash \<and> is_sha256 request_hash) (ReviewError VALIDATION_ERROR)) (\<lambda>_.
     ebind (owned_upload context db upload_id) (\<lambda>u.
     ebind (completion_part_paths env u) (\<lambda>part_paths.
       if upl_status u = upload_status.completed
       then Inr (Completed \<lparr>pc_response = upload_dto u, pc_final = None, pc_part_paths = part_paths\<rparr>, db)
       else if upl_status u = aborted then raise UPLOAD_INCOMPLETE
       else if part_paths = [] then raise UPLOAD_INCOMPLETE
       else
         let (new_file, db) = new_id env ''file'' db; (new_lease, db) = new_id env ''lease'' db
         in ebind (completion_identity env key_hash request_hash allow_resume new_file new_lease u) (\<lambda>(file_id, lease_id, recovered, resumed).
              let db = (if resumed then db else put_upload (grant_finalization_lease env key_hash request_hash file_id lease_id u) db)
              in Inr (Claimed \<lparr>fc_upload_id = upl_id u, fc_lease_id = lease_id, fc_file_id = file_id,
                   fc_recovered_expired_lease = recovered, fc_resumed_active_lease = resumed,
                   fc_original_filename = upl_original_filename u, fc_mime_type = upl_mime_type u,
                   fc_declared_size = upl_declared_size u, fc_expected_sha256 = upl_expected_sha256 u,
                   fc_owner_principal_id = upl_owner_principal_id u, fc_owner_principal_kind = upl_owner_principal_kind u,
                   fc_part_paths = part_paths\<rparr>, db)))))"

section \<open>Building the final file\<close>

text \<open>
  What the finalizer finds: \<open>fs_read\<close> is what opening a path yields (an error, no file, or its
  device, inode and content), \<open>fs_staging\<close> the identity of the file it creates,
  \<open>fs_unchanged\<close> whether the file stays as it is while it is hashed and probed,
  \<open>fs_same_device\<close> and \<open>fs_published\<close> the checks on the created file and on the hard link,
  \<open>fs_race\<close> what is at the final path when the link is refused because a file exists, and
  \<open>fs_probe\<close> the media probe.
\<close>

record stored_file =
  sf_device :: int
  sf_inode :: int
  sf_content :: string

record final_storage =
  fs_read :: "path \<Rightarrow> exn + stored_file option"
  fs_staging :: "int \<times> int"
  fs_unchanged :: bool
  fs_same_device :: bool
  fs_race :: "(exn + stored_file option) option"
  fs_published :: bool
  fs_probe :: "string \<Rightarrow> exn + media_probe"

record finalized_file =
  ff_file_id :: string
  ff_storage_path :: path
  ff_device :: int
  ff_inode :: int
  ff_sha256 :: string
  ff_probe :: media_probe
  ff_part_paths :: "path list"

definition SERVER_COMPUTED_SHA256 :: string where
  "SERVER_COMPUTED_SHA256 = replicate 64 (CHR ''0'')"

definition inspect_final_descriptor :: "env \<Rightarrow> final_storage \<Rightarrow> finalization_claim \<Rightarrow> string \<Rightarrow> exn + string \<times> media_probe" where
  "inspect_final_descriptor env fs claim content =
     ebind (guard (int (length content) = fc_declared_size claim) (ReviewError UPLOAD_INCOMPLETE)) (\<lambda>_.
     ebind (guard (fs_unchanged fs) UnsafeFilePathError) (\<lambda>_.
     ebind (validate_media_identity (fc_original_filename claim) (fc_mime_type claim) (take ISO_BMFF_FTYP_MAX_BYTES content)) (\<lambda>_.
       let sha256 = env_sha256_hex env content
       in ebind (guard (\<not> (fc_expected_sha256 claim \<noteq> SERVER_COMPUTED_SHA256 \<and> sha256 \<noteq> fc_expected_sha256 claim))
                   (ReviewError FILE_HASH_MISMATCH)) (\<lambda>_.
          ebind (fs_probe fs content) (\<lambda>probe.
          Inr (sha256, probe))))))"

definition reuse_finalized_file ::
  "env \<Rightarrow> final_storage \<Rightarrow> finalization_claim \<Rightarrow> path \<Rightarrow> exn + stored_file option \<Rightarrow> exn + finalized_file option" where
  "reuse_finalized_file env fs claim storage_path found =
     ebind found (\<lambda>f.
       case f of
         None \<Rightarrow> Inr None
       | Some file \<Rightarrow>
           ebind (inspect_final_descriptor env fs claim (sf_content file)) (\<lambda>(sha256, probe).
           Inr (Some \<lparr>ff_file_id = fc_file_id claim, ff_storage_path = storage_path, ff_device = sf_device file,
                      ff_inode = sf_inode file, ff_sha256 = sha256, ff_probe = probe, ff_part_paths = fc_part_paths claim\<rparr>)))"

definition join_parts :: "final_storage \<Rightarrow> path list \<Rightarrow> exn + string" where
  "join_parts fs part_paths =
     efold (\<lambda>p acc.
       ebind (fs_read fs p) (\<lambda>f.
         case f of None \<Rightarrow> raise UPLOAD_INCOMPLETE | Some file \<Rightarrow> Inr (acc @ sf_content file))) part_paths []"

definition storage_unavailable_on :: "exn list \<Rightarrow> exn + 'a \<Rightarrow> exn + 'a" where
  "storage_unavailable_on es m =
     (case m of Inl e \<Rightarrow> Inl (if e \<in> set es then ReviewError STORAGE_UNAVAILABLE else e) | Inr x \<Rightarrow> Inr x)"

text \<open>The first \<open>try\<close> block turns every error of the service, of the system and of values into one code.\<close>

definition unavailable :: "exn + 'a \<Rightarrow> exn + 'a" where
  "unavailable m =
     (case m of
        Inl e \<Rightarrow> Inl (case e of ReviewError _ \<Rightarrow> ReviewError STORAGE_UNAVAILABLE | OSError \<Rightarrow> ReviewError STORAGE_UNAVAILABLE
                       | UnsafeFilePathError \<Rightarrow> ReviewError STORAGE_UNAVAILABLE | ValueError \<Rightarrow> ReviewError STORAGE_UNAVAILABLE | _ \<Rightarrow> e)
      | Inr x \<Rightarrow> Inr x)"

definition build_final_file :: "env \<Rightarrow> final_storage \<Rightarrow> finalization_claim \<Rightarrow> path \<Rightarrow> exn + finalized_file" where
  "build_final_file env fs claim storage_path =
     ebind (join_parts fs (fc_part_paths claim)) (\<lambda>content.
     ebind (inspect_final_descriptor env fs claim content) (\<lambda>(sha256, probe).
     ebind (guard (fs_same_device fs) UnsafeFilePathError) (\<lambda>_.
       case fs_race fs of
         Some found \<Rightarrow>
           ebind (reuse_finalized_file env fs claim storage_path found) (\<lambda>recovered.
             case recovered of None \<Rightarrow> raise RESOURCE_STATE_CONFLICT | Some f \<Rightarrow> Inr f)
       | None \<Rightarrow>
           ebind (guard (fs_published fs) UnsafeFilePathError) (\<lambda>_.
           Inr \<lparr>ff_file_id = fc_file_id claim, ff_storage_path = storage_path, ff_device = fst (fs_staging fs),
                ff_inode = snd (fs_staging fs), ff_sha256 = sha256, ff_probe = probe, ff_part_paths = fc_part_paths claim\<rparr>))))"

definition finalize_claim :: "env \<Rightarrow> final_storage \<Rightarrow> finalization_claim \<Rightarrow> exn + finalized_file" where
  "finalize_claim env fs claim =
     ebind (unavailable
              (ebind (upload_contained_path (path_str (file_root env @ [fc_file_id claim])) (file_root env)) (\<lambda>storage_path.
               ebind (reuse_finalized_file env fs claim storage_path (fs_read fs storage_path)) (\<lambda>recovered.
               Inr (storage_path, recovered))))) (\<lambda>(storage_path, recovered).
       case recovered of
         Some f \<Rightarrow> Inr f
       | None \<Rightarrow> storage_unavailable_on [UnsafeFilePathError] (build_final_file env fs claim storage_path))"

section \<open>Publishing, releasing, aborting\<close>

definition MEDIA_PROBE_VERSION :: string where
  "MEDIA_PROBE_VERSION = ''ffprobe-packet-cfr-v2''"

definition clear_finalization :: "upload_session \<Rightarrow> upload_session" where
  "clear_finalization u =
     u\<lparr>upl_finalization_lease_id := None, upl_finalization_lease_expires_at := None, upl_finalization_file_id := None,
       upl_finalization_idempotency_key_hash := None, upl_finalization_request_hash := None\<rparr>"

definition published_file :: "env \<Rightarrow> finalization_claim \<Rightarrow> finalized_file \<Rightarrow> file_object" where
  "published_file env claim f =
     \<lparr>fil_id = ff_file_id f,
      fil_media =
        \<lparr>original_filename = fc_original_filename claim, mime_type = fc_mime_type claim, file_size = fc_declared_size claim,
         sha256 = ff_sha256 f, duration_ms = prb_duration_ms (ff_probe f), width = prb_width (ff_probe f),
         height = prb_height (ff_probe f), fps_num = prb_fps_num (ff_probe f), fps_den = prb_fps_den (ff_probe f),
         media_probe_version = MEDIA_PROBE_VERSION\<rparr>,
      fil_storage_path = path_str (ff_storage_path f), fil_owner_principal_id = fc_owner_principal_id claim,
      fil_owner_principal_kind = fc_owner_principal_kind claim, fil_created_at = env_now env\<rparr>"

definition publish_completion ::
  "env \<Rightarrow> execution_context \<Rightarrow> finalization_claim \<Rightarrow> finalized_file \<Rightarrow> db \<Rightarrow> exn + prepared_completion \<times> db" where
  "publish_completion env context claim f db =
     ebind (owned_upload context db (fc_upload_id claim)) (\<lambda>u.
       if upl_status u = upload_status.completed \<and> upl_file_id u = Some (ff_file_id f)
       then ebind (completion_part_paths env u) (\<lambda>paths.
              Inr (\<lparr>pc_response = upload_dto u, pc_final = Some (ff_storage_path f, ff_device f, ff_inode f), pc_part_paths = paths\<rparr>, db))
       else if upl_status u \<noteq> finalizing \<or> upl_finalization_lease_id u \<noteq> Some (fc_lease_id claim)
               \<or> upl_finalization_file_id u \<noteq> Some (ff_file_id f)
       then raise RESOURCE_STATE_CONFLICT
       else
         (case env_pin_storage env (ff_storage_path f) of
            Pin_Unsafe \<Rightarrow> Inl UnsafeFilePathError
          | Pin_OSError \<Rightarrow> Inl OSError
          | Pin_Missing \<Rightarrow> raise STORAGE_UNAVAILABLE
          | Pin_File i \<Rightarrow>
              ebind (guard (fid_device i = ff_device f \<and> fid_inode i = ff_inode f) (ReviewError STORAGE_UNAVAILABLE)) (\<lambda>_.
                let u' = (clear_finalization u)\<lparr>upl_status := upload_status.completed, upl_file_id := Some (ff_file_id f), upl_updated_at := env_now env\<rparr>
                in ebind (row_insert fil_id (\<lambda>_ _. False) (published_file env claim f) (db_files db)) (\<lambda>files.
                   Inr (\<lparr>pc_response = upload_dto u', pc_final = Some (ff_storage_path f, ff_device f, ff_inode f),
                         pc_part_paths = ff_part_paths f\<rparr>, put_upload u' (db\<lparr>db_files := files\<rparr>))))))"

record prepared_abort =
  pa_response :: upload_view
  pa_part_paths :: "path list"

definition release_failed_finalization ::
  "env \<Rightarrow> execution_context \<Rightarrow> finalization_claim \<Rightarrow> bool \<Rightarrow> db \<Rightarrow> exn + prepared_abort option \<times> db" where
  "release_failed_finalization env context claim abort db =
     ebind (owned_upload context db (fc_upload_id claim)) (\<lambda>u.
       if upl_status u = upload_status.completed then Inr (None, db)
       else if upl_status u \<noteq> finalizing \<or> upl_finalization_lease_id u \<noteq> Some (fc_lease_id claim) then raise RESOURCE_STATE_CONFLICT
       else
         let u' = (clear_finalization u)\<lparr>upl_status := (if abort then aborted else receiving), upl_updated_at := env_now env\<rparr>;
             u' = (if abort then u'\<lparr>upl_parts_cleanup_confirmed_at := None\<rparr> else u');
             db = put_upload u' db
         in if \<not> abort then Inr (None, db)
            else ebind (completion_part_paths env u') (\<lambda>paths.
                 Inr (Some \<lparr>pa_response = upload_dto u', pa_part_paths = paths\<rparr>, db)))"

definition confirm_part_cleanup :: "env \<Rightarrow> execution_context \<Rightarrow> string \<Rightarrow> upload_status \<Rightarrow> db \<Rightarrow> exn + unit \<times> db" where
  "confirm_part_cleanup env context upload_id expected_status db =
     ebind (owned_upload context db upload_id) (\<lambda>u.
     ebind (guard (upl_status u = expected_status \<and> (expected_status = upload_status.completed \<or> expected_status = aborted))
             (ReviewError RESOURCE_STATE_CONFLICT)) (\<lambda>_.
     Inr ((), put_upload (u\<lparr>upl_received_parts := [], upl_parts_cleanup_confirmed_at := Some (env_now env),
                            upl_updated_at := env_now env\<rparr>) db)))"

text \<open>The parts of an aborted upload are listed in the order they were received.\<close>

definition abort_part_paths :: "env \<Rightarrow> upload_session \<Rightarrow> exn + path list" where
  "abort_part_paths env u =
     efold (\<lambda>(k, p) acc.
              ebind (path_error_as RESOURCE_STATE_CONFLICT
                       (validated_upload_part_path (part_path p) (upload_root env) (upl_id u) (upl_temp_path u) k)) (\<lambda>path.
              Inr (acc @ [path])))
       (upl_received_parts u) []"

definition prepare_abort :: "env \<Rightarrow> execution_context \<Rightarrow> string \<Rightarrow> db \<Rightarrow> exn + prepared_abort \<times> db" where
  "prepare_abort env context upload_id db =
     ebind (owned_upload context db upload_id) (\<lambda>u.
     ebind (guard (present (upl_file_id u) = None) (ReviewError RESOURCE_STATE_CONFLICT)) (\<lambda>_.
     ebind (guard (upl_status u \<noteq> finalizing) (ReviewError RESOURCE_STATE_CONFLICT)) (\<lambda>_.
     ebind (abort_part_paths env u) (\<lambda>paths.
       let u' = u\<lparr>upl_status := aborted, upl_parts_cleanup_confirmed_at := None, upl_updated_at := env_now env\<rparr>
       in Inr (\<lparr>pa_response = upload_dto u', pa_part_paths = paths\<rparr>, put_upload u' db)))))"

section \<open>Sessions stay consistent\<close>

text \<open>
  Part numbers are distinct and positive, parts are not empty, together they do not exceed the
  declared size; the lease fields are set exactly while the upload is being finalized; only a
  completed upload has a file.
\<close>

definition finalization_fields :: "upload_session \<Rightarrow> bool list" where
  "finalization_fields u =
     [upl_finalization_lease_id u \<noteq> None, upl_finalization_lease_expires_at u \<noteq> None, upl_finalization_file_id u \<noteq> None,
      upl_finalization_idempotency_key_hash u \<noteq> None, upl_finalization_request_hash u \<noteq> None]"

definition upload_ok :: "upload_session \<Rightarrow> bool" where
  "upload_ok u \<longleftrightarrow> distinct (map fst (upl_received_parts u))
     \<and> (\<forall>(k, p) \<in> set (upl_received_parts u). 1 \<le> k \<and> 0 < part_size p)
     \<and> received_size u \<le> max 0 (upl_declared_size u)
     \<and> finalization_fields u = replicate 5 (upl_status u = finalizing)
     \<and> (upl_file_id u \<noteq> None \<longrightarrow> upl_status u = upload_status.completed)
     \<and> upl_file_id u \<noteq> Some '''' \<and> upl_finalization_file_id u \<noteq> Some ''''"

definition uploads_ok :: "db \<Rightarrow> bool" where
  "uploads_ok db \<longleftrightarrow> distinct (map upl_id (db_uploads db)) \<and> (\<forall>u \<in> set (db_uploads db). upload_ok u)"

lemma owned_upload_Inr:
  "owned_upload c db k = Inr u \<Longrightarrow> u \<in> set (db_uploads db) \<and> upl_id u = k
     \<and> Some (upl_owner_principal_id u) = pr_id (ctx_principal c) \<and> upl_owner_principal_kind u = pr_kind (ctx_principal c)"
  by (auto simp: owned_upload_def get_upload_row_def assert_upload_owner_def split: option.splits if_splits dest!: row_get_SomeD)

lemma uploads_ok_put:
  assumes "uploads_ok db" and "upload_ok u"
  shows "uploads_ok (put_upload u db)"
  using assms by (auto simp: uploads_ok_def put_upload_def dest!: in_set_row_putD)

lemma uploads_ok_rows: "db_uploads a = db_uploads b \<Longrightarrow> uploads_ok a = uploads_ok b"
  by (simp add: uploads_ok_def)

lemma owned_upload_ok: "owned_upload c db k = Inr u \<Longrightarrow> uploads_ok db \<Longrightarrow> upload_ok u"
  by (auto simp: uploads_ok_def dest!: owned_upload_Inr)

text \<open>Sizes when a part is added or replaced.\<close>

lemma sum_parts_split:
  "distinct (map fst parts) \<Longrightarrow>
   sum_list (map (\<lambda>(_, p). part_size p) parts)
   = sum_list (map (\<lambda>(_, p). part_size p) (filter (\<lambda>(k, _). k \<noteq> n) parts)) + (case part_get n parts of None \<Rightarrow> 0 | Some q \<Rightarrow> part_size q)"
proof (induction parts)
  case (Cons a parts)
  obtain k q where a: "a = (k, q)" by (cases a)
  have "k = n \<Longrightarrow> map_of parts n = None" using Cons.prems a by (auto simp: map_of_eq_None_iff)
  moreover have "k = n \<Longrightarrow> filter (\<lambda>(k, _). k \<noteq> n) parts = parts"
    using Cons.prems a by (auto intro!: filter_True split: prod.splits) (metis fst_conv imageI)
  ultimately show ?case using Cons a by (auto simp: part_get_def split: option.splits)
qed (simp add: part_get_def)

lemma filter_part_set:
  "filter (\<lambda>(k, _). k \<noteq> n) (part_set n p parts) = filter (\<lambda>(k, _). k \<noteq> n) parts"
proof -
  have "filter (\<lambda>(k, _). k \<noteq> n) (map (\<lambda>(j, q). if j = n then (n, p) else (j, q)) parts) = filter (\<lambda>(k, _). k \<noteq> n) parts"
    by (induction parts) auto
  then show ?thesis by (simp add: part_set_def)
qed

lemma part_get_set: "part_get n (part_set n p parts) = Some p"
proof (cases "part_get n parts")
  case None
  then show ?thesis by (simp add: part_set_def part_get_def map_add_def)
next
  case (Some q)
  then have "map_of (map (\<lambda>(j, q). if j = n then (n, p) else (j, q)) parts) n = Some p"
    by (induction parts) (auto simp: part_get_def split: if_splits)
  then show ?thesis using Some by (simp add: part_set_def part_get_def)
qed

lemma part_keys: "map fst (part_set n p parts) = (if part_get n parts = None then map fst parts @ [n] else map fst parts)"
  by (auto simp: part_set_def)

lemma part_set_mem: "(k, q) \<in> set (part_set n p parts) \<Longrightarrow> (k, q) = (n, p) \<or> (k, q) \<in> set parts"
  by (auto simp: part_set_def split: if_splits)

lemma part_set_distinct: "distinct (map fst parts) \<Longrightarrow> distinct (map fst (part_set n p parts))"
  by (auto simp: part_keys part_get_def map_of_eq_None_iff)

lemma part_set_ok:
  assumes ok: "upload_ok u" and n: "1 \<le> n" "0 < bytes"
    and fits: "received_size u - (case part_get n (upl_received_parts u) of None \<Rightarrow> 0 | Some q \<Rightarrow> part_size q) + bytes \<le> upl_declared_size u"
    and st: "upl_status u \<noteq> finalizing" "upl_file_id u = None"
  shows "upload_ok (u\<lparr>upl_received_parts := part_set n \<lparr>part_size = bytes, part_path = s\<rparr> (upl_received_parts u),
                     upl_status := receiving, upl_updated_at := t\<rparr>)"
proof -
  let ?parts = "upl_received_parts u" and ?p = "\<lparr>part_size = bytes, part_path = s\<rparr>"
  have d: "distinct (map fst ?parts)" using ok by (simp add: upload_ok_def)
  have "sum_list (map (\<lambda>(_, p). part_size p) (part_set n ?p ?parts)) \<le> upl_declared_size u"
    using fits sum_parts_split [OF d, of n] sum_parts_split [OF part_set_distinct [OF d, of n ?p], of n]
    by (simp add: received_size_def filter_part_set part_get_set split: option.splits)
  then show ?thesis using ok n st part_set_distinct [OF d]
    by (auto simp: upload_ok_def received_size_def finalization_fields_def dest!: part_set_mem)
qed

end
