(* ===== verification/Upload_Safety.thy ===== *)
theory Upload_Safety
  imports Uploads
begin

text \<open>
  What the upload sessions guarantee: consistency of every session whatever the requests, the quota,
  exclusive finalization, the content of the published file, and that nobody but the owner can touch
  an upload.
\<close>

section \<open>Every operation keeps the sessions consistent\<close>

lemma init_upload_Inr:
  assumes "init_upload env c req db = Inr (v, db')"
  shows "\<exists>u. db' = db\<lparr>db_drawn := Suc (db_drawn db), db_uploads := db_uploads db @ [u]\<rparr>
    \<and> reserve_upload_quota env c (2 * req_file_size req) db = Inr ()
    \<and> upl_id u = ''upl_'' @ env_uuid_hex env (db_drawn db) \<and> upl_id u \<notin> upl_id ` set (db_uploads db) \<and> upl_received_parts u = [] \<and> upl_status u = initiated
    \<and> upl_reserved_bytes u = 2 * req_file_size req \<and> upl_parts_cleanup_confirmed_at u = None
    \<and> Some (upl_owner_principal_id u) = pr_id (ctx_principal c) \<and> upl_owner_principal_kind u = pr_kind (ctx_principal c)
    \<and> finalization_fields u = replicate 5 False \<and> upl_file_id u = None \<and> upl_finalization_file_id u = None"
proof -
  obtain p temp where p: "pr_id (ctx_principal c) = Some p" and q: "reserve_upload_quota env c (2 * req_file_size req) db = Inr ()"
    and ins: "row_insert upl_id (\<lambda>_ _. False) (fresh_upload env c req p (''upl_'' @ env_uuid_hex env (db_drawn db)) temp) (db_uploads db)
        = Inr (db_uploads db')"
    and db': "db' = db\<lparr>db_drawn := Suc (db_drawn db), db_uploads := db_uploads db'\<rparr>"
    using assms by (cases "pr_id (ctx_principal c)")
      (auto simp: init_upload_def Let_def new_id_def UPLOAD_PEAK_RESERVATION_MULTIPLIER_def mult.commute)
  let ?u = "fresh_upload env c req p (''upl_'' @ env_uuid_hex env (db_drawn db)) temp"
  have rows: "db_uploads db' = db_uploads db @ [?u]" "upl_id ?u \<notin> upl_id ` set (db_uploads db)"
    using ins by (auto simp: row_insert_Inr_iff)
  have "db' = db\<lparr>db_drawn := Suc (db_drawn db), db_uploads := db_uploads db @ [?u]\<rparr>" using db' rows(1) by simp
  then show ?thesis using q rows(2) p
    by (intro exI [of _ ?u]) (simp add: fresh_upload_def finalization_fields_def numeral_eq_Suc UPLOAD_PEAK_RESERVATION_MULTIPLIER_def)
qed

lemma init_upload_ok:
  assumes "init_upload env c req db = Inr (v, db')" and "uploads_ok db"
  shows "uploads_ok db'"
proof -
  obtain u where "db' = db\<lparr>db_drawn := Suc (db_drawn db), db_uploads := db_uploads db @ [u]\<rparr>" "upl_id u \<notin> upl_id ` set (db_uploads db)"
    "upl_received_parts u = []" "upl_status u = initiated" "finalization_fields u = replicate 5 False" "upl_file_id u = None"
    "upl_finalization_file_id u = None"
    using init_upload_Inr [OF assms(1)] by blast
  then show ?thesis using assms(2) by (simp add: uploads_ok_def upload_ok_def received_size_def)
qed

lemma receive_upload_ok:
  "ensure_can_receive_part env c k n db = Inr u \<Longrightarrow> uploads_ok db \<Longrightarrow>
   upload_ok u \<and> 1 \<le> n \<and> upl_status u \<noteq> finalizing \<and> upl_file_id u = None"
  by (auto simp: ensure_can_receive_part_def dest!: owned_upload_ok) (auto simp: upload_ok_def)

lemma touch_ok: "upload_ok u \<Longrightarrow> upload_ok (u\<lparr>upl_updated_at := t\<rparr>)"
  by (simp add: upload_ok_def received_size_def finalization_fields_def)

lemma claim_part_stream_ok:
  "claim_part_stream env c k n db = Inr (r, db') \<Longrightarrow> uploads_ok db \<Longrightarrow> uploads_ok db'"
  by (auto simp: claim_part_stream_def intro!: uploads_ok_put touch_ok dest: receive_upload_ok)

lemma put_part_file_ok:
  assumes "put_part_file env c k n s bytes db = Inr (r, db')" and "uploads_ok db"
  shows "uploads_ok db'"
proof -
  obtain u p where u: "ensure_can_receive_part env c k n db = Inr u" "0 < bytes"
    and fits: "received_size u - (case part_get n (upl_received_parts u) of None \<Rightarrow> 0 | Some q \<Rightarrow> part_size q) + bytes \<le> upl_declared_size u"
    and db': "db' = put_upload (u\<lparr>upl_received_parts := part_set n \<lparr>part_size = bytes, part_path = path_str p\<rparr> (upl_received_parts u),
                     upl_status := receiving, upl_updated_at := env_now env\<rparr>) db"
    using assms(1) by (auto simp: put_part_file_def Let_def)
  show ?thesis unfolding db'
    using receive_upload_ok [OF u(1) assms(2)] u(2) fits by (intro uploads_ok_put [OF assms(2)] part_set_ok) auto
qed

lemma grant_ok: "upload_ok u \<Longrightarrow> upl_file_id u = None \<Longrightarrow> f \<noteq> '''' \<Longrightarrow> upload_ok (grant_finalization_lease env kh rh f l u)"
  by (simp add: upload_ok_def grant_finalization_lease_def received_size_def finalization_fields_def numeral_eq_Suc)

lemma completion_status:
  "completion_identity env kh rh resume nf nl u = Inr (f, l, rec, res) \<Longrightarrow> nf \<noteq> '''' \<Longrightarrow>
   upl_status u \<noteq> upload_status.completed \<and> f \<noteq> ''''"
  by (auto simp: completion_identity_def present_def Let_def split: if_splits option.splits)

lemma claim_completion_ok:
  assumes "claim_completion env c k kh rh resume db = Inr (r, db')" and "uploads_ok db"
  shows "uploads_ok db'"
proof -
  obtain u where u: "owned_upload c db k = Inr u" using assms(1) by (auto simp: claim_completion_def)
  have ok: "upload_ok u" by (rule owned_upload_ok [OF u assms(2)])
  have drawn: "uploads_ok (put_upload v (db\<lparr>db_drawn := n\<rparr>)) = uploads_ok (put_upload v db)" "uploads_ok (db\<lparr>db_drawn := n\<rparr>) = uploads_ok db" for v n
    by (simp_all add: uploads_ok_def put_upload_def)
  have "uploads_ok (put_upload (grant_finalization_lease env kh rh f l u) db)" if "upl_status u \<noteq> upload_status.completed \<and> f \<noteq> ''''" for f l
    using that ok by (intro uploads_ok_put [OF assms(2)] grant_ok) (auto simp: upload_ok_def)
  then show ?thesis using assms u
    by (auto simp: claim_completion_def new_id_def Let_def drawn split: if_splits dest: completion_status)
qed

lemma clear_ok:
  "upload_ok u \<Longrightarrow> st \<noteq> finalizing \<Longrightarrow> f \<noteq> Some '''' \<Longrightarrow> f \<noteq> None \<longrightarrow> st = upload_status.completed \<Longrightarrow>
   upload_ok ((clear_finalization u)\<lparr>upl_status := st, upl_file_id := f, upl_updated_at := t\<rparr>)"
  by (auto simp: upload_ok_def clear_finalization_def received_size_def finalization_fields_def numeral_eq_Suc)

lemma publish_completion_ok:
  assumes "publish_completion env c claim f db = Inr (r, db')" and "uploads_ok db"
  shows "uploads_ok db'"
proof -
  obtain u where u: "owned_upload c db (fc_upload_id claim) = Inr u" using assms(1) by (auto simp: publish_completion_def)
  let ?v = "(clear_finalization u)\<lparr>upl_status := upload_status.completed, upl_file_id := Some (ff_file_id f), upl_updated_at := env_now env\<rparr>"
  have "uploads_ok (put_upload ?v (db\<lparr>db_files := fs\<rparr>))" if "upl_finalization_file_id u = Some (ff_file_id f)" for fs
    using owned_upload_ok [OF u assms(2)] assms(2) that by (intro uploads_ok_put clear_ok) (auto simp: uploads_ok_def upload_ok_def)
  then show ?thesis using assms u by (auto simp: publish_completion_def Let_def split: if_splits pin.splits)
qed

lemma release_failed_ok:
  assumes "release_failed_finalization env c claim b db = Inr (r, db')" and "uploads_ok db"
  shows "uploads_ok db'"
proof -
  obtain u where u: "owned_upload c db (fc_upload_id claim) = Inr u" using assms(1) by (auto simp: release_failed_finalization_def)
  have ok: "upload_ok u" by (rule owned_upload_ok [OF u assms(2)])
  have "uploads_ok (put_upload ((clear_finalization u)\<lparr>upl_status := st, upl_updated_at := t\<rparr>) db)"
    "uploads_ok (put_upload ((clear_finalization u)\<lparr>upl_status := st, upl_updated_at := t, upl_parts_cleanup_confirmed_at := None\<rparr>) db)"
    if "upl_status u = finalizing" "st \<noteq> finalizing" for st t
    using ok that by (auto intro!: uploads_ok_put [OF assms(2)]
        simp: upload_ok_def clear_finalization_def received_size_def finalization_fields_def numeral_eq_Suc)
  then show ?thesis using assms u
    by (auto simp: release_failed_finalization_def Let_def split: if_splits)
qed

lemma confirm_cleanup_ok:
  "confirm_part_cleanup env c k st db = Inr (r, db') \<Longrightarrow> uploads_ok db \<Longrightarrow> uploads_ok db'"
  by (auto simp: confirm_part_cleanup_def intro!: uploads_ok_put dest: owned_upload_ok)
    (auto dest!: owned_upload_ok simp: upload_ok_def received_size_def finalization_fields_def)

lemma present_None: "present x = None \<longleftrightarrow> x = None \<or> x = Some ''''"
  by (auto simp: present_def split: option.splits)

lemma prepare_abort_ok:
  assumes "prepare_abort env c k db = Inr (r, db')" and "uploads_ok db"
  shows "uploads_ok db'"
proof -
  obtain u where u: "owned_upload c db k = Inr u" "upl_status u \<noteq> finalizing" "upl_file_id u = None \<or> upl_file_id u = Some ''''"
    "db' = put_upload (u\<lparr>upl_status := aborted, upl_parts_cleanup_confirmed_at := None, upl_updated_at := env_now env\<rparr>) db"
    using assms(1) by (auto simp: prepare_abort_def Let_def present_None)
  show ?thesis unfolding u(4) using owned_upload_ok [OF u(1) assms(2)] u(2,3)
    by (intro uploads_ok_put [OF assms(2)]) (auto simp: upload_ok_def received_size_def finalization_fields_def)
qed

lemma detached_row_ok: "upload_ok u \<Longrightarrow> upload_ok (u\<lparr>upl_file_id := None, upl_parts_cleanup_confirmed_at := x, upl_updated_at := t\<rparr>)"
  by (simp add: upload_ok_def received_size_def finalization_fields_def)

lemma detach_Cons:
  "detach_uploads env f (u # us) = detach_uploads env f us \<or>
   (\<exists>v. detach_uploads env f (u # us) = v # detach_uploads env f us \<and> upl_id v = upl_id u \<and> (upload_ok u \<longrightarrow> upload_ok v))"
  using detached_row_ok [of u] by (simp add: detach_uploads_def map_filter_simps)

lemma detach_ok: "uploads_ok db \<Longrightarrow> uploads_ok (db\<lparr>db_uploads := detach_uploads env f (db_uploads db)\<rparr>)"
proof -
  have "distinct (map upl_id us) \<and> (\<forall>u \<in> set us. upload_ok u) \<longrightarrow>
      distinct (map upl_id (detach_uploads env f us)) \<and> (\<forall>u \<in> set (detach_uploads env f us). upload_ok u)
      \<and> (\<forall>v \<in> set (detach_uploads env f us). upl_id v \<in> upl_id ` set us)" for us
  proof (induction us)
    case (Cons u us)
    show ?case using detach_Cons [of env f u us] Cons.IH by auto
  qed (simp add: detach_uploads_def map_filter_simps)
  then show "uploads_ok db \<Longrightarrow> ?thesis" by (simp add: uploads_ok_def)
qed

lemma cleanup_unbound_ok:
  "cleanup_unbound_uploaded_file env k c db = Inr (r, db') \<Longrightarrow> uploads_ok db \<Longrightarrow> uploads_ok db'"
  using detach_ok [of db env k]
  by (auto simp: cleanup_unbound_uploaded_file_def delete_file_object_if_unreferenced_def Let_def uploads_ok_def split: option.splits if_splits)

section \<open>The upload machine\<close>

datatype upload_op =
    Init_Upload execution_context upload_request
  | Claim_Stream execution_context string int
  | Put_Part execution_context string int string int
  | Claim_Completion execution_context string string string bool
  | Publish_Completion execution_context finalization_claim finalized_file
  | Release_Failed execution_context finalization_claim bool
  | Confirm_Cleanup execution_context string upload_status
  | Abort_Upload execution_context string
  | Drop_Unbound execution_context string

definition upload_step :: "env \<times> upload_op \<Rightarrow> db \<Rightarrow> exn + db" where
  "upload_step x db =
     (let env = fst x
      in case snd x of
           Init_Upload c req \<Rightarrow> map_sum id snd (init_upload env c req db)
         | Claim_Stream c k n \<Rightarrow> map_sum id snd (claim_part_stream env c k n db)
         | Put_Part c k n p bytes \<Rightarrow> map_sum id snd (put_part_file env c k n p bytes db)
         | Claim_Completion c k key_hash request_hash resume \<Rightarrow> map_sum id snd (claim_completion env c k key_hash request_hash resume db)
         | Publish_Completion c claim f \<Rightarrow> map_sum id snd (publish_completion env c claim f db)
         | Release_Failed c claim abort \<Rightarrow> map_sum id snd (release_failed_finalization env c claim abort db)
         | Confirm_Cleanup c k status \<Rightarrow> map_sum id snd (confirm_part_cleanup env c k status db)
         | Abort_Upload c k \<Rightarrow> map_sum id snd (prepare_abort env c k db)
         | Drop_Unbound c f \<Rightarrow> map_sum id snd (cleanup_unbound_uploaded_file env f c db))"

lemma map_sum_snd_Inr: "map_sum id snd m = Inr s \<longleftrightarrow> (\<exists>r. m = Inr (r, s))"
  by (cases m) auto

lemma upload_step_ok:
  assumes "uploads_ok db" and "upload_step (env, x) db = Inr db'"
  shows "uploads_ok db'"
  using assms unfolding upload_step_def
  by (cases x) (auto simp: map_sum_snd_Inr dest: init_upload_ok claim_part_stream_ok put_part_file_ok claim_completion_ok
      publish_completion_ok release_failed_ok confirm_cleanup_ok prepare_abort_ok cleanup_unbound_ok)

interpretation uploads: checked_machine upload_step uploads_ok
  by unfold_locales (metis upload_step_ok surj_pair)

lemma empty_uploads_ok: "uploads_ok empty_db"
  by (simp add: uploads_ok_def empty_db_def)

text \<open>
  C27. Whatever sequence of upload requests is served, in every session the part numbers are distinct
  and positive, no part is empty, the parts received so far do not exceed the declared size, the
  lease fields are set exactly while the upload is being finalized, and only a completed upload names
  a file.
\<close>

theorem upload_sessions_consistent:
  assumes "reachable_by upload_step empty_db db" and "u \<in> set (db_uploads db)"
  shows "distinct (map fst (upl_received_parts u)) \<and> (\<forall>(k, p) \<in> set (upl_received_parts u). 1 \<le> k \<and> 0 < part_size p)
    \<and> received_size u \<le> max 0 (upl_declared_size u)
    \<and> (upl_finalization_lease_id u \<noteq> None \<longleftrightarrow> upl_status u = finalizing)
    \<and> (upl_finalization_file_id u \<noteq> None \<longleftrightarrow> upl_status u = finalizing)
    \<and> (upl_file_id u \<noteq> None \<longrightarrow> upl_status u = upload_status.completed)"
proof -
  have "upload_ok u" using uploads.reachable_invar [OF assms(1) empty_uploads_ok] assms(2) by (simp add: uploads_ok_def)
  then show ?thesis by (auto simp: upload_ok_def finalization_fields_def numeral_eq_Suc)
qed

section \<open>Quota\<close>

text \<open>
  A new upload session is admitted only within the quota: afterwards the number of sessions that
  still reserve space and the bytes they reserve are within the limits, for the whole service and for
  the principal who starts the upload.
\<close>

theorem upload_quota_respected:
  assumes "init_upload env c req db = Inr (v, db')"
  shows "count_rows active_reservation (db_uploads db') \<le> cfg_max_active_upload_sessions_global (env_settings env)
    \<and> reserved_sum active_reservation db' \<le> cfg_max_reserved_upload_bytes_global (env_settings env)
    \<and> count_rows (principal_reservation (ctx_principal c)) (db_uploads db') \<le> cfg_max_active_upload_sessions_per_principal (env_settings env)
    \<and> reserved_sum (principal_reservation (ctx_principal c)) db' \<le> cfg_max_reserved_upload_bytes_per_principal (env_settings env)"
proof -
  obtain u where u: "db' = db\<lparr>db_drawn := Suc (db_drawn db), db_uploads := db_uploads db @ [u]\<rparr>"
    "upl_reserved_bytes u = 2 * req_file_size req" "upl_parts_cleanup_confirmed_at u = None"
    "Some (upl_owner_principal_id u) = pr_id (ctx_principal c)" "upl_owner_principal_kind u = pr_kind (ctx_principal c)"
    and q: "reserve_upload_quota env c (2 * req_file_size req) db = Inr ()"
    using init_upload_Inr [OF assms] by blast
  have mine: "active_reservation u" "principal_reservation (ctx_principal c) u"
    using u by (simp_all add: active_reservation_def principal_reservation_def)
  show ?thesis using q mine u(2) unfolding u(1) by (simp add: reserve_upload_quota_def Let_def count_rows_def reserved_sum_def)
qed

section \<open>The finalization lease\<close>

text \<open>The decision of \<open>claim_completion\<close> for a fresh lease, and giving the lease up, on one row.\<close>

definition leased :: "int \<Rightarrow> upload_session \<Rightarrow> bool" where
  "leased now u \<longleftrightarrow> upl_status u = finalizing \<and> upl_finalization_lease_id u \<noteq> None \<and> finalization_lease_alive now u"

definition take_lease :: "env \<Rightarrow> string \<Rightarrow> string \<Rightarrow> string \<Rightarrow> int \<Rightarrow> string \<Rightarrow> upload_session \<Rightarrow> upload_session option" where
  "take_lease env key_hash request_hash new_file now lease_id u =
     (case completion_identity (env\<lparr>env_now := now\<rparr>) key_hash request_hash False new_file lease_id u of
        Inl _ \<Rightarrow> None
      | Inr (file_id, l, _) \<Rightarrow> Some (grant_finalization_lease (env\<lparr>env_now := now\<rparr>) key_hash request_hash file_id l u))"

definition drop_lease :: "bool \<Rightarrow> int \<Rightarrow> string \<Rightarrow> upload_session \<Rightarrow> upload_session option" where
  "drop_lease abort now lease_id u =
     (if upl_status u \<noteq> finalizing \<or> upl_finalization_lease_id u \<noteq> Some lease_id then None
      else Some ((clear_finalization u)\<lparr>upl_status := (if abort then aborted else receiving), upl_updated_at := now\<rparr>))"

definition lease_holder :: "upload_session \<Rightarrow> string option" where
  "lease_holder u = (if upl_status u = finalizing then upl_finalization_lease_id u else None)"

lemma fresh_identity:
  "completion_identity env kh rh False nf l u = Inr (f, l', rec, res) \<Longrightarrow>
   l' = l \<and> \<not> res \<and> (upl_status u = finalizing \<longrightarrow> \<not> finalization_lease_alive (env_now env) u)"
  by (auto simp: completion_identity_def Let_def split: if_splits)

interpretation upload_lease: exclusive_lease lease_holder leased "take_lease env kh rh nf" "drop_lease abort" for env kh rh nf abort
proof
  fix now h s s'
  show "leased now s \<Longrightarrow> lease_holder s \<noteq> None" by (auto simp: leased_def lease_holder_def)
  show "take_lease env kh rh nf now h s = Some s' \<Longrightarrow> \<not> leased now s"
    by (auto simp: take_lease_def leased_def split: sum.splits prod.splits dest!: fresh_identity)
  show "take_lease env kh rh nf now h s = Some s' \<Longrightarrow> lease_holder s' = Some h"
    by (auto simp: take_lease_def lease_holder_def grant_finalization_lease_def split: sum.splits prod.splits dest!: fresh_identity)
  show "drop_lease abort now h s = Some s' \<Longrightarrow> lease_holder s = Some h"
    by (auto simp: drop_lease_def lease_holder_def split: if_splits)
  show "drop_lease abort now h s = Some s' \<Longrightarrow> lease_holder s' = None"
    by (auto simp: drop_lease_def lease_holder_def clear_finalization_def split: if_splits)
qed

lemma owned_row: "owned_upload c db k = Inr u \<Longrightarrow> row_get upl_id k (db_uploads db) = Some u \<and> upl_id u = k"
  by (auto simp: owned_upload_def get_upload_row_def dest: row_get_SomeD)

lemma owned_after_put:
  assumes "owned_upload c db k = Inr u" and "upl_id v = k" and "db_uploads db' = row_put upl_id v (db_uploads db)"
  shows "row_get upl_id k (db_uploads db') = Some v"
  using owned_row [OF assms(1)] assms(2,3) by (simp add: row_get_put)

lemma claimed_upload_row:
  assumes "claim_completion env c k kh rh resume db = Inr (Claimed a, db')" and "\<not> fc_resumed_active_lease a"
  shows "\<exists>u. row_get upl_id k (db_uploads db') = Some u \<and> upl_status u = finalizing \<and> upl_finalization_lease_id u = Some (fc_lease_id a)
    \<and> upl_finalization_file_id u = Some (fc_file_id a) \<and> fc_upload_id a = k
    \<and> upl_finalization_lease_expires_at u = Some (env_now env + seconds (cfg_upload_finalization_lease_seconds (env_settings env)))"
proof -
  obtain u paths where u: "owned_upload c db k = Inr u" "completion_part_paths env u = Inr paths"
    and st: "upl_status u \<noteq> upload_status.completed \<and> upl_status u \<noteq> aborted \<and> paths \<noteq> []"
    using assms(1) by (auto simp: claim_completion_def split: if_splits)
  let ?nf = "''file_'' @ env_uuid_hex env (db_drawn db)" and ?nl = "''lease_'' @ env_uuid_hex env (Suc (db_drawn db))"
  obtain f l rec res where ci: "completion_identity env kh rh resume ?nf ?nl u = Inr (f, l, rec, res)"
    using assms(1) u st by (cases "completion_identity env kh rh resume ?nf ?nl u") (auto simp: claim_completion_def new_id_def Let_def)
  have a: "fc_lease_id a = l" "fc_file_id a = f" "fc_resumed_active_lease a = res" "fc_upload_id a = upl_id u"
    and db': "db' = (if res then db\<lparr>db_drawn := Suc (Suc (db_drawn db))\<rparr>
        else put_upload (grant_finalization_lease env kh rh f l u) (db\<lparr>db_drawn := Suc (Suc (db_drawn db))\<rparr>))"
    using assms(1) u st ci by (auto simp: claim_completion_def new_id_def Let_def)
  have "row_get upl_id k (db_uploads db') = Some (grant_finalization_lease env kh rh f l u)"
    using owned_row [OF u(1)] assms(2) a db'
    by (intro owned_after_put [OF u(1)]) (simp_all add: grant_finalization_lease_def put_upload_def)
  then show ?thesis using a owned_row [OF u(1)] by (simp add: grant_finalization_lease_def)
qed


section \<open>The published file\<close>

definition contents :: "final_storage \<Rightarrow> path \<Rightarrow> string" where
  "contents fs p = (case fs_read fs p of Inr (Some f) \<Rightarrow> sf_content f | _ \<Rightarrow> [])"

lemma join_parts_Inr: "join_parts fs ps = Inr s \<Longrightarrow> s = concat (map (contents fs) ps)"
proof -
  have "efold (\<lambda>p acc. ebind (fs_read fs p) (\<lambda>f. case f of None \<Rightarrow> raise UPLOAD_INCOMPLETE | Some file \<Rightarrow> Inr (acc @ sf_content file))) ps acc
      = Inr s \<Longrightarrow> s = acc @ concat (map (contents fs) ps)" for acc
  proof (induction ps arbitrary: acc)
    case (Cons p ps)
    then obtain g where "fs_read fs p = Inr (Some g)" by (auto split: option.splits)
    then show ?case using Cons.IH [of "acc @ sf_content g"] Cons.prems by (simp add: contents_def)
  qed simp
  from this [of "[]"] show "join_parts fs ps = Inr s \<Longrightarrow> ?thesis" by (simp add: join_parts_def)
qed

lemma inspect_Inr:
  "inspect_final_descriptor env fs claim s = Inr (h, p) \<Longrightarrow> int (length s) = fc_declared_size claim \<and> h = env_sha256_hex env s
     \<and> (fc_expected_sha256 claim = SERVER_COMPUTED_SHA256 \<or> fc_expected_sha256 claim = h) \<and> fs_probe fs s = Inr p
     \<and> validate_media_identity (fc_original_filename claim) (fc_mime_type claim) (take ISO_BMFF_FTYP_MAX_BYTES s) = Inr ()"
  by (auto simp: inspect_final_descriptor_def Let_def)

lemma unavailable_Inr [simp]: "unavailable m = Inr x \<longleftrightarrow> m = Inr x"
  by (cases m) (auto simp: unavailable_def)

lemma storage_unavailable_Inr [simp]: "storage_unavailable_on es m = Inr x \<longleftrightarrow> m = Inr x"
  by (cases m) (auto simp: storage_unavailable_on_def)

lemma finalize_claim_content:
  assumes "finalize_claim env fs claim = Inr f" and "fs_read fs (ff_storage_path f) = Inr None" and "fs_race fs = None"
  shows "\<exists>s. s = concat (map (contents fs) (fc_part_paths claim)) \<and> inspect_final_descriptor env fs claim s = Inr (ff_sha256 f, ff_probe f)
    \<and> ff_file_id f = fc_file_id claim"
proof -
  obtain sp rec where sp: "reuse_finalized_file env fs claim sp (fs_read fs sp) = Inr rec"
    and f: "case rec of Some g \<Rightarrow> f = g | None \<Rightarrow> build_final_file env fs claim sp = Inr f"
    using assms(1) by (auto simp: finalize_claim_def split: option.splits)
  have path: "ff_storage_path f = sp" using sp f assms(3)
    by (auto simp: reuse_finalized_file_def build_final_file_def split: option.splits)
  then have "rec = None" using sp assms(2) by (auto simp: reuse_finalized_file_def)
  then show ?thesis using f assms(3) join_parts_Inr [of fs "fc_part_paths claim"] by (auto simp: build_final_file_def)
qed


text \<open>
  Completing an upload takes effect once: after a successful publication, publishing the same
  finalized file again and completing the upload again under any idempotency identity both answer
  with the same session and change nothing.
\<close>

theorem completion_idempotent:
  assumes "publish_completion env c claim f db = Inr (r, db')" and "upl_id u = fc_upload_id claim" and "u \<in> set (db_uploads db')"
    and "distinct (map upl_id (db_uploads db'))" and "completion_part_paths env' u = Inr paths"
    and "is_sha256 kh" and "is_sha256 rh"
  shows "(\<exists>r'. publish_completion env' c claim f db' = Inr (r', db') \<and> pc_response r' = pc_response r)
    \<and> (\<exists>r'. claim_completion env' c (fc_upload_id claim) kh rh resume db' = Inr (Completed r', db') \<and> pc_response r' = pc_response r)"
proof -
  obtain v where v: "owned_upload c db (fc_upload_id claim) = Inr v" using assms(1) by (auto simp: publish_completion_def)
  obtain w where w: "row_get upl_id (fc_upload_id claim) (db_uploads db') = Some w" "upl_status w = upload_status.completed"
      "upl_file_id w = Some (ff_file_id f)" "pc_response r = upload_dto w"
      "upl_owner_principal_id w = upl_owner_principal_id v" "upl_owner_principal_kind w = upl_owner_principal_kind v"
  proof (cases "upl_status v = upload_status.completed \<and> upl_file_id v = Some (ff_file_id f)")
    case True
    then show thesis using assms(1) v owned_row [OF v] that by (auto simp: publish_completion_def)
  next
    case False
    let ?w = "(clear_finalization v)\<lparr>upl_status := upload_status.completed, upl_file_id := Some (ff_file_id f), upl_updated_at := env_now env\<rparr>"
    have eff: "db_uploads db' = row_put upl_id ?w (db_uploads db)" "pc_response r = upload_dto ?w"
      using assms(1) v False by (auto simp: publish_completion_def Let_def put_upload_def split: if_splits pin.splits)
    have "row_get upl_id (fc_upload_id claim) (db_uploads db') = Some ?w"
      using owned_row [OF v] by (intro owned_after_put [OF v _ eff(1)]) (simp add: clear_finalization_def)
    then show thesis using eff(2) by (intro that [of ?w]) (simp_all add: clear_finalization_def)
  qed
  have "w = u" using w(1) assms(2-4) row_get_iff [OF assms(4)] by (metis row_get_mem option.inject)
  moreover have own: "owned_upload c db' (fc_upload_id claim) = Inr w"
    using v w(1,5,6) by (auto simp: owned_upload_def get_upload_row_def assert_upload_owner_def split: option.splits if_splits)
  ultimately show ?thesis using w assms(5-7) by (simp add: publish_completion_def claim_completion_def)
qed

section \<open>Ownership\<close>

definition op_context :: "upload_op \<Rightarrow> execution_context option" where
  "op_context x =
     (case x of
        Init_Upload c _ \<Rightarrow> Some c | Claim_Stream c _ _ \<Rightarrow> Some c | Put_Part c _ _ _ _ \<Rightarrow> Some c | Claim_Completion c _ _ _ _ \<Rightarrow> Some c
      | Publish_Completion c _ _ \<Rightarrow> Some c | Release_Failed c _ _ \<Rightarrow> Some c | Confirm_Cleanup c _ _ \<Rightarrow> Some c | Abort_Upload c _ \<Rightarrow> Some c
      | Drop_Unbound _ _ \<Rightarrow> None)"

definition owns :: "execution_context \<Rightarrow> upload_session \<Rightarrow> bool" where
  "owns c u \<longleftrightarrow> pr_id (ctx_principal c) = Some (upl_owner_principal_id u) \<and> pr_kind (ctx_principal c) = upl_owner_principal_kind u"

lemma put_owned_keeps:
  assumes "uploads_ok db" and "owned_upload c db k = Inr v" and "upl_id w = upl_id v" and "u \<in> set (db_uploads db)" and "\<not> owns c u"
    and "db_uploads db' = row_put upl_id w (db_uploads db)"
  shows "u \<in> set (db_uploads db')"
proof -
  have "v \<in> set (db_uploads db)" "owns c v" using owned_upload_Inr [OF assms(2)] by (auto simp: owns_def)
  then have "upl_id u \<noteq> upl_id v" using assms(1,4,5) by (auto simp: uploads_ok_def distinct_map dest: inj_onD)
  then show ?thesis unfolding assms(6) using assms(3,4) by (intro in_set_row_put_other) simp_all
qed

definition owner_put :: "execution_context \<Rightarrow> db \<Rightarrow> db \<Rightarrow> bool" where
  "owner_put c db db' \<longleftrightarrow> db_uploads db' = db_uploads db \<or> (\<exists>u. db_uploads db' = db_uploads db @ [u])
    \<or> (\<exists>k v w. owned_upload c db k = Inr v \<and> upl_id w = upl_id v \<and> db_uploads db' = row_put upl_id w (db_uploads db))"

lemma owner_putI:
  assumes "owned_upload c db k = Inr v" and "upl_id w = upl_id v" and "db_uploads db1 = db_uploads db"
  shows "owner_put c db (put_upload w db1)"
  using assms by (auto simp: owner_put_def put_upload_def)

lemma owner_put_same: "db_uploads db1 = db_uploads db \<Longrightarrow> owner_put c db db1"
  by (simp add: owner_put_def)

lemma receive_owned: "ensure_can_receive_part env c k n db = Inr u \<Longrightarrow> owned_upload c db k = Inr u"
  by (auto simp: ensure_can_receive_part_def)

lemma session_ops_owner_put:
  "claim_part_stream env c k n db = Inr (r1, db') \<Longrightarrow> owner_put c db db'"
  "put_part_file env c k n p bytes db = Inr (r2, db') \<Longrightarrow> owner_put c db db'"
  "confirm_part_cleanup env c k st db = Inr (r3, db') \<Longrightarrow> owner_put c db db'"
  "prepare_abort env c k db = Inr (r4, db') \<Longrightarrow> owner_put c db db'"
  by (auto simp: claim_part_stream_def put_part_file_def confirm_part_cleanup_def prepare_abort_def Let_def
      intro!: owner_putI dest: receive_owned)

lemma publish_owner_put: "publish_completion env c claim f db = Inr (r, db') \<Longrightarrow> owner_put c db db'"
  by (auto simp: publish_completion_def Let_def clear_finalization_def split: if_splits pin.splits intro: owner_put_same intro!: owner_putI)

lemma release_owner_put: "release_failed_finalization env c claim b db = Inr (r, db') \<Longrightarrow> owner_put c db db'"
  by (auto simp: release_failed_finalization_def Let_def clear_finalization_def split: if_splits intro: owner_put_same intro!: owner_putI)

lemma claim_owner_put: "claim_completion env c k kh rh resume db = Inr (r, db') \<Longrightarrow> owner_put c db db'"
  by (auto simp: claim_completion_def new_id_def Let_def grant_finalization_lease_def split: if_splits intro: owner_put_same intro!: owner_putI)

lemma init_owner_put: "init_upload env c req db = Inr (r, db') \<Longrightarrow> owner_put c db db'"
  by (auto simp: owner_put_def dest!: init_upload_Inr)

lemma upload_step_owner:
  assumes "upload_step (env, x) db = Inr db'" and "op_context x = Some c"
  shows "owner_put c db db'"
  using assms by (cases x) (auto simp: upload_step_def op_context_def map_sum_snd_Inr
      dest: init_owner_put session_ops_owner_put publish_owner_put release_owner_put claim_owner_put)

text \<open>
  Nobody but its owner changes an upload: whatever session operation another principal runs -
  sending parts, completing, publishing, releasing, confirming the cleanup, aborting, starting an
  upload of its own - the session stays exactly as it was.
\<close>

theorem foreign_upload_untouched:
  assumes "reachable_by upload_step empty_db db" and "upload_step (env, x) db = Inr db'" and "op_context x = Some c"
    and "u \<in> set (db_uploads db)" and "\<not> owns c u"
  shows "u \<in> set (db_uploads db')"
proof -
  have ok: "uploads_ok db" by (rule uploads.reachable_invar [OF assms(1) empty_uploads_ok])
  have "owner_put c db db'" by (rule upload_step_owner [OF assms(2,3)])
  then consider "db_uploads db' = db_uploads db" | v where "db_uploads db' = db_uploads db @ [v]"
    | k v w where "owned_upload c db k = Inr v" "upl_id w = upl_id v" "db_uploads db' = row_put upl_id w (db_uploads db)"
    by (auto simp: owner_put_def)
  then show ?thesis
  proof cases
    case (3 k v w)
    then show ?thesis by (rule put_owned_keeps [OF ok _ _ assms(4,5)])
  qed (use assms(4) in auto)
qed

section \<open>A concrete upload\<close>

definition ex_upload_request :: upload_request where
  "ex_upload_request =
     \<lparr>req_original_filename = ''a.mp4'', req_mime_type = ''video/mp4'', req_file_size = 28, req_sha256 = SERVER_COMPUTED_SHA256,
      req_duration_ms = None, req_width = None, req_height = None, req_fps_num = None, req_fps_den = None\<rparr>"

definition ex_upload_id :: string where
  "ex_upload_id = ''upl_'' @ replicate 32 (CHR ''0'')"

definition ex_part_name :: "int \<Rightarrow> path" where
  "ex_part_name n = [''srv'', ''storage'', ''uploads'', upload_part_name ex_upload_id n (replicate 32 (CHR ''a''))]"

text \<open>Every part file has 14 bytes.\<close>

definition ex_upload_env :: env where
  "ex_upload_env = ex_hex_env\<lparr>env_pin_storage := (\<lambda>_. Pin_File (ex_identity\<lparr>fid_size := 14\<rparr>))\<rparr>"

definition ex_uploading_db :: db where
  "ex_uploading_db = run_ops upload_step
     [(ex_upload_env, Init_Upload ex_context ex_upload_request),
      (ex_upload_env, Put_Part ex_context ex_upload_id 2 (path_str (ex_part_name 2)) 14),
      (ex_upload_env, Put_Part ex_context ex_upload_id 1 (path_str (ex_part_name 1)) 14)] empty_db"

lemma ex_uploading_reachable: "reachable_by upload_step empty_db ex_uploading_db"
  unfolding ex_uploading_db_def by (rule run_ops_reachable)

lemma ex_uploading_status: "map upl_status (db_uploads ex_uploading_db) = [receiving] \<and> map received_size (db_uploads ex_uploading_db) = [28]"
  by code_simp

theorem upload_sessions_consistent_witness:
  "\<exists>u. db_uploads ex_uploading_db = [u] \<and> received_size u = 28 \<and> distinct (map fst (upl_received_parts u)) \<and> upl_finalization_lease_id u = None"
proof -
  obtain u where u: "db_uploads ex_uploading_db = [u]" "upl_status u = receiving" "received_size u = 28"
    using ex_uploading_status by auto
  then show ?thesis using upload_sessions_consistent [OF ex_uploading_reachable, of u] by auto
qed

theorem upload_quota_respected_witness:
  "\<exists>v db'. init_upload ex_upload_env ex_context ex_upload_request empty_db = Inr (v, db') \<and> reserved_sum active_reservation db' \<le> 10000000"
proof -
  have "succeeds (init_upload ex_upload_env ex_context ex_upload_request empty_db)" by code_simp
  then obtain v db' where run: "init_upload ex_upload_env ex_context ex_upload_request empty_db = Inr (v, db')" by (rule succeeds_pairE)
  have "cfg_max_reserved_upload_bytes_global (env_settings ex_upload_env) = 10000000" by (simp add: ex_upload_env_def ex_defs)
  then show ?thesis using upload_quota_respected [OF run] run by auto
qed

definition ex_key :: string where
  "ex_key = replicate 64 (CHR ''b'')"

definition ex_claim_of :: "exn + completion_claim \<times> db \<Rightarrow> finalization_claim option" where
  "ex_claim_of m = (case m of Inr (Claimed a, _) \<Rightarrow> Some a | _ \<Rightarrow> None)"

lemma ex_claim_ofE: "ex_claim_of m = Some a \<Longrightarrow> (\<And>db. m = Inr (Claimed a, db) \<Longrightarrow> P) \<Longrightarrow> P"
  by (auto simp: ex_claim_of_def split: sum.splits completion_claim.splits)

definition ex_claim :: finalization_claim where
  "ex_claim =
     \<lparr>fc_upload_id = ex_upload_id, fc_lease_id = ''lease_'' @ replicate 32 (CHR ''0''), fc_file_id = ex_file_id,
      fc_recovered_expired_lease = False, fc_resumed_active_lease = False, fc_original_filename = ''a.mp4'', fc_mime_type = ''video/mp4'',
      fc_declared_size = 28, fc_expected_sha256 = SERVER_COMPUTED_SHA256, fc_owner_principal_id = ''u1'', fc_owner_principal_kind = ''service'',
      fc_part_paths = [ex_part_name 1, ex_part_name 2]\<rparr>"

text \<open>The parts were received in the order two, one; the claim lists them in the order of their numbers.\<close>

lemma ex_claimed: "ex_claim_of (claim_completion ex_upload_env ex_context ex_upload_id ex_key ex_key False ex_uploading_db) = Some ex_claim"
  by code_simp


definition ex_media_bytes :: string where
  "ex_media_bytes = [CHR 0x00, CHR 0x00, CHR 0x00, CHR 0x14] @ ''ftypisom0000mp42moovmdat''"

definition ex_final_storage :: final_storage where
  "ex_final_storage =
     \<lparr>fs_read = (\<lambda>p. Inr (if p = ex_part_name 1 then Some \<lparr>sf_device = 1, sf_inode = 3, sf_content = take 14 ex_media_bytes\<rparr>
                          else if p = ex_part_name 2 then Some \<lparr>sf_device = 1, sf_inode = 4, sf_content = drop 14 ex_media_bytes\<rparr>
                          else None)),
      fs_staging = (1, 7), fs_unchanged = True, fs_same_device = True, fs_race = None, fs_published = True,
      fs_probe = (\<lambda>_. Inr ex_probe)\<rparr>"

definition ex_finalized :: finalized_file where
  "ex_finalized =
     \<lparr>ff_file_id = ex_file_id, ff_storage_path = [''srv'', ''storage'', ''files'', ex_file_id], ff_device = 1, ff_inode = 7,
      ff_sha256 = ex_media_bytes, ff_probe = ex_probe, ff_part_paths = [ex_part_name 1, ex_part_name 2]\<rparr>"

text \<open>The session under the lease of the claim.\<close>

definition ex_session :: upload_session where
  "ex_session = grant_finalization_lease ex_upload_env ex_key ex_key ex_file_id (fc_lease_id ex_claim)
     ((fresh_upload ex_upload_env ex_context ex_upload_request ''u1'' ex_upload_id
         [''srv'', ''storage'', ''uploads'', ex_upload_id @ ''.parts''])
        \<lparr>upl_received_parts := [(2, \<lparr>part_size = 14, part_path = path_str (ex_part_name 2)\<rparr>),
                                (1, \<lparr>part_size = 14, part_path = path_str (ex_part_name 1)\<rparr>)]\<rparr>)"

definition ex_claimed_db :: db where
  "ex_claimed_db = empty_db\<lparr>db_uploads := [ex_session]\<rparr>"

lemma ex_storage_facts:
  "upload_contained_path (path_str (file_root ex_upload_env @ [fc_file_id ex_claim])) (file_root ex_upload_env) = Inr (ff_storage_path ex_finalized)"
  "fs_read ex_final_storage (ff_storage_path ex_finalized) = Inr None"
  "join_parts ex_final_storage (fc_part_paths ex_claim) = Inr ex_media_bytes"
  by code_simp+

lemma ex_media_valid: "validate_media_identity ''a.mp4'' ''video/mp4'' (take ISO_BMFF_FTYP_MAX_BYTES ex_media_bytes) = Inr ()"
proof -
  have "take ISO_BMFF_FTYP_MAX_BYTES ex_media_bytes = ex_media_bytes" by (simp add: ISO_BMFF_FTYP_MAX_BYTES_def ex_media_bytes_def)
  moreover have "succeeds (detect_magic ex_media_bytes)" by code_simp
  moreover have "media_name_matches ''a.mp4'' ''video/mp4''" by code_simp
  ultimately show ?thesis by (auto simp: validate_media_identity_def elim!: succeedsE)
qed

lemma ex_finalize: "finalize_claim ex_upload_env ex_final_storage ex_claim = Inr ex_finalized"
proof -
  have "int (length ex_media_bytes) = 28" "env_sha256_hex ex_upload_env ex_media_bytes = ex_media_bytes"
    by (simp_all add: ex_media_bytes_def ex_upload_env_def ex_defs)
  then have "inspect_final_descriptor ex_upload_env ex_final_storage ex_claim ex_media_bytes = Inr (ex_media_bytes, ex_probe)"
    using ex_media_valid by (simp add: inspect_final_descriptor_def ex_claim_def ex_final_storage_def)
  then show ?thesis using ex_storage_facts
    by (simp add: finalize_claim_def reuse_finalized_file_def unavailable_def storage_unavailable_on_def build_final_file_def)
      (simp add: ex_final_storage_def ex_finalized_def ex_claim_def)
qed

lemma ex_publish: "succeeds (publish_completion ex_upload_env ex_context ex_claim ex_finalized ex_claimed_db)"
  by code_simp

lemma ex_publish_files:
  "(case publish_completion ex_upload_env ex_context ex_claim ex_finalized ex_claimed_db of Inr (_, db) \<Rightarrow> length (db_files db) | _ \<Rightarrow> 0) = 1"
  "length (db_files ex_claimed_db) = 0"
  by code_simp+


theorem foreign_upload_untouched_witness:
  "let c = ex_context\<lparr>ctx_principal := ex_principal\<lparr>pr_id := Some ''u2''\<rparr>\<rparr>
   in \<exists>u db'. db_uploads ex_uploading_db = [u] \<and> upload_step (ex_upload_env\<lparr>env_uuid_hex := (\<lambda>_. ''x'')\<rparr>, Init_Upload c ex_upload_request) ex_uploading_db = Inr db'
      \<and> u \<in> set (db_uploads db')"
proof -
  let ?c = "ex_context\<lparr>ctx_principal := ex_principal\<lparr>pr_id := Some ''u2''\<rparr>\<rparr>"
  let ?x = "Init_Upload ?c ex_upload_request" and ?env = "ex_upload_env\<lparr>env_uuid_hex := (\<lambda>_. ''x'')\<rparr>"
  have "map upl_owner_principal_id (db_uploads ex_uploading_db) = [''u1'']" by code_simp
  then obtain u where u: "db_uploads ex_uploading_db = [u]" "upl_owner_principal_id u = ''u1''" by auto
  have "succeeds (upload_step (?env, ?x) ex_uploading_db)" by code_simp
  then obtain db' where run: "upload_step (?env, ?x) ex_uploading_db = Inr db'" by (rule succeedsE)
  have o: "op_context ?x = Some ?c" "\<not> owns ?c u" using u(2) by (simp_all add: op_context_def owns_def)
  show ?thesis unfolding Let_def
    using foreign_upload_untouched [OF ex_uploading_reachable run o(1) _ o(2)] u(1) run by auto
qed

theorem completion_idempotent_witness:
  "\<exists>r db'. publish_completion ex_upload_env ex_context ex_claim ex_finalized ex_claimed_db = Inr (r, db')
     \<and> (\<exists>r'. publish_completion ex_upload_env ex_context ex_claim ex_finalized db' = Inr (r', db') \<and> pc_response r' = pc_response r)"
proof -
  let ?run = "publish_completion ex_upload_env ex_context ex_claim ex_finalized ex_claimed_db"
  obtain r db' where run: "?run = Inr (r, db')" by (rule succeeds_pairE [OF ex_publish])
  have "(case ?run of Inr (_, db) \<Rightarrow> map upl_id (db_uploads db) = [ex_upload_id]
      \<and> list_all (\<lambda>u. succeeds (completion_part_paths ex_upload_env u)) (db_uploads db) | _ \<Rightarrow> False)" by code_simp
  then obtain u paths where u: "db_uploads db' = [u]" "upl_id u = ex_upload_id" "completion_part_paths ex_upload_env u = Inr paths"
    using run by (auto elim!: succeedsE)
  have k: "is_sha256 ex_key" by code_simp
  have "fc_upload_id ex_claim = ex_upload_id" by (simp add: ex_claim_def)
  then show ?thesis using completion_idempotent [OF run _ _ _ u(3) k k] u(1,2) run by simp
qed

end
