(* ===== verification/Outbox.thy ===== *)
theory Outbox
  imports Views "HOL-Library.Product_Lexorder"
begin

text \<open>
  \<open>src/backend/app/modules/review_integration/outbox.py\<close>: the dispatcher that hands the events
  of the outbox to a publisher and the receipts of their consumers. The publisher is a parameter: it
  takes the envelope of an event and either returns or raises. \<open>stamp\<close> is the text of an instant.
\<close>

section \<open>Dispatching\<close>

definition json_null_free :: "(string \<times> json) list \<Rightarrow> (string \<times> json) list" where
  "json_null_free kvs = filter (\<lambda>(_, v). v \<noteq> JNull) kvs"

definition json_str_opt :: "string option \<Rightarrow> json" where
  "json_str_opt x = (case x of None \<Rightarrow> JNull | Some s \<Rightarrow> JStr s)"

definition event_envelope :: "(int \<Rightarrow> string) \<Rightarrow> outbox_event \<Rightarrow> json" where
  "event_envelope stamp e =
     JObj (json_null_free
       [(''event_id'', JStr (evt_event_id e)), (''event_type'', JStr (evt_event_type e)), (''event_version'', JInt (evt_event_version e)),
        (''occurred_at'', JStr (stamp (evt_occurred_at e))), (''aggregate_type'', JStr (evt_aggregate_type e)),
        (''aggregate_id'', JStr (evt_aggregate_id e)), (''aggregate_version'', JInt (evt_aggregate_version e)),
        (''sequence'', JInt (evt_sequence e)), (''project_ref_id'', JStr (evt_project_ref_id e)),
        (''review_item_id'', json_str_opt (evt_review_item_id e)), (''version_id'', json_str_opt (evt_version_id e)),
        (''issue_id'', json_str_opt (evt_issue_id e)), (''finalization_id'', json_str_opt (evt_finalization_id e)),
        (''package_id'', json_str_opt (evt_package_id e)), (''correlation_id'', JStr (evt_correlation_id e)),
        (''causation_id'', json_str_opt (evt_causation_id e)), (''metadata'', evt_metadata e), (''payload'', evt_payload e)])"

definition dispatchable :: "int \<Rightarrow> outbox_event \<Rightarrow> bool" where
  "dispatchable max_attempts e \<longleftrightarrow> evt_status e \<in> {outbox_pending, outbox_failed} \<and> evt_attempts e < max_attempts"

definition due_events :: "int \<Rightarrow> nat \<Rightarrow> db \<Rightarrow> outbox_event list" where
  "due_events max_attempts limit db =
     take limit (order_by (\<lambda>e. (evt_sequence e, evt_id e)) (filter (dispatchable max_attempts) (db_events db)))"

text \<open>The sequence number is unique and identifies the row.\<close>

definition put_event :: "outbox_event \<Rightarrow> db \<Rightarrow> db" where
  "put_event e db = db\<lparr>db_events := row_put evt_sequence e (db_events db)\<rparr>"

definition delivered :: "(json \<Rightarrow> bool) \<Rightarrow> (int \<Rightarrow> string) \<Rightarrow> outbox_event \<Rightarrow> outbox_event" where
  "delivered publisher stamp e =
     (let e = e\<lparr>evt_status := outbox_publishing, evt_attempts := evt_attempts e + 1\<rparr>
      in e\<lparr>evt_status := (if publisher (event_envelope stamp e) then outbox_dispatched else outbox_failed)\<rparr>)"

fun deliver_all :: "(json \<Rightarrow> bool) \<Rightarrow> (int \<Rightarrow> string) \<Rightarrow> outbox_event list \<Rightarrow> db \<Rightarrow> int \<times> db" where
  "deliver_all publisher stamp [] db = (0, db)"
| "deliver_all publisher stamp (e # es) db =
     (let e' = delivered publisher stamp e; (n, db') = deliver_all publisher stamp es (put_event e' db)
      in ((if evt_status e' = outbox_dispatched then 1 else 0) + n, db'))"

definition dispatch_once :: "int \<Rightarrow> (json \<Rightarrow> bool) \<Rightarrow> (int \<Rightarrow> string) \<Rightarrow> nat \<Rightarrow> db \<Rightarrow> int \<times> db" where
  "dispatch_once max_attempts publisher stamp limit db = deliver_all publisher stamp (due_events max_attempts limit db) db"

definition record_consumed :: "env \<Rightarrow> string \<Rightarrow> string \<Rightarrow> db \<Rightarrow> bool \<times> db" where
  "record_consumed env event_id consumer_name db =
     (if list_ex (\<lambda>r. rcp_event_id r = event_id \<and> rcp_consumer_name r = consumer_name) (db_receipts db)
         \<or> \<not> list_ex (\<lambda>e. evt_event_id e = event_id) (db_events db)
      then (False, db)
      else (True, db\<lparr>db_receipts := db_receipts db @
              [\<lparr>rcp_event_id = event_id, rcp_consumer_name = consumer_name, rcp_consumed_at = env_now env\<rparr>]\<rparr>))"

section \<open>What a round does\<close>

lemma delivered_sel [simp]:
  "evt_sequence (delivered pub stamp e) = evt_sequence e" "evt_attempts (delivered pub stamp e) = evt_attempts e + 1"
  "evt_id (delivered pub stamp e) = evt_id e"
  by (simp_all add: delivered_def Let_def)

lemma delivered_status:
  "evt_status (delivered pub stamp e) = (if pub (event_envelope stamp e) then outbox_dispatched else outbox_failed)"
  by (simp add: delivered_def Let_def event_envelope_def)

lemma row_get_key: "row_get key k rows = Some r \<Longrightarrow> key r = k"
  using row_get_SomeD by fastforce

lemma deliver_all_result:
  assumes "distinct (map evt_sequence es)"
  shows "deliver_all pub stamp es db =
    (int (length (filter (\<lambda>e. pub (event_envelope stamp e)) es)),
     db\<lparr>db_events := map (\<lambda>q. case row_get evt_sequence (evt_sequence q) es of None \<Rightarrow> q | Some e \<Rightarrow> delivered pub stamp e) (db_events db)\<rparr>)"
  using assms
proof (induction es arbitrary: db)
  case (Cons e es)
  have fresh: "row_get evt_sequence (evt_sequence e) es = None" using Cons.prems by (simp add: row_get_None_iff)
  have "map (\<lambda>q. case row_get evt_sequence (evt_sequence q) es of None \<Rightarrow> q | Some e \<Rightarrow> delivered pub stamp e)
      (row_put evt_sequence (delivered pub stamp e) (db_events db)) =
    map (\<lambda>q. case row_get evt_sequence (evt_sequence q) (e # es) of None \<Rightarrow> q | Some e \<Rightarrow> delivered pub stamp e) (db_events db)"
    using fresh by (auto simp: row_put_def)
  then show ?case using Cons by (simp add: put_event_def delivered_status Let_def)
qed simp

lemma due_events_mem: "e \<in> set (due_events m n db) \<Longrightarrow> e \<in> set (db_events db) \<and> dispatchable m e"
  using set_take_subset by (fastforce simp: due_events_def order_by_def)

lemma due_events_sorted:
  assumes "outbox_ordered db"
  shows "sorted_wrt (<) (map evt_sequence (due_events m n db))"
proof -
  let ?f = "filter (dispatchable m) (db_events db)"
  have "sorted_wrt (<) (map evt_sequence ?f)"
    using assms unfolding outbox_ordered_def sorted_wrt_map by (rule sorted_wrt_filter)
  then have s: "sorted (map (\<lambda>e. (evt_sequence e, evt_id e)) ?f)" "sorted_wrt (\<lambda>x y. evt_sequence x < evt_sequence y) ?f"
    by (auto simp: sorted_wrt_map less_eq_prod_def elim!: sorted_wrt_mono_rel [rotated])
  then have "due_events m n db = take n ?f" by (simp add: due_events_def order_by_def sort_key_id_if_sorted)
  then show ?thesis using s(2) by (simp add: sorted_wrt_map sorted_wrt_take)
qed

lemma dispatch_result:
  assumes "outbox_ordered db"
  shows "dispatch_once m pub stamp n db =
    (int (length (filter (\<lambda>e. pub (event_envelope stamp e)) (due_events m n db))),
     db\<lparr>db_events := map (\<lambda>e. if e \<in> set (due_events m n db) then delivered pub stamp e else e) (db_events db)\<rparr>)"
proof -
  let ?es = "due_events m n db"
  have d: "distinct (map evt_sequence ?es)" "distinct (map evt_sequence (db_events db))"
    using due_events_sorted [OF assms] assms unfolding outbox_ordered_def strict_sorted_iff by blast+
  have "(case row_get evt_sequence (evt_sequence q) ?es of None \<Rightarrow> q | Some e \<Rightarrow> delivered pub stamp e)
      = (if q \<in> set ?es then delivered pub stamp q else q)" if q: "q \<in> set (db_events db)" for q
  proof (cases "row_get evt_sequence (evt_sequence q) ?es")
    case None
    then have "q \<notin> set ?es" by (auto simp: row_get_None_iff)
    then show ?thesis using None by simp
  next
    case (Some e)
    then have "e \<in> set ?es" "evt_sequence e = evt_sequence q" using row_get_SomeD by fast+
    moreover from this have "e = q" using due_events_mem q d(2) by (metis distinct_map inj_onD)
    ultimately show ?thesis using Some by simp
  qed
  then show ?thesis unfolding dispatch_once_def deliver_all_result [OF d(1)] by (simp cong: map_cong)
qed


definition ex_event :: "int \<Rightarrow> outbox_event" where
  "ex_event n = \<lparr>evt_id = n, evt_event_id = ''event'', evt_event_type = ''review_issue.created'', evt_event_version = 1,
     evt_aggregate_type = ''review_item'', evt_aggregate_id = ''ri'', evt_aggregate_version = 1, evt_sequence = n,
     evt_project_ref_id = ''pr'', evt_review_item_id = Some ''ri'', evt_version_id = None, evt_issue_id = None,
     evt_finalization_id = None, evt_package_id = None, evt_correlation_id = ''corr'', evt_causation_id = None,
     evt_metadata = JObj [], evt_payload = JObj [], evt_status = outbox_pending, evt_attempts = 0, evt_occurred_at = 0\<rparr>"

definition ex_outbox_db :: db where
  "ex_outbox_db = empty_db\<lparr>db_events := [ex_event 1, (ex_event 2)\<lparr>evt_status := outbox_dispatched\<rparr>, ex_event 3, ex_event 4]\<rparr>"

lemma ex_outbox_ordered: "outbox_ordered ex_outbox_db"
  by (simp add: outbox_ordered_def ex_outbox_db_def ex_event_def)

lemma ex_due: "due_events 5 2 ex_outbox_db = [ex_event 1, ex_event 3]"
  by (simp add: due_events_def order_by_def dispatchable_def ex_outbox_db_def ex_event_def less_eq_prod_def)


section \<open>The outbox drains\<close>

lemma dispatch_ordered:
  assumes "outbox_ordered db"
  shows "outbox_ordered (snd (dispatch_once m pub stamp n db))"
proof -
  have seq: "evt_sequence \<circ> (\<lambda>e. if e \<in> S then delivered pub stamp e else e) = evt_sequence" for S
    by (auto simp: fun_eq_iff)
  have "db_events (snd (dispatch_once m pub stamp n db)) =
      map (\<lambda>e. if e \<in> set (due_events m n db) then delivered pub stamp e else e) (db_events db)"
    unfolding dispatch_result [OF assms] by simp
  then show ?thesis using assms unfolding outbox_ordered_def by (simp only: map_map seq)
qed

lemma filter_mapped:
  "(\<And>e. \<not> P (f e)) \<Longrightarrow> filter P (map (\<lambda>e. if e \<in> S then f e else e) xs) = filter (\<lambda>e. P e \<and> e \<notin> S) xs"
  by (induction xs) auto

lemma outbox_round_sound: "dispatch_once m pub stamp n db = (k, db') \<Longrightarrow> sound_step db db'"
  using dispatch_ordered [of db m pub stamp n] dispatch_result [of db m pub stamp n]
  by (auto simp: sound_step_def store_ok_def core_of_def)

lemma record_consumed_sound: "record_consumed env e c db = (r, db') \<Longrightarrow> sound_step db db'"
  by (rule sound_frame) (auto simp: record_consumed_def core_of_def split: if_splits)

lemma dispatch_progress:
  assumes "outbox_ordered db" and "\<And>j. pub j"
  shows "length (filter (dispatchable m) (db_events (snd (dispatch_once m pub stamp n db)))) = length (filter (dispatchable m) (db_events db)) - n"
proof -
  let ?es = "due_events m n db" and ?f = "filter (dispatchable m) (db_events db)"
  have d: "distinct ?f" using assms(1) unfolding outbox_ordered_def strict_sorted_iff by (simp add: distinct_map)
  have es: "set ?es \<subseteq> set ?f" "length ?es = min n (length ?f)" "distinct ?es"
  proof -
    show "set ?es \<subseteq> set ?f" using due_events_mem [of _ m n db] by (simp add: subset_iff)
    show "length ?es = min n (length ?f)" by (simp add: due_events_def order_by_def)
    show "distinct ?es" using d by (simp add: due_events_def order_by_def distinct_take)
  qed
  have "\<not> dispatchable m (delivered pub stamp e)" for e using assms(2) by (simp add: dispatchable_def delivered_status)
  then have "filter (dispatchable m) (map (\<lambda>e. if e \<in> set ?es then delivered pub stamp e else e) (db_events db))
      = filter (\<lambda>e. dispatchable m e \<and> e \<notin> set ?es) (db_events db)"
    by (intro filter_mapped)
  also have "\<dots> = filter (\<lambda>e. e \<notin> set ?es) ?f" by (simp add: conj_commute)
  finally have "length (filter (dispatchable m) (db_events (snd (dispatch_once m pub stamp n db)))) = length (filter (\<lambda>e. e \<notin> set ?es) ?f)"
    by (simp add: dispatch_result [OF assms(1)])
  also have "\<dots> = card (set (filter (\<lambda>e. e \<notin> set ?es) ?f))" using d by (simp only: distinct_card distinct_filter)
  also have "set (filter (\<lambda>e. e \<notin> set ?es) ?f) = set ?f - set ?es" by auto
  also have "card (set ?f - set ?es) = card (set ?f) - card (set ?es)" using es(1) by (simp only: card_Diff_subset finite_set)
  also have "\<dots> = length ?f - length ?es"
    using d es(3) by (simp only: distinct_card)
  finally show ?thesis using es(2) by simp
qed

definition dispatch_rounds :: "nat \<Rightarrow> int \<Rightarrow> (json \<Rightarrow> bool) \<Rightarrow> (int \<Rightarrow> string) \<Rightarrow> nat \<Rightarrow> db \<Rightarrow> db" where
  "dispatch_rounds r m pub stamp n = (snd \<circ> dispatch_once m pub stamp n) ^^ r"



end
