(* ===== verification/Qc_Intervals.thy ===== *)
theory Qc_Intervals
  imports Schema "HOL-Library.Product_Lexorder"
begin

text \<open>
  The intervals of the technical check, \<open>src/backend/app/technical_qc.py\<close>: conversion of frames to
  time, shots that are too short, runs of black or white frames, and the merging of overlapping
  intervals. The number a frame was measured with (a float) is carried along as the text it is
  displayed with; nothing here computes with it.
\<close>

section \<open>Intervals\<close>

record qc_interval =
  qci_start_frame :: int
  qci_end_frame :: int
  qci_start_ms :: int
  qci_end_ms :: int
  qci_reason_codes :: "string list"
  qci_values :: "(string \<times> json) list"

text \<open>\<open>__post_init__\<close>.\<close>

definition valid_interval :: "qc_interval \<Rightarrow> bool" where
  "valid_interval i \<longleftrightarrow> 0 \<le> qci_start_frame i \<and> qci_start_frame i \<le> qci_end_frame i
     \<and> 0 \<le> qci_start_ms i \<and> qci_start_ms i \<le> qci_end_ms i \<and> qci_reason_codes i \<noteq> []"

definition QcInterval :: "qc_interval \<Rightarrow> exn + qc_interval" where
  "QcInterval i = (if valid_interval i then Inr i else Inl ValueError)"

definition frame_count :: "qc_interval \<Rightarrow> int" where
  "frame_count i = qci_end_frame i - qci_start_frame i + 1"

definition interval_duration_ms :: "qc_interval \<Rightarrow> int" where
  "interval_duration_ms i = qci_end_ms i - qci_start_ms i"

definition frame_time_ms :: "int \<Rightarrow> int \<Rightarrow> int \<Rightarrow> exn + int" where
  "frame_time_ms frame num den =
     (if frame < 0 \<or> num \<le> 0 \<or> den \<le> 0 then Inl ValueError
      else Inr ((frame * 1000 * den + num div 2) div num))"

text \<open>The interval of the frames from \<open>start\<close> up to, but without, \<open>stop\<close>.\<close>

definition interval_of_frames ::
  "int \<Rightarrow> int \<Rightarrow> int \<Rightarrow> int \<Rightarrow> string \<Rightarrow> (string \<times> json) list \<Rightarrow> exn + qc_interval" where
  "interval_of_frames num den start stop reason values =
     ebind (frame_time_ms start num den) (\<lambda>start_ms.
     ebind (frame_time_ms stop num den) (\<lambda>end_ms.
       QcInterval \<lparr>qci_start_frame = start, qci_end_frame = stop - 1, qci_start_ms = start_ms, qci_end_ms = end_ms,
         qci_reason_codes = [reason], qci_values = values\<rparr>))"

section \<open>Short shots\<close>

definition SHORT_SHOT_FRAME_COUNTS :: "int set" where
  "SHORT_SHOT_FRAME_COUNTS = {1, 2, 3}"

definition shot_boundaries :: "int list \<Rightarrow> int \<Rightarrow> int list" where
  "shot_boundaries scene_cut_frames total_frames =
     sort (remdups (0 # total_frames # filter (\<lambda>f. 0 \<le> f \<and> f \<le> total_frames) scene_cut_frames))"

definition short_shot_intervals :: "int list \<Rightarrow> int \<Rightarrow> int \<Rightarrow> int \<Rightarrow> exn + qc_interval list" where
  "short_shot_intervals scene_cut_frames total_frames num den =
     (if total_frames < 0 then Inl ValueError
      else
        let boundaries = shot_boundaries scene_cut_frames total_frames
        in efold (\<lambda>(start_frame, exclusive_end_frame) intervals.
               let count = exclusive_end_frame - start_frame
               in if count \<notin> SHORT_SHOT_FRAME_COUNTS then Inr intervals
                  else
                    ebind (interval_of_frames num den start_frame exclusive_end_frame ''short_shot'' [(''frame_count'', JInt count)])
                      (\<lambda>i. Inr (intervals @ [i])))
             (zip boundaries (tl boundaries)) [])"

section \<open>Black and white frames\<close>

definition CONTINUOUS_LUMA_MIN_MS :: int where
  "CONTINUOUS_LUMA_MIN_MS = 1000"

definition SILENCE_MIN_MS :: int where
  "SILENCE_MIN_MS = 2000"

definition duration_rule_hit :: "string \<Rightarrow> int \<Rightarrow> exn + bool" where
  "duration_rule_hit rule_code duration =
     (if duration < 0 then Inl ValueError
      else if rule_code \<in> {''continuous_black'', ''continuous_white''} then Inr (duration > CONTINUOUS_LUMA_MIN_MS)
      else if rule_code = ''silence'' then Inr (duration > SILENCE_MIN_MS)
      else Inl ValueError)"

text \<open>The loop over the sorted frames: the run it is in, and the runs it has closed.\<close>

fun luma_runs :: "int \<Rightarrow> int \<Rightarrow> int list \<Rightarrow> (int \<times> int) list" where
  "luma_runs start previous [] = [(start, previous)]"
| "luma_runs start previous (frame # frames) =
     (if frame = previous + 1 then luma_runs start frame frames
      else (start, previous) # luma_runs frame frame frames)"

definition continuous_luma_intervals ::
  "(int \<times> json) list \<Rightarrow> string \<Rightarrow> string \<Rightarrow> int \<Rightarrow> int \<Rightarrow> exn + qc_interval list" where
  "continuous_luma_intervals frames single_reason continuous_reason num den =
     (case sort (map fst frames) of
        [] \<Rightarrow> Inr []
      | first # rest \<Rightarrow>
          let ordered = first # rest; runs = luma_runs first first rest;
              key = (if single_reason = ''black_frame'' then ''pblack'' else ''yavg'')
          in ebind (efold (\<lambda>frame intervals.
                 ebind (interval_of_frames num den frame (frame + 1) single_reason [(key, the (map_of frames frame))])
                   (\<lambda>i. Inr (intervals @ [i]))) ordered []) (\<lambda>intervals.
             efold (\<lambda>(start_frame, end_frame) intervals.
               ebind (frame_time_ms start_frame num den) (\<lambda>start_ms.
               ebind (frame_time_ms (end_frame + 1) num den) (\<lambda>end_ms.
               ebind (duration_rule_hit continuous_reason (end_ms - start_ms)) (\<lambda>hit.
                 if \<not> hit then Inr intervals
                 else
                   ebind (interval_of_frames num den start_frame (end_frame + 1) continuous_reason
                            [(''frame_count'', JInt (end_frame - start_frame + 1))])
                     (\<lambda>i. Inr (intervals @ [i])))))) runs intervals))"

section \<open>Merging\<close>

text \<open>\<open>dict.update\<close>.\<close>

fun dict_set :: "(string \<times> json) list \<Rightarrow> string \<times> json \<Rightarrow> (string \<times> json) list" where
  "dict_set [] kv = [kv]"
| "dict_set (x # xs) kv = (if fst x = fst kv then kv # xs else x # dict_set xs kv)"

definition dict_update :: "(string \<times> json) list \<Rightarrow> (string \<times> json) list \<Rightarrow> (string \<times> json) list" where
  "dict_update old new = foldl dict_set old new"

definition interval_key :: "qc_interval \<Rightarrow> int \<times> int \<times> int \<times> int \<times> string list" where
  "interval_key i = (qci_start_frame i, qci_start_ms i, qci_end_frame i, qci_end_ms i, qci_reason_codes i)"

definition overlaps :: "qc_interval \<Rightarrow> qc_interval \<Rightarrow> bool" where
  "overlaps previous i \<longleftrightarrow> qci_start_frame i \<le> qci_end_frame previous \<or> qci_start_ms i < qci_end_ms previous"

definition joined :: "qc_interval \<Rightarrow> qc_interval \<Rightarrow> qc_interval" where
  "joined previous i =
     \<lparr>qci_start_frame = min (qci_start_frame previous) (qci_start_frame i),
      qci_end_frame = max (qci_end_frame previous) (qci_end_frame i),
      qci_start_ms = min (qci_start_ms previous) (qci_start_ms i),
      qci_end_ms = max (qci_end_ms previous) (qci_end_ms i),
      qci_reason_codes = sort (remdups (qci_reason_codes previous @ qci_reason_codes i)),
      qci_values = dict_update (qci_values previous) (qci_values i)\<rparr>"

definition merge_interval :: "qc_interval \<Rightarrow> qc_interval list \<Rightarrow> exn + qc_interval list" where
  "merge_interval i merged =
     (if merged = [] then Inr [i]
      else if \<not> overlaps (last merged) i then Inr (merged @ [i])
      else ebind (QcInterval (joined (last merged) i)) (\<lambda>j. Inr (butlast merged @ [j])))"

definition merge_overlapping_intervals :: "qc_interval list \<Rightarrow> exn + qc_interval list" where
  "merge_overlapping_intervals intervals = efold merge_interval (order_by interval_key intervals) []"

section \<open>Short shots and runs, exactly\<close>

definition ms_at :: "int \<Rightarrow> int \<Rightarrow> int \<Rightarrow> int" where
  "ms_at num den frame = (frame * 1000 * den + num div 2) div num"

definition frames_interval :: "int \<Rightarrow> int \<Rightarrow> int \<Rightarrow> int \<Rightarrow> string \<Rightarrow> (string \<times> json) list \<Rightarrow> qc_interval" where
  "frames_interval num den a b reason values =
     \<lparr>qci_start_frame = a, qci_end_frame = b - 1, qci_start_ms = ms_at num den a, qci_end_ms = ms_at num den b,
      qci_reason_codes = [reason], qci_values = values\<rparr>"

lemma frame_time_ok: "0 \<le> f \<Longrightarrow> 0 < num \<Longrightarrow> 0 < den \<Longrightarrow> frame_time_ms f num den = Inr (ms_at num den f)"
  by (simp add: frame_time_ms_def ms_at_def)

lemma ms_at_mono: "a \<le> b \<Longrightarrow> 0 < num \<Longrightarrow> 0 < den \<Longrightarrow> ms_at num den a \<le> ms_at num den b"
  unfolding ms_at_def by (intro zdiv_mono1) (simp_all add: mult_right_mono)

lemma ms_at_nonneg: "0 \<le> a \<Longrightarrow> 0 < num \<Longrightarrow> 0 < den \<Longrightarrow> 0 \<le> ms_at num den a"
  unfolding ms_at_def by (simp add: pos_imp_zdiv_nonneg_iff)

lemma interval_of_frames_ok:
  assumes "0 \<le> a" "a < b" "0 < num" "0 < den"
  shows "interval_of_frames num den a b reason values = Inr (frames_interval num den a b reason values)"
  using assms ms_at_mono [of a b num den] ms_at_nonneg [of a num den]
  by (simp add: interval_of_frames_def frame_time_ok frames_interval_def QcInterval_def valid_interval_def)

lemma efold_appends:
  "(\<And>x acc. x \<in> set xs \<Longrightarrow> f x acc = Inr (acc @ h x)) \<Longrightarrow> efold f xs acc = Inr (acc @ concat (map h xs))"
  by (induction xs arbitrary: acc) auto

lemma in_concat_if: "x \<in> set (concat (map (\<lambda>p. if P p then [g p] else []) ps)) \<longleftrightarrow> (\<exists>p\<in>set ps. P p \<and> x = g p)"
  by (induction ps) auto

lemma sort_remdups_strict: "sorted_wrt (<) (sort (remdups xs))" for xs :: "'a::linorder list"
  by (simp add: strict_sorted_iff)

text \<open>The neighbours in a sorted list are the pairs of elements with no element between them.\<close>

lemma neighbours:
  fixes xs :: "int list"
  assumes "sorted_wrt (<) xs"
  shows "(a, b) \<in> set (zip xs (tl xs)) \<longleftrightarrow> a \<in> set xs \<and> b \<in> set xs \<and> a < b \<and> (\<forall>c\<in>set xs. \<not> (a < c \<and> c < b))"
  using assms
proof (induction xs)
  case (Cons x xs)
  show ?case
  proof (cases xs)
    case (Cons y ys)
    have s: "\<forall>z\<in>set xs. x < z" "\<forall>z\<in>set ys. y < z" using Cons.prems Cons by auto
    have "(a, b) \<in> set (zip (x # xs) (tl (x # xs))) \<longleftrightarrow> (a, b) = (x, y) \<or> (a, b) \<in> set (zip xs (tl xs))"
      using Cons by auto
    also have "\<dots> \<longleftrightarrow> (a, b) = (x, y) \<or> (a \<in> set xs \<and> b \<in> set xs \<and> a < b \<and> (\<forall>c\<in>set xs. \<not> (a < c \<and> c < b)))"
      using Cons.IH Cons.prems by auto
    also have "\<dots> \<longleftrightarrow> a \<in> set (x # xs) \<and> b \<in> set (x # xs) \<and> a < b \<and> (\<forall>c\<in>set (x # xs). \<not> (a < c \<and> c < b))"
      using s Cons by (auto; fastforce)
    finally show ?thesis .
  qed auto
qed simp

definition cut_points :: "int list \<Rightarrow> int \<Rightarrow> int set" where
  "cut_points cuts frames_total = {0, frames_total} \<union> {c \<in> set cuts. 0 \<le> c \<and> c \<le> frames_total}"

text \<open>
  The short shots reported are exactly those between two neighbouring cuts - the start and the end of
  the video counting as cuts - that are one, two or three frames long, each with its time span.
\<close>

theorem short_shots_exact:
  assumes "0 \<le> frames_total" and "0 < num" and "0 < den"
  shows "\<exists>is. short_shot_intervals cuts frames_total num den = Inr is
    \<and> (\<forall>i. i \<in> set is \<longleftrightarrow> (\<exists>a b. a \<in> cut_points cuts frames_total \<and> b \<in> cut_points cuts frames_total \<and> a < b \<and> b - a \<le> 3
         \<and> (\<forall>c\<in>cut_points cuts frames_total. \<not> (a < c \<and> c < b))
         \<and> i = frames_interval num den a b ''short_shot'' [(''frame_count'', JInt (b - a))]))"
proof -
  let ?b = "shot_boundaries cuts frames_total"
  let ?shot = "\<lambda>(a, b). frames_interval num den a b ''short_shot'' [(''frame_count'', JInt (b - a))]"
  let ?h = "\<lambda>p. if snd p - fst p \<in> SHORT_SHOT_FRAME_COUNTS then [?shot p] else []"
  have b: "sorted_wrt (<) ?b" "set ?b = cut_points cuts frames_total"
    unfolding shot_boundaries_def cut_points_def by (rule sort_remdups_strict, auto)
  have pos: "0 \<le> a" if "a \<in> cut_points cuts frames_total" for a using that assms(1) by (auto simp: cut_points_def)
  have "efold (\<lambda>(start_frame, exclusive_end_frame) intervals.
       let count = exclusive_end_frame - start_frame
       in if count \<notin> SHORT_SHOT_FRAME_COUNTS then Inr intervals
          else ebind (interval_of_frames num den start_frame exclusive_end_frame ''short_shot'' [(''frame_count'', JInt count)])
                 (\<lambda>i. Inr (intervals @ [i]))) (zip ?b (tl ?b)) [] = Inr ([] @ concat (map ?h (zip ?b (tl ?b))))"
  proof (rule efold_appends)
    fix p acc
    assume "p \<in> set (zip ?b (tl ?b))"
    then have "0 \<le> fst p" "fst p < snd p" using neighbours [OF b(1), of "fst p" "snd p"] pos b(2) by auto
    then show "(case p of (start_frame, exclusive_end_frame) \<Rightarrow> \<lambda>intervals.
       let count = exclusive_end_frame - start_frame
       in if count \<notin> SHORT_SHOT_FRAME_COUNTS then Inr intervals
          else ebind (interval_of_frames num den start_frame exclusive_end_frame ''short_shot'' [(''frame_count'', JInt count)])
                 (\<lambda>i. Inr (intervals @ [i]))) acc = Inr (acc @ ?h p)"
      using assms by (cases p) (simp add: Let_def interval_of_frames_ok)
  qed
  then have r: "short_shot_intervals cuts frames_total num den = Inr (concat (map ?h (zip ?b (tl ?b))))"
    using assms(1) by (simp add: short_shot_intervals_def Let_def)
  have member: "i \<in> set (concat (map ?h (zip ?b (tl ?b)))) \<longleftrightarrow>
      (\<exists>a b. ((a, b) \<in> set (zip ?b (tl ?b)) \<and> b - a \<in> SHORT_SHOT_FRAME_COUNTS) \<and> i = ?shot (a, b))" for i
    unfolding in_concat_if by (simp add: Bex_def)
  have pair: "(a, b) \<in> set (zip ?b (tl ?b)) \<and> b - a \<in> SHORT_SHOT_FRAME_COUNTS \<longleftrightarrow>
      a \<in> cut_points cuts frames_total \<and> b \<in> cut_points cuts frames_total \<and> a < b \<and> b - a \<le> 3
      \<and> (\<forall>c\<in>cut_points cuts frames_total. \<not> (a < c \<and> c < b))" for a b
    unfolding neighbours [OF b(1)] b(2) by (auto simp: SHORT_SHOT_FRAME_COUNTS_def)
  show ?thesis unfolding r
    by (intro exI [of _ "concat (map ?h (zip ?b (tl ?b)))"] conjI refl allI) (simp only: member pair prod.case conj_assoc)
qed

lemma exact_member: "\<exists>xs. R xs \<and> (\<forall>i. i \<in> set xs \<longleftrightarrow> Q i) \<Longrightarrow> Q x \<Longrightarrow> \<exists>xs. R xs \<and> x \<in> set xs"
  by blast

theorem short_shots_exact_witness:
  "\<exists>is. short_shot_intervals [48, 50, 90] 100 24 1 = Inr is
     \<and> frames_interval 24 1 48 50 ''short_shot'' [(''frame_count'', JInt 2)] \<in> set is"
  by (rule exact_member [OF short_shots_exact], simp_all)
    (rule exI [of _ 48], rule conjI, simp add: cut_points_def, rule exI [of _ 50], auto simp: cut_points_def)

text \<open>A maximal run of frames of a set.\<close>

definition maximal_run :: "int set \<Rightarrow> int \<Rightarrow> int \<Rightarrow> bool" where
  "maximal_run K a b \<longleftrightarrow> a \<le> b \<and> {a..b} \<subseteq> K \<and> a - 1 \<notin> K \<and> b + 1 \<notin> K"

lemma maximal_run_gap:
  assumes "\<forall>x\<in>A. x \<le> p" and "\<forall>x\<in>B. p + 1 < x"
  shows "maximal_run (A \<union> B) a b \<longleftrightarrow> maximal_run A a b \<or> maximal_run B a b"
proof
  assume m: "maximal_run (A \<union> B) a b"
  have gap: "p + 1 \<notin> A \<union> B" using assms by force
  show "maximal_run A a b \<or> maximal_run B a b"
  proof (cases "a \<le> p")
    case True
    have "\<not> p < b"
    proof
      assume "p < b"
      then have "p + 1 \<in> {a..b}" using True by simp
      then show False using m gap unfolding maximal_run_def by blast
    qed
    then have "{a..b} \<inter> B = {}" using assms(2) by force
    then show ?thesis using m unfolding maximal_run_def by blast
  next
    case False
    then have "{a..b} \<inter> A = {}" using assms(1) by force
    then show ?thesis using m unfolding maximal_run_def by blast
  qed
next
  assume "maximal_run A a b \<or> maximal_run B a b"
  then show "maximal_run (A \<union> B) a b"
  proof
    assume m: "maximal_run A a b"
    then have "a \<in> A" "b \<in> A" by (auto simp: maximal_run_def)
    then have "a - 1 \<notin> B" "b + 1 \<notin> B" using assms by force+
    then show ?thesis using m unfolding maximal_run_def by blast
  next
    assume m: "maximal_run B a b"
    then have "a \<in> B" "b \<in> B" by (auto simp: maximal_run_def)
    then have "a - 1 \<notin> A" "b + 1 \<notin> A" using assms by force+
    then show ?thesis using m unfolding maximal_run_def by blast
  qed
qed

lemma maximal_run_interval: "s \<le> p \<Longrightarrow> maximal_run {s..p} a b \<longleftrightarrow> a = s \<and> b = p"
  by (auto simp: maximal_run_def)

lemma luma_runs_maximal:
  assumes "s \<le> p" and "sorted_wrt (<) (p # frames)"
  shows "(a, b) \<in> set (luma_runs s p frames) \<longleftrightarrow> maximal_run ({s..p} \<union> set frames) a b"
  using assms
proof (induction frames arbitrary: s p)
  case Nil
  then show ?case by (auto simp: maximal_run_interval)
next
  case (Cons f frames)
  show ?case
  proof (cases "f = p + 1")
    case True
    then have "{s..p} \<union> set (f # frames) = {s..f} \<union> set frames" using Cons.prems(1) by auto
    then show ?thesis using Cons True by simp
  next
    case False
    then have f: "p + 1 < f" using Cons.prems(2) by auto
    then have "\<forall>x\<in>{f..f} \<union> set frames. p + 1 < x" using Cons.prems(2) by auto
    then have "maximal_run ({s..p} \<union> ({f..f} \<union> set frames)) a b \<longleftrightarrow> maximal_run {s..p} a b \<or> maximal_run ({f..f} \<union> set frames) a b"
      by (intro maximal_run_gap [of _ p]) auto
    moreover have "(a, b) \<in> set (luma_runs f f frames) \<longleftrightarrow> maximal_run ({f..f} \<union> set frames) a b"
      using Cons.prems(2) by (intro Cons.IH) auto
    ultimately show ?thesis using False Cons.prems(1) by (auto simp: maximal_run_interval)
  qed
qed

lemma no_empty_run [simp]: "\<not> maximal_run {} a b"
  by (simp add: maximal_run_def)

text \<open>
  For the frames found black (or white) the check reports each frame by itself and, besides, each
  maximal run of consecutive frames that lasts longer than a second - and nothing else.
\<close>

theorem luma_intervals_exact:
  assumes "distinct (map fst frames)" and "\<forall>f\<in>fst ` set frames. 0 \<le> f" and "0 < num" and "0 < den"
    and rule: "long \<in> {''continuous_black'', ''continuous_white''}"
  shows "\<exists>is. continuous_luma_intervals frames single long num den = Inr is
    \<and> (\<forall>i. i \<in> set is \<longleftrightarrow>
         (\<exists>f v. (f, v) \<in> set frames \<and> i = frames_interval num den f (f + 1) single
                   [(if single = ''black_frame'' then ''pblack'' else ''yavg'', v)])
         \<or> (\<exists>a b. maximal_run (fst ` set frames) a b \<and> ms_at num den (b + 1) - ms_at num den a > 1000
              \<and> i = frames_interval num den a (b + 1) long [(''frame_count'', JInt (b - a + 1))]))"
proof (cases "sort (map fst frames)")
  case Nil
  then have "frames = []" by (metis length_0_conv length_map length_sort)
  then show ?thesis by (auto simp: continuous_luma_intervals_def)
next
  case (Cons first rest)
  define key where "key = (if single = ''black_frame'' then ''pblack'' else ''yavg'')"
  define one where "one = (\<lambda>f. [frames_interval num den f (f + 1) single [(key, the (map_of frames f))]])"
  define long_run where "long_run = (\<lambda>p. if ms_at num den (snd p + 1) - ms_at num den (fst p) > 1000
    then [frames_interval num den (fst p) (snd p + 1) long [(''frame_count'', JInt (snd p - fst p + 1))]] else [])"
  let ?runs = "luma_runs first first rest"
  have K: "set (first # rest) = fst ` set frames" by (metis Cons set_sort set_map)
  have pos: "0 \<le> f" if "f \<in> set (first # rest)" for f using assms(2) K that by blast
  have "sorted_wrt (<) (first # rest)" unfolding Cons [symmetric] strict_sorted_iff using assms(1) by simp
  then have runs: "(a, b) \<in> set ?runs \<longleftrightarrow> maximal_run (fst ` set frames) a b" for a b
    using luma_runs_maximal [of first first rest a b] K by simp
  have e1: "efold (\<lambda>frame intervals. ebind (interval_of_frames num den frame (frame + 1) single [(key, the (map_of frames frame))])
      (\<lambda>i. Inr (intervals @ [i]))) (first # rest) [] = Inr ([] @ concat (map one (first # rest)))"
    by (rule efold_appends) (use assms(3,4) pos in \<open>simp add: one_def interval_of_frames_ok\<close>)
  have e2: "efold (\<lambda>(start_frame, end_frame) intervals.
       ebind (frame_time_ms start_frame num den) (\<lambda>start_ms.
       ebind (frame_time_ms (end_frame + 1) num den) (\<lambda>end_ms.
       ebind (duration_rule_hit long (end_ms - start_ms)) (\<lambda>hit.
         if \<not> hit then Inr intervals
         else ebind (interval_of_frames num den start_frame (end_frame + 1) long [(''frame_count'', JInt (end_frame - start_frame + 1))])
                (\<lambda>i. Inr (intervals @ [i])))))) ?runs acc = Inr (acc @ concat (map long_run ?runs))" for acc
  proof (rule efold_appends)
    fix p acc
    assume p: "p \<in> set ?runs"
    then have "maximal_run (fst ` set frames) (fst p) (snd p)" using runs [of "fst p" "snd p"] by simp
    then have ab: "fst p \<in> fst ` set frames" "fst p \<le> snd p" by (auto simp: maximal_run_def)
    then have ab: "0 \<le> fst p" "fst p \<le> snd p" using assms(2) by blast+
    then have "duration_rule_hit long (ms_at num den (snd p + 1) - ms_at num den (fst p))
        = Inr (ms_at num den (snd p + 1) - ms_at num den (fst p) > 1000)"
      using rule ms_at_mono [of "fst p" "snd p + 1" num den] assms(3,4) by (auto simp: duration_rule_hit_def CONTINUOUS_LUMA_MIN_MS_def)
    then show "(case p of (start_frame, end_frame) \<Rightarrow> \<lambda>intervals.
       ebind (frame_time_ms start_frame num den) (\<lambda>start_ms.
       ebind (frame_time_ms (end_frame + 1) num den) (\<lambda>end_ms.
       ebind (duration_rule_hit long (end_ms - start_ms)) (\<lambda>hit.
         if \<not> hit then Inr intervals
         else ebind (interval_of_frames num den start_frame (end_frame + 1) long [(''frame_count'', JInt (end_frame - start_frame + 1))])
                (\<lambda>i. Inr (intervals @ [i])))))) acc = Inr (acc @ long_run p)"
      using ab assms(3,4) by (cases p) (simp add: long_run_def frame_time_ok interval_of_frames_ok)
  qed
  have r: "continuous_luma_intervals frames single long num den = Inr (concat (map one (first # rest)) @ concat (map long_run ?runs))"
    unfolding continuous_luma_intervals_def Cons Let_def list.case key_def [symmetric] e1 ebind_simps e2 by simp
  have m1: "i \<in> set (concat (map one (first # rest))) \<longleftrightarrow> (\<exists>f v. (f, v) \<in> set frames \<and> i = frames_interval num den f (f + 1) single [(key, v)])" for i
    unfolding set_concat set_map K using assms(1) by (force simp: one_def)
  have m2: "i \<in> set (concat (map long_run ?runs)) \<longleftrightarrow>
      (\<exists>a b. maximal_run (fst ` set frames) a b \<and> ms_at num den (b + 1) - ms_at num den a > 1000
         \<and> i = frames_interval num den a (b + 1) long [(''frame_count'', JInt (b - a + 1))])" for i
    unfolding runs [symmetric] long_run_def in_concat_if by (simp add: Bex_def)
  show ?thesis unfolding r
    by (rule exI, rule conjI, rule refl, rule allI) (unfold set_append Un_iff m1 m2 key_def, rule refl)
qed

theorem luma_intervals_exact_witness:
  "\<exists>is. continuous_luma_intervals [(7, JStr ''99''), (8, JStr ''98'')] ''black_frame'' ''continuous_black'' 24 1 = Inr is
     \<and> frames_interval 24 1 7 8 ''black_frame'' [(''pblack'', JStr ''99'')] \<in> set is"
  by (rule exact_member [OF luma_intervals_exact], simp_all)
    (rule disjI1, rule exI [of _ 7], rule exI [of _ "JStr ''99''"], simp)

section \<open>Merged intervals\<close>

definition covers :: "qc_interval \<Rightarrow> qc_interval \<Rightarrow> bool" where
  "covers m i \<longleftrightarrow> qci_start_frame m \<le> qci_start_frame i \<and> qci_end_frame i \<le> qci_end_frame m
     \<and> qci_start_ms m \<le> qci_start_ms i \<and> qci_end_ms i \<le> qci_end_ms m \<and> set (qci_reason_codes i) \<subseteq> set (qci_reason_codes m)"

definition before :: "qc_interval \<Rightarrow> qc_interval \<Rightarrow> bool" where
  "before a b \<longleftrightarrow> qci_end_frame a < qci_start_frame b"

definition merge_into :: "qc_interval \<Rightarrow> qc_interval list \<Rightarrow> qc_interval list" where
  "merge_into i merged =
     (if merged = [] then [i] else if \<not> overlaps (last merged) i then merged @ [i]
      else butlast merged @ [joined (last merged) i])"

lemma merge_into_snoc: "merge_into i (ms @ [p]) = (if overlaps p i then ms @ [joined p i] else ms @ [p, i])"
  by (simp add: merge_into_def)

lemma covers_refl [simp]: "covers m m" by (simp add: covers_def)

lemma covers_trans: "covers a b \<Longrightarrow> covers b c \<Longrightarrow> covers a c" by (auto simp: covers_def)

lemma covers_joined [simp]: "covers (joined p i) p" "covers (joined p i) i" by (auto simp: covers_def joined_def)

lemma joined_valid: "valid_interval p \<Longrightarrow> valid_interval i \<Longrightarrow> valid_interval (joined p i)"
  by (auto simp: valid_interval_def joined_def simp flip: set_empty)

lemma merge_into_valid: "valid_interval i \<Longrightarrow> \<forall>m\<in>set ms. valid_interval m \<Longrightarrow> \<forall>m\<in>set (merge_into i ms). valid_interval m"
  by (auto simp: merge_into_def joined_valid dest: in_set_butlastD)

lemma efold_merge:
  "\<forall>i\<in>set is. valid_interval i \<Longrightarrow> \<forall>m\<in>set ms. valid_interval m \<Longrightarrow> efold merge_interval is ms = Inr (fold merge_into is ms)"
proof (induction "is" arbitrary: ms)
  case (Cons i "is")
  have "merge_interval i ms = Inr (merge_into i ms)"
    using Cons.prems by (simp add: merge_interval_def merge_into_def QcInterval_def joined_valid)
  then show ?case using Cons.IH [of "merge_into i ms"] Cons.prems merge_into_valid [of i ms] by simp
qed simp

text \<open>What the loop keeps after the intervals \<open>is\<close>.\<close>

definition merged_from :: "qc_interval list \<Rightarrow> qc_interval list \<Rightarrow> bool" where
  "merged_from is ms \<longleftrightarrow> (\<forall>m\<in>set ms. valid_interval m) \<and> sorted_wrt before ms
     \<and> (\<forall>i\<in>set is. \<exists>m\<in>set ms. covers m i)
     \<and> (\<forall>m\<in>set ms. \<forall>r\<in>set (qci_reason_codes m). \<exists>i\<in>set is. covers m i \<and> r \<in> set (qci_reason_codes i))
     \<and> (\<forall>m\<in>set ms. \<exists>i\<in>set is. covers m i \<and> qci_start_frame i = qci_start_frame m)
     \<and> (\<forall>m\<in>set ms. \<exists>i\<in>set is. covers m i \<and> qci_end_frame i = qci_end_frame m)"

lemma merged_from_step:
  assumes inv: "merged_from is ms" and i: "valid_interval i" and le: "\<forall>m\<in>set ms. qci_start_frame m \<le> qci_start_frame i"
  shows "merged_from (is @ [i]) (merge_into i ms) \<and> (\<forall>m\<in>set (merge_into i ms). qci_start_frame m \<le> qci_start_frame i)"
proof (cases ms rule: rev_cases)
  case Nil
  then show ?thesis using inv i by (auto simp: merged_from_def merge_into_def)
next
  case (snoc ms0 p)
  show ?thesis
  proof (cases "overlaps p i")
    case False
    have "before m i" if "m \<in> set ms" for m
    proof -
      have "qci_end_frame m \<le> qci_end_frame p"
        using inv that snoc unfolding merged_from_def by (force simp: sorted_wrt_append before_def valid_interval_def)
      then show ?thesis using False by (simp add: overlaps_def before_def)
    qed
    moreover have "merge_into i ms = ms @ [i]" using False snoc by (simp add: merge_into_def)
    ultimately show ?thesis using inv i le unfolding merged_from_def by (simp add: sorted_wrt_append; blast)
  next
    case True
    let ?j = "joined p i"
    have m: "merge_into i ms = ms0 @ [?j]" using True snoc by (simp add: merge_into_def)
    have p: "valid_interval p" "qci_start_frame p \<le> qci_start_frame i" using inv le snoc by (simp_all add: merged_from_def)
    then have start: "qci_start_frame ?j = qci_start_frame p" by (simp add: joined_def)
    have old: "\<exists>m\<in>set (ms0 @ [?j]). covers m k" if k: "k \<in> set is" for k
    proof -
      obtain m where "m \<in> set ms" "covers m k" using inv k unfolding merged_from_def by blast
      then show ?thesis using snoc covers_trans [OF covers_joined(1)] by auto
    qed
    have pj: "covers ?j k" if "covers p k" for k using that covers_trans [OF covers_joined(1)] by blast
    have reasons: "\<exists>k\<in>set (is @ [i]). covers ?j k \<and> r \<in> set (qci_reason_codes k)" if "r \<in> set (qci_reason_codes ?j)" for r
    proof (cases "r \<in> set (qci_reason_codes i)")
      case False
      then have "r \<in> set (qci_reason_codes p)" using that by (simp add: joined_def)
      then obtain k where "k \<in> set is" "covers p k" "r \<in> set (qci_reason_codes k)"
        using inv snoc unfolding merged_from_def by fastforce
      then show ?thesis using pj by auto
    qed auto
    obtain k where k: "k \<in> set is" "covers p k" "qci_start_frame k = qci_start_frame p"
      using inv snoc unfolding merged_from_def by fastforce
    obtain l where l: "l \<in> set is" "covers p l" "qci_end_frame l = qci_end_frame p"
      using inv snoc unfolding merged_from_def by fastforce
    have first: "\<exists>k\<in>set (is @ [i]). covers ?j k \<and> qci_start_frame k = qci_start_frame ?j" using k pj start by auto
    have final: "\<exists>k\<in>set (is @ [i]). covers ?j k \<and> qci_end_frame k = qci_end_frame ?j"
    proof (cases "qci_end_frame p \<le> qci_end_frame i")
      case True
      then have "qci_end_frame ?j = qci_end_frame i" by (simp add: joined_def)
      then show ?thesis using covers_joined(2) [of p i] by auto
    next
      case False
      then have "qci_end_frame ?j = qci_end_frame p" by (simp add: joined_def)
      then show ?thesis using l pj by auto
    qed
    have "sorted_wrt before (ms0 @ [?j])"
      using inv snoc start by (simp add: merged_from_def sorted_wrt_append before_def)
    moreover have "\<forall>m\<in>set (ms0 @ [?j]). valid_interval m" using inv snoc p(1) i by (auto simp: merged_from_def joined_valid)
    moreover have "\<forall>m\<in>set ms0. \<forall>r\<in>set (qci_reason_codes m). \<exists>k\<in>set (is @ [i]). covers m k \<and> r \<in> set (qci_reason_codes k)"
      "\<forall>m\<in>set ms0. \<exists>k\<in>set (is @ [i]). covers m k \<and> qci_start_frame k = qci_start_frame m"
      "\<forall>m\<in>set ms0. \<exists>k\<in>set (is @ [i]). covers m k \<and> qci_end_frame k = qci_end_frame m"
      using inv snoc unfolding merged_from_def by (fastforce)+
    ultimately have "merged_from (is @ [i]) (ms0 @ [?j])"
      unfolding merged_from_def using old reasons first final covers_joined(2) [of p i] by auto
    moreover have "\<forall>m\<in>set (ms0 @ [?j]). qci_start_frame m \<le> qci_start_frame i" using le snoc start p(2) by auto
    ultimately show ?thesis unfolding m by blast
  qed
qed

lemma merged_from_fold:
  assumes "\<forall>i\<in>set is. valid_interval i" and "sorted (map qci_start_frame is)"
  shows "merged_from is (fold merge_into is [])"
  using assms
proof (induction "is" rule: rev_induct)
  case Nil
  then show ?case by (simp add: merged_from_def)
next
  case (snoc i "is")
  let ?ms = "fold merge_into is []"
  have inv: "merged_from is ?ms" using snoc by (simp add: sorted_append)
  have "\<forall>m\<in>set ?ms. qci_start_frame m \<le> qci_start_frame i"
  proof
    fix m
    assume m: "m \<in> set ?ms"
    obtain k where k: "k \<in> set is" "qci_start_frame k = qci_start_frame m" using inv m unfolding merged_from_def by blast
    then show "qci_start_frame m \<le> qci_start_frame i" using snoc.prems(2) by (auto simp: sorted_append)
  qed
  then show ?case using merged_from_step [OF inv, of i] snoc.prems(1) by simp
qed

lemma order_by_interval_key:
  "set (order_by interval_key is) = set is" "sorted (map qci_start_frame (order_by interval_key is))"
  "sorted (map interval_key (order_by interval_key is))"
proof -
  show s: "sorted (map interval_key (order_by interval_key is))" by (simp add: order_by_def)
  show "set (order_by interval_key is) = set is" by (simp add: order_by_def)
  show "sorted (map qci_start_frame (order_by interval_key is))"
    using s unfolding sorted_wrt_map by (rule sorted_wrt_mono_rel [rotated]) (auto simp: interval_key_def less_eq_prod_def)
qed

lemma merge_result:
  assumes "\<forall>i\<in>set is. valid_interval i"
  shows "merge_overlapping_intervals is = Inr (fold merge_into (order_by interval_key is) [])"
  unfolding merge_overlapping_intervals_def by (rule efold_merge) (use assms in \<open>simp_all add: order_by_interval_key\<close>)

text \<open>
  C18. Merging never fails on intervals that were constructed, and gives intervals that do not share a
  frame and are in the order of their frames; every interval that was found lies within one of them,
  with all its reasons, every reason of a merged interval comes from an interval found inside it, and
  a merged interval begins and ends where an interval found inside it begins and ends.
\<close>

theorem merged_intervals_correct:
  assumes "\<forall>i\<in>set is. valid_interval i"
  shows "\<exists>ms. merge_overlapping_intervals is = Inr ms
    \<and> (\<forall>m\<in>set ms. valid_interval m) \<and> sorted_wrt (\<lambda>a b. qci_end_frame a < qci_start_frame b) ms
    \<and> (\<forall>i\<in>set is. \<exists>m\<in>set ms. covers m i)
    \<and> (\<forall>m\<in>set ms. \<forall>r\<in>set (qci_reason_codes m). \<exists>i\<in>set is. covers m i \<and> r \<in> set (qci_reason_codes i))
    \<and> (\<forall>m\<in>set ms. \<exists>i\<in>set is. covers m i \<and> qci_start_frame i = qci_start_frame m)
    \<and> (\<forall>m\<in>set ms. \<exists>i\<in>set is. covers m i \<and> qci_end_frame i = qci_end_frame m)"
proof -
  have m: "merged_from (order_by interval_key is) (fold merge_into (order_by interval_key is) [])"
    using merged_from_fold [of "order_by interval_key is"] assms by (simp add: order_by_interval_key)
  have "before = (\<lambda>a b. qci_end_frame a < qci_start_frame b)" by (simp add: before_def fun_eq_iff)
  then have b: "sorted_wrt (\<lambda>a b. qci_end_frame a < qci_start_frame b) ms \<longleftrightarrow> sorted_wrt before ms" for ms by simp
  show ?thesis
    by (rule exI, rule conjI, rule merge_result [OF assms])
      (use m in \<open>simp add: b merged_from_def order_by_interval_key(1)\<close>)
qed

definition ex_intervals :: "qc_interval list" where
  "ex_intervals = [frames_interval 25 1 40 70 ''continuous_black'' [], frames_interval 25 1 10 12 ''short_shot'' [],
     frames_interval 25 1 40 41 ''black_frame'' []]"

lemma ex_intervals_valid: "\<forall>i\<in>set ex_intervals. valid_interval i"
  by (simp add: ex_intervals_def frames_interval_def valid_interval_def ms_at_def)

lemma ex_intervals_merged:
  "merge_overlapping_intervals ex_intervals =
     Inr [frames_interval 25 1 10 12 ''short_shot'' [],
          (frames_interval 25 1 40 70 ''continuous_black'' [])\<lparr>qci_reason_codes := [''black_frame'', ''continuous_black'']\<rparr>]"
  by code_simp

theorem merged_intervals_correct_witness:
  "\<exists>m\<in>set (projr (merge_overlapping_intervals ex_intervals)). covers m (hd ex_intervals)"
proof -
  have "hd ex_intervals \<in> set ex_intervals" by (simp add: ex_intervals_def)
  then show ?thesis using merged_intervals_correct [OF ex_intervals_valid] by auto
qed

section \<open>Merging twice\<close>

lemma keep_apart: "sorted_wrt (\<lambda>a b. \<not> overlaps a b) ms \<Longrightarrow> fold merge_into ms [] = ms"
  by (induction ms rule: rev_induct) (auto simp: merge_into_def sorted_wrt_append)

lemma apart_fold:
  assumes "\<forall>i\<in>set is. valid_interval i" and "sorted (map qci_start_frame is)" and "sorted (map qci_start_ms is)"
  shows "sorted_wrt (\<lambda>a b. \<not> overlaps a b) (fold merge_into is [])
    \<and> (\<forall>m\<in>set (fold merge_into is []). \<exists>i\<in>set is. qci_start_ms m = qci_start_ms i)"
  using assms
proof (induction "is" rule: rev_induct)
  case (snoc i "is")
  let ?ms = "fold merge_into is []"
  have mf: "merged_from is ?ms" using merged_from_fold [of "is"] snoc.prems by (simp add: sorted_append)
  have IH: "sorted_wrt (\<lambda>a b. \<not> overlaps a b) ?ms" "\<forall>m\<in>set ?ms. \<exists>i\<in>set is. qci_start_ms m = qci_start_ms i"
    using snoc by (auto simp: sorted_append)
  have le: "qci_start_frame m \<le> qci_start_frame i \<and> qci_start_ms m \<le> qci_start_ms i" if m: "m \<in> set ?ms" for m
  proof -
    obtain k where k: "k \<in> set is" "qci_start_frame k = qci_start_frame m" using mf m unfolding merged_from_def by blast
    obtain l where l: "l \<in> set is" "qci_start_ms m = qci_start_ms l" using IH(2) m by blast
    show ?thesis using k l snoc.prems(2,3) by (auto simp: sorted_append)
  qed
  have step: "fold merge_into (is @ [i]) [] = merge_into i ?ms" by simp
  show ?case
  proof (cases ?ms rule: rev_cases)
    case Nil
    show ?thesis unfolding step Nil by (simp add: merge_into_def)
  next
    case (snoc ms0 p)
    show ?thesis
    proof (cases "overlaps p i")
      case True
      have j: "qci_start_frame (joined p i) = qci_start_frame p" "qci_start_ms (joined p i) = qci_start_ms p"
        using le [of p] snoc by (simp_all add: joined_def)
      then show ?thesis using True IH unfolding step snoc by (auto simp: merge_into_snoc sorted_wrt_append overlaps_def)
    next
      case False
      have "\<not> overlaps m i" if m: "m \<in> set ms0" for m
      proof -
        have "\<not> overlaps m p" "valid_interval p" using IH(1) mf m snoc by (auto simp: sorted_wrt_append merged_from_def)
        then show ?thesis using False by (auto simp: overlaps_def valid_interval_def)
      qed
      then show ?thesis using False IH unfolding step snoc by (auto simp: merge_into_snoc sorted_wrt_append)
    qed
  qed
qed simp

text \<open>
  When the intervals agree on what comes first - no interval starts in a later frame but at an
  earlier time - the merged intervals share neither a frame nor an instant, and merging them once more
  changes nothing: the scan and the step that records its findings may both merge.
\<close>

theorem merging_twice:
  assumes "\<forall>i\<in>set is. valid_interval i"
    and "\<forall>i\<in>set is. \<forall>j\<in>set is. qci_start_frame i < qci_start_frame j \<longrightarrow> qci_start_ms i \<le> qci_start_ms j"
    and "merge_overlapping_intervals is = Inr ms"
  shows "merge_overlapping_intervals ms = Inr ms \<and> sorted_wrt (\<lambda>a b. \<not> overlaps a b) ms"
proof -
  let ?o = "order_by interval_key is"
  have ms: "ms = fold merge_into ?o []" using assms(3) merge_result [OF assms(1)] by simp
  have s: "sorted (map qci_start_ms ?o)" unfolding sorted_wrt_map
  proof (rule sorted_wrt_mono_rel [OF _ order_by_interval_key(3) [unfolded sorted_wrt_map]])
    fix i j
    assume "i \<in> set ?o" "j \<in> set ?o" "interval_key i \<le> interval_key j"
    then show "qci_start_ms i \<le> qci_start_ms j"
      using assms(2) by (auto simp: order_by_interval_key interval_key_def less_eq_prod_def)
  qed
  then have apart: "sorted_wrt (\<lambda>a b. \<not> overlaps a b) ms"
    unfolding ms using apart_fold [OF _ order_by_interval_key(2) s] assms(1) by (simp add: order_by_interval_key(1))
  have valid: "\<forall>m\<in>set ms. valid_interval m"
    using merged_from_fold [of ?o] assms(1) unfolding ms by (simp add: order_by_interval_key merged_from_def)
  have "sorted (map interval_key ms)"
    unfolding sorted_wrt_map
    by (rule sorted_wrt_mono_rel [OF _ apart]) (use valid in \<open>force simp: overlaps_def interval_key_def less_eq_prod_def valid_interval_def\<close>)
  then have "order_by interval_key ms = ms" by (simp add: order_by_def sort_key_id_if_sorted)
  then show ?thesis using merge_result [OF valid] keep_apart [OF apart] apart by simp
qed

theorem merging_twice_witness:
  "\<exists>ms. merge_overlapping_intervals ex_intervals = Inr ms \<and> length ms = 2 \<and> merge_overlapping_intervals ms = Inr ms"
proof -
  have "\<forall>i\<in>set ex_intervals. \<forall>j\<in>set ex_intervals. qci_start_frame i < qci_start_frame j \<longrightarrow> qci_start_ms i \<le> qci_start_ms j"
    by (simp add: ex_intervals_def frames_interval_def ms_at_def)
  from merging_twice [OF ex_intervals_valid this ex_intervals_merged] show ?thesis unfolding ex_intervals_merged by simp
qed

end
