(* ===== verification/Qc_Tasks.thy ===== *)
theory Qc_Tasks
  imports Projects Samples
begin

text \<open>
  The tasks of the technical check in the database, \<open>src/backend/app/technical_qc.py\<close>:
  discovery of versions whose playback file is ready, the choice of the tasks to run - shared out
  between the projects, one task per video at a time -, the lease of a running task, its progress, its
  completion and its failure. A video's column \<open>current_version_is_current\<close> is true by a
  constraint of the table and is left out.
\<close>

section \<open>Discovery\<close>

definition active_project :: "db \<Rightarrow> string \<Rightarrow> bool" where
  "active_project db k =
     (case row_get prj_id k (db_projects db) of
        None \<Rightarrow> False
      | Some p \<Rightarrow> prj_deleted_at p = None \<and> prj_lifecycle_status p = lifecycle_active)"

definition undiscovered :: "db \<Rightarrow> review_version \<Rightarrow> derivative_task \<Rightarrow> bool" where
  "undiscovered db v m \<longleftrightarrow>
     mdt_version_id m = ver_id v \<and> mdt_project_ref_id m = ver_project_ref_id v \<and> mdt_review_item_id m = ver_review_item_id v
     \<and> active_project db (ver_project_ref_id v) \<and> mdt_kind m = playback_faststart \<and> mdt_status m = task_ready
     \<and> mdt_output_file_id m \<noteq> None \<and> ver_playback_asset_id v = mdt_output_file_id m
     \<and> \<not> list_ex (\<lambda>t. qct_version_id t = ver_id v) (db_qc_tasks db)"

definition ready_versions :: "db \<Rightarrow> (review_version \<times> string) list" where
  "ready_versions db =
     concat (map (\<lambda>v. map (\<lambda>m. (v, or_empty (mdt_output_file_id m))) (filter (undiscovered db v) (db_tasks db))) (db_versions db))"

text \<open>\<open>row_number()\<close> within the project.\<close>

definition project_rank :: "(review_version \<times> string) list \<Rightarrow> review_version \<Rightarrow> nat" where
  "project_rank rows v =
     length (filter (\<lambda>(w, _). ver_project_ref_id w = ver_project_ref_id v
        \<and> (ver_created_at w, ver_id w) < (ver_created_at v, ver_id v)) rows)"

definition RULE_VERSION :: string where
  "RULE_VERSION = ''technical-qc-v1''"

definition discovered_task :: "env \<Rightarrow> review_version \<Rightarrow> string \<Rightarrow> qc_task" where
  "discovered_task env v output_file_id =
     \<lparr>qct_id = technical_qc_task_id_for_version env (ver_id v), qct_project_ref_id = ver_project_ref_id v,
      qct_review_item_id = ver_review_item_id v, qct_version_id = ver_id v, qct_input_file_id = output_file_id,
      qct_status = qc_queued, qct_claim_id = None, qct_lease_expires_at = None, qct_processed_ms = 0,
      qct_total_ms = duration_ms (ver_media v), qct_video_frame_count = None, qct_video_duration_ms = None,
      qct_container_duration_ms = None, qct_error_code = None, qct_rule_version = RULE_VERSION, qct_attempts = 0,
      qct_next_attempt_at = None, qct_created_at = env_now env, qct_updated_at = env_now env, qct_started_at = None,
      qct_completed_at = None\<rparr>"

definition DISCOVERY_BATCH_SIZE :: nat where
  "DISCOVERY_BATCH_SIZE = 128"

definition discover_ready_technical_qc_tasks :: "env \<Rightarrow> nat \<Rightarrow> db \<Rightarrow> exn + int \<times> db" where
  "discover_ready_technical_qc_tasks env batch_size db =
     (if \<not> (1 \<le> batch_size \<and> batch_size \<le> DISCOVERY_BATCH_SIZE) then Inl ValueError
      else
        let ready = ready_versions db;
            rows = take batch_size (order_by (\<lambda>(v, _). (project_rank ready v, ver_created_at v, ver_id v)) ready)
        in Inr (foldl (\<lambda>(created, db) (v, output_file_id).
                  case insert_qc_task (discovered_task env v output_file_id) db of
                    Inl _ \<Rightarrow> (created, db)
                  | Inr db' \<Rightarrow> (created + 1, db')) (0, db) rows))"

section \<open>Candidates\<close>

type_synonym qc_row = "qc_task \<times> review_item \<times> file_object"

definition ready_playback :: "db \<Rightarrow> qc_task \<Rightarrow> bool" where
  "ready_playback db t =
     list_ex (\<lambda>m. mdt_version_id m = qct_version_id t \<and> mdt_project_ref_id m = qct_project_ref_id t
        \<and> mdt_review_item_id m = qct_review_item_id t \<and> mdt_kind m = playback_faststart \<and> mdt_status m = task_ready
        \<and> mdt_output_file_id m = Some (qct_input_file_id t)) (db_tasks db)"

definition eligible :: "int \<Rightarrow> qc_task \<Rightarrow> bool" where
  "eligible now t \<longleftrightarrow> qct_status t = qc_queued
     \<or> (qct_status t = qc_failed \<and> (case qct_next_attempt_at t of None \<Rightarrow> False | Some at \<Rightarrow> at \<le> now))"

definition candidate :: "db \<Rightarrow> int \<Rightarrow> int \<Rightarrow> qc_task \<Rightarrow> bool" where
  "candidate db now max_attempts t \<longleftrightarrow> active_project db (qct_project_ref_id t) \<and> ready_playback db t
     \<and> qct_attempts t < max_attempts \<and> eligible now t"

text \<open>The projects with candidates, the one that waits longest first.\<close>

definition candidate_projects :: "db \<Rightarrow> int \<Rightarrow> int \<Rightarrow> nat \<Rightarrow> string list" where
  "candidate_projects db now max_attempts limit =
     (let tasks = filter (candidate db now max_attempts) (db_qc_tasks db)
      in take limit (order_by (\<lambda>k. (min_list (map qct_created_at (filter (\<lambda>t. qct_project_ref_id t = k) tasks)), k))
           (remdups (map qct_project_ref_id tasks))))"

text \<open>The oldest candidate of each video of a project, by episode.\<close>

definition row_key :: "qc_row \<Rightarrow> bool \<times> int \<times> int \<times> string" where
  "row_key = (\<lambda>(t, i, _). (itm_episode_no i = None, (case itm_episode_no i of None \<Rightarrow> 0 | Some n \<Rightarrow> n), qct_created_at t, qct_id t))"

definition candidate_rows :: "db \<Rightarrow> qc_task \<Rightarrow> qc_row list" where
  "candidate_rows db t =
     (case (List.find (\<lambda>i. itm_id i = qct_review_item_id t \<and> itm_project_ref_id i = qct_project_ref_id t) (db_items db),
            get_file db (qct_input_file_id t)) of
        (Some i, Some f) \<Rightarrow> [(t, i, f)]
      | _ \<Rightarrow> [])"

definition project_candidates :: "db \<Rightarrow> int \<Rightarrow> int \<Rightarrow> string \<Rightarrow> nat \<Rightarrow> qc_row list" where
  "project_candidates db now max_attempts k limit =
     (let tasks = filter (\<lambda>t. candidate db now max_attempts t \<and> qct_project_ref_id t = k) (db_qc_tasks db);
          oldest = (\<lambda>t. list_all (\<lambda>u. qct_review_item_id u = qct_review_item_id t
             \<longrightarrow> (qct_created_at t, qct_id t) \<le> (qct_created_at u, qct_id u)) tasks)
      in take limit (order_by row_key (concat (map (candidate_rows db) (filter oldest tasks)))))"

definition claim_candidates :: "db \<Rightarrow> int \<Rightarrow> int \<Rightarrow> nat \<Rightarrow> nat \<Rightarrow> qc_row list" where
  "claim_candidates db now max_attempts candidate_limit per_project_candidate_limit =
     foldl (\<lambda>rows k. rows @ project_candidates db now max_attempts k (min (candidate_limit - length rows) per_project_candidate_limit))
       [] (candidate_projects db now max_attempts candidate_limit)"

section \<open>Expired leases\<close>

definition lease_expired :: "int \<Rightarrow> qc_task \<Rightarrow> bool" where
  "lease_expired now t \<longleftrightarrow> qct_status t = qc_running
     \<and> (case qct_lease_expires_at t of None \<Rightarrow> False | Some at \<Rightarrow> at \<le> now)"

definition interrupted_task :: "int \<Rightarrow> int \<Rightarrow> qc_task \<Rightarrow> qc_task" where
  "interrupted_task now max_attempts t =
     (let t = t\<lparr>qct_claim_id := None, qct_lease_expires_at := None, qct_updated_at := now\<rparr>
      in if qct_attempts t \<ge> max_attempts
         then t\<lparr>qct_status := qc_failed, qct_error_code := Some ''TECHNICAL_QC_ATTEMPTS_EXHAUSTED'', qct_next_attempt_at := None\<rparr>
         else t\<lparr>qct_status := qc_queued, qct_error_code := Some ''TECHNICAL_QC_WORKER_INTERRUPTED'', qct_next_attempt_at := None\<rparr>)"

definition reconcile_expired_technical_qc_tasks :: "int \<Rightarrow> int \<Rightarrow> nat \<Rightarrow> db \<Rightarrow> exn + nat \<times> db" where
  "reconcile_expired_technical_qc_tasks now max_attempts batch_size db =
     (if max_attempts < 1 \<or> batch_size < 1 then Inl ValueError
      else
        let tasks = take batch_size (order_by (\<lambda>t. ((case qct_lease_expires_at t of None \<Rightarrow> 0 | Some at \<Rightarrow> at), qct_id t))
                      (filter (lease_expired now) (db_qc_tasks db)))
        in Inr (length tasks, fold (\<lambda>t. put_qc_task (interrupted_task now max_attempts t)) tasks db))"

section \<open>Sharing out the slots\<close>

text \<open>
  The rows waiting per project, the running tasks counted per project, the videos with a running
  task, and the rows chosen so far.
\<close>

record selection =
  sel_queues :: "string \<Rightarrow> qc_row list"
  sel_counts :: "string \<Rightarrow> int"
  sel_items :: "string list"
  sel_rows :: "qc_row list"

abbreviation row_item :: "qc_row \<Rightarrow> string" where
  "row_item r \<equiv> qct_review_item_id (fst r)"

abbreviation row_project :: "qc_row \<Rightarrow> string" where
  "row_project r \<equiv> qct_project_ref_id (fst r)"

definition select_from :: "string \<Rightarrow> selection \<Rightarrow> bool \<times> selection" where
  "select_from k s =
     (case dropWhile (\<lambda>r. row_item r \<in> set (sel_items s)) (sel_queues s k) of
        [] \<Rightarrow> (False, s\<lparr>sel_queues := (sel_queues s)(k := [])\<rparr>)
      | r # rest \<Rightarrow>
          (True, s\<lparr>sel_queues := (sel_queues s)(k := rest), sel_rows := sel_rows s @ [r],
                   sel_items := row_item r # sel_items s, sel_counts := (sel_counts s)(k := sel_counts s k + 1)\<rparr>))"

text \<open>The \<open>for\<close> loop over the projects; the first result is \<open>advanced\<close>.\<close>

fun select_pass :: "nat \<Rightarrow> int \<Rightarrow> string list \<Rightarrow> selection \<Rightarrow> bool \<times> selection" where
  "select_pass slots per_project_limit [] s = (False, s)"
| "select_pass slots per_project_limit (k # ks) s =
     (if length (sel_rows s) \<ge> slots then (False, s)
      else if sel_counts s k \<ge> per_project_limit then select_pass slots per_project_limit ks s
      else
        let (chosen, s) = select_from k s; (advanced, s) = select_pass slots per_project_limit ks s
        in (chosen \<or> advanced, s))"

lemma select_from_grows:
  "length (sel_rows (snd (select_from k s))) = length (sel_rows s) + (if fst (select_from k s) then 1 else 0)"
  by (simp add: select_from_def split: list.splits)

lemma select_pass_grows:
  "length (sel_rows s) + (if fst (select_pass slots lim ks s) then 1 else 0) \<le> length (sel_rows (snd (select_pass slots lim ks s)))"
proof (induction ks arbitrary: s)
  case (Cons k ks)
  have "length (sel_rows (snd (select_from k s))) \<ge> length (sel_rows s) + (if fst (select_from k s) then 1 else 0)"
    by (simp add: select_from_grows)
  then show ?case using Cons.IH [of s] Cons.IH [of "snd (select_from k s)"]
    by (auto simp: Let_def split: prod.splits if_splits)
qed simp

text \<open>The \<open>while\<close> loop around it.\<close>

function select_all :: "nat \<Rightarrow> int \<Rightarrow> string list \<Rightarrow> selection \<Rightarrow> selection" where
  "select_all slots per_project_limit ks s =
     (if length (sel_rows s) < slots \<and> fst (select_pass slots per_project_limit ks s)
      then select_all slots per_project_limit ks (snd (select_pass slots per_project_limit ks s))
      else if length (sel_rows s) < slots then snd (select_pass slots per_project_limit ks s)
      else s)"
  by pat_completeness auto

termination select_all
proof (relation "measure (\<lambda>(slots, _, _, s). slots - length (sel_rows s))")
  fix slots lim ks and s :: selection
  assume "length (sel_rows s) < slots \<and> fst (select_pass slots lim ks s)"
  then show "((slots, lim, ks, snd (select_pass slots lim ks s)), slots, lim, ks, s) \<in> measure (\<lambda>(slots, _, _, s). slots - length (sel_rows s))"
    using select_pass_grows [of s slots lim ks] by auto
qed simp

declare select_all.simps [simp del]

definition initial_selection :: "db \<Rightarrow> string list \<Rightarrow> qc_row list \<Rightarrow> selection" where
  "initial_selection db conflicted_item_ids candidates =
     (let running = filter (\<lambda>t. qct_status t = qc_running) (db_qc_tasks db);
          items = map qct_review_item_id running @ conflicted_item_ids;
          rows = filter (\<lambda>r. row_item r \<notin> set items) candidates
      in \<lparr>sel_queues = (\<lambda>k. order_by row_key (filter (\<lambda>r. row_project r = k) rows)),
          sel_counts = (\<lambda>k. count_rows (\<lambda>t. qct_project_ref_id t = k) running),
          sel_items = items, sel_rows = []\<rparr>)"

definition project_order :: "selection \<Rightarrow> qc_row list \<Rightarrow> string list" where
  "project_order s candidates =
     order_by (\<lambda>k. (sel_counts s k, qct_created_at (fst (hd (sel_queues s k))), k))
       (remdups (map row_project (filter (\<lambda>r. row_item r \<notin> set (sel_items s)) candidates)))"

definition select_rows :: "db \<Rightarrow> string list \<Rightarrow> qc_row list \<Rightarrow> nat \<Rightarrow> int \<Rightarrow> qc_row list" where
  "select_rows db conflicted_item_ids candidates slots per_project_limit =
     (let s = initial_selection db conflicted_item_ids candidates
      in sel_rows (select_all slots per_project_limit (project_order s candidates) s))"

section \<open>Claims\<close>

record qc_claim =
  qcc_task_id :: string
  qcc_claim_id :: string
  qcc_project_ref_id :: string
  qcc_review_item_id :: string
  qcc_version_id :: string
  qcc_episode_no :: "int option"
  qcc_input_file_id :: string
  qcc_input_storage_path :: string
  qcc_input :: media
  qcc_total_ms :: int
  qcc_rule_version :: string
  qcc_video_frame_count :: "int option"
  qcc_video_duration_ms :: "int option"
  qcc_container_duration_ms :: "int option"

text \<open>\<open>qcc_input\<close> holds digest, size, frame size and frame rate of the input file.\<close>

definition claim_payload :: "qc_task \<Rightarrow> review_item \<Rightarrow> file_object \<Rightarrow> string \<Rightarrow> qc_claim" where
  "claim_payload t i f claim_id =
     \<lparr>qcc_task_id = qct_id t, qcc_claim_id = claim_id, qcc_project_ref_id = qct_project_ref_id t,
      qcc_review_item_id = qct_review_item_id t, qcc_version_id = qct_version_id t, qcc_episode_no = itm_episode_no i,
      qcc_input_file_id = fil_id f, qcc_input_storage_path = fil_storage_path f, qcc_input = fil_media f,
      qcc_total_ms = qct_total_ms t, qcc_rule_version = qct_rule_version t,
      qcc_video_frame_count = qct_video_frame_count t, qcc_video_duration_ms = qct_video_duration_ms t,
      qcc_container_duration_ms = qct_container_duration_ms t\<rparr>"

definition claimed_task :: "int \<Rightarrow> int \<Rightarrow> string \<Rightarrow> qc_task \<Rightarrow> qc_task" where
  "claimed_task now lease_seconds claim_id t =
     t\<lparr>qct_status := qc_running, qct_claim_id := Some claim_id, qct_lease_expires_at := Some (now + seconds lease_seconds),
       qct_attempts := qct_attempts t + 1, qct_error_code := None, qct_next_attempt_at := None,
       qct_started_at := (case qct_started_at t of None \<Rightarrow> Some now | Some at \<Rightarrow> Some at), qct_updated_at := now\<rparr>"

text \<open>The partial unique index on the video of a running task.\<close>

definition running_item_conflict :: "db \<Rightarrow> qc_task \<Rightarrow> bool" where
  "running_item_conflict db t =
     list_ex (\<lambda>u. qct_status u = qc_running \<and> qct_review_item_id u = qct_review_item_id t \<and> qct_id u \<noteq> qct_id t) (db_qc_tasks db)"

record claiming =
  clm_claims :: "qc_claim list"
  clm_conflicts :: "string list"
  clm_attempts :: nat
  clm_db :: db

definition try_claim :: "env \<Rightarrow> nat \<Rightarrow> int \<Rightarrow> nat \<Rightarrow> qc_row \<Rightarrow> claiming \<Rightarrow> claiming" where
  "try_claim env limit lease_seconds candidate_scan_limit row st =
     (if length (clm_claims st) \<ge> limit \<or> clm_attempts st \<ge> candidate_scan_limit then st
      else
        let (t, i, f) = row; db = clm_db st; claim_id = env_uuid_hex env (db_drawn db);
            db = db\<lparr>db_drawn := Suc (db_drawn db)\<rparr>; st = st\<lparr>clm_attempts := clm_attempts st + 1, clm_db := db\<rparr>
        in if running_item_conflict db t then st\<lparr>clm_conflicts := qct_review_item_id t # clm_conflicts st\<rparr>
           else
             let t = claimed_task (env_now env) lease_seconds claim_id t
             in st\<lparr>clm_claims := clm_claims st @ [claim_payload t i f claim_id], clm_db := put_qc_task t db\<rparr>)"

lemma try_claim_attempts: "clm_attempts st \<le> clm_attempts (try_claim env limit lease scan row st)"
  by (simp add: try_claim_def Let_def split: prod.splits)

lemma fold_try_claim_attempts: "clm_attempts st \<le> clm_attempts (fold (try_claim env limit lease scan) rows st)"
  by (induction rows arbitrary: st) (simp, metis fold_simps(2) le_trans try_claim_attempts)

lemma fold_try_claim_progress:
  assumes "rows \<noteq> []" and "length (clm_claims st) < limit" and "clm_attempts st < scan"
  shows "clm_attempts st < clm_attempts (fold (try_claim env limit lease scan) rows st)"
proof -
  obtain r rs where rows: "rows = r # rs" using assms(1) by (cases rows) auto
  have "clm_attempts st < clm_attempts (try_claim env limit lease scan r st)"
    using assms(2,3) by (simp add: try_claim_def Let_def split: prod.splits)
  then show ?thesis using fold_try_claim_attempts [of "try_claim env limit lease scan r st" env limit lease scan rs] by (simp add: rows)
qed

text \<open>What the outer loop chooses in one round.\<close>

definition round_rows :: "env \<Rightarrow> nat \<Rightarrow> int \<Rightarrow> int \<Rightarrow> nat \<Rightarrow> claiming \<Rightarrow> qc_row list" where
  "round_rows env limit per_project_limit max_attempts candidate_scan_limit st =
     (let db = clm_db st;
          candidates = claim_candidates db (env_now env) max_attempts candidate_scan_limit (max 8 (nat (per_project_limit * 2)))
      in select_rows db (clm_conflicts st) candidates (limit - length (clm_claims st)) per_project_limit)"

function claim_rounds :: "env \<Rightarrow> nat \<Rightarrow> int \<Rightarrow> int \<Rightarrow> int \<Rightarrow> nat \<Rightarrow> claiming \<Rightarrow> claiming" where
  "claim_rounds env limit per_project_limit lease_seconds max_attempts candidate_scan_limit st =
     (if length (clm_claims st) < limit \<and> clm_attempts st < candidate_scan_limit
         \<and> round_rows env limit per_project_limit max_attempts candidate_scan_limit st \<noteq> []
      then claim_rounds env limit per_project_limit lease_seconds max_attempts candidate_scan_limit
             (fold (try_claim env limit lease_seconds candidate_scan_limit)
               (round_rows env limit per_project_limit max_attempts candidate_scan_limit st) st)
      else st)"
  by pat_completeness auto

termination claim_rounds
proof (relation "measure (\<lambda>(_, _, _, _, _, scan, st). scan - clm_attempts st)")
  fix env limit per lease maxa scan and st :: claiming
  assume "length (clm_claims st) < limit \<and> clm_attempts st < scan \<and> round_rows env limit per maxa scan st \<noteq> []"
  then show "((env, limit, per, lease, maxa, scan, fold (try_claim env limit lease scan) (round_rows env limit per maxa scan st) st),
      env, limit, per, lease, maxa, scan, st) \<in> measure (\<lambda>(_, _, _, _, _, scan, st). scan - clm_attempts st)"
    using fold_try_claim_progress [of "round_rows env limit per maxa scan st" st limit scan env lease] by auto
qed simp

declare claim_rounds.simps [simp del]

definition claim_technical_qc_tasks ::
  "env \<Rightarrow> nat \<Rightarrow> int \<Rightarrow> int \<Rightarrow> int \<Rightarrow> nat \<Rightarrow> db \<Rightarrow> exn + qc_claim list \<times> db" where
  "claim_technical_qc_tasks env limit per_project_limit lease_seconds max_attempts candidate_scan_limit db =
     (if limit < 1 \<or> per_project_limit < 1 \<or> lease_seconds < 1 \<or> max_attempts < 1 then Inl ValueError
      else
        ebind (reconcile_expired_technical_qc_tasks (env_now env) max_attempts candidate_scan_limit db) (\<lambda>(_, db).
          let st = claim_rounds env limit per_project_limit lease_seconds max_attempts candidate_scan_limit
                     \<lparr>clm_claims = [], clm_conflicts = [], clm_attempts = 0, clm_db = db\<rparr>
          in Inr (clm_claims st, clm_db st)))"

section \<open>The lease of a task\<close>

text \<open>
  The join of \<open>_lock_active_technical_qc_claim\<close>: a live lease, and a video whose current version is
  still the one with this playback file.
\<close>

definition current_input :: "db \<Rightarrow> qc_task \<Rightarrow> bool" where
  "current_input db t \<longleftrightarrow> active_project db (qct_project_ref_id t)
     \<and> list_ex (\<lambda>i. itm_id i = qct_review_item_id t \<and> itm_project_ref_id i = qct_project_ref_id t
          \<and> itm_current_version_id i = Some (qct_version_id t)) (db_items db)
     \<and> list_ex (\<lambda>v. ver_id v = qct_version_id t \<and> ver_project_ref_id v = qct_project_ref_id t
          \<and> ver_review_item_id v = qct_review_item_id t \<and> ver_is_current v
          \<and> ver_playback_asset_id v = Some (qct_input_file_id t)) (db_versions db)
     \<and> ready_playback db t"

definition qc_lease_held :: "int \<Rightarrow> string \<Rightarrow> qc_task \<Rightarrow> bool" where
  "qc_lease_held now claim_id t \<longleftrightarrow> qct_status t = qc_running \<and> qct_claim_id t = Some claim_id
     \<and> (case qct_lease_expires_at t of None \<Rightarrow> False | Some at \<Rightarrow> now < at)"

definition lock_active_technical_qc_claim :: "db \<Rightarrow> string \<Rightarrow> string \<Rightarrow> int \<Rightarrow> qc_task option" where
  "lock_active_technical_qc_claim db task_id claim_id now =
     List.find (\<lambda>t. qct_id t = task_id \<and> qc_lease_held now claim_id t \<and> current_input db t) (db_qc_tasks db)"

definition with_active_claim ::
  "env \<Rightarrow> string \<Rightarrow> string \<Rightarrow> (qc_task \<Rightarrow> qc_task) \<Rightarrow> db \<Rightarrow> bool \<times> db" where
  "with_active_claim env task_id claim_id f db =
     (case lock_active_technical_qc_claim db task_id claim_id (env_now env) of
        None \<Rightarrow> (False, db)
      | Some t \<Rightarrow> (True, put_qc_task (f t) db))"

definition update_technical_qc_progress :: "env \<Rightarrow> string \<Rightarrow> string \<Rightarrow> int \<Rightarrow> db \<Rightarrow> exn + bool \<times> db" where
  "update_technical_qc_progress env task_id claim_id processed_ms db =
     (if processed_ms < 0 then Inl ValueError
      else Inr (with_active_claim env task_id claim_id (\<lambda>t.
        t\<lparr>qct_processed_ms := min (qct_total_ms t) (max (qct_processed_ms t) processed_ms), qct_updated_at := env_now env\<rparr>) db))"

definition renew_technical_qc_lease :: "env \<Rightarrow> string \<Rightarrow> string \<Rightarrow> int \<Rightarrow> db \<Rightarrow> exn + bool \<times> db" where
  "renew_technical_qc_lease env task_id claim_id lease_seconds db =
     (if lease_seconds < 1 then Inl ValueError
      else Inr (with_active_claim env task_id claim_id (\<lambda>t.
        t\<lparr>qct_lease_expires_at := Some (env_now env + seconds lease_seconds), qct_updated_at := env_now env\<rparr>) db))"

record qc_media_probe =
  qmp_video_frame_count :: int
  qmp_video_duration_ms :: int
  qmp_total_ms :: int

definition persist_technical_qc_probe :: "env \<Rightarrow> string \<Rightarrow> string \<Rightarrow> qc_media_probe \<Rightarrow> db \<Rightarrow> bool \<times> db" where
  "persist_technical_qc_probe env task_id claim_id probe db =
     with_active_claim env task_id claim_id (\<lambda>t.
       t\<lparr>qct_video_frame_count := Some (qmp_video_frame_count probe), qct_video_duration_ms := Some (qmp_video_duration_ms probe),
         qct_container_duration_ms := Some (qmp_total_ms probe), qct_total_ms := qmp_total_ms probe,
         qct_processed_ms := min (qct_processed_ms t) (qmp_total_ms probe), qct_updated_at := env_now env\<rparr>) db"

definition same_claim :: "qc_task \<Rightarrow> qc_claim \<Rightarrow> bool" where
  "same_claim t claim \<longleftrightarrow> qct_project_ref_id t = qcc_project_ref_id claim \<and> qct_review_item_id t = qcc_review_item_id claim
     \<and> qct_version_id t = qcc_version_id claim \<and> qct_input_file_id t = qcc_input_file_id claim
     \<and> qct_rule_version t = qcc_rule_version claim"

definition completed_qc_task :: "int \<Rightarrow> qc_task \<Rightarrow> qc_task" where
  "completed_qc_task now t =
     t\<lparr>qct_status := qc_complete, qct_processed_ms := qct_total_ms t, qct_claim_id := None, qct_lease_expires_at := None,
       qct_completed_at := Some now, qct_updated_at := now\<rparr>"

definition complete_technical_qc_task :: "env \<Rightarrow> qc_claim \<Rightarrow> db \<Rightarrow> bool \<times> db" where
  "complete_technical_qc_task env claim db =
     (case lock_active_technical_qc_claim db (qcc_task_id claim) (qcc_claim_id claim) (env_now env) of
        None \<Rightarrow> (False, db)
      | Some t \<Rightarrow> if \<not> same_claim t claim then (False, db) else (True, put_qc_task (completed_qc_task (env_now env) t) db))"

text \<open>\<open>s[:n]\<close>, on the code points of a string.\<close>

fun code_prefix :: "int \<Rightarrow> string list \<Rightarrow> string" where
  "code_prefix n [] = []"
| "code_prefix n (c # cs) = (if n \<le> 0 then [] else c @ code_prefix (n - 1) cs)"

definition failed_qc_task :: "int \<Rightarrow> string \<Rightarrow> bool \<Rightarrow> int \<Rightarrow> int \<Rightarrow> qc_task \<Rightarrow> qc_task" where
  "failed_qc_task now error_code retryable max_attempts retry_delay_seconds t =
     t\<lparr>qct_status := qc_failed, qct_claim_id := None, qct_lease_expires_at := None,
       qct_error_code := Some (code_prefix 64 (code_points error_code)),
       qct_next_attempt_at := (if retryable \<and> qct_attempts t < max_attempts then Some (now + seconds retry_delay_seconds) else None),
       qct_updated_at := now\<rparr>"

definition fail_technical_qc_task ::
  "env \<Rightarrow> string \<Rightarrow> string \<Rightarrow> string \<Rightarrow> bool \<Rightarrow> int \<Rightarrow> int \<Rightarrow> db \<Rightarrow> exn + bool \<times> db" where
  "fail_technical_qc_task env task_id claim_id error_code retryable max_attempts retry_delay_seconds db =
     (if max_attempts < 1 \<or> retry_delay_seconds < 1 then Inl ValueError
      else Inr (with_active_claim env task_id claim_id
                  (failed_qc_task (env_now env) error_code retryable max_attempts retry_delay_seconds) db))"

section \<open>The choice of the tasks\<close>

abbreviation qc_running_task :: "qc_task \<Rightarrow> bool" where
  "qc_running_task t \<equiv> qct_status t = qc_running"

text \<open>What holds of the rows chosen so far, among the candidate \<open>rows\<close>.\<close>

definition fair_selection :: "selection \<Rightarrow> qc_row list \<Rightarrow> int \<Rightarrow> selection \<Rightarrow> bool" where
  "fair_selection s0 rows per s \<longleftrightarrow> set (sel_rows s) \<subseteq> set rows \<and> (\<forall>k. set (sel_queues s k) \<subseteq> {r \<in> set rows. row_project r = k})
     \<and> distinct (map row_item (sel_rows s)) \<and> set (sel_items s) = set (sel_items s0) \<union> row_item ` set (sel_rows s)
     \<and> row_item ` set (sel_rows s) \<inter> set (sel_items s0) = {}
     \<and> (\<forall>k. sel_counts s k = sel_counts s0 k + count_rows (\<lambda>r. row_project r = k) (sel_rows s))
     \<and> (\<forall>k. sel_counts s0 k + count_rows (\<lambda>r. row_project r = k) (sel_rows s) \<le> max (sel_counts s0 k) per)"

lemma select_from_fair:
  assumes "fair_selection s0 rows per s" and "sel_counts s k < per"
  shows "fair_selection s0 rows per (snd (select_from k s))"
proof (cases "dropWhile (\<lambda>r. row_item r \<in> set (sel_items s)) (sel_queues s k)")
  case Nil
  have "snd (select_from k s) = s\<lparr>sel_queues := (sel_queues s)(k := [])\<rparr>" unfolding select_from_def Nil by simp
  then show ?thesis using assms(1) by (simp add: fair_selection_def)
next
  case (Cons r rest)
  have step: "snd (select_from k s) = s\<lparr>sel_queues := (sel_queues s)(k := rest), sel_rows := sel_rows s @ [r],
      sel_items := row_item r # sel_items s, sel_counts := (sel_counts s)(k := sel_counts s k + 1)\<rparr>"
    unfolding select_from_def Cons by simp
  have r: "r \<in> set (sel_queues s k)" "set rest \<subseteq> set (sel_queues s k)"
    using Cons by (metis list.set_intros(1) set_dropWhileD, metis list.set_intros(2) set_dropWhileD subsetI)
  have new: "row_item r \<notin> set (sel_items s)" using Cons by (metis dropWhile_eq_Cons_conv)
  have mem: "row_project r = k" "r \<in> set rows" using assms(1) r(1) by (auto simp: fair_selection_def)
  have queues: "set (((sel_queues s)(k := rest)) j) \<subseteq> {r \<in> set rows. row_project r = j}" for j
  proof -
    have "set (sel_queues s j) \<subseteq> {r \<in> set rows. row_project r = j}" using assms(1) by (simp add: fair_selection_def)
    then show ?thesis using r(2) by (cases "j = k") auto
  qed
  have counts: "sel_counts s0 j + count_rows (\<lambda>r. row_project r = j) (sel_rows s @ [r]) \<le> max (sel_counts s0 j) per" for j
    using assms mem(1) unfolding fair_selection_def by (cases "j = k") (auto simp: count_rows_def)
  show ?thesis
    using assms(1) new mem counts queues unfolding step fair_selection_def
    by (intro conjI allI) (auto simp: count_rows_def)
qed

lemma select_pass_state:
  "snd (select_pass slots lim (k # ks) s) =
     (if length (sel_rows s) \<ge> slots then s
      else snd (select_pass slots lim ks (if sel_counts s k \<ge> lim then s else snd (select_from k s))))"
  by (simp add: Let_def split: prod.splits)

lemma select_pass_fair:
  "fair_selection s0 rows per s \<Longrightarrow> fair_selection s0 rows per (snd (select_pass slots per ks s))"
proof (induction ks arbitrary: s)
  case (Cons k ks)
  then show ?case unfolding select_pass_state using select_from_fair [OF Cons.prems, of k] by simp
qed simp

lemma select_all_fair:
  "fair_selection s0 rows per s \<Longrightarrow> fair_selection s0 rows per (select_all slots per ks s)"
proof (induction slots per ks s rule: select_all.induct)
  case (1 slots per ks s)
  then show ?case using select_pass_fair [of s0 rows per s slots ks] by (subst select_all.simps) (simp split: if_splits)
qed

lemma select_rows_fair:
  fixes db :: db
  defines "running \<equiv> filter qc_running_task (db_qc_tasks db)"
  assumes "rows = select_rows db conflicts candidates slots per"
  shows "set rows \<subseteq> set candidates" "distinct (map row_item rows)"
    "row_item ` set rows \<inter> qct_review_item_id ` set running = {}"
    "count_rows (\<lambda>t. qct_project_ref_id t = k) running + count_rows (\<lambda>r. row_project r = k) rows
       \<le> max (count_rows (\<lambda>t. qct_project_ref_id t = k) running) per"
proof -
  define s0 where "s0 = initial_selection db conflicts candidates"
  have "fair_selection s0 candidates per s0"
    by (auto simp: fair_selection_def s0_def initial_selection_def Let_def count_rows_def order_by_def)
  then have f: "fair_selection s0 candidates per (select_all slots per (project_order s0 candidates) s0)"
    by (rule select_all_fair)
  have rows: "rows = sel_rows (select_all slots per (project_order s0 candidates) s0)"
    using assms(2) by (simp add: select_rows_def s0_def Let_def)
  have s0: "set (sel_items s0) \<supseteq> qct_review_item_id ` set running" "sel_counts s0 k = count_rows (\<lambda>t. qct_project_ref_id t = k) running"
    by (simp_all add: s0_def initial_selection_def Let_def running_def)
  show "set rows \<subseteq> set candidates" "distinct (map row_item rows)" using f by (simp_all add: rows fair_selection_def)
  show "row_item ` set rows \<inter> qct_review_item_id ` set running = {}" using f s0(1) unfolding rows fair_selection_def by blast
  show "count_rows (\<lambda>t. qct_project_ref_id t = k) running + count_rows (\<lambda>r. row_project r = k) rows
       \<le> max (count_rows (\<lambda>t. qct_project_ref_id t = k) running) per"
    using f unfolding rows fair_selection_def s0(2) [symmetric] by blast
qed

lemma project_candidates_mem:
  "r \<in> set (project_candidates db now m k n) \<Longrightarrow> fst r \<in> set (db_qc_tasks db) \<and> eligible now (fst r)"
  unfolding project_candidates_def Let_def
  by (drule in_set_takeD) (auto simp: order_by_def candidate_rows_def candidate_def split: option.splits)

lemma claim_candidates_mem:
  "r \<in> set (claim_candidates db now m n per) \<Longrightarrow> fst r \<in> set (db_qc_tasks db) \<and> eligible now (fst r)"
proof -
  have "r \<in> set (foldl (\<lambda>rows k. rows @ project_candidates db now m k (min (n - length rows) per)) rs ks) \<Longrightarrow>
      r \<in> set rs \<or> (fst r \<in> set (db_qc_tasks db) \<and> eligible now (fst r))" for rs ks
  proof (induction ks arbitrary: rs)
    case (Cons k ks)
    then show ?case using project_candidates_mem [of r db now m k] by fastforce
  qed simp
  then show "r \<in> set (claim_candidates db now m n per) \<Longrightarrow> fst r \<in> set (db_qc_tasks db) \<and> eligible now (fst r)"
    unfolding claim_candidates_def by fastforce
qed

section \<open>Claiming keeps the limits\<close>

definition running_in :: "string \<Rightarrow> db \<Rightarrow> int" where
  "running_in k db = count_rows (\<lambda>t. qct_project_ref_id t = k) (filter qc_running_task (db_qc_tasks db))"

text \<open>The primary key of the table and its partial unique index.\<close>

definition qc_tasks_ok :: "db \<Rightarrow> bool" where
  "qc_tasks_ok db \<longleftrightarrow> distinct (map qct_id (db_qc_tasks db))
     \<and> distinct (map qct_review_item_id (filter qc_running_task (db_qc_tasks db)))"

lemma filter_stopped:
  "\<not> P t \<Longrightarrow> filter P (row_put key t rows) = filter (\<lambda>u. key u \<noteq> key t) (filter P rows)"
  by (induction rows) (auto simp: row_put_def)

lemma running_started:
  assumes "distinct (map qct_id rows)" and "t \<in> set rows" and "\<not> qc_running_task t" and "qct_id t' = qct_id t" and "qc_running_task t'"
  shows "\<exists>xs ys. filter qc_running_task rows = xs @ ys \<and> filter qc_running_task (row_put qct_id t' rows) = xs @ t' # ys"
  using assms(1,2)
proof (induction rows)
  case (Cons x rows)
  show ?case
  proof (cases "x = t")
    case True
    then have "row_put qct_id t' rows = rows" using Cons.prems assms(4) by (intro row_put_id) (auto simp: rev_image_eqI)
    then show ?thesis using True assms(3-5) by (intro exI [of _ "[]"] exI [of _ "filter qc_running_task rows"]) (simp add: row_put_def)
  next
    case False
    then have "t \<in> set rows" "qct_id x \<noteq> qct_id t'" using Cons.prems assms(4) by (auto simp: rev_image_eqI)
    then obtain xs ys where "filter qc_running_task rows = xs @ ys" "filter qc_running_task (row_put qct_id t' rows) = xs @ t' # ys"
      using Cons by auto
    then show ?thesis using \<open>qct_id x \<noteq> qct_id t'\<close>
      by (intro exI [of _ "if qc_running_task x then x # xs else xs"] exI [of _ ys]) (simp add: row_put_def)
  qed
qed simp

text \<open>Starting a task that does not run, on a video without a running task.\<close>

lemma start_task:
  assumes ok: "qc_tasks_ok db" and t: "t \<in> set (db_qc_tasks db)" "\<not> qc_running_task t"
    and free: "qct_review_item_id t \<notin> qct_review_item_id ` set (filter qc_running_task (db_qc_tasks db))"
    and t': "t' = claimed_task now lease c t"
  shows "qc_tasks_ok (put_qc_task t' db)"
    and "running_in k (put_qc_task t' db) = running_in k db + (if qct_project_ref_id t = k then 1 else 0)"
    and "set (filter qc_running_task (db_qc_tasks (put_qc_task t' db))) = insert t' (set (filter qc_running_task (db_qc_tasks db)))"
proof -
  have same: "qct_id t' = qct_id t" "qct_review_item_id t' = qct_review_item_id t" "qct_project_ref_id t' = qct_project_ref_id t"
    "qc_running_task t'" by (simp_all add: t' claimed_task_def)
  obtain xs ys where f: "filter qc_running_task (db_qc_tasks db) = xs @ ys"
    "filter qc_running_task (row_put qct_id t' (db_qc_tasks db)) = xs @ t' # ys"
    using running_started [OF _ t same(1,4)] ok unfolding qc_tasks_ok_def by blast
  show "qc_tasks_ok (put_qc_task t' db)"
    using ok free same(2) unfolding qc_tasks_ok_def put_qc_task_def by (auto simp: f)
  show "running_in k (put_qc_task t' db) = running_in k db + (if qct_project_ref_id t = k then 1 else 0)"
    using same(3) by (simp add: running_in_def put_qc_task_def f count_rows_def)
  show "set (filter qc_running_task (db_qc_tasks (put_qc_task t' db))) = insert t' (set (filter qc_running_task (db_qc_tasks db)))"
    unfolding put_qc_task_def db.simps f(1) by (simp add: f(2) del: set_filter)
qed

text \<open>The state between two attempts, with the rows that are still to be tried.\<close>

definition claiming_ok :: "(string \<Rightarrow> int) \<Rightarrow> qc_task set \<Rightarrow> nat \<Rightarrow> qc_row list \<Rightarrow> claiming \<Rightarrow> bool" where
  "claiming_ok bound live limit rows st \<longleftrightarrow> qc_tasks_ok (clm_db st)
     \<and> (\<forall>r\<in>set rows. fst r \<in> set (db_qc_tasks (clm_db st)) \<and> \<not> qc_running_task (fst r))
     \<and> distinct (map row_item rows)
     \<and> row_item ` set rows \<inter> qct_review_item_id ` set (filter qc_running_task (db_qc_tasks (clm_db st))) = {}
     \<and> (\<forall>k. running_in k (clm_db st) + count_rows (\<lambda>r. row_project r = k) rows \<le> bound k)
     \<and> length (clm_claims st) \<le> limit
     \<and> live \<subseteq> set (filter qc_running_task (db_qc_tasks (clm_db st)))
     \<and> (\<forall>c\<in>set (clm_claims st). \<exists>t\<in>set (filter qc_running_task (db_qc_tasks (clm_db st))) - live.
          qct_id t = qcc_task_id c \<and> qct_claim_id t = Some (qcc_claim_id c))"

lemma count_rows_Cons: "count_rows P (x # xs) = (if P x then 1 else 0) + count_rows P xs"
  by (simp add: count_rows_def)

lemma try_claim_ok:
  assumes "claiming_ok bound live limit (r # rows) st"
  shows "claiming_ok bound live limit rows (try_claim env limit lease scan r st)"
proof (cases "length (clm_claims st) \<ge> limit \<or> clm_attempts st \<ge> scan")
  case True
  have "count_rows (\<lambda>r. row_project r = k) rows \<le> count_rows (\<lambda>r. row_project r = k) (r # rows)" for k
    by (simp add: count_rows_Cons)
  then have "running_in k (clm_db st) + count_rows (\<lambda>r. row_project r = k) rows \<le> bound k" for k
    using assms unfolding claiming_ok_def by (meson add_left_mono order_trans)
  then show ?thesis using True assms by (simp add: try_claim_def claiming_ok_def)
next
  case False
  obtain t i f where r: "r = (t, i, f)" by (cases r)
  define db where "db = (clm_db st)\<lparr>db_drawn := Suc (db_drawn (clm_db st))\<rparr>"
  define c where "c = env_uuid_hex env (db_drawn (clm_db st))"
  define t' where "t' = claimed_task (env_now env) lease c t"
  have db: "db_qc_tasks db = db_qc_tasks (clm_db st)" by (simp add: db_def)
  note inv = assms [unfolded claiming_ok_def, folded db]
  have ok: "qc_tasks_ok db" and t: "t \<in> set (db_qc_tasks db)" "\<not> qc_running_task t"
    and free: "qct_review_item_id t \<notin> qct_review_item_id ` set (filter qc_running_task (db_qc_tasks db))"
    using inv r by (auto simp: qc_tasks_ok_def db)
  have no: "\<not> running_item_conflict db t"
  proof
    assume "running_item_conflict db t"
    then obtain u where "u \<in> set (filter qc_running_task (db_qc_tasks db))" "qct_review_item_id u = qct_review_item_id t"
      by (auto simp: running_item_conflict_def list_ex_iff)
    then show False using free by (metis image_eqI)
  qed
  have st': "try_claim env limit lease scan r st =
      st\<lparr>clm_attempts := clm_attempts st + 1, clm_claims := clm_claims st @ [claim_payload t' i f c], clm_db := put_qc_task t' db\<rparr>"
    using False no by (simp add: try_claim_def Let_def r db_def c_def t'_def)
  note started = start_task [OF ok t free t'_def]
  have id': "qct_id t' = qct_id t" "qct_review_item_id t' = qct_review_item_id t" "qct_claim_id t' = Some c"
    by (simp_all add: t'_def claimed_task_def)
  have live: "t' \<notin> live"
  proof
    assume "t' \<in> live"
    then have "t' \<in> set (filter qc_running_task (db_qc_tasks db))" using inv by blast
    then show False using free id'(2) by (metis image_eqI)
  qed
  have rest: "fst q \<in> set (row_put qct_id t' (db_qc_tasks db))" if q: "q \<in> set rows" for q
  proof (rule in_set_row_put_other)
    show "fst q \<in> set (db_qc_tasks db)" using inv q by simp
    have "qct_review_item_id (fst q) \<noteq> qct_review_item_id t" using inv q r by (auto simp: image_iff)
    then show "qct_id (fst q) \<noteq> qct_id t'"
      using \<open>fst q \<in> set (db_qc_tasks db)\<close> t(1) ok id'(1) unfolding qc_tasks_ok_def by (metis key_inj)
  qed
  have items: "qct_review_item_id ` set (filter qc_running_task (db_qc_tasks (put_qc_task t' db)))
      = insert (qct_review_item_id t) (qct_review_item_id ` set (filter qc_running_task (db_qc_tasks db)))"
    unfolding started(3) by (simp add: id'(2))
  have counts: "running_in k (put_qc_task t' db) + count_rows (\<lambda>r. row_project r = k) rows \<le> bound k" for k
  proof -
    have "running_in k (clm_db st) + count_rows (\<lambda>r. row_project r = k) (r # rows) \<le> bound k"
      using assms unfolding claiming_ok_def by blast
    moreover have "running_in k (clm_db st) = running_in k db" by (simp add: running_in_def db)
    ultimately show ?thesis unfolding started(2) r count_rows_Cons by (simp only: fst_conv add.assoc)
  qed
  have claims: "\<exists>u\<in>set (filter qc_running_task (db_qc_tasks (put_qc_task t' db))) - live.
      qct_id u = qcc_task_id c0 \<and> qct_claim_id u = Some (qcc_claim_id c0)" if "c0 \<in> set (clm_claims st @ [claim_payload t' i f c])" for c0
  proof (cases "c0 \<in> set (clm_claims st)")
    case True
    then show ?thesis using inv unfolding started(3) by blast
  next
    case False
    then have "c0 = claim_payload t' i f c" using that by simp
    then show ?thesis using live id'(3) unfolding started(3) by (intro bexI [of _ t']) (simp_all add: claim_payload_def)
  qed
  have lv: "live \<subseteq> set (filter qc_running_task (db_qc_tasks (put_qc_task t' db)))" using inv unfolding started(3) by blast
  have disj: "row_item ` set rows \<inter> qct_review_item_id ` set (filter qc_running_task (db_qc_tasks (put_qc_task t' db))) = {}"
    unfolding items using inv r by auto
  have tl: "distinct (map row_item rows)" "\<forall>r\<in>set rows. \<not> qc_running_task (fst r)" using inv by simp_all
  show ?thesis
    unfolding claiming_ok_def st'
    using started(1) rest tl disj counts lv claims False by (simp add: put_qc_task_def del: set_filter)
qed

lemma fold_try_claim_ok:
  "claiming_ok bound live limit rows st \<Longrightarrow> claiming_ok bound live limit [] (fold (try_claim env limit lease scan) rows st)"
  by (induction rows arbitrary: st) (auto intro: try_claim_ok)

lemma round_ok:
  assumes "claiming_ok bound live limit [] st" and "\<And>k. per \<le> bound k"
  shows "claiming_ok bound live limit (round_rows env limit per maxa scan st) st"
proof -
  let ?rows = "round_rows env limit per maxa scan st"
  let ?c = "claim_candidates (clm_db st) (env_now env) maxa scan (max 8 (nat (per * 2)))"
  have rows: "?rows = select_rows (clm_db st) (clm_conflicts st) ?c (limit - length (clm_claims st)) per"
    by (simp add: round_rows_def Let_def)
  note f = select_rows_fair [OF rows]
  have "fst r \<in> set (db_qc_tasks (clm_db st)) \<and> \<not> qc_running_task (fst r)" if "r \<in> set ?rows" for r
    using claim_candidates_mem [OF subsetD [OF f(1) that]] by (auto simp: eligible_def)
  moreover have "running_in k (clm_db st) + count_rows (\<lambda>r. row_project r = k) ?rows \<le> bound k" for k
  proof -
    have "running_in k (clm_db st) \<le> bound k" using assms(1) unfolding claiming_ok_def by (simp add: count_rows_def)
    then show ?thesis using f(4) [of k] assms(2) [of k] unfolding running_in_def by linarith
  qed
  ultimately show ?thesis using assms(1) f(2,3) unfolding claiming_ok_def by blast
qed

lemma claim_rounds_ok:
  assumes "claiming_ok bound live limit [] st" and "\<And>k. per \<le> bound k"
  shows "claiming_ok bound live limit [] (claim_rounds env limit per lease maxa scan st)"
  using assms
proof (induction env limit per lease maxa scan st rule: claim_rounds.induct)
  case (1 env limit per lease maxa scan st)
  have "claiming_ok bound live limit [] (fold (try_claim env limit lease scan) (round_rows env limit per maxa scan st) st)"
    by (rule fold_try_claim_ok [OF round_ok [OF "1.prems"]])
  then show ?case using 1 by (subst claim_rounds.simps) auto
qed

text \<open>Reconciliation only stops tasks whose lease has expired.\<close>

lemma interrupted_sel [simp]:
  "qct_id (interrupted_task now m t) = qct_id t" "\<not> qc_running_task (interrupted_task now m t)"
  by (simp_all add: interrupted_task_def Let_def)

lemma stop_tasks:
  assumes "qc_tasks_ok db"
  shows "qc_tasks_ok (fold (\<lambda>t. put_qc_task (interrupted_task now m t)) ts db)
    \<and> running_in k (fold (\<lambda>t. put_qc_task (interrupted_task now m t)) ts db) \<le> running_in k db
    \<and> set (filter (\<lambda>t. qc_running_task t \<and> qct_id t \<notin> qct_id ` set ts) (db_qc_tasks db))
        \<subseteq> set (filter qc_running_task (db_qc_tasks (fold (\<lambda>t. put_qc_task (interrupted_task now m t)) ts db)))"
  using assms
proof (induction ts arbitrary: db)
  case (Cons t ts)
  define d where "d = put_qc_task (interrupted_task now m t) db"
  have f: "filter qc_running_task (db_qc_tasks d) = filter (\<lambda>u. qct_id u \<noteq> qct_id t) (filter qc_running_task (db_qc_tasks db))"
    using filter_stopped [of qc_running_task "interrupted_task now m t" qct_id "db_qc_tasks db"] by (simp add: d_def put_qc_task_def)
  have "distinct (map qct_review_item_id (filter qc_running_task (db_qc_tasks d)))"
    unfolding f by (rule distinct_map_filterI) (use Cons.prems in \<open>simp add: qc_tasks_ok_def\<close>)
  then have ok: "qc_tasks_ok d" using Cons.prems by (simp add: qc_tasks_ok_def d_def put_qc_task_def)
  have "running_in k d \<le> running_in k db"
    unfolding running_in_def f count_rows_def filter_filter
    using length_filter_le [of "\<lambda>u. qct_id u \<noteq> qct_id t" "filter (\<lambda>u. qct_project_ref_id u = k) (filter qc_running_task (db_qc_tasks db))"]
    by (simp add: conj_ac)
  moreover have "set (filter (\<lambda>u. qc_running_task u \<and> qct_id u \<notin> qct_id ` set (t # ts)) (db_qc_tasks db))
      \<subseteq> set (filter (\<lambda>u. qc_running_task u \<and> qct_id u \<notin> qct_id ` set ts) (db_qc_tasks d))"
  proof
    fix u
    assume u: "u \<in> set (filter (\<lambda>u. qc_running_task u \<and> qct_id u \<notin> qct_id ` set (t # ts)) (db_qc_tasks db))"
    then have "u \<in> set (filter qc_running_task (db_qc_tasks d))" unfolding f by simp
    then show "u \<in> set (filter (\<lambda>u. qc_running_task u \<and> qct_id u \<notin> qct_id ` set ts) (db_qc_tasks d))" using u by simp
  qed
  ultimately show ?case using Cons.IH [OF ok] unfolding fold_simps comp_apply d_def [symmetric] by (meson order_trans)
qed simp

definition live_tasks :: "int \<Rightarrow> db \<Rightarrow> qc_task set" where
  "live_tasks now db = {t \<in> set (db_qc_tasks db). qc_running_task t \<and> \<not> lease_expired now t}"

lemma reconciled:
  assumes "reconcile_expired_technical_qc_tasks now m n db = Inr (r, db')" and "qc_tasks_ok db"
  shows "qc_tasks_ok db'" and "running_in k db' \<le> running_in k db" and "live_tasks now db \<subseteq> set (filter qc_running_task (db_qc_tasks db'))"
proof -
  define ts where "ts = take n (order_by (\<lambda>t. ((case qct_lease_expires_at t of None \<Rightarrow> 0 | Some at \<Rightarrow> at), qct_id t))
    (filter (lease_expired now) (db_qc_tasks db)))"
  have db': "db' = fold (\<lambda>t. put_qc_task (interrupted_task now m t)) ts db"
    using assms(1) by (auto simp: reconcile_expired_technical_qc_tasks_def ts_def Let_def split: if_splits)
  have ts: "t \<in> set (db_qc_tasks db) \<and> lease_expired now t" if "t \<in> set ts" for t
    using in_set_takeD [OF that [unfolded ts_def]] by (simp add: order_by_def)
  have "qct_id t \<notin> qct_id ` set ts" if t: "t \<in> live_tasks now db" for t
  proof
    assume "qct_id t \<in> qct_id ` set ts"
    then obtain u where "u \<in> set ts" "qct_id u = qct_id t" by auto
    then have "u = t" using ts t assms(2) unfolding live_tasks_def qc_tasks_ok_def by (metis (mono_tags, lifting) key_inj mem_Collect_eq)
    then show False using ts [OF \<open>u \<in> set ts\<close>] t by (simp add: live_tasks_def)
  qed
  then have "live_tasks now db \<subseteq> set (filter (\<lambda>t. qc_running_task t \<and> qct_id t \<notin> qct_id ` set ts) (db_qc_tasks db))"
    by (auto simp: live_tasks_def)
  then show "live_tasks now db \<subseteq> set (filter qc_running_task (db_qc_tasks db'))" "qc_tasks_ok db'" "running_in k db' \<le> running_in k db"
    using stop_tasks [OF assms(2), where now = now and m = m and ts = ts] unfolding db' by blast+
qed

text \<open>
  C15. When a worker takes on tasks it takes at most as many as it has slots for; no project gets more
  running tasks than its share, unless it had more before; no video has two running tasks; a task
  whose lease is alive stays with its worker, unchanged; and every task taken on is running under the
  claim that was handed out for it.
\<close>

theorem qc_slots_shared:
  assumes claim: "claim_technical_qc_tasks env limit per lease maxa scan db = Inr (claims, db')" and ok: "qc_tasks_ok db"
  shows "length claims \<le> limit \<and> (\<forall>k. running_in k db' \<le> max (running_in k db) per) \<and> qc_tasks_ok db'
    \<and> live_tasks (env_now env) db \<subseteq> set (db_qc_tasks db')
    \<and> (\<forall>c\<in>set claims. \<exists>t\<in>set (db_qc_tasks db') - live_tasks (env_now env) db.
         qc_running_task t \<and> qct_id t = qcc_task_id c \<and> qct_claim_id t = Some (qcc_claim_id c))"
proof -
  obtain n db1 where rec: "reconcile_expired_technical_qc_tasks (env_now env) maxa scan db = Inr (n, db1)"
    and st: "claims = clm_claims (claim_rounds env limit per lease maxa scan \<lparr>clm_claims = [], clm_conflicts = [], clm_attempts = 0, clm_db = db1\<rparr>)"
      "db' = clm_db (claim_rounds env limit per lease maxa scan \<lparr>clm_claims = [], clm_conflicts = [], clm_attempts = 0, clm_db = db1\<rparr>)"
    using claim by (auto simp: claim_technical_qc_tasks_def Let_def split: if_splits)
  note r = reconciled [OF rec ok]
  have "claiming_ok (\<lambda>k. max (running_in k db) per) (live_tasks (env_now env) db) limit []
      \<lparr>clm_claims = [], clm_conflicts = [], clm_attempts = 0, clm_db = db1\<rparr>"
    using r by (simp add: claiming_ok_def count_rows_def max.coboundedI1)
  then have "claiming_ok (\<lambda>k. max (running_in k db) per) (live_tasks (env_now env) db) limit []
      (claim_rounds env limit per lease maxa scan \<lparr>clm_claims = [], clm_conflicts = [], clm_attempts = 0, clm_db = db1\<rparr>)"
    by (rule claim_rounds_ok) simp
  then show ?thesis unfolding claiming_ok_def st by (auto simp: count_rows_def; fastforce)
qed

lemma lock_active_SomeD:
  "lock_active_technical_qc_claim db k c now = Some t \<Longrightarrow>
     t \<in> set (db_qc_tasks db) \<and> qct_id t = k \<and> qc_lease_held now c t \<and> current_input db t"
  by (auto simp: lock_active_technical_qc_claim_def find_Some_iff)

section \<open>The tasks and the workflow\<close>

lemma put_qc_fold_sound: "sound_step db (fold (\<lambda>t. put_qc_task (f t)) ts db)"
  by (induction ts arbitrary: db) (auto intro: sound_trans [OF sound_put(4)])

lemma try_claim_sound: "sound_step (clm_db st) (clm_db (try_claim env limit lease scan r st))"
  by (auto simp: try_claim_def Let_def intro: sound_trans [OF sound_drawn sound_put(4)] split: prod.splits)

lemma fold_try_claim_sound: "sound_step (clm_db st) (clm_db (fold (try_claim env limit lease scan) rows st))"
  by (induction rows arbitrary: st) (auto intro: sound_trans [OF try_claim_sound])

lemma claim_rounds_sound: "sound_step (clm_db st) (clm_db (claim_rounds env limit per lease maxa scan st))"
proof (induction env limit per lease maxa scan st rule: claim_rounds.induct)
  case (1 env limit per lease maxa scan st)
  then show ?case
    using fold_try_claim_sound [of st env limit lease scan "round_rows env limit per maxa scan st"]
    by (subst claim_rounds.simps) (auto intro: sound_trans)
qed

lemma claim_technical_qc_tasks_sound:
  assumes "claim_technical_qc_tasks env limit per lease maxa scan db = Inr (r, db')"
  shows "sound_step db db'"
proof -
  obtain n db1 where rec: "reconcile_expired_technical_qc_tasks (env_now env) maxa scan db = Inr (n, db1)"
    and "db' = clm_db (claim_rounds env limit per lease maxa scan \<lparr>clm_claims = [], clm_conflicts = [], clm_attempts = 0, clm_db = db1\<rparr>)"
    using assms by (auto simp: claim_technical_qc_tasks_def Let_def split: if_splits)
  then have "sound_step db1 db'" using claim_rounds_sound [of "\<lparr>clm_claims = [], clm_conflicts = [], clm_attempts = 0, clm_db = db1\<rparr>"] by simp
  moreover have "sound_step db db1"
    using rec by (auto simp: reconcile_expired_technical_qc_tasks_def Let_def put_qc_fold_sound split: if_splits)
  ultimately show ?thesis using sound_trans by blast
qed

lemma discover_sound:
  assumes "discover_ready_technical_qc_tasks env n db = Inr (r, db')"
  shows "sound_step db db'"
proof -
  have loop: "sound_step d (snd (foldl (\<lambda>(created, db) (v, output_file_id).
      case insert_qc_task (discovered_task env v output_file_id) db of Inl _ \<Rightarrow> (created, db) | Inr db' \<Rightarrow> (created + 1, db'))
      (c, d) rows))" for c :: int and d rows
  proof (induction rows arbitrary: c d)
    case (Cons x rows)
    obtain v f where x: "x = (v, f)" by fastforce
    show ?case
      using Cons.IH sound_insert(4) [of "discovered_task env v f" d] by (auto simp: x split: sum.splits intro: sound_trans)
  qed simp
  define rows where "rows = take n (order_by (\<lambda>(v, _). (project_rank (ready_versions db) v, ver_created_at v, ver_id v)) (ready_versions db))"
  have "foldl (\<lambda>(created, db) (v, output_file_id).
      case insert_qc_task (discovered_task env v output_file_id) db of Inl _ \<Rightarrow> (created, db) | Inr db' \<Rightarrow> (created + 1, db')) (0, db) rows = (r, db')"
    using assms unfolding discover_ready_technical_qc_tasks_def Let_def rows_def [symmetric] by (simp split: if_splits)
  then show ?thesis using loop [of db 0 rows] by simp
qed

lemma with_active_claim_sound: "sound_step db (snd (with_active_claim env k c f db))"
  by (simp add: with_active_claim_def split: option.splits)

lemma guarded_update_sound: "(if b then Inl e else Inr (with_active_claim env k c f db)) = Inr (r, db') \<Longrightarrow> sound_step db db'"
  using with_active_claim_sound [of db env k c f] by (simp split: if_splits)

lemma qc_updates_sound:
  "update_technical_qc_progress env k c n db = Inr (r, db') \<Longrightarrow> sound_step db db'"
  "renew_technical_qc_lease env k c n db = Inr (r, db') \<Longrightarrow> sound_step db db'"
  "fail_technical_qc_task env k c e b m d db = Inr (r, db') \<Longrightarrow> sound_step db db'"
  unfolding update_technical_qc_progress_def renew_technical_qc_lease_def fail_technical_qc_task_def
  by (erule guarded_update_sound)+

lemma qc_probe_sound: "sound_step db (snd (persist_technical_qc_probe env k c probe db))"
  unfolding persist_technical_qc_probe_def by (rule with_active_claim_sound)

lemma complete_qc_sound: "sound_step db (snd (complete_technical_qc_task env claim db))"
  by (simp add: complete_technical_qc_task_def split: option.splits)

section \<open>A concrete task\<close>

definition ex_qc_task :: qc_task where
  "ex_qc_task =
     \<lparr>qct_id = ''q1'', qct_project_ref_id = ''p1'', qct_review_item_id = ''i1'', qct_version_id = ''v1'', qct_input_file_id = ex_file_id,
      qct_status = qc_queued, qct_claim_id = None, qct_lease_expires_at = None, qct_processed_ms = 0, qct_total_ms = 60000,
      qct_video_frame_count = None, qct_video_duration_ms = None, qct_container_duration_ms = None, qct_error_code = None,
      qct_rule_version = RULE_VERSION, qct_attempts = 0, qct_next_attempt_at = None, qct_created_at = 0, qct_updated_at = 0,
      qct_started_at = None, qct_completed_at = None\<rparr>"

definition ex_qc_db :: db where
  "ex_qc_db = ex_ready_db\<lparr>db_tasks := [ex_task\<lparr>mdt_kind := playback_faststart, mdt_output_file_id := Some ex_file_id\<rparr>],
     db_qc_tasks := [ex_qc_task]\<rparr>"

text \<open>The first round takes the task on, the second finds nothing left.\<close>

abbreviation ex_qc_row :: qc_row where
  "ex_qc_row \<equiv> (ex_qc_task, ex_item, ex_file)"

definition ex_running_db :: db where
  "ex_running_db = put_qc_task (claimed_task 1000000 60 ''0'' ex_qc_task) (ex_qc_db\<lparr>db_drawn := 1\<rparr>)"

lemma ex_candidates: "claim_candidates ex_qc_db 1000000 3 4 8 = [ex_qc_row]" "claim_candidates ex_running_db 1000000 3 4 8 = []"
  by code_simp+

lemma ex_selected: "select_rows ex_qc_db [] [ex_qc_row] 2 1 = [ex_qc_row]"
  by (simp add: select_rows_def Let_def, subst select_all.simps, subst select_all.simps)
    (simp add: initial_selection_def project_order_def select_from_def order_by_def count_rows_def ex_qc_db_def ex_qc_task_def ex_item_def)

lemma ex_env_sel: "env_now ex_env = 1000000" "env_uuid_hex ex_env 0 = ''0''"
  by code_simp+

definition ex_qc_claim :: qc_claim where
  "ex_qc_claim = claim_payload (claimed_task 1000000 60 ''0'' ex_qc_task) ex_item ex_file ''0''"

lemma ex_rounds:
  "round_rows ex_env 2 1 3 4 \<lparr>clm_claims = [], clm_conflicts = [], clm_attempts = 0, clm_db = ex_qc_db\<rparr> = [ex_qc_row]"
  "round_rows ex_env 2 1 3 4 \<lparr>clm_claims = [ex_qc_claim], clm_conflicts = [], clm_attempts = 1, clm_db = ex_running_db\<rparr> = []"
  by (simp_all add: round_rows_def Let_def ex_env_sel ex_candidates ex_selected)
    (simp add: select_rows_def project_order_def order_by_def initial_selection_def Let_def, subst select_all.simps, simp)

lemma ex_tried:
  "try_claim ex_env 2 60 4 ex_qc_row \<lparr>clm_claims = [], clm_conflicts = [], clm_attempts = 0, clm_db = ex_qc_db\<rparr> =
     \<lparr>clm_claims = [ex_qc_claim], clm_conflicts = [], clm_attempts = 1, clm_db = ex_running_db\<rparr>"
  by (simp add: try_claim_def Let_def ex_env_sel ex_qc_claim_def ex_running_db_def running_item_conflict_def ex_qc_db_def ex_ready_db_def
      ex_db_def empty_db_def ex_qc_task_def)

lemma ex_qc_claimed: "claim_technical_qc_tasks ex_env 2 1 60 3 4 ex_qc_db = Inr ([ex_qc_claim], ex_running_db)"
proof -
  have "reconcile_expired_technical_qc_tasks 1000000 3 4 ex_qc_db = Inr (0, ex_qc_db)"
    by (simp add: reconcile_expired_technical_qc_tasks_def order_by_def lease_expired_def ex_qc_db_def ex_qc_task_def)
  moreover have "claim_rounds ex_env 2 1 60 3 4 \<lparr>clm_claims = [], clm_conflicts = [], clm_attempts = 0, clm_db = ex_qc_db\<rparr> =
      \<lparr>clm_claims = [ex_qc_claim], clm_conflicts = [], clm_attempts = 1, clm_db = ex_running_db\<rparr>"
    by (subst claim_rounds.simps, simp add: ex_rounds ex_tried, subst claim_rounds.simps, simp add: ex_rounds(2) [unfolded One_nat_def])
  ultimately show ?thesis by (simp add: claim_technical_qc_tasks_def ex_env_sel)
qed

lemma ex_qc_db_ok: "qc_tasks_ok ex_qc_db"
  by (simp add: qc_tasks_ok_def ex_qc_db_def ex_qc_task_def)

theorem qc_slots_shared_witness:
  "\<exists>t\<in>set (db_qc_tasks ex_running_db). qc_running_task t \<and> qct_id t = qcc_task_id ex_qc_claim \<and> qct_claim_id t = Some (qcc_claim_id ex_qc_claim)"
  using qc_slots_shared [OF ex_qc_claimed ex_qc_db_ok] by auto

end
