(* ===== verification/Qc_Findings.thy ===== *)
theory Qc_Findings
  imports Qc_Intervals Qc_Tasks Transactions
begin

text \<open>
  The findings of the technical check, \<open>src/backend/app/technical_qc.py\<close>: each merged interval
  becomes, once per version and rule set, a finding with an issue for the reviewers; the check is
  complete when its findings are recorded. What the scan of the video reports is a parameter: an
  error or the intervals it found.
\<close>

section \<open>A finding as text\<close>

definition utf8_text :: "nat list \<Rightarrow> string" where
  "utf8_text bytes = map char_of bytes"

definition REASON_LABELS :: "(string \<times> string) list" where
  "REASON_LABELS =
     [(''black_frame'', utf8_text [233, 187, 145, 229, 184, 167]),
      (''white_frame'', utf8_text [231, 153, 189, 229, 184, 167]),
      (''short_shot'', utf8_text [230, 158, 129, 231, 159, 173, 233, 149, 156, 229, 164, 180]),
      (''continuous_black'', utf8_text [232, 191, 158, 231, 187, 173, 233, 187, 145, 229, 156, 186]),
      (''continuous_white'', utf8_text [232, 191, 158, 231, 187, 173, 231, 153, 189, 229, 156, 186]),
      (''silence'', utf8_text [233, 157, 153, 233, 159, 179])]"

definition pad3 :: "int \<Rightarrow> string" where
  "pad3 n = (if n < 10 then ''00'' else if n < 100 then ''0'' else []) @ py_str n"

definition qc_timecode :: "int \<Rightarrow> string" where
  "qc_timecode milliseconds =
     (let hours = milliseconds div 3600000; r1 = milliseconds mod 3600000;
          minutes = r1 div 60000; r2 = r1 mod 60000
      in pad2 hours @ '':'' @ pad2 minutes @ '':'' @ pad2 (r2 div 1000) @ ''.'' @ pad3 (r2 mod 1000))"

text \<open>A measured number is the text it is displayed with (see \<open>Qc_Intervals\<close>).\<close>

definition display_value :: "json \<Rightarrow> string" where
  "display_value v =
     (case v of JStr s \<Rightarrow> s | JInt n \<Rightarrow> py_str n | JBool b \<Rightarrow> (if b then ''true'' else ''false'') | _ \<Rightarrow> json_dumps v)"

definition finding_body :: "qc_interval \<Rightarrow> string" where
  "finding_body i =
     (let label = (\<lambda>c. case map_of REASON_LABELS c of None \<Rightarrow> c | Some l \<Rightarrow> l);
          reasons = join_with (utf8_text [227, 128, 129]) (map label (qci_reason_codes i));
          values = join_with (utf8_text [239, 188, 140])
                     (map (\<lambda>(k, v). k @ ''='' @ display_value v) (order_by fst (qci_values i)));
          lines =
            [utf8_text [227, 128, 144, 230, 138, 128, 230, 156, 175, 229, 174, 161, 230, 159, 165, 227, 128, 145],
             utf8_text [229, 142, 159, 229, 155, 160, 239, 188, 154] @ reasons,
             utf8_text [230, 151, 182, 233, 151, 180, 231, 160, 129, 239, 188, 154]
               @ qc_timecode (qci_start_ms i) @ '' - '' @ qc_timecode (qci_end_ms i),
             utf8_text [229, 184, 167, 229, 140, 186, 233, 151, 180, 239, 188, 154]
               @ ''F'' @ py_str (qci_start_frame i) @ ''-F'' @ py_str (qci_end_frame i)
               @ utf8_text [239, 188, 136] @ py_str (frame_count i) @ utf8_text [32, 229, 184, 167, 239, 188, 137],
             utf8_text [230, 151, 182, 233, 151, 180, 229, 140, 186, 233, 151, 180, 239, 188, 154]
               @ py_str (qci_start_ms i) @ ''-'' @ py_str (qci_end_ms i) @ '' ms''
               @ utf8_text [239, 188, 136] @ py_str (interval_duration_ms i) @ '' ms'' @ utf8_text [239, 188, 137]]
            @ (if values \<noteq> [] then [utf8_text [230, 163, 128, 230, 181, 139, 229, 128, 188, 239, 188, 154] @ values] else [])
      in code_prefix 4000 (code_points (join_with [CHR 0x0A] lines)))"

section \<open>Recording findings\<close>

text \<open>The texts that are hashed are made of identifiers, numbers and reason codes, which are ASCII.\<close>

definition finding_identity :: "env \<Rightarrow> qc_claim \<Rightarrow> qc_interval \<Rightarrow> string" where
  "finding_identity env claim i =
     env_sha256_hex env (''technical-qc-finding-v1'' @ [CHR 0x00] @ json_dumps (JObj
       [(''version_id'', JStr (qcc_version_id claim)), (''rule_version'', JStr (qcc_rule_version claim)),
        (''start_frame'', JInt (qci_start_frame i)), (''end_frame'', JInt (qci_end_frame i)),
        (''start_ms'', JInt (qci_start_ms i)), (''end_ms'', JInt (qci_end_ms i)),
        (''reason_codes'', JList (map JStr (sort (qci_reason_codes i))))]))"

definition stable_child_id :: "env \<Rightarrow> string \<Rightarrow> string \<Rightarrow> string" where
  "stable_child_id env pfx identity_hash = pfx @ ''_'' @ take 32 (env_sha256_hex env (pfx @ [CHR 0x00] @ identity_hash))"

definition insert_qc_finding :: "qc_finding \<Rightarrow> db \<Rightarrow> exn + db" where
  "insert_qc_finding r db =
     ebind (row_insert qcf_id (\<lambda>r q. qcf_identity_hash r = qcf_identity_hash q) r (db_qc_findings db))
       (\<lambda>rows. Inr (db\<lparr>db_qc_findings := rows\<rparr>))"

definition finding_row :: "env \<Rightarrow> qc_claim \<Rightarrow> qc_interval \<Rightarrow> qc_finding" where
  "finding_row env claim i =
     (let identity_hash = finding_identity env claim i
      in \<lparr>qcf_id = stable_child_id env ''tqf'' identity_hash, qcf_task_id = qcc_task_id claim,
          qcf_project_ref_id = qcc_project_ref_id claim, qcf_review_item_id = qcc_review_item_id claim,
          qcf_version_id = qcc_version_id claim, qcf_identity_hash = identity_hash,
          qcf_issue_id = Some (stable_child_id env ''iss'' identity_hash), qcf_start_frame = qci_start_frame i,
          qcf_end_frame = qci_end_frame i, qcf_start_ms = qci_start_ms i, qcf_end_ms = qci_end_ms i,
          qcf_reason_codes = qci_reason_codes i, qcf_value_details = JObj (qci_values i), qcf_created_at = env_now env,
          qcf_updated_at = env_now env\<rparr>)"

definition finding_issue :: "env \<Rightarrow> qc_claim \<Rightarrow> qc_interval \<Rightarrow> int \<Rightarrow> issue" where
  "finding_issue env claim i issue_no =
     (let identity_hash = finding_identity env claim i
      in \<lparr>iss_id = stable_child_id env ''iss'' identity_hash, iss_project_ref_id = qcc_project_ref_id claim,
          iss_review_item_id = qcc_review_item_id claim, iss_version_id = qcc_version_id claim, iss_issue_no = issue_no,
          iss_status = unresolved, iss_current_revision_id = stable_child_id env ''rev'' identity_hash,
          iss_timestamp_ms = qci_start_ms i, iss_frame_number = qci_start_frame i, iss_lock_version = 1, iss_deleted_at = None,
          iss_created_at = env_now env, iss_updated_at = env_now env\<rparr>)"

type_synonym recording = "string list \<times> issue list \<times> db"

definition find_finding :: "string \<Rightarrow> db \<Rightarrow> qc_finding option" where
  "find_finding identity_hash db = List.find (\<lambda>f. qcf_identity_hash f = identity_hash) (db_qc_findings db)"

definition create_finding :: "env \<Rightarrow> qc_claim \<Rightarrow> qc_interval \<Rightarrow> recording \<Rightarrow> exn + recording" where
  "create_finding env claim i = (\<lambda>(issue_ids, created_issues, db).
     let issue_no = max0 (map iss_issue_no (filter (\<lambda>s. iss_review_item_id s = qcc_review_item_id claim) (db_issues db))) + 1;
         issue = finding_issue env claim i issue_no
     in ebind (insert_qc_finding (finding_row env claim i) db) (\<lambda>db.
        ebind (insert_issue issue db) (\<lambda>db.
        ebind (insert_revision (issue_revision env issue (iss_current_revision_id issue) 1 (finding_body i) None) db) (\<lambda>db.
          Inr (issue_ids @ [iss_id issue], created_issues @ [issue], db)))))"

definition record_finding :: "env \<Rightarrow> qc_claim \<Rightarrow> qc_interval \<Rightarrow> recording \<Rightarrow> exn + recording" where
  "record_finding env claim i r =
     (case find_finding (finding_identity env claim i) (snd (snd r)) of
        Some existing \<Rightarrow>
          Inr (case qcf_issue_id existing of None \<Rightarrow> r | Some issue_id \<Rightarrow> (fst r @ [issue_id], snd r))
      | None \<Rightarrow> create_finding env claim i r)"

definition qc_context :: "qc_claim \<Rightarrow> execution_context" where
  "qc_context claim =
     \<lparr>ctx_entry_source = ''review'', ctx_request_id = qcc_claim_id claim,
      ctx_principal = \<lparr>pr_kind = ''system'', pr_id = Some ''technical-qc-worker'', pr_project_ref_ids = [qcc_project_ref_id claim]\<rparr>,
      ctx_write_guard_verified = True\<rparr>"

definition qc_operation :: "issue \<Rightarrow> operation" where
  "qc_operation issue =
     \<lparr>opr_command_type = ''CreateReviewIssue'', opr_idempotency_key = None, opr_identity = None,
      opr_resource_type = ''review_issue'', opr_resource_id = Some (iss_id issue)\<rparr>"

text \<open>The video follows its new issues, unless it is finalized; each issue is announced and logged.\<close>

definition announce_issue :: "env \<Rightarrow> qc_claim \<Rightarrow> review_item \<Rightarrow> bool \<Rightarrow> nat \<times> issue \<Rightarrow> db \<Rightarrow> exn + db" where
  "announce_issue env claim item started_review = (\<lambda>(index, issue) db.
     ebind (record_review_issue_created env (qc_context claim) item issue (started_review \<and> index = 0) db) (\<lambda>db.
       Inr (add_operation_log env (qc_context claim) (qc_operation issue) ''ok'' None None db)))"

definition announce_findings :: "env \<Rightarrow> qc_claim \<Rightarrow> review_item \<Rightarrow> issue list \<Rightarrow> db \<Rightarrow> exn + db" where
  "announce_findings env claim item created_issues db =
     ebind (if itm_workflow_status item = finalized then Inr (item, db)
            else ebind (sync_item_workflow_for_current_issues env db item) (\<lambda>i. Inr (i, put_item i db))) (\<lambda>(i, db).
       efold (announce_issue env claim i (itm_workflow_status item = pending_review)) (enumerate 0 created_issues) db)"

datatype qc_error = TechnicalQcError string bool | TechnicalQcFatalError string | Qc_Exn exn

definition qc_lease_lost :: qc_error where
  "qc_lease_lost = TechnicalQcError ''TECHNICAL_QC_LEASE_LOST'' False"

definition record_findings :: "env \<Rightarrow> qc_claim \<Rightarrow> review_item \<Rightarrow> qc_interval list \<Rightarrow> db \<Rightarrow> exn + string list \<times> db" where
  "record_findings env claim item intervals db =
     ebind (merge_overlapping_intervals intervals) (\<lambda>merged.
     ebind (efold (record_finding env claim) merged ([], [], db)) (\<lambda>(issue_ids, created_issues, db).
     ebind (if created_issues = [] then Inr db else announce_findings env claim item created_issues db) (\<lambda>db.
       Inr (issue_ids, db))))"

definition persist_technical_qc_findings :: "env \<Rightarrow> qc_claim \<Rightarrow> qc_interval list \<Rightarrow> db \<Rightarrow> qc_error + string list \<times> db" where
  "persist_technical_qc_findings env claim intervals db =
     (case lock_active_technical_qc_claim db (qcc_task_id claim) (qcc_claim_id claim) (env_now env) of
        None \<Rightarrow> Inl qc_lease_lost
      | Some t \<Rightarrow>
          if qct_version_id t \<noteq> qcc_version_id claim \<or> qct_input_file_id t \<noteq> qcc_input_file_id claim
             \<or> qct_rule_version t \<noteq> qcc_rule_version claim
          then Inl qc_lease_lost
          else
            (case List.find (\<lambda>i. itm_id i = qcc_review_item_id claim \<and> itm_project_ref_id i = qcc_project_ref_id claim) (db_items db) of
               None \<Rightarrow> Inl qc_lease_lost
             | Some item \<Rightarrow>
                 if itm_current_version_id item \<noteq> Some (qcc_version_id claim) then Inl qc_lease_lost
                 else map_sum Qc_Exn id (record_findings env claim item intervals db)))"

section \<open>The end of a check\<close>

definition technical_qc_failure :: "env \<Rightarrow> qc_claim \<Rightarrow> string \<Rightarrow> bool \<Rightarrow> db \<Rightarrow> (qc_error + string) \<times> db" where
  "technical_qc_failure env claim error_code retryable db =
     (case fail_technical_qc_task env (qcc_task_id claim) (qcc_claim_id claim) error_code retryable
             (cfg_technical_qc_worker_max_attempts (env_settings env)) (cfg_technical_qc_worker_retry_delay_seconds (env_settings env)) db of
        Inl e \<Rightarrow> (Inl (Qc_Exn e), db)
      | Inr (recorded, db') \<Rightarrow> (Inr (if recorded then ''failed'' else ''skipped''), db'))"

text \<open>One transaction records the findings and completes the task.\<close>

definition finish_technical_qc :: "env \<Rightarrow> qc_claim \<Rightarrow> qc_error + qc_interval list \<Rightarrow> db \<Rightarrow> qc_error + string \<times> db" where
  "finish_technical_qc env claim scan db =
     ebind scan (\<lambda>intervals.
     ebind (persist_technical_qc_findings env claim intervals db) (\<lambda>(_, db').
       case complete_technical_qc_task env claim db' of
         (True, db'') \<Rightarrow> Inr (''complete'', db'')
       | (False, _) \<Rightarrow> Inr (''skipped'', db)))"

text \<open>
  After the scan; \<open>stopping\<close> is the flag of a worker that is shutting down. The findings are
  recorded at the instant of \<open>env\<close>, a failure at that of \<open>env'\<close>.
\<close>

definition process_technical_qc_claim ::
  "env \<Rightarrow> env \<Rightarrow> bool \<Rightarrow> qc_claim \<Rightarrow> qc_error + qc_interval list \<Rightarrow> db \<Rightarrow> (qc_error + string) \<times> db" where
  "process_technical_qc_claim env env' stopping claim scan db =
     (case finish_technical_qc env claim scan db of
        Inr (status, db') \<Rightarrow> (Inr status, db')
      | Inl (TechnicalQcFatalError code) \<Rightarrow> (Inl (TechnicalQcFatalError code), db)
      | Inl (TechnicalQcError code retryable) \<Rightarrow>
          if code = ''TECHNICAL_QC_LEASE_LOST'' \<or> (code = ''TECHNICAL_QC_SCAN_CANCELLED'' \<and> stopping) then (Inr ''skipped'', db)
          else technical_qc_failure env' claim code retryable db
      | Inl (Qc_Exn _) \<Rightarrow> technical_qc_failure env' claim ''TECHNICAL_QC_SCAN_FAILED'' True db)"

section \<open>What recording does\<close>

text \<open>An interval that becomes an issue.\<close>

lemma create_finding_Inr:
  assumes "create_finding env claim i (ids0, cr0, db0) = Inr (ids, cr, db)"
  obtains s where "ids = ids0 @ [iss_id s]" "cr = cr0 @ [s]" "db_issues db = db_issues db0 @ [s]"
    "core_of db = (core_of db0)\<lparr>co_issues := db_issues db0 @ [s]\<rparr>" "db_events db = db_events db0"
    "db_qc_tasks db = db_qc_tasks db0" "db_qc_findings db = db_qc_findings db0 @ [finding_row env claim i]"
    "iss_id s \<notin> iss_id ` set (db_issues db0)" "iss_id s = stable_child_id env ''iss'' (finding_identity env claim i)"
    "iss_review_item_id s = qcc_review_item_id claim" "iss_version_id s = qcc_version_id claim"
    "iss_project_ref_id s = qcc_project_ref_id claim" "open_issue s"
proof -
  define s where "s = finding_issue env claim i
    (max0 (map iss_issue_no (filter (\<lambda>s. iss_review_item_id s = qcc_review_item_id claim) (db_issues db0))) + 1)"
  obtain db1 db2 where ins: "insert_qc_finding (finding_row env claim i) db0 = Inr db1" "insert_issue s db1 = Inr db2"
    "insert_revision (issue_revision env s (iss_current_revision_id s) 1 (finding_body i) None) db2 = Inr db"
    and r: "ids = ids0 @ [iss_id s]" "cr = cr0 @ [s]"
    using assms by (auto simp: create_finding_def Let_def s_def)
  have db1: "db1 = db0\<lparr>db_qc_findings := db_qc_findings db0 @ [finding_row env claim i]\<rparr>"
    using ins(1) by (auto simp: insert_qc_finding_def row_insert_Inr_iff)
  have db2: "db2 = db1\<lparr>db_issues := db_issues db1 @ [s]\<rparr>" "iss_id s \<notin> iss_id ` set (db_issues db1)"
    using ins(2) by (auto simp: insert_issue_def row_insert_Inr_iff)
  obtain rows where db: "db = db2\<lparr>db_revisions := rows\<rparr>" using ins(3) by (auto simp: insert_revision_def)
  show ?thesis
    by (rule that [of s]) (use r db1 db2 db in \<open>simp_all add: core_of_def s_def finding_issue_def open_issue_def Let_def\<close>)
qed

lemma find_append: "List.find P (xs @ ys) = (case List.find P xs of None \<Rightarrow> List.find P ys | Some x \<Rightarrow> Some x)"
  by (induction xs) auto

lemma find_finding_snoc:
  "find_finding h db0 = Some f \<Longrightarrow> db_qc_findings db = db_qc_findings db0 @ rows \<Longrightarrow> find_finding h db = Some f"
  by (simp add: find_finding_def find_append)

text \<open>The issue of an interval, in a database that has its finding.\<close>

definition issue_of :: "env \<Rightarrow> qc_claim \<Rightarrow> db \<Rightarrow> qc_interval \<Rightarrow> string list" where
  "issue_of env claim db i =
     (case find_finding (finding_identity env claim i) db of
        None \<Rightarrow> []
      | Some f \<Rightarrow> (case qcf_issue_id f of None \<Rightarrow> [] | Some k \<Rightarrow> [k]))"

lemma record_existing:
  "find_finding (finding_identity env claim i) db = Some f \<Longrightarrow>
     record_finding env claim i (ids, cr, db) = Inr (ids @ issue_of env claim db i, cr, db)"
  by (simp add: record_finding_def issue_of_def split: option.splits)

lemma record_all_existing:
  "\<forall>i\<in>set ms. find_finding (finding_identity env claim i) db \<noteq> None \<Longrightarrow>
     efold (record_finding env claim) ms (ids, cr, db) = Inr (ids @ concat (map (issue_of env claim db) ms), cr, db)"
  by (induction ms arbitrary: ids) (auto simp: record_existing)

text \<open>The loop over the merged intervals.\<close>

definition recorded :: "env \<Rightarrow> qc_claim \<Rightarrow> qc_interval list \<Rightarrow> db \<Rightarrow> issue list \<Rightarrow> db \<Rightarrow> bool" where
  "recorded env claim ms db0 ss db \<longleftrightarrow>
     db_issues db = db_issues db0 @ ss \<and> core_of db = (core_of db0)\<lparr>co_issues := db_issues db0 @ ss\<rparr>
     \<and> db_events db = db_events db0 \<and> db_qc_tasks db = db_qc_tasks db0
     \<and> (\<exists>rows. db_qc_findings db = db_qc_findings db0 @ rows)
     \<and> (\<forall>i\<in>set ms. find_finding (finding_identity env claim i) db \<noteq> None)
     \<and> distinct (map iss_id ss) \<and> iss_id ` set ss \<inter> iss_id ` set (db_issues db0) = {}
     \<and> (\<forall>s\<in>set ss. iss_review_item_id s = qcc_review_item_id claim \<and> iss_version_id s = qcc_version_id claim
          \<and> iss_project_ref_id s = qcc_project_ref_id claim \<and> open_issue s)"

lemma record_one:
  assumes "record_finding env claim i (ids0, cr0, db0) = Inr (ids, cr, db)"
  shows "\<exists>ss. cr = cr0 @ ss \<and> ids = ids0 @ issue_of env claim db i \<and> recorded env claim [i] db0 ss db"
proof (cases "find_finding (finding_identity env claim i) db0")
  case (Some f)
  then show ?thesis
    using assms record_existing [OF Some, of ids0 cr0] by (intro exI [of _ "[]"]) (auto simp: recorded_def core_of_def)
next
  case None
  then have "create_finding env claim i (ids0, cr0, db0) = Inr (ids, cr, db)" using assms by (simp add: record_finding_def)
  then show ?thesis
  proof (rule create_finding_Inr)
    fix s
    assume s: "ids = ids0 @ [iss_id s]" "cr = cr0 @ [s]" "db_issues db = db_issues db0 @ [s]"
      "core_of db = (core_of db0)\<lparr>co_issues := db_issues db0 @ [s]\<rparr>" "db_events db = db_events db0"
      "db_qc_tasks db = db_qc_tasks db0" "db_qc_findings db = db_qc_findings db0 @ [finding_row env claim i]"
      "iss_id s \<notin> iss_id ` set (db_issues db0)" "iss_id s = stable_child_id env ''iss'' (finding_identity env claim i)"
      "iss_review_item_id s = qcc_review_item_id claim" "iss_version_id s = qcc_version_id claim"
      "iss_project_ref_id s = qcc_project_ref_id claim" "open_issue s"
    have "find_finding (finding_identity env claim i) db = Some (finding_row env claim i)"
      using None s(7) by (simp add: find_finding_def find_append finding_row_def Let_def)
    then show ?thesis
      using s by (intro exI [of _ "[s]"]) (simp add: recorded_def issue_of_def finding_row_def Let_def)
  qed
qed

lemma recorded_trans:
  assumes a: "recorded env claim ms db0 ss db1" and b: "recorded env claim ms' db1 ss' db2"
  shows "recorded env claim (ms @ ms') db0 (ss @ ss') db2"
proof -
  note a' = a [unfolded recorded_def] and b' = b [unfolded recorded_def]
  obtain r1 r2 where rows: "db_qc_findings db1 = db_qc_findings db0 @ r1" "db_qc_findings db2 = db_qc_findings db1 @ r2"
    using a' b' by (elim conjE exE)
  have found: "find_finding (finding_identity env claim i) db2 \<noteq> None" if i: "i \<in> set ms" for i
  proof -
    obtain f where f: "find_finding (finding_identity env claim i) db1 = Some f" using a' i by blast
    show ?thesis using find_finding_snoc [OF f rows(2)] by simp
  qed
  have issues: "db_issues db1 = db_issues db0 @ ss" "db_issues db2 = db_issues db1 @ ss'" using a' b' by blast+
  show ?thesis unfolding recorded_def
  proof (intro conjI)
    show "core_of db2 = (core_of db0)\<lparr>co_issues := db_issues db0 @ ss @ ss'\<rparr>"
      using conjunct1 [OF conjunct2 [OF a']] conjunct1 [OF conjunct2 [OF b']] issues by simp
    show "\<exists>rows. db_qc_findings db2 = db_qc_findings db0 @ rows" unfolding rows by simp
    show "\<forall>i\<in>set (ms @ ms'). find_finding (finding_identity env claim i) db2 \<noteq> None" using found b' by auto
    have "iss_id ` set ss' \<inter> iss_id ` set (db_issues db1) = {}" "iss_id ` set ss \<inter> iss_id ` set (db_issues db0) = {}"
      "distinct (map iss_id ss)" "distinct (map iss_id ss')" using a' b' by blast+
    then show "iss_id ` set (ss @ ss') \<inter> iss_id ` set (db_issues db0) = {}" "distinct (map iss_id (ss @ ss'))"
      unfolding issues by auto
  qed (use issues a' b' in auto)
qed

lemma issue_of_stable:
  assumes "recorded env claim ms db0 ss db" and "find_finding (finding_identity env claim i) db0 \<noteq> None"
  shows "issue_of env claim db i = issue_of env claim db0 i"
proof -
  obtain f rows where f: "find_finding (finding_identity env claim i) db0 = Some f" "db_qc_findings db = db_qc_findings db0 @ rows"
    using assms by (auto simp: recorded_def)
  show ?thesis using find_finding_snoc [OF f] f(1) by (simp add: issue_of_def)
qed

lemma record_loop:
  assumes "efold (record_finding env claim) ms (ids0, cr0, db0) = Inr (ids, cr, db)"
  shows "\<exists>ss. cr = cr0 @ ss \<and> ids = ids0 @ concat (map (issue_of env claim db) ms) \<and> recorded env claim ms db0 ss db"
  using assms
proof (induction ms arbitrary: ids0 cr0 db0)
  case Nil
  then show ?case by (simp add: recorded_def core_of_def)
next
  case (Cons m ms)
  obtain ids1 cr1 db1 where one: "record_finding env claim m (ids0, cr0, db0) = Inr (ids1, cr1, db1)"
    and rest: "efold (record_finding env claim) ms (ids1, cr1, db1) = Inr (ids, cr, db)"
    using Cons.prems by (auto simp: ebind_Inr_iff)
  obtain ss where ss: "cr1 = cr0 @ ss" "ids1 = ids0 @ issue_of env claim db1 m" "recorded env claim [m] db0 ss db1"
    using record_one [OF one] by blast
  obtain ss' where ss': "cr = cr1 @ ss'" "ids = ids1 @ concat (map (issue_of env claim db) ms)" "recorded env claim ms db1 ss' db"
    using Cons.IH [OF rest] by blast
  have "issue_of env claim db m = issue_of env claim db1 m" using issue_of_stable [OF ss'(3)] ss(3) by (simp add: recorded_def)
  then show ?case using ss ss' recorded_trans [OF ss(3) ss'(3)] by (intro exI [of _ "ss @ ss'"]) simp
qed

definition qc_frame :: "db \<Rightarrow> db \<Rightarrow> bool" where
  "qc_frame db db' \<longleftrightarrow> core_of db' = core_of db \<and> db_qc_findings db' = db_qc_findings db \<and> db_qc_tasks db' = db_qc_tasks db"

lemma qc_frame_trans: "qc_frame a b \<Longrightarrow> qc_frame b c \<Longrightarrow> qc_frame a c"
  by (simp add: qc_frame_def)

lemma event_qc_frame: "add_event env et c pid aty aid av ids pl db = Inr db' \<Longrightarrow> qc_frame db db'"
  using add_event_frame [of env et c pid aty aid av ids pl db db'] by (simp add: qc_frame_def core_of_def)

lemma announce_issue_frame: "announce_issue env claim i b x db = Inr db' \<Longrightarrow> qc_frame db db' \<and> sound_step db db'"
proof -
  assume a: "announce_issue env claim i b x db = Inr db'"
  obtain n s where x: "x = (n, s)" by fastforce
  obtain d where d: "record_review_issue_created env (qc_context claim) i s (b \<and> n = 0) db = Inr d"
    and db': "db' = add_operation_log env (qc_context claim) (qc_operation s) ''ok'' None None d"
    using a by (auto simp: announce_issue_def x ebind_Inr_iff)
  have "qc_frame db d"
    using d by (auto simp: record_review_issue_created_def issue_event_def ebind_Inr_iff split: if_splits
        dest!: event_qc_frame intro: qc_frame_trans)
  moreover have "qc_frame d db'" "sound_step d db'"
    unfolding db' by (auto simp: qc_frame_def add_operation_log_def core_of_def intro!: sound_frame)
  ultimately show ?thesis using record_created_sound [OF d] sound_trans qc_frame_trans by blast
qed

lemma announce_all_frame:
  "efold (announce_issue env claim i b) xs db = Inr db' \<Longrightarrow> qc_frame db db' \<and> sound_step db db'"
proof (induction xs arbitrary: db)
  case (Cons x xs)
  obtain d where d: "announce_issue env claim i b x db = Inr d" "efold (announce_issue env claim i b) xs d = Inr db'"
    using Cons.prems by (auto simp: ebind_Inr_iff)
  show ?case using announce_issue_frame [OF d(1)] Cons.IH [OF d(2)] qc_frame_trans sound_trans by blast
qed (simp add: qc_frame_def)

lemma find_finding_frame: "db_qc_findings db' = db_qc_findings db \<Longrightarrow> find_finding h db' = find_finding h db"
  by (simp add: find_finding_def)

lemma announce_findings_result:
  assumes ann: "announce_findings env claim item ss db1 = Inr db'" and rec: "recorded env claim ms db ss db1"
    and item: "item \<in> set (db_items db)" and new: "new_issues item (db_issues db) ss"
  shows "sound_step db db' \<and> db_qc_findings db' = db_qc_findings db1 \<and> db_qc_tasks db' = db_qc_tasks db1 \<and> db_issues db' = db_issues db1"
proof (cases "itm_workflow_status item = finalized")
  case True
  have a: "efold (announce_issue env claim item False) (enumerate 0 ss) db1 = Inr db'"
    using ann True by (simp add: announce_findings_def)
  have "review_step (core_of db) (core_of db1)"
    using issues_raised_finalized [of item "core_of db" ss] item True new rec by (simp add: recorded_def)
  then have "sound_step db db1" using rec by (intro sound_core) (simp_all add: recorded_def)
  moreover have "qc_frame db1 db' \<and> sound_step db1 db'" by (rule announce_all_frame [OF a])
  ultimately show ?thesis using sound_trans by (auto simp: qc_frame_def core_of_def)
next
  case False
  obtain i where i: "sync_item_workflow_for_current_issues env db1 item = Inr i"
    and a: "efold (announce_issue env claim i (itm_workflow_status item = pending_review)) (enumerate 0 ss) (put_item i db1) = Inr db'"
    using ann False by (auto simp: announce_findings_def ebind_Inr_iff)
  have "sound_step db (put_item i db1)"
    by (rule raise_issues_sound [where i = item and st = "itm_workflow_status item", OF _ _ i item False _ new])
      (use rec in \<open>simp_all add: recorded_def\<close>)
  moreover have "qc_frame (put_item i db1) db' \<and> sound_step (put_item i db1) db'" by (rule announce_all_frame [OF a])
  ultimately show ?thesis using sound_trans by (auto simp: qc_frame_def core_of_def put_item_def)
qed

lemma record_findings_Inr:
  assumes run: "record_findings env claim item is db = Inr (ids, db')"
    and item: "item \<in> set (db_items db)" "itm_id item = qcc_review_item_id claim" "itm_project_ref_id item = qcc_project_ref_id claim"
      "itm_current_version_id item = Some (qcc_version_id claim)"
  obtains ms ss where "merge_overlapping_intervals is = Inr ms" "\<forall>m\<in>set ms. find_finding (finding_identity env claim m) db' \<noteq> None"
    "ids = concat (map (issue_of env claim db') ms)" "db_qc_tasks db' = db_qc_tasks db" "db_issues db' = db_issues db @ ss"
    "sound_step db db'"
proof -
  obtain ms cr db1 where ms: "merge_overlapping_intervals is = Inr ms"
    and loop: "efold (record_finding env claim) ms ([], [], db) = Inr (ids, cr, db1)"
    and ann: "(if cr = [] then Inr db1 else announce_findings env claim item cr db1) = Inr db'"
    using run by (auto simp: record_findings_def ebind_Inr_iff)
  obtain ss where ss: "cr = ss" "ids = concat (map (issue_of env claim db1) ms)" "recorded env claim ms db ss db1"
    using record_loop [OF loop] by auto
  have new: "new_issues item (db_issues db) ss" using ss(3) item by (auto simp: recorded_def new_issues_def on_current_def)
  have tail: "sound_step db db' \<and> db_qc_findings db' = db_qc_findings db1 \<and> db_qc_tasks db' = db_qc_tasks db1 \<and> db_issues db' = db_issues db1"
  proof (cases "cr = []")
    case True
    then have "db' = db1" "core_of db1 = core_of db" "db_events db1 = db_events db"
      using ann ss by (auto simp: recorded_def core_of_def)
    then show ?thesis using sound_frame [of db1 db] by simp
  next
    case False
    then show ?thesis using announce_findings_result [OF _ ss(3) item(1) new] ann ss(1) by simp
  qed
  have found: "find_finding h db' = find_finding h db1" for h by (rule find_finding_frame) (use tail in blast)
  show ?thesis
  proof (rule that [OF ms])
    show "\<forall>m\<in>set ms. find_finding (finding_identity env claim m) db' \<noteq> None" using ss(3) by (simp add: found recorded_def)
    have "issue_of env claim db' = issue_of env claim db1" by (simp add: fun_eq_iff issue_of_def found)
    then show "ids = concat (map (issue_of env claim db') ms)" using ss(2) by simp
  qed (use tail ss(3) in \<open>simp_all add: recorded_def\<close>)
qed

lemma wrapped_Inr: "map_sum f id m = Inr x \<longleftrightarrow> m = Inr x"
  by (cases m) auto

lemma persist_Inr:
  assumes "persist_technical_qc_findings env claim is db = Inr (ids, db')"
  obtains item where "record_findings env claim item is db = Inr (ids, db')" "item \<in> set (db_items db)"
    "itm_id item = qcc_review_item_id claim" "itm_project_ref_id item = qcc_project_ref_id claim"
    "itm_current_version_id item = Some (qcc_version_id claim)"
proof -
  obtain item where find: "List.find (\<lambda>i. itm_id i = qcc_review_item_id claim \<and> itm_project_ref_id i = qcc_project_ref_id claim) (db_items db) = Some item"
    and c: "itm_current_version_id item = Some (qcc_version_id claim)" and r: "record_findings env claim item is db = Inr (ids, db')"
    using assms by (auto simp: persist_technical_qc_findings_def wrapped_Inr split: option.splits if_splits)
  show ?thesis using that [OF r _ _ _ c] find by (auto simp: find_Some_iff)
qed

section \<open>Once, and all or nothing\<close>

text \<open>
  C16. The findings of a version are reported once: when the same intervals of the same version are
  recorded again under the same rules - by the same worker or by one that repeats the check - no
  further issue is created, nothing changes, and the answer names the issues that exist.
\<close>

theorem findings_reported_once:
  assumes first: "persist_technical_qc_findings env claim is db = Inr (ids, db1)"
    and again: "persist_technical_qc_findings env' claim' is db1 = Inr (ids', db2)"
    and same: "qcc_version_id claim' = qcc_version_id claim" "qcc_rule_version claim' = qcc_rule_version claim"
      "env_sha256_hex env' = env_sha256_hex env"
  shows "db2 = db1 \<and> ids' = ids"
proof -
  have id: "finding_identity env' claim' = finding_identity env claim" using same by (simp add: fun_eq_iff finding_identity_def)
  obtain item where item: "record_findings env claim item is db = Inr (ids, db1)" "item \<in> set (db_items db)"
    "itm_id item = qcc_review_item_id claim" "itm_project_ref_id item = qcc_project_ref_id claim"
    "itm_current_version_id item = Some (qcc_version_id claim)" by (rule persist_Inr [OF first])
  obtain ms where ms: "merge_overlapping_intervals is = Inr ms" "\<forall>m\<in>set ms. find_finding (finding_identity env claim m) db1 \<noteq> None"
    "ids = concat (map (issue_of env claim db1) ms)" by (rule record_findings_Inr [OF item])
  obtain item' where "record_findings env' claim' item' is db1 = Inr (ids', db2)" by (rule persist_Inr [OF again])
  moreover have "efold (record_finding env' claim') ms ([], [], db1) = Inr (concat (map (issue_of env' claim' db1) ms), [], db1)"
    using record_all_existing [of ms env' claim' db1 "[]" "[]"] ms(2) by (simp add: id)
  ultimately have "db2 = db1" "ids' = concat (map (issue_of env' claim' db1) ms)" by (auto simp: record_findings_def ms(1))
  moreover have "issue_of env' claim' db1 = issue_of env claim db1" by (simp add: fun_eq_iff issue_of_def id)
  ultimately show ?thesis using ms(3) by simp
qed


lemma persist_sound: "persist_technical_qc_findings env claim is db = Inr (ids, db') \<Longrightarrow> sound_step db db'"
  by (elim persist_Inr) (erule record_findings_Inr)

lemma process_qc_sound: "sound_step db (snd (process_technical_qc_claim env env' stopping claim scan db))"
proof -
  have fail: "sound_step db (snd (technical_qc_failure env' claim code b db))" for code b
    using qc_updates_sound(3) by (auto simp: technical_qc_failure_def split: sum.splits)
  have "sound_step db d" if fin: "finish_technical_qc env claim scan db = Inr (s, d)" for s d
  proof -
    obtain "is" ids db1 where p: "persist_technical_qc_findings env claim is db = Inr (ids, db1)"
      and c: "(case complete_technical_qc_task env claim db1 of (True, db'') \<Rightarrow> Inr (''complete'', db'') | (False, _) \<Rightarrow> Inr (''skipped'', db))
        = (Inr (s, d) :: qc_error + string \<times> db)"
      using fin by (auto simp: finish_technical_qc_def ebind_Inr_iff)
    have "d = snd (complete_technical_qc_task env claim db1) \<or> d = db"
      using c by (cases "complete_technical_qc_task env claim db1") (auto split: bool.splits)
    then show ?thesis using complete_qc_sound persist_sound [OF p] sound_trans by blast
  qed
  then show ?thesis using fail by (auto simp: process_technical_qc_claim_def split: sum.splits qc_error.splits)
qed

section \<open>A concrete check\<close>

definition ex_scan :: "qc_interval list" where
  "ex_scan = [frames_interval 25 1 10 12 ''short_shot'' [(''frame_count'', JInt 2)]]"

lemma ex_running_sel:
  "db_items ex_running_db = [ex_item]" "db_issues ex_running_db = []" "db_revisions ex_running_db = []" "db_qc_findings ex_running_db = []"
  "db_events ex_running_db = []" "db_drawn ex_running_db = 1"
  by (simp_all add: ex_running_db_def put_qc_task_def ex_qc_db_def ex_ready_db_def ex_db_def empty_db_def)

lemma ex_claim_sel:
  "qcc_task_id ex_qc_claim = ''q1''" "qcc_claim_id ex_qc_claim = ''0''" "qcc_review_item_id ex_qc_claim = ''i1''"
  "qcc_project_ref_id ex_qc_claim = ''p1''" "qcc_version_id ex_qc_claim = ''v1''" "qcc_input_file_id ex_qc_claim = ex_file_id"
  "qcc_rule_version ex_qc_claim = RULE_VERSION"
  by (simp_all add: ex_qc_claim_def claim_payload_def claimed_task_def ex_qc_task_def ex_file_def)

lemma ex_locked:
  "lock_active_technical_qc_claim ex_running_db ''q1'' ''0'' 1000000 = Some (claimed_task 1000000 60 ''0'' ex_qc_task)"
  "merge_overlapping_intervals ex_scan = Inr ex_scan"
  by code_simp+

definition ex_found :: issue where
  "ex_found = finding_issue ex_env ex_qc_claim (hd ex_scan) 1"

definition ex_recorded_db :: db where
  "ex_recorded_db = ex_running_db\<lparr>db_qc_findings := [finding_row ex_env ex_qc_claim (hd ex_scan)], db_issues := [ex_found],
     db_revisions := [issue_revision ex_env ex_found (iss_current_revision_id ex_found) 1 (finding_body (hd ex_scan)) None]\<rparr>"

lemma ex_recorded: "efold (record_finding ex_env ex_qc_claim) ex_scan ([], [], ex_running_db) = Inr ([iss_id ex_found], [ex_found], ex_recorded_db)"
  by (simp add: ex_scan_def ex_found_def ex_recorded_db_def record_finding_def find_finding_def create_finding_def insert_qc_finding_def
      insert_issue_def insert_revision_def row_insert_def ex_running_sel max0_def Let_def)

lemmas ex_announce_defs = announce_findings_def sync_item_workflow_for_current_issues_def announce_issue_def record_review_issue_created_def
  issue_event_def add_event_def new_id_def insert_event_def row_insert_def ex_recorded_db_def put_item_def add_operation_log_def
  ex_running_sel ex_item_def ex_env_def DOMAIN_EVENT_TYPES_def event_payload_ok_def event_clash_def next_outbox_sequence_base_def max0_def

lemma ex_announced:
  obtains db' where "announce_findings ex_env ex_qc_claim ex_item [ex_found] ex_recorded_db = Inr db'"
    "map (\<lambda>i. (itm_id i, itm_project_ref_id i, itm_current_version_id i)) (db_items db') = [(''i1'', ''p1'', Some ''v1'')]"
    "db_projects db' = db_projects ex_running_db" "db_versions db' = db_versions ex_running_db" "db_tasks db' = db_tasks ex_running_db"
    "db_qc_tasks db' = db_qc_tasks ex_running_db"
proof -
  have ids: "dec_nat (Suc 0) = ''1''" "dec_nat (Suc (Suc 0)) = ''2''" by code_simp+
  have "succeeds (announce_findings ex_env ex_qc_claim ex_item [ex_found] ex_recorded_db)"
    by (simp add: ex_announce_defs succeeds_def Let_def ids)
  then obtain db' where run: "announce_findings ex_env ex_qc_claim ex_item [ex_found] ex_recorded_db = Inr db'" by (rule succeedsE)
  show ?thesis by (rule that [OF run]) (use run in \<open>auto simp: ex_announce_defs Let_def ids row_put_def\<close>)
qed

text \<open>The lease is still active after the findings were recorded.\<close>

lemma ex_lock_kept:
  assumes "map (\<lambda>i. (itm_id i, itm_project_ref_id i, itm_current_version_id i)) (db_items db') = [(''i1'', ''p1'', Some ''v1'')]"
    "db_projects db' = db_projects ex_running_db" "db_versions db' = db_versions ex_running_db" "db_tasks db' = db_tasks ex_running_db"
    "db_qc_tasks db' = db_qc_tasks ex_running_db"
  shows "lock_active_technical_qc_claim db' ''q1'' ''0'' 1000000 = Some (claimed_task 1000000 60 ''0'' ex_qc_task)"
proof -
  obtain i where i: "db_items db' = [i]" "itm_id i = ''i1''" "itm_project_ref_id i = ''p1''" "itm_current_version_id i = Some ''v1''"
    using assms(1) by auto
  have "current_input db' t = current_input ex_running_db t" for t
    using i assms(2-4) unfolding current_input_def ready_playback_def active_project_def by (simp add: ex_running_sel ex_item_def)
  then show ?thesis using ex_locked(1) assms(5) unfolding lock_active_technical_qc_claim_def by simp
qed

lemma ex_persisted:
  obtains db1 where "persist_technical_qc_findings ex_env ex_qc_claim ex_scan ex_running_db = Inr ([iss_id ex_found], db1)"
    "persist_technical_qc_findings ex_env ex_qc_claim ex_scan db1 = Inr ([iss_id ex_found], db1)"
    "lock_active_technical_qc_claim db1 ''q1'' ''0'' 1000000 = Some (claimed_task 1000000 60 ''0'' ex_qc_task)"
proof (rule ex_announced)
  fix db1
  assume db1: "announce_findings ex_env ex_qc_claim ex_item [ex_found] ex_recorded_db = Inr db1"
    "map (\<lambda>i. (itm_id i, itm_project_ref_id i, itm_current_version_id i)) (db_items db1) = [(''i1'', ''p1'', Some ''v1'')]"
    "db_projects db1 = db_projects ex_running_db" "db_versions db1 = db_versions ex_running_db" "db_tasks db1 = db_tasks ex_running_db"
    "db_qc_tasks db1 = db_qc_tasks ex_running_db"
  have task: "qct_version_id (claimed_task 1000000 60 ''0'' ex_qc_task) = ''v1''" "qct_input_file_id (claimed_task 1000000 60 ''0'' ex_qc_task) = ex_file_id"
    "qct_rule_version (claimed_task 1000000 60 ''0'' ex_qc_task) = RULE_VERSION" by (simp_all add: claimed_task_def ex_qc_task_def)
  have item: "itm_id ex_item = ''i1''" "itm_project_ref_id ex_item = ''p1''" "itm_current_version_id ex_item = Some ''v1''" by (simp_all add: ex_item_def)
  have rec: "record_findings ex_env ex_qc_claim ex_item ex_scan ex_running_db = Inr ([iss_id ex_found], db1)"
    by (simp add: record_findings_def ex_locked(2) ex_recorded db1(1))
  have first: "persist_technical_qc_findings ex_env ex_qc_claim ex_scan ex_running_db = Inr ([iss_id ex_found], db1)"
    by (simp add: persist_technical_qc_findings_def ex_claim_sel ex_env_sel ex_locked(1) task item ex_running_sel rec)
  obtain ms where ms: "merge_overlapping_intervals ex_scan = Inr ms" "\<forall>m\<in>set ms. find_finding (finding_identity ex_env ex_qc_claim m) db1 \<noteq> None"
    "[iss_id ex_found] = concat (map (issue_of ex_env ex_qc_claim db1) ms)"
    by (rule record_findings_Inr [OF rec]) (simp_all add: ex_running_sel item ex_claim_sel)
  obtain i where i: "db_items db1 = [i]" "itm_id i = ''i1''" "itm_project_ref_id i = ''p1''" "itm_current_version_id i = Some ''v1''"
    using db1(2) by auto
  have lock: "lock_active_technical_qc_claim db1 ''q1'' ''0'' 1000000 = Some (claimed_task 1000000 60 ''0'' ex_qc_task)"
    by (rule ex_lock_kept [OF db1(2-6)])
  have "efold (record_finding ex_env ex_qc_claim) ms ([], [], db1) = Inr ([iss_id ex_found], [], db1)"
    using record_all_existing [OF ms(2), of "[]" "[]"] ms(3) by simp
  then have "record_findings ex_env ex_qc_claim i ex_scan db1 = Inr ([iss_id ex_found], db1)" by (simp add: record_findings_def ms(1))
  then have "persist_technical_qc_findings ex_env ex_qc_claim ex_scan db1 = Inr ([iss_id ex_found], db1)"
    by (simp add: persist_technical_qc_findings_def ex_claim_sel ex_env_sel lock task i)
  then show ?thesis using that first lock by blast
qed

theorem findings_reported_once_witness:
  "\<exists>db1 ids db2. persist_technical_qc_findings ex_env ex_qc_claim ex_scan ex_running_db = Inr ([iss_id ex_found], db1)
     \<and> persist_technical_qc_findings ex_env ex_qc_claim ex_scan db1 = Inr (ids, db2) \<and> db2 = db1 \<and> ids = [iss_id ex_found]"
proof (rule ex_persisted)
  fix db1
  assume "persist_technical_qc_findings ex_env ex_qc_claim ex_scan ex_running_db = Inr ([iss_id ex_found], db1)"
    "persist_technical_qc_findings ex_env ex_qc_claim ex_scan db1 = Inr ([iss_id ex_found], db1)"
  then show ?thesis using findings_reported_once [of ex_env ex_qc_claim ex_scan ex_running_db _ db1 ex_env ex_qc_claim] by blast
qed


end
