(* ===== verification/Deletion_Cleanup.thy ===== *)
theory Deletion_Cleanup
  imports Deletion_Safety Samples
begin

text \<open>
  The second half of a durable deletion, in \<open>src/backend/app/maintenance_cleanup.py\<close>: a cleaner
  claims the recorded intents under a lease, removes the stored files of each - only those that still
  have the identity and the content that the deletion captured - and records for every artifact and
  every intent what was achieved. What the operating system answers to a removal is a parameter.
\<close>

section \<open>Storage\<close>

text \<open>
  The exceptions a removal can raise, as far as the error code distinguishes them: a
  \<open>UnicodeError\<close> is a \<open>ValueError\<close>, the last constructor stands for every other
  \<open>OSError\<close>.
\<close>

datatype fault = Permission_Denied | Timed_Out | Unsafe_Path | Bad_Value | Io_Failure

definition review_deletion_error_code :: "fault \<Rightarrow> string" where
  "review_deletion_error_code error =
     (case error of
        Permission_Denied \<Rightarrow> ''DELETION_ARTIFACT_PERMISSION_DENIED''
      | Timed_Out \<Rightarrow> ''DELETION_ARTIFACT_TIMEOUT''
      | Unsafe_Path \<Rightarrow> ''DELETION_ARTIFACT_IDENTITY_MISMATCH''
      | Bad_Value \<Rightarrow> ''DELETION_ARTIFACT_IDENTITY_MISMATCH''
      | Io_Failure \<Rightarrow> ''DELETION_ARTIFACT_IO_RETRY_PENDING'')"

text \<open>
  An entry of the quarantine directory, as far as it could be read: the manifest (\<open>None\<close> when it
  is missing, of a refused size or not JSON) and the device and inode of the quarantined target when
  that is a regular file. The storage operations: the error behind an unreadable path, the entries of the
  quarantine (\<open>None\<close> inside the list for an entry that cannot be opened, outside it for a
  missing directory), the removal of a pinned file, and the journaled removal of a package file
  (\<open>delete_claimed_package_artifact\<close>), which say whether a file was removed.
\<close>

record quarantine_entry =
  qe_manifest :: "json option"
  qe_target :: "(int \<times> int) option"

record removals =
  rm_os_error :: "path \<Rightarrow> fault"
  rm_quarantine :: "fault + quarantine_entry option list option"
  rm_unlink :: "path \<Rightarrow> fault + bool"
  rm_package :: "string \<Rightarrow> string \<Rightarrow> deletion_artifact \<Rightarrow> fault + bool"

definition REVIEW_DELETION_QUARANTINE_SCAN_MAX_ENTRIES :: nat where
  "REVIEW_DELETION_QUARANTINE_SCAN_MAX_ENTRIES = 10000"

text \<open>\<open>value == number\<close>, where Python counts the booleans as numbers.\<close>

definition json_is_int :: "json option \<Rightarrow> int \<Rightarrow> bool" where
  "json_is_int j n =
     (case j of Some (JInt m) \<Rightarrow> m = n | Some (JBool b) \<Rightarrow> (if b then 1 else 0) = n | _ \<Rightarrow> False)"

definition manifest_names :: "deletion_artifact \<Rightarrow> string \<Rightarrow> json \<Rightarrow> bool" where
  "manifest_names a expected_name manifest =
     (case manifest of
        JObj _ \<Rightarrow>
          let identity = (case jget manifest ''identity'' of None \<Rightarrow> manifest | Some j \<Rightarrow> j)
          in jget manifest ''name'' = Some (JStr expected_name) \<and> (case identity of JObj _ \<Rightarrow> True | _ \<Rightarrow> False)
             \<and> json_is_int (jget identity ''device'') (dla_expected_device a)
             \<and> json_is_int (jget identity ''inode'') (dla_expected_inode a)
             \<and> json_is_int (jget identity ''size'') (dla_expected_size a)
      | _ \<Rightarrow> False)"

definition quarantine_holds :: "deletion_artifact \<Rightarrow> string \<Rightarrow> quarantine_entry \<Rightarrow> bool" where
  "quarantine_holds a expected_name e \<longleftrightarrow>
     qe_target e = Some (dla_expected_device a, dla_expected_inode a)
     \<or> (case qe_manifest e of None \<Rightarrow> False | Some manifest \<Rightarrow> manifest_names a expected_name manifest)"

fun scan_quarantine :: "deletion_artifact \<Rightarrow> string \<Rightarrow> nat \<Rightarrow> quarantine_entry option list \<Rightarrow> fault + bool" where
  "scan_quarantine a expected_name index [] = Inr False"
| "scan_quarantine a expected_name index (e # entries) =
     (if index \<ge> REVIEW_DELETION_QUARANTINE_SCAN_MAX_ENTRIES then Inl Unsafe_Path
      else
        case e of
          None \<Rightarrow> scan_quarantine a expected_name (Suc index) entries
        | Some q \<Rightarrow>
            if quarantine_holds a expected_name q then Inr True
            else scan_quarantine a expected_name (Suc index) entries)"

definition review_deletion_target_is_quarantined :: "removals \<Rightarrow> deletion_artifact \<Rightarrow> fault + bool" where
  "review_deletion_target_is_quarantined ops a =
     (let parts = path_parts (dla_relative_logical_target a)
      in if path_root_of (dla_relative_logical_target a) \<noteq> Relative \<or> length parts \<noteq> 2 \<or> hd parts \<noteq> ''files'' then Inr False
         else ebind (rm_quarantine ops) (\<lambda>entries.
           case entries of None \<Rightarrow> Inr False | Some es \<Rightarrow> scan_quarantine a (parts ! 1) 0 es))"

definition fault_of_path :: "exn + path \<Rightarrow> fault + path" where
  "fault_of_path m = map_sum (\<lambda>e. if e = ValueError then Bad_Value else Unsafe_Path) id m"

definition pinned_sha256 :: "removals \<Rightarrow> path \<Rightarrow> file_identity \<Rightarrow> fault + string" where
  "pinned_sha256 ops p i = (if fid_readable i then Inr (fid_sha256 i) else Inl (rm_os_error ops p))"

text \<open>The checks of a pinned file against what the deletion captured.\<close>

definition captured_identity :: "deletion_artifact \<Rightarrow> file_identity \<Rightarrow> bool" where
  "captured_identity a i \<longleftrightarrow> fid_device i = dla_expected_device a \<and> fid_inode i = dla_expected_inode a
     \<and> fid_ctime_ns i = dla_expected_ctime_ns a \<and> fid_size i = dla_expected_size a"

definition check_captured :: "removals \<Rightarrow> deletion_artifact \<Rightarrow> path \<Rightarrow> file_identity \<Rightarrow> fault + unit" where
  "check_captured ops a p i =
     ebind (guard (captured_identity a i) Unsafe_Path) (\<lambda>_.
     ebind (pinned_sha256 ops p i) (\<lambda>digest. guard (digest = dla_expected_sha256 a) Unsafe_Path))"

text \<open>\<open>PACKAGE_FILE_RE\<close>: the package a file name belongs to.\<close>

definition PACKAGE_FILE_RE :: "string \<Rightarrow> string option" where
  "PACKAGE_FILE_RE name =
     (let stem = take (length name - 4) name
      in if name = stem @ ''.zip'' \<and> hex_id ''pkg'' stem then Some stem else None)"

datatype removal = Nothing_Left | Unlink_File path | Delete_Package string

definition file_removal :: "env \<Rightarrow> removals \<Rightarrow> deletion_artifact \<Rightarrow> string \<Rightarrow> fault + removal" where
  "file_removal env ops a name =
     ebind (guard (managed_file_id name) Unsafe_Path) (\<lambda>_.
     ebind (fault_of_path (contained_path (dla_relative_logical_target a) (cfg_storage_root (env_settings env)))) (\<lambda>target.
     case env_pin_storage env target of
       Pin_Unsafe \<Rightarrow> Inl Unsafe_Path
     | Pin_OSError \<Rightarrow> Inl (rm_os_error ops target)
     | Pin_Missing \<Rightarrow>
         ebind (review_deletion_target_is_quarantined ops a) (\<lambda>quarantined.
         ebind (guard (\<not> quarantined) Unsafe_Path) (\<lambda>_. Inr Nothing_Left))
     | Pin_File i \<Rightarrow> ebind (check_captured ops a target i) (\<lambda>_. Inr (Unlink_File target))))"

definition package_removal :: "env \<Rightarrow> removals \<Rightarrow> deletion_artifact \<Rightarrow> string \<Rightarrow> fault + removal" where
  "package_removal env ops a name =
     ebind (of_option Unsafe_Path (PACKAGE_FILE_RE name)) (\<lambda>package_id.
     ebind (fault_of_path (contained_path name (cfg_package_root (env_settings env)))) (\<lambda>target.
     case env_pin_package env target of
       Pin_Unsafe \<Rightarrow> Inl Unsafe_Path
     | Pin_OSError \<Rightarrow> Inl (rm_os_error ops target)
     | Pin_Missing \<Rightarrow> Inr (Delete_Package package_id)
     | Pin_File i \<Rightarrow> ebind (check_captured ops a target i) (\<lambda>_. Inr (Delete_Package package_id))))"

text \<open>
  \<open>_delete_review_deletion_artifact\<close> up to the removal itself. The artifact kinds are an
  enumeration, so every kind has a namespace.
\<close>

definition artifact_removal :: "env \<Rightarrow> removals \<Rightarrow> deletion_artifact \<Rightarrow> fault + removal" where
  "artifact_removal env ops a =
     (let target = dla_relative_logical_target a; parts = path_parts target;
          expected_namespace = (if dla_artifact_kind a = project_package then ''packages'' else ''files'')
      in ebind (guard (path_root_of target = Relative \<and> length parts = 2) Unsafe_Path) (\<lambda>_.
         ebind (guard (parts ! 0 = expected_namespace) Unsafe_Path) (\<lambda>_.
         ebind (guard (length (dla_expected_sha256 a) = 64) Unsafe_Path) (\<lambda>_.
         if parts ! 0 = ''files'' then file_removal env ops a (parts ! 1) else package_removal env ops a (parts ! 1)))))"

definition delete_review_deletion_artifact :: "env \<Rightarrow> removals \<Rightarrow> string \<Rightarrow> deletion_artifact \<Rightarrow> fault + bool" where
  "delete_review_deletion_artifact env ops claim_id a =
     ebind (artifact_removal env ops a) (\<lambda>r.
     case r of
       Nothing_Left \<Rightarrow> Inr False
     | Unlink_File p \<Rightarrow> rm_unlink ops p
     | Delete_Package package_id \<Rightarrow> rm_package ops package_id claim_id a)"

section \<open>Claiming intents\<close>

definition put_intent :: "deletion_intent \<Rightarrow> db \<Rightarrow> db" where
  "put_intent d db = db\<lparr>db_intents := row_put dli_id d (db_intents db)\<rparr>"

definition put_artifact :: "deletion_artifact \<Rightarrow> db \<Rightarrow> db" where
  "put_artifact a db = db\<lparr>db_artifacts := row_put dla_id a (db_artifacts db)\<rparr>"

definition REVIEW_DELETION_CLEANUP_BATCH_SIZE :: nat where
  "REVIEW_DELETION_CLEANUP_BATCH_SIZE = 100"

definition REVIEW_DELETION_CLEANUP_LEASE_SECONDS :: int where
  "REVIEW_DELETION_CLEANUP_LEASE_SECONDS = 300"

definition intent_eligible :: "int \<Rightarrow> deletion_intent \<Rightarrow> bool" where
  "intent_eligible now d \<longleftrightarrow> dli_status d = intent_pending \<or> dli_status d = intent_failed
     \<or> (dli_status d = intent_cleaning \<and> (case dli_cleanup_claim_expires_at d of None \<Rightarrow> False | Some e \<Rightarrow> e \<le> now))"

definition claimed_intent :: "int \<Rightarrow> int \<Rightarrow> string \<Rightarrow> deletion_intent \<Rightarrow> deletion_intent" where
  "claimed_intent now lease_seconds claim_id d =
     d\<lparr>dli_status := intent_cleaning, dli_attempts := dli_attempts d + 1, dli_last_error_code := None,
       dli_cleanup_claim_id := Some claim_id, dli_cleanup_claim_expires_at := Some (now + seconds lease_seconds),
       dli_updated_at := now\<rparr>"

definition claim_intent :: "env \<Rightarrow> int \<Rightarrow> deletion_intent \<Rightarrow> (string \<times> string) list \<times> db \<Rightarrow> (string \<times> string) list \<times> db" where
  "claim_intent env lease_seconds d acc =
     (case acc of (claims, db) \<Rightarrow>
        let (claim_id, db) = new_id env ''cleanup'' db
        in (claims @ [(dli_id d, claim_id)], put_intent (claimed_intent (env_now env) lease_seconds claim_id d) db))"

definition eligible_intents :: "int \<Rightarrow> string list option \<Rightarrow> nat \<Rightarrow> db \<Rightarrow> deletion_intent list" where
  "eligible_intents now intent_ids batch_size db =
     take batch_size (order_by (\<lambda>d. (dli_updated_at d, dli_id d))
       (filter (\<lambda>d. intent_eligible now d \<and> (case intent_ids of None \<Rightarrow> True | Some ids \<Rightarrow> dli_id d \<in> set ids)) (db_intents db)))"

definition claim_review_deletion_intents ::
  "env \<Rightarrow> string list option \<Rightarrow> nat \<Rightarrow> int \<Rightarrow> db \<Rightarrow> exn + (string \<times> string) list \<times> db" where
  "claim_review_deletion_intents env intent_ids batch_size lease_seconds db =
     ebind (guard (1 \<le> batch_size \<and> batch_size \<le> REVIEW_DELETION_CLEANUP_BATCH_SIZE) ValueError) (\<lambda>_.
     ebind (guard (\<not> lease_seconds < 1) ValueError) (\<lambda>_.
     if intent_ids = Some [] then Inr ([], db)
     else Inr (fold (claim_intent env lease_seconds) (eligible_intents (env_now env) intent_ids batch_size db) ([], db))))"

section \<open>Removing the artifacts of a claimed intent\<close>

definition lock_intent :: "string \<Rightarrow> string \<Rightarrow> db \<Rightarrow> deletion_intent option" where
  "lock_intent intent_id claim_id db =
     List.find (\<lambda>d. dli_id d = intent_id \<and> dli_status d = intent_cleaning \<and> dli_cleanup_claim_id d = Some claim_id) (db_intents db)"

definition lock_artifact :: "string \<Rightarrow> string \<Rightarrow> db \<Rightarrow> deletion_artifact option" where
  "lock_artifact artifact_id claim_id db =
     List.find (\<lambda>a. dla_id a = artifact_id \<and> lock_intent (dla_deletion_intent_id a) claim_id db \<noteq> None) (db_artifacts db)"

text \<open>The transaction after the removal was tried; it says whether a failure was recorded.\<close>

definition settled_artifact :: "int \<Rightarrow> fault + bool \<Rightarrow> deletion_artifact \<Rightarrow> deletion_artifact" where
  "settled_artifact now outcome a =
     (case outcome of
        Inl error \<Rightarrow>
          a\<lparr>dla_status := artifact_failed, dla_attempts := dla_attempts a + 1,
            dla_last_error_code := Some (review_deletion_error_code error), dla_updated_at := now\<rparr>
      | Inr _ \<Rightarrow>
          a\<lparr>dla_status := artifact_deleted, dla_attempts := dla_attempts a + 1, dla_last_error_code := None,
            dla_deleted_at := Some now, dla_updated_at := now\<rparr>)"

definition record_artifact_outcome :: "env \<Rightarrow> string \<Rightarrow> string \<Rightarrow> fault + bool \<Rightarrow> db \<Rightarrow> bool \<times> db" where
  "record_artifact_outcome env artifact_id claim_id outcome db =
     (case lock_artifact artifact_id claim_id db of
        None \<Rightarrow> (False, db)
      | Some a \<Rightarrow> (isl outcome, put_artifact (settled_artifact (env_now env) outcome a) db))"

definition cleanup_artifact :: "env \<Rightarrow> removals \<Rightarrow> string \<Rightarrow> string \<Rightarrow> bool \<times> db \<Rightarrow> bool \<times> db" where
  "cleanup_artifact env ops claim_id artifact_id acc =
     (case acc of (had_failure, db) \<Rightarrow>
        (case lock_artifact artifact_id claim_id db of
           None \<Rightarrow> acc
         | Some a \<Rightarrow>
             if dla_status a = artifact_deleted then acc
             else
               let (not_removed, db) = record_artifact_outcome env artifact_id claim_id (delete_review_deletion_artifact env ops claim_id a) db
               in (had_failure \<or> not_removed, db)))"

definition open_artifact :: "string \<Rightarrow> deletion_artifact \<Rightarrow> bool" where
  "open_artifact intent_id a \<longleftrightarrow> dla_deletion_intent_id a = intent_id \<and> dla_status a \<noteq> artifact_deleted"

definition settled_intent :: "int \<Rightarrow> int \<Rightarrow> bool \<Rightarrow> deletion_intent \<Rightarrow> deletion_intent" where
  "settled_intent now remaining had_failure d =
     (let d = d\<lparr>dli_cleanup_claim_id := None, dli_cleanup_claim_expires_at := None, dli_updated_at := now\<rparr>
      in if remaining = 0
         then d\<lparr>dli_status := intent_complete, dli_completed_at := Some now, dli_last_error_code := None\<rparr>
         else d\<lparr>dli_status := intent_failed, dli_completed_at := None,
                dli_last_error_code := Some (if had_failure then ''DELETION_ARTIFACT_RETRY_PENDING'' else ''DELETION_ARTIFACT_INCOMPLETE'')\<rparr>)"

text \<open>The last transaction of an intent; the answer says whether it is complete.\<close>

definition settle_intent :: "env \<Rightarrow> string \<Rightarrow> string \<Rightarrow> bool \<Rightarrow> db \<Rightarrow> bool option \<times> db" where
  "settle_intent env intent_id claim_id had_failure db =
     (case lock_intent intent_id claim_id db of
        None \<Rightarrow> (None, db)
      | Some d \<Rightarrow>
          let remaining = count_rows (open_artifact intent_id) (db_artifacts db)
          in (Some (remaining = 0), put_intent (settled_intent (env_now env) remaining had_failure d) db))"

definition cleanup_claimed_review_deletion :: "env \<Rightarrow> removals \<Rightarrow> string \<times> string \<Rightarrow> db \<Rightarrow> bool option \<times> db" where
  "cleanup_claimed_review_deletion env ops claim db =
     (case claim of (intent_id, claim_id) \<Rightarrow>
        if lock_intent intent_id claim_id db = None then (None, db)
        else
          let artifact_ids = map dla_id (order_by dla_id (filter (open_artifact intent_id) (db_artifacts db)));
              (had_failure, db) = fold (cleanup_artifact env ops claim_id) artifact_ids (False, db)
          in settle_intent env intent_id claim_id had_failure db)"

definition cleanup_claimed_review_deletions ::
  "env \<Rightarrow> removals \<Rightarrow> (string \<times> string) list \<Rightarrow> db \<Rightarrow> (nat \<times> nat) \<times> db" where
  "cleanup_claimed_review_deletions env ops claims db =
     fold (\<lambda>claim ((completed, failed), db).
       case cleanup_claimed_review_deletion env ops claim db of
         (None, db) \<Rightarrow> ((completed, failed), db)
       | (Some True, db) \<Rightarrow> ((Suc completed, failed), db)
       | (Some False, db) \<Rightarrow> ((completed, Suc failed), db)) claims ((0, 0), db)"

definition process_review_deletion_intents ::
  "env \<Rightarrow> removals \<Rightarrow> string list option \<Rightarrow> db \<Rightarrow> exn + (nat \<times> nat) \<times> db" where
  "process_review_deletion_intents env ops intent_ids db =
     ebind (claim_review_deletion_intents env intent_ids REVIEW_DELETION_CLEANUP_BATCH_SIZE
              REVIEW_DELETION_CLEANUP_LEASE_SECONDS db) (\<lambda>(claims, db).
     Inr (cleanup_claimed_review_deletions env ops claims db))"

section \<open>A pass over one intent\<close>

lemma settled_artifact_sel [simp]:
  "dla_id (settled_artifact now r a) = dla_id a" "dla_deletion_intent_id (settled_artifact now r a) = dla_deletion_intent_id a"
  "dla_status (settled_artifact now r a) = (if isl r then artifact_failed else artifact_deleted)"
  by (simp_all add: settled_artifact_def split: sum.splits)

lemma lock_intent_artifacts [simp]: "lock_intent k c (db\<lparr>db_artifacts := xs\<rparr>) = lock_intent k c db"
  by (simp add: lock_intent_def)

lemma lock_artifact_open:
  assumes "distinct (map dla_id (db_artifacts db))" and "a \<in> set (db_artifacts db)"
    and "lock_intent (dla_deletion_intent_id a) c db \<noteq> None"
  shows "lock_artifact (dla_id a) c db = Some a"
proof -
  obtain b where b: "lock_artifact (dla_id a) c db = Some b"
    using assms(2,3) by (cases "lock_artifact (dla_id a) c db") (auto simp: lock_artifact_def find_None_iff)
  then have "b \<in> set (db_artifacts db)" "dla_id b = dla_id a" by (auto simp: lock_artifact_def dest: find_SomeD)
  then have "b = a" using assms(1,2) by (simp add: distinct_map inj_on_def)
  with b show ?thesis by simp
qed

text \<open>What the loop over the artifacts does, as one update of the table.\<close>

lemma cleanup_loop:
  assumes "distinct (map dla_id (db_artifacts db))" and "lock_intent k c db \<noteq> None" and "distinct xs"
    and "\<forall>x\<in>set xs. \<exists>a\<in>set (db_artifacts db). dla_id a = x \<and> open_artifact k a"
  shows "fold (cleanup_artifact env ops c) xs (h, db) =
    (h \<or> list_ex (\<lambda>a. dla_id a \<in> set xs \<and> isl (delete_review_deletion_artifact env ops c a)) (db_artifacts db),
     db\<lparr>db_artifacts := map (\<lambda>a. if dla_id a \<in> set xs then settled_artifact (env_now env) (delete_review_deletion_artifact env ops c a) a else a)
          (db_artifacts db)\<rparr>)"
  using assms
proof (induction xs arbitrary: h db)
  case Nil
  then show ?case by (simp add: list_ex_iff)
next
  case (Cons x xs)
  let ?r = "delete_review_deletion_artifact env ops c"
  obtain a where a: "a \<in> set (db_artifacts db)" "dla_id a = x" "open_artifact k a" using Cons.prems(4) by auto
  have only: "q = a" if "q \<in> set (db_artifacts db)" "dla_id q = x" for q
    using that a Cons.prems(1) by (simp add: distinct_map inj_on_def)
  have lock: "lock_artifact x c db = Some a"
    using lock_artifact_open [OF Cons.prems(1) a(1)] Cons.prems(2) a(2,3) by (simp add: open_artifact_def)
  define rows where "rows = row_put dla_id (settled_artifact (env_now env) (?r a) a) (db_artifacts db)"
  have rows: "rows = map (\<lambda>q. if dla_id q = x then settled_artifact (env_now env) (?r q) q else q) (db_artifacts db)"
    unfolding rows_def row_put_def using only a(2) by (auto intro!: map_cong)
  have first: "cleanup_artifact env ops c x (h, db) = (h \<or> isl (?r a), db\<lparr>db_artifacts := rows\<rparr>)"
    using lock a(3) by (simp add: cleanup_artifact_def record_artifact_outcome_def put_artifact_def rows_def open_artifact_def)
  have open_left: "\<forall>y\<in>set xs. \<exists>b\<in>set rows. dla_id b = y \<and> open_artifact k b"
  proof
    fix y assume y: "y \<in> set xs"
    then have "y \<noteq> x" using Cons.prems(3) by auto
    obtain b where b: "b \<in> set (db_artifacts db)" "dla_id b = y" "open_artifact k b" using Cons.prems(4) y by auto
    then have "b \<in> set rows" using \<open>y \<noteq> x\<close> unfolding rows by force
    with b show "\<exists>b\<in>set rows. dla_id b = y \<and> open_artifact k b" by blast
  qed
  have "distinct (map dla_id rows)" using Cons.prems(1) by (simp add: rows_def)
  then have rest: "fold (cleanup_artifact env ops c) xs (h \<or> isl (?r a), db\<lparr>db_artifacts := rows\<rparr>) =
      ((h \<or> isl (?r a)) \<or> list_ex (\<lambda>b. dla_id b \<in> set xs \<and> isl (?r b)) rows,
       db\<lparr>db_artifacts := map (\<lambda>b. if dla_id b \<in> set xs then settled_artifact (env_now env) (?r b) b else b) rows\<rparr>)"
    using Cons.IH [of "db\<lparr>db_artifacts := rows\<rparr>" "h \<or> isl (?r a)"] Cons.prems(2,3) open_left by simp
  have "list_ex (\<lambda>b. dla_id b \<in> set xs \<and> isl (?r b)) rows = list_ex (\<lambda>b. dla_id b \<in> set xs \<and> isl (?r b)) (db_artifacts db)"
    using Cons.prems(3) by (auto simp: rows list_ex_iff)
  moreover have "list_ex (\<lambda>b. dla_id b \<in> set (x # xs) \<and> isl (?r b)) (db_artifacts db)
      = (isl (?r a) \<or> list_ex (\<lambda>b. dla_id b \<in> set xs \<and> isl (?r b)) (db_artifacts db))"
    unfolding list_ex_iff using only a(1,2) by (metis list.set_intros set_ConsD)
  moreover have "map (\<lambda>b. if dla_id b \<in> set xs then settled_artifact (env_now env) (?r b) b else b) rows
      = map (\<lambda>b. if dla_id b \<in> set (x # xs) then settled_artifact (env_now env) (?r b) b else b) (db_artifacts db)"
    using Cons.prems(3) by (auto simp: rows)
  ultimately show ?case by (simp add: first rest)
qed

definition artifact_fails :: "env \<Rightarrow> removals \<Rightarrow> string \<Rightarrow> string \<Rightarrow> deletion_artifact \<Rightarrow> bool" where
  "artifact_fails env ops k c a \<longleftrightarrow> open_artifact k a \<and> isl (delete_review_deletion_artifact env ops c a)"

lemma cleanup_pass:
  assumes "distinct (map dla_id (db_artifacts db))" and "lock_intent k c db = Some d"
  shows "cleanup_claimed_review_deletion env ops (k, c) db =
    (let fails = list_ex (artifact_fails env ops k c) (db_artifacts db);
         d = d\<lparr>dli_cleanup_claim_id := None, dli_cleanup_claim_expires_at := None, dli_updated_at := env_now env\<rparr>
     in (Some (\<not> fails),
         db\<lparr>db_artifacts :=
              map (\<lambda>a. if open_artifact k a then settled_artifact (env_now env) (delete_review_deletion_artifact env ops c a) a else a)
                (db_artifacts db),
            db_intents :=
              row_put dli_id
                (if fails then d\<lparr>dli_status := intent_failed, dli_completed_at := None,
                                 dli_last_error_code := Some ''DELETION_ARTIFACT_RETRY_PENDING''\<rparr>
                 else d\<lparr>dli_status := intent_complete, dli_completed_at := Some (env_now env), dli_last_error_code := None\<rparr>)
                (db_intents db)\<rparr>))"
proof -
  let ?r = "delete_review_deletion_artifact env ops c"
  define xs where "xs = map dla_id (order_by dla_id (filter (open_artifact k) (db_artifacts db)))"
  have inj: "a = b" if "a \<in> set (db_artifacts db)" "b \<in> set (db_artifacts db)" "dla_id a = dla_id b" for a b
    using that assms(1) by (simp add: distinct_map inj_on_def)
  have ids: "dla_id a \<in> set xs \<longleftrightarrow> open_artifact k a" if "a \<in> set (db_artifacts db)" for a
    using that inj by (auto simp: xs_def)
  define rows where "rows = map (\<lambda>a. if open_artifact k a then settled_artifact (env_now env) (?r a) a else a) (db_artifacts db)"
  have loop: "fold (cleanup_artifact env ops c) xs (False, db)
      = (list_ex (artifact_fails env ops k c) (db_artifacts db), db\<lparr>db_artifacts := rows\<rparr>)"
  proof (subst cleanup_loop [OF assms(1), of k])
    show "lock_intent k c db \<noteq> None" using assms(2) by simp
    show "distinct xs" using assms(1) by (simp add: xs_def distinct_map_filterI)
    show "\<forall>x\<in>set xs. \<exists>a\<in>set (db_artifacts db). dla_id a = x \<and> open_artifact k a" by (auto simp: xs_def)
  qed (use ids in \<open>auto simp: rows_def artifact_fails_def list_ex_iff cong: map_cong\<close>)
  define fails where "fails = list_ex (artifact_fails env ops k c) (db_artifacts db)"
  have count: "(count_rows (open_artifact k) rows = 0) = (\<not> fails)"
  proof -
    have "open_artifact k (if open_artifact k a then settled_artifact (env_now env) (?r a) a else a) = artifact_fails env ops k c a" for a
      by (simp add: artifact_fails_def open_artifact_def)
    then show ?thesis unfolding count_rows_zero_iff rows_def fails_def list_ex_iff by (simp only: list.set_map ball_simps bex_simps)
  qed
  have "cleanup_claimed_review_deletion env ops (k, c) db = settle_intent env k c fails (db\<lparr>db_artifacts := rows\<rparr>)"
    using assms(2) loop unfolding xs_def fails_def by (simp add: cleanup_claimed_review_deletion_def)
  also have "\<dots> = (Some (\<not> fails), put_intent (settled_intent (env_now env) (count_rows (open_artifact k) rows) fails d) (db\<lparr>db_artifacts := rows\<rparr>))"
    using assms(2) count by (simp add: settle_intent_def)
  finally show ?thesis unfolding fails_def [symmetric] rows_def [symmetric] Let_def
    using count by (cases fails) (simp_all add: settled_intent_def put_intent_def)
qed

section \<open>The lease of an intent\<close>

definition intent_holder :: "deletion_intent \<Rightarrow> string option" where
  "intent_holder d = (if dli_status d = intent_cleaning then dli_cleanup_claim_id d else None)"

definition intent_leased :: "int \<Rightarrow> deletion_intent \<Rightarrow> bool" where
  "intent_leased now d \<longleftrightarrow> intent_holder d \<noteq> None \<and> (case dli_cleanup_claim_expires_at d of None \<Rightarrow> False | Some e \<Rightarrow> now < e)"

definition take_intent :: "int \<Rightarrow> int \<Rightarrow> string \<Rightarrow> deletion_intent \<Rightarrow> deletion_intent option" where
  "take_intent lease_seconds now c d = (if intent_eligible now d then Some (claimed_intent now lease_seconds c d) else None)"

definition give_back_intent :: "int \<Rightarrow> bool \<Rightarrow> int \<Rightarrow> string \<Rightarrow> deletion_intent \<Rightarrow> deletion_intent option" where
  "give_back_intent remaining had_failure now c d =
     (if dli_status d = intent_cleaning \<and> dli_cleanup_claim_id d = Some c then Some (settled_intent now remaining had_failure d) else None)"

lemma claimed_intent_sel [simp]:
  "dli_id (claimed_intent now n c d) = dli_id d" "dli_status (claimed_intent now n c d) = intent_cleaning"
  "dli_cleanup_claim_id (claimed_intent now n c d) = Some c"
  "dli_cleanup_claim_expires_at (claimed_intent now n c d) = Some (now + seconds n)"
  by (simp_all add: claimed_intent_def)

interpretation intent_slot: exclusive_lease intent_holder intent_leased "take_intent n" "give_back_intent r f" for n r f
proof
  show "intent_leased now d \<Longrightarrow> intent_holder d \<noteq> None" for now d by (simp add: intent_leased_def)
  show "take_intent n now h d = Some d' \<Longrightarrow> \<not> intent_leased now d" for now h d d'
    by (auto simp: take_intent_def intent_eligible_def intent_leased_def intent_holder_def split: if_splits option.splits)
  show "take_intent n now h d = Some d' \<Longrightarrow> intent_holder d' = Some h" for now h d d'
    by (auto simp: take_intent_def intent_holder_def split: if_splits)
  show "give_back_intent r f now h d = Some d' \<Longrightarrow> intent_holder d = Some h" for now h d d'
    by (auto simp: give_back_intent_def intent_holder_def split: if_splits)
  show "give_back_intent r f now h d = Some d' \<Longrightarrow> intent_holder d' = None" for now h d d'
    by (auto simp: give_back_intent_def intent_holder_def settled_intent_def Let_def split: if_splits)
qed

text \<open>The rows after the loop of the claims, and what each claim stands for.\<close>

lemma claim_loop:
  assumes "fold (claim_intent env n) ds (cs, db) = (cs', db')" and "distinct (map dli_id ds)"
  shows "db_artifacts db' = db_artifacts db \<and> map dli_id (db_intents db') = map dli_id (db_intents db) \<and> (\<exists>new. cs' = cs @ new \<and> map fst new = map dli_id ds
    \<and> (\<forall>(k, c)\<in>set new. \<exists>d\<in>set ds. dli_id d = k \<and>
         row_get dli_id k (db_intents db') = map_option (\<lambda>_. claimed_intent (env_now env) n c d) (row_get dli_id k (db_intents db)))
    \<and> (\<forall>k. k \<notin> dli_id ` set ds \<longrightarrow> row_get dli_id k (db_intents db') = row_get dli_id k (db_intents db)))"
  using assms
proof (induction ds arbitrary: cs db)
  case Nil
  then show ?case by simp
next
  case (Cons d ds)
  obtain c db1 where c: "claim_intent env n d (cs, db) = (cs @ [(dli_id d, c)], db1)"
    and arts: "db_artifacts db1 = db_artifacts db"
    and rows: "db_intents db1 = row_put dli_id (claimed_intent (env_now env) n c d) (db_intents db)"
    by (simp add: claim_intent_def new_id_def put_intent_def)
  obtain new where new: "cs' = (cs @ [(dli_id d, c)]) @ new" "map fst new = map dli_id ds" "db_artifacts db' = db_artifacts db1"
    "map dli_id (db_intents db') = map dli_id (db_intents db1)"
    "\<forall>(k, c)\<in>set new. \<exists>d\<in>set ds. dli_id d = k \<and>
       row_get dli_id k (db_intents db') = map_option (\<lambda>_. claimed_intent (env_now env) n c d) (row_get dli_id k (db_intents db1))"
    "\<forall>k. k \<notin> dli_id ` set ds \<longrightarrow> row_get dli_id k (db_intents db') = row_get dli_id k (db_intents db1)"
    using Cons.IH [of "cs @ [(dli_id d, c)]" db1] Cons.prems c by auto
  have mine: "dli_id d \<notin> dli_id ` set ds" using Cons.prems(2) by auto
  have other: "row_get dli_id k (db_intents db1) = row_get dli_id k (db_intents db)" if "k \<noteq> dli_id d" for k
    using that by (simp add: rows)
  have this_row: "row_get dli_id (dli_id d) (db_intents db1)
      = map_option (\<lambda>_. claimed_intent (env_now env) n c d) (row_get dli_id (dli_id d) (db_intents db))"
    by (simp add: rows row_get_put)
  show ?case
  proof (intro conjI exI [of _ "(dli_id d, c) # new"])
    show "\<forall>(k, c')\<in>set ((dli_id d, c) # new). \<exists>d'\<in>set (d # ds). dli_id d' = k \<and>
        row_get dli_id k (db_intents db') = map_option (\<lambda>_. claimed_intent (env_now env) n c' d') (row_get dli_id k (db_intents db))"
    proof (intro ballI, clarify)
      fix k c' assume "(k, c') \<in> set ((dli_id d, c) # new)"
      then consider "k = dli_id d" "c' = c" | "(k, c') \<in> set new" by auto
      then show "\<exists>d'\<in>set (d # ds). dli_id d' = k \<and>
          row_get dli_id k (db_intents db') = map_option (\<lambda>_. claimed_intent (env_now env) n c' d') (row_get dli_id k (db_intents db))"
      proof cases
        case 1
        then show ?thesis using new(6) mine this_row by force
      next
        case 2
        then obtain d' where d': "d' \<in> set ds" "dli_id d' = k"
          "row_get dli_id k (db_intents db') = map_option (\<lambda>_. claimed_intent (env_now env) n c' d') (row_get dli_id k (db_intents db1))"
          using new(5) by blast
        then have "k \<noteq> dli_id d" using mine by (metis image_eqI)
        then have "row_get dli_id k (db_intents db1) = row_get dli_id k (db_intents db)" by (rule other)
        with d' show ?thesis by (intro bexI [of _ d']) simp_all
      qed
    qed
  qed (use new arts other rows in auto)
qed

lemma lock_intent_row:
  assumes "distinct (map dli_id (db_intents db))"
  shows "lock_intent k c db = (case row_get dli_id k (db_intents db) of
     Some d \<Rightarrow> if dli_status d = intent_cleaning \<and> dli_cleanup_claim_id d = Some c then Some d else None | None \<Rightarrow> None)"
proof -
  have "List.find (\<lambda>d. dli_id d = k \<and> Q d) ds = (case row_get dli_id k ds of Some d \<Rightarrow> if Q d then Some d else None | None \<Rightarrow> None)"
    if "distinct (map dli_id ds)" for Q ds
    using that
  proof (induction ds)
    case (Cons d ds)
    have "dli_id d = k \<Longrightarrow> row_get dli_id k ds = None" using Cons.prems by (auto simp: row_get_None_iff)
    then show ?case using Cons by (auto split: option.splits)
  qed simp
  from this [OF assms] show ?thesis by (simp add: lock_intent_def)
qed

lemma eligible_intents_mem:
  "d \<in> set (eligible_intents now ids b db) \<Longrightarrow> d \<in> set (db_intents db) \<and> intent_eligible now d"
  by (auto simp: eligible_intents_def dest!: in_set_takeD)

lemma distinct_eligible:
  "distinct (map dli_id (db_intents db)) \<Longrightarrow> distinct (map dli_id (eligible_intents now ids b db))"
  by (simp add: eligible_intents_def take_map [symmetric] distinct_take distinct_map_filterI)

text \<open>The row of a granted claim, and the tables around it.\<close>

lemma claimed_intent_row:
  assumes "claim_review_deletion_intents env ids b n db = Inr (claims, db1)" and "distinct (map dli_id (db_intents db))"
  shows "map dli_id (db_intents db1) = map dli_id (db_intents db) \<and> db_artifacts db1 = db_artifacts db
    \<and> (\<forall>(k, c)\<in>set claims. \<exists>d\<in>set (db_intents db). dli_id d = k \<and> intent_eligible (env_now env) d
         \<and> row_get dli_id k (db_intents db1) = Some (claimed_intent (env_now env) n c d))"
proof (cases "ids = Some []")
  case True
  then show ?thesis using assms(1) by (auto simp: claim_review_deletion_intents_def)
next
  case False
  let ?ds = "eligible_intents (env_now env) ids b db"
  have f: "fold (claim_intent env n) ?ds ([], db) = (claims, db1)"
    using assms(1) False by (auto simp: claim_review_deletion_intents_def split: if_splits)
  have l: "map dli_id (db_intents db1) = map dli_id (db_intents db)" "db_artifacts db1 = db_artifacts db"
    and c: "\<forall>(k, c)\<in>set claims. \<exists>d\<in>set ?ds. dli_id d = k \<and>
       row_get dli_id k (db_intents db1) = map_option (\<lambda>_. claimed_intent (env_now env) n c d) (row_get dli_id k (db_intents db))"
    using claim_loop [OF f distinct_eligible [OF assms(2)]] by auto
  have "\<exists>d\<in>set (db_intents db). dli_id d = k \<and> intent_eligible (env_now env) d
      \<and> row_get dli_id k (db_intents db1) = Some (claimed_intent (env_now env) n c d)" if kc: "(k, c) \<in> set claims" for k c
  proof -
    obtain d where d: "d \<in> set ?ds" "dli_id d = k"
      "row_get dli_id k (db_intents db1) = map_option (\<lambda>_. claimed_intent (env_now env) n c d) (row_get dli_id k (db_intents db))"
      using c kc by blast
    have m: "d \<in> set (db_intents db)" "intent_eligible (env_now env) d" using eligible_intents_mem [OF d(1)] by auto
    then show ?thesis using d(2,3) row_get_mem [OF assms(2) m(1)] by auto
  qed
  then show ?thesis using l by blast
qed

text \<open>
  C22. One pass of the cleaner over a claimed intent settles all its artifacts: each artifact that was
  not yet deleted is now deleted, or failed with the code of its error, and no other artifact
  changes; the intent is complete exactly if no removal failed, and otherwise waits to be retried; its claim is
  given back in both cases.
\<close>

theorem deletion_pass_settles:
  assumes "distinct (map dla_id (db_artifacts db))" and "lock_intent k c db = Some d"
  shows "cleanup_claimed_review_deletion env ops (k, c) db =
    (let fails = list_ex (artifact_fails env ops k c) (db_artifacts db);
         d = d\<lparr>dli_cleanup_claim_id := None, dli_cleanup_claim_expires_at := None, dli_updated_at := env_now env\<rparr>
     in (Some (\<not> fails),
         db\<lparr>db_artifacts :=
              map (\<lambda>a. if open_artifact k a then settled_artifact (env_now env) (delete_review_deletion_artifact env ops c a) a else a)
                (db_artifacts db),
            db_intents :=
              row_put dli_id
                (if fails then d\<lparr>dli_status := intent_failed, dli_completed_at := None,
                                 dli_last_error_code := Some ''DELETION_ARTIFACT_RETRY_PENDING''\<rparr>
                 else d\<lparr>dli_status := intent_complete, dli_completed_at := Some (env_now env), dli_last_error_code := None\<rparr>)
                (db_intents db)\<rparr>))"
  by (rule cleanup_pass [OF assms])

text \<open>
  C24. A deletion intent has one cleaner at a time: until the lease of a claim runs out no other pass is
  granted the intent, and a cleaner with another claim changes nothing - it removes no artifact of the
  intent, records no outcome for one and does not settle the intent.
\<close>

theorem deletion_claim_exclusive:
  assumes "distinct (map dli_id (db_intents db))" and "distinct (map dla_id (db_artifacts db))"
    and "claim_review_deletion_intents env ids b n db = Inr (claims, db1)" and "(k, c) \<in> set claims"
    and "env_now env2 < env_now env + seconds n"
  shows "(\<forall>ids2 b2 n2 claims2 db2. claim_review_deletion_intents env2 ids2 b2 n2 db1 = Inr (claims2, db2) \<longrightarrow> k \<notin> fst ` set claims2)
    \<and> (c2 \<noteq> c \<longrightarrow> cleanup_claimed_review_deletion env2 ops (k, c2) db1 = (None, db1)
         \<and> settle_intent env2 k c2 h db1 = (None, db1)
         \<and> (\<forall>a\<in>set (db_artifacts db1). dla_deletion_intent_id a = k \<longrightarrow>
              record_artifact_outcome env2 (dla_id a) c2 r db1 = (False, db1)))"
proof -
  obtain d where row: "row_get dli_id k (db_intents db1) = Some (claimed_intent (env_now env) n c d)"
    and keys: "distinct (map dli_id (db_intents db1))" "distinct (map dla_id (db_artifacts db1))"
    using claimed_intent_row [OF assms(3,1)] assms(1,2,4) by auto
  have busy: "intent_leased (env_now env2) (claimed_intent (env_now env) n c d)"
    using assms(5) by (simp add: intent_leased_def intent_holder_def)
  have "k \<notin> fst ` set claims2" if again: "claim_review_deletion_intents env2 ids2 b2 n2 db1 = Inr (claims2, db2)" for ids2 b2 n2 claims2 db2
  proof
    assume "k \<in> fst ` set claims2"
    then obtain c' :: string and q where "q \<in> set (db_intents db1)" "dli_id q = k" "intent_eligible (env_now env2) q"
      using claimed_intent_row [OF again keys(1)] by force
    then have "take_intent n2 (env_now env2) c' (claimed_intent (env_now env) n c d) \<noteq> None"
      using row row_get_mem [OF keys(1)] by (fastforce simp: take_intent_def)
    then show False using intent_slot.acquire_exclusive [OF busy] by simp
  qed
  moreover have "lock_intent k c2 db1 = None" if "c2 \<noteq> c" using lock_intent_row [OF keys(1), of k c2] row that by simp
  moreover have "lock_artifact (dla_id a) c2 db1 = None"
    if "c2 \<noteq> c" "a \<in> set (db_artifacts db1)" "dla_deletion_intent_id a = k" for a
  proof -
    have "q = a" if "q \<in> set (db_artifacts db1)" "dla_id q = dla_id a" for q
      using that \<open>a \<in> set (db_artifacts db1)\<close> keys(2) by (simp add: distinct_map inj_on_def)
    then show ?thesis using \<open>dla_deletion_intent_id a = k\<close> lock_intent_row [OF keys(1), of k c2] row \<open>c2 \<noteq> c\<close>
      by (auto simp: lock_artifact_def find_None_iff)
  qed
  ultimately show ?thesis
    by (auto simp: cleanup_claimed_review_deletion_def settle_intent_def record_artifact_outcome_def)
qed

lemma filter_key_single:
  "distinct (map key rows) \<Longrightarrow> d \<in> set rows \<Longrightarrow> P d \<Longrightarrow> filter (\<lambda>x. P x \<and> key x = key d) rows = [d]"
proof (induction rows)
  case (Cons r rows)
  show ?case
  proof (cases "r = d")
    case True
    then have "filter (\<lambda>x. P x \<and> key x = key d) rows = []" using Cons.prems(1) by (auto simp: filter_empty_conv image_iff)
    then show ?thesis using True Cons.prems(3) by simp
  next
    case False
    then have "d \<in> set rows" "key r \<noteq> key d" using Cons.prems(1,2) by auto
    then show ?thesis using Cons by simp
  qed
qed simp

text \<open>
  C23. A recorded deletion is carried out: a pass for an intent that waits (or whose cleaner disappeared
  and let its lease run out) and whose files can be removed returns one completed intent; afterwards the
  intent is complete and unclaimed, and each of its artifacts is deleted.
\<close>

theorem deletion_completes:
  assumes "distinct (map dli_id (db_intents db))" and "distinct (map dla_id (db_artifacts db))"
    and "d \<in> set (db_intents db)" and "intent_eligible (env_now env) d"
    and "\<forall>a\<in>set (db_artifacts db). \<forall>c. open_artifact (dli_id d) a \<longrightarrow> \<not> isl (delete_review_deletion_artifact env ops c a)"
  shows "\<exists>db' d'. process_review_deletion_intents env ops (Some [dli_id d]) db = Inr ((1, 0), db')
    \<and> row_get dli_id (dli_id d) (db_intents db') = Some d' \<and> dli_status d' = intent_complete \<and> dli_cleanup_claim_id d' = None
    \<and> (\<forall>a\<in>set (db_artifacts db'). dla_deletion_intent_id a = dli_id d \<longrightarrow> dla_status a = artifact_deleted)"
proof -
  have one: "eligible_intents (env_now env) (Some [dli_id d]) REVIEW_DELETION_CLEANUP_BATCH_SIZE db = [d]"
    using filter_key_single [of dli_id "db_intents db" d "intent_eligible (env_now env)", OF assms(1,3,4)]
    by (simp add: eligible_intents_def order_by_def REVIEW_DELETION_CLEANUP_BATCH_SIZE_def)
  obtain c db1 where claim: "claim_review_deletion_intents env (Some [dli_id d]) REVIEW_DELETION_CLEANUP_BATCH_SIZE
      REVIEW_DELETION_CLEANUP_LEASE_SECONDS db = Inr ([(dli_id d, c)], db1)"
    by (simp add: claim_review_deletion_intents_def one [unfolded REVIEW_DELETION_CLEANUP_BATCH_SIZE_def] claim_intent_def new_id_def REVIEW_DELETION_CLEANUP_BATCH_SIZE_def
        REVIEW_DELETION_CLEANUP_LEASE_SECONDS_def)
  have keys: "distinct (map dli_id (db_intents db1))" "distinct (map dla_id (db_artifacts db1))" "db_artifacts db1 = db_artifacts db"
    using claimed_intent_row [OF claim assms(1)] assms(1,2) by auto
  obtain q where row: "row_get dli_id (dli_id d) (db_intents db1) = Some q" "dli_status q = intent_cleaning" "dli_cleanup_claim_id q = Some c"
    using claimed_intent_row [OF claim assms(1)] by auto
  have q: "lock_intent (dli_id d) c db1 = Some q" using lock_intent_row [OF keys(1)] row by simp
  have idq: "dli_id q = dli_id d" using row_get_SomeD [OF row(1)] by simp
  have ok: "\<not> list_ex (artifact_fails env ops (dli_id d) c) (db_artifacts db1)"
    using assms(5) by (auto simp: list_ex_iff artifact_fails_def keys(3))
  define d' where "d' = q\<lparr>dli_cleanup_claim_id := None, dli_cleanup_claim_expires_at := None, dli_updated_at := env_now env,
      dli_status := intent_complete, dli_completed_at := Some (env_now env), dli_last_error_code := None\<rparr>"
  define rows where "rows = map (\<lambda>a. if open_artifact (dli_id d) a
      then settled_artifact (env_now env) (delete_review_deletion_artifact env ops c a) a else a) (db_artifacts db1)"
  define db' where "db' = db1\<lparr>db_artifacts := rows, db_intents := row_put dli_id d' (db_intents db1)\<rparr>"
  have pass: "cleanup_claimed_review_deletion env ops (dli_id d, c) db1 = (Some True, db')"
    using cleanup_pass [OF keys(2) q, of env ops] ok unfolding rows_def [symmetric] by (simp add: db'_def d'_def Let_def)
  have "process_review_deletion_intents env ops (Some [dli_id d]) db = Inr ((1, 0), db')"
    using claim pass by (simp add: process_review_deletion_intents_def cleanup_claimed_review_deletions_def)
  moreover have "row_get dli_id (dli_id d) (db_intents db') = Some d'"
    using row(1) idq row_get_put_same [of dli_id d' "db_intents db1" q] by (simp add: db'_def d'_def)
  moreover have "dla_status a = artifact_deleted" if "a \<in> set rows" "dla_deletion_intent_id a = dli_id d" for a
    using that assms(5) by (auto simp: rows_def keys(3) open_artifact_def split: if_splits)
  ultimately show ?thesis by (intro exI [of _ db'] exI [of _ d']) (simp add: db'_def d'_def)
qed

section \<open>What is removed\<close>

lemma path_parts_files: "plain w \<Longrightarrow> path_parts (''files/'' @ w) = [''files'', w]"
  using split_slash_append [of "''files''" w] by (simp add: path_parts_def split_slash_plain plain_def)

lemma contained_path_fault [simp]: "fault_of_path (Inr p) = Inr p"
  by (simp add: fault_of_path_def)

text \<open>
  C21. The cleaner removes exactly what the deletion captured. For the artifact that a deletion recorded
  for a stored file, the cleaner reaches the removal exactly when the file is still at its place under
  the storage root with the device, inode, change time and size it had at that moment and has the content of the
  deleted file, and then it removes that path and no other.
\<close>

theorem captured_file_removed:
  assumes "normal (cfg_storage_root (env_settings env))" and "env_settings env2 = env_settings env"
    and "capture_file_artifact env intent f kind db = Inr db'" and "db_artifacts db' = db_artifacts db @ [a]"
    and "kind \<noteq> project_package"
  shows "\<exists>i p. p = cfg_storage_root (env_settings env) @ [''files'', fil_id f] \<and> env_pin_storage env p = Pin_File i
    \<and> (artifact_removal env2 ops a = Inr (Unlink_File q) \<longleftrightarrow>
         q = p \<and> (\<exists>j. env_pin_storage env2 p = Pin_File j \<and> fid_readable j \<and> fid_sha256 j = sha256 (fil_media f)
           \<and> (fid_device j, fid_inode j, fid_ctime_ns j, fid_size j) = (fid_device i, fid_inode i, fid_ctime_ns i, fid_size i)))"
proof -
  let ?root = "cfg_storage_root (env_settings env)"
  define p where "p = ?root @ [''files'', fil_id f]"
  have f: "managed_file_id (fil_id f)" and sha: "is_sha256 (sha256 (fil_media f))"
    using assms(3) by (auto simp: capture_file_artifact_def Let_def split: if_splits)
  have path: "contained_path (''files/'' @ fil_id f) ?root = Inr p"
    unfolding p_def by (rule contained_path_files [OF assms(1) f])
  obtain i where i: "env_pin_storage env p = Pin_File i"
    and a: "a = artifact_row env intent kind (''files/'' @ fil_id f) i (sha256 (fil_media f))"
    using assms(3,4) f sha path
    by (auto simp: capture_file_artifact_def insert_artifact_def row_insert_Inr_iff Let_def split: if_splits pin.splits)
  define t where "t = ''files/'' @ fil_id f"
  have parts: "path_parts t = [''files'', fil_id f]" "path_root_of t = Relative"
    using path_parts_files [OF managed_file_id_plain [OF f]] by (simp_all add: t_def path_root_of_def)
  have sel: "dla_artifact_kind a = kind" "dla_relative_logical_target a = t" "dla_expected_sha256 a = sha256 (fil_media f)"
    by (simp_all add: a artifact_row_def t_def)
  have "artifact_removal env2 ops a = file_removal env2 ops a (fil_id f)"
    using assms(5) sha by (simp add: artifact_removal_def sel parts is_sha256_def hex_run_def)
  then have "artifact_removal env2 ops a = Inr (Unlink_File q) \<longleftrightarrow>
      q = p \<and> (\<exists>j. env_pin_storage env2 p = Pin_File j \<and> captured_identity a j \<and> fid_readable j \<and> fid_sha256 j = dla_expected_sha256 a)"
    using f path [folded t_def] assms(2)
    by (auto simp: file_removal_def check_captured_def pinned_sha256_def sel split: pin.splits if_splits)
  then show ?thesis using i by (intro exI [of _ i] exI [of _ p]) (auto simp: p_def captured_identity_def a artifact_row_def)
qed

section \<open>Examples\<close>

text \<open>One waiting intent with the artifact of one stored file, and removals that succeed.\<close>

definition ex_waiting :: deletion_intent where
  "ex_waiting =
     \<lparr>dli_id = ''d1'', dli_command_type = ''DeleteProject'', dli_operation_identity_hash = ''h'', dli_subject_project = True,
      dli_project_ref_id_snapshot = ''p1'', dli_review_item_id_snapshot = None, dli_status = intent_pending, dli_attempts = 0,
      dli_last_error_code = None, dli_cleanup_claim_id = None, dli_cleanup_claim_expires_at = None, dli_completed_at = None,
      dli_created_at = 0, dli_updated_at = 0\<rparr>"

definition ex_artifact :: deletion_artifact where
  "ex_artifact = artifact_row ex_env ex_waiting original_media (''files/'' @ ex_file_id) ex_identity (sha256 (fil_media ex_file))"

definition ex_waiting_db :: db where
  "ex_waiting_db = empty_db\<lparr>db_intents := [ex_waiting], db_artifacts := [ex_artifact]\<rparr>"

definition ex_cleaning_db :: db where
  "ex_cleaning_db = empty_db\<lparr>db_intents := [claimed_intent 0 300 ''c1'' ex_waiting], db_artifacts := [ex_artifact]\<rparr>"

definition ex_removals :: removals where
  "ex_removals =
     \<lparr>rm_os_error = (\<lambda>_. Io_Failure), rm_quarantine = Inr None, rm_unlink = (\<lambda>_. Inr True), rm_package = (\<lambda>_ _ _. Inr True)\<rparr>"

lemma ex_removable: "artifact_removal ex_env ex_removals ex_artifact = Inr (Unlink_File [''srv'', ''storage'', ''files'', ex_file_id])"
  by code_simp

theorem deletion_pass_settles_witness:
  "(case cleanup_claimed_review_deletion ex_env ex_removals (''d1'', ''c1'') ex_cleaning_db of
      (r, db) \<Rightarrow> r = Some True \<and> map dla_status (db_artifacts db) = [artifact_deleted] \<and> map dli_status (db_intents db) = [intent_complete])"
proof -
  have d: "distinct (map dla_id (db_artifacts ex_cleaning_db))" by (simp add: ex_cleaning_db_def)
  have l: "lock_intent ''d1'' ''c1'' ex_cleaning_db = Some (claimed_intent 0 300 ''c1'' ex_waiting)"
    by (simp add: lock_intent_def ex_cleaning_db_def ex_waiting_def claimed_intent_def)
  have "open_artifact ''d1'' ex_artifact" by (simp add: open_artifact_def ex_artifact_def artifact_row_def ex_waiting_def)
  then show ?thesis using deletion_pass_settles [OF d l, of ex_env ex_removals] ex_removable
    by (simp add: ex_cleaning_db_def artifact_fails_def delete_review_deletion_artifact_def ex_removals_def row_put_def)
qed

theorem deletion_claim_exclusive_witness:
  "\<exists>c db1. claim_review_deletion_intents ex_hex_env None 100 300 ex_waiting_db = Inr ([(''d1'', c)], db1)
     \<and> (\<forall>ids2 b2 n2 claims2 db2. claim_review_deletion_intents ex_hex_env ids2 b2 n2 db1 = Inr (claims2, db2) \<longrightarrow> ''d1'' \<notin> fst ` set claims2)
     \<and> settle_intent ex_hex_env ''d1'' ''other'' False db1 = (None, db1)"
proof -
  have d: "distinct (map dli_id (db_intents ex_waiting_db))" "distinct (map dla_id (db_artifacts ex_waiting_db))"
    by (simp_all add: ex_waiting_db_def)
  obtain c db1 where c: "c = ''cleanup_'' @ replicate 32 (CHR ''0'')"
    "claim_review_deletion_intents ex_hex_env None 100 300 ex_waiting_db = Inr ([(''d1'', c)], db1)"
    by (simp add: claim_review_deletion_intents_def REVIEW_DELETION_CLEANUP_BATCH_SIZE_def eligible_intents_def intent_eligible_def
        order_by_def claim_intent_def new_id_def ex_waiting_db_def ex_waiting_def ex_hex_env_def)
  have "''other'' \<noteq> c" by (simp add: c(1))
  moreover have "env_now ex_hex_env < env_now ex_hex_env + seconds 300" by (simp add: seconds_def)
  ultimately show ?thesis using deletion_claim_exclusive [OF d c(2), of "''d1''" c ex_hex_env "''other''"] c(2) by auto
qed

theorem deletion_completes_witness:
  "\<exists>db' d'. process_review_deletion_intents ex_env ex_removals (Some [''d1'']) ex_waiting_db = Inr ((1, 0), db')
     \<and> row_get dli_id ''d1'' (db_intents db') = Some d' \<and> dli_status d' = intent_complete \<and> dli_cleanup_claim_id d' = None
     \<and> (\<forall>a\<in>set (db_artifacts db'). dla_deletion_intent_id a = ''d1'' \<longrightarrow> dla_status a = artifact_deleted)"
proof -
  have d: "distinct (map dli_id (db_intents ex_waiting_db))" "distinct (map dla_id (db_artifacts ex_waiting_db))"
    "ex_waiting \<in> set (db_intents ex_waiting_db)" "intent_eligible (env_now ex_env) ex_waiting"
    by (simp_all add: ex_waiting_db_def intent_eligible_def ex_waiting_def)
  have ok: "\<forall>a\<in>set (db_artifacts ex_waiting_db). \<forall>c. open_artifact (dli_id ex_waiting) a \<longrightarrow> \<not> isl (delete_review_deletion_artifact ex_env ex_removals c a)"
    using ex_removable by (simp add: ex_waiting_db_def delete_review_deletion_artifact_def ex_removals_def)
  have "dli_id ex_waiting = ''d1''" by (simp add: ex_waiting_def)
  then show ?thesis using deletion_completes [OF d ok] by simp
qed

theorem captured_file_removed_witness:
  "\<exists>i. env_pin_storage ex_env [''srv'', ''storage'', ''files'', ex_file_id] = Pin_File i
     \<and> artifact_removal ex_env ex_removals ex_artifact = Inr (Unlink_File [''srv'', ''storage'', ''files'', ex_file_id])"
proof -
  have n: "normal (cfg_storage_root (env_settings ex_env))" and root: "cfg_storage_root (env_settings ex_env) = [''srv'', ''storage'']"
    by (simp_all add: ex_env_def ex_settings_def normal_def plain_def)
  have f: "fil_id ex_file = ex_file_id" by (simp add: ex_file_def)
  have "(case capture_file_artifact ex_env ex_waiting ex_file original_media empty_db of
      Inr db' \<Rightarrow> db_artifacts db' = [ex_artifact] | _ \<Rightarrow> False)" by code_simp
  then obtain db' where run: "capture_file_artifact ex_env ex_waiting ex_file original_media empty_db = Inr db'" "db_artifacts db' = [ex_artifact]"
    by (auto split: sum.splits)
  then have row: "db_artifacts db' = db_artifacts empty_db @ [ex_artifact]" by (simp add: empty_db_def)
  obtain i where "env_pin_storage ex_env [''srv'', ''storage'', ''files'', ex_file_id] = Pin_File i"
    and "artifact_removal ex_env ex_removals ex_artifact = Inr (Unlink_File [''srv'', ''storage'', ''files'', ex_file_id])
      \<longleftrightarrow> (\<exists>j. env_pin_storage ex_env [''srv'', ''storage'', ''files'', ex_file_id] = Pin_File j \<and> fid_readable j
            \<and> fid_sha256 j = sha256 (fil_media ex_file)
            \<and> (fid_device j, fid_inode j, fid_ctime_ns j, fid_size j) = (fid_device i, fid_inode i, fid_ctime_ns i, fid_size i))"
    using captured_file_removed [OF n refl run(1) row, of ex_removals "[''srv'', ''storage'', ''files'', ex_file_id]"]
    by (auto simp: root f)
  then show ?thesis by (auto simp: ex_env_def ex_identity_def ex_file_def ex_media_def)
qed

section \<open>Soundness\<close>

lemma cleanup_frames [simp]:
  "core_of (put_intent d db) = core_of db" "db_events (put_intent d db) = db_events db"
  "core_of (put_artifact a db) = core_of db" "db_events (put_artifact a db) = db_events db"
  by (simp_all add: put_intent_def put_artifact_def core_of_def)

lemma claim_deletions_sound:
  assumes "claim_review_deletion_intents env ids b n db = Inr (claims, db')"
  shows "sound_step db db'"
proof -
  have "core_of (snd (fold (claim_intent env n) ds acc)) = core_of (snd acc) \<and> db_events (snd (fold (claim_intent env n) ds acc)) = db_events (snd acc)" for ds acc
    by (induction ds arbitrary: acc) (auto simp: claim_intent_def new_id_def core_of_def put_intent_def split: prod.splits)
  from this [of "eligible_intents (env_now env) ids b db" "([], db)"] show ?thesis
    using assms by (auto simp: claim_review_deletion_intents_def split: if_splits intro: sound_frame)
qed

lemma deletion_updates_sound:
  "sound_step db (snd (record_artifact_outcome env k c r db))" "sound_step db (snd (settle_intent env k c h db))"
  by (rule sound_frame; simp add: record_artifact_outcome_def settle_intent_def Let_def split: option.splits)+

end
