(* ===== verification/Service.thy ===== *)
theory Service
  imports Derivatives Upload_Safety Outbox Qc_Findings Deletion_Cleanup
begin

text \<open>
  The service as one machine: the requests that change the database - commands in their
  transactions, the upload sessions, the steps of the package worker, of a package download, of the
  media derivative worker and of the technical check, the rounds of the event dispatcher and
  the cleaner of deletions - each with the environment it finds (clock, random identifiers, storage, settings). Whatever the sequence, the
  store satisfies the workflow invariant and moves only by the steps of the abstract workflow.
\<close>

section \<open>Requests\<close>

datatype request =
    Run_Command commit_outcome string envelope "(string \<times> string) list" execution_context "string option" "string option"
  | Claim_Build execution_context string
  | Publish_Build execution_context build_artifact
  | Fail_Build execution_context string string string bool bool
  | Authorize_Download string string
  | Begin_Download string string string bool
  | Verify_Download string string string string download_identity
  | Renew_Download string string
  | Release_Download string string bool
  | Upload_Request upload_op
  | Claim_Derivative "string option"
  | Renew_Derivative media_claim
  | Publish_Derivative commit_outcome media_claim prepared_derivative
  | Fail_Derivative media_claim media_error
  | Dispatch_Events int "json \<Rightarrow> bool" "int \<Rightarrow> string" nat
  | Record_Consumed string string
  | Discover_Qc nat
  | Claim_Qc nat int int int nat
  | Progress_Qc string string int
  | Renew_Qc string string int
  | Probe_Qc string string qc_media_probe
  | Finish_Qc env bool qc_claim "qc_error + qc_interval list"
  | Claim_Deletions "string list option" nat int
  | Record_Removal string string "fault + bool"
  | Settle_Deletion string string bool

definition service_step :: "env \<times> request \<Rightarrow> db \<Rightarrow> exn + db" where
  "service_step x db =
     (let env = fst x
      in case snd x of
           Run_Command commit ct v pp context key if_match \<Rightarrow>
             Inr (snd (run_command env commit ct v pp context key if_match db))
         | Claim_Build context k \<Rightarrow> map_sum id snd (claim_package_build env context k db)
         | Publish_Build context a \<Rightarrow> map_sum id snd (publish_prepared_package env context a db)
         | Fail_Build context k code lease_id retryable reclaimed \<Rightarrow>
             map_sum id snd (record_package_build_failure env context k code lease_id retryable reclaimed db)
         | Authorize_Download p k \<Rightarrow> map_sum id snd (authorize_package_download_session env p k db)
         | Begin_Download p k token resume \<Rightarrow> map_sum id snd (begin_package_download env p k token resume db)
         | Verify_Download k lease_id token digest i \<Rightarrow>
             map_sum id snd (mark_package_download_session_verified env k lease_id token digest i db)
         | Renew_Download k lease_id \<Rightarrow> Inr (snd (renew_package_download_lease env k lease_id db))
         | Release_Download k lease_id fin \<Rightarrow> Inr (snd (release_package_download_lease env k lease_id fin db))
         | Upload_Request u \<Rightarrow> upload_step (env, u) db
         | Claim_Derivative task_id \<Rightarrow> map_sum id snd (claim_task env task_id db)
         | Renew_Derivative claim \<Rightarrow> Inr (snd (renew_lease env claim db))
         | Publish_Derivative commit claim prepared \<Rightarrow>
             Inr (snd (snd (publish_with_reconciliation env commit claim prepared db)))
         | Fail_Derivative claim error \<Rightarrow> Inr (snd (record_media_failure env claim error db))
         | Dispatch_Events max_attempts publisher stamp limit \<Rightarrow> Inr (snd (dispatch_once max_attempts publisher stamp limit db))
         | Record_Consumed event_id consumer \<Rightarrow> Inr (snd (record_consumed env event_id consumer db))
         | Discover_Qc n \<Rightarrow> map_sum id snd (discover_ready_technical_qc_tasks env n db)
         | Claim_Qc limit per lease max_attempts scan \<Rightarrow>
             map_sum id snd (claim_technical_qc_tasks env limit per lease max_attempts scan db)
         | Progress_Qc k c ms \<Rightarrow> map_sum id snd (update_technical_qc_progress env k c ms db)
         | Renew_Qc k c lease \<Rightarrow> map_sum id snd (renew_technical_qc_lease env k c lease db)
         | Probe_Qc k c probe \<Rightarrow> Inr (snd (persist_technical_qc_probe env k c probe db))
         | Finish_Qc env' stopping claim scan \<Rightarrow> Inr (snd (process_technical_qc_claim env env' stopping claim scan db))
         | Claim_Deletions ids n lease \<Rightarrow> map_sum id snd (claim_review_deletion_intents env ids n lease db)
         | Record_Removal k c r \<Rightarrow> Inr (snd (record_artifact_outcome env k c r db))
         | Settle_Deletion k c had_failure \<Rightarrow> Inr (snd (settle_intent env k c had_failure db)))"

lemma owner_frame: "core_of (put_upload u db) = core_of db" "db_events (put_upload u db) = db_events db"
  by (simp_all add: put_upload_def core_of_def)

lemma upload_frames:
  "init_upload env c req db = Inr (r, db') \<Longrightarrow> core_of db' = core_of db \<and> db_events db' = db_events db"
  "claim_completion env c k kh rh resume db = Inr (r1, db') \<Longrightarrow> core_of db' = core_of db \<and> db_events db' = db_events db"
  "publish_completion env c claim f db = Inr (r2, db') \<Longrightarrow> core_of db' = core_of db \<and> db_events db' = db_events db"
  "release_failed_finalization env c claim b db = Inr (r3, db') \<Longrightarrow> core_of db' = core_of db \<and> db_events db' = db_events db"
proof -
  show "init_upload env c req db = Inr (r, db') \<Longrightarrow> core_of db' = core_of db \<and> db_events db' = db_events db"
    by (drule init_upload_Inr) (auto simp: core_of_def)
  show "claim_completion env c k kh rh resume db = Inr (r1, db') \<Longrightarrow> core_of db' = core_of db \<and> db_events db' = db_events db"
    by (auto simp: claim_completion_def new_id_def Let_def put_upload_def core_of_def split: if_splits)
  show "publish_completion env c claim f db = Inr (r2, db') \<Longrightarrow> core_of db' = core_of db \<and> db_events db' = db_events db"
    by (auto simp: publish_completion_def Let_def put_upload_def core_of_def split: if_splits pin.splits)
  show "release_failed_finalization env c claim b db = Inr (r3, db') \<Longrightarrow> core_of db' = core_of db \<and> db_events db' = db_events db"
    by (auto simp: release_failed_finalization_def Let_def owner_frame split: if_splits)
qed

lemma session_frames:
  "claim_part_stream env c k n db = Inr (r4, db') \<Longrightarrow> core_of db' = core_of db \<and> db_events db' = db_events db"
  "put_part_file env c k n p bytes db = Inr (r5, db') \<Longrightarrow> core_of db' = core_of db \<and> db_events db' = db_events db"
  "confirm_part_cleanup env c k st db = Inr (r6, db') \<Longrightarrow> core_of db' = core_of db \<and> db_events db' = db_events db"
  "prepare_abort env c k db = Inr (r7, db') \<Longrightarrow> core_of db' = core_of db \<and> db_events db' = db_events db"
  by (auto simp: claim_part_stream_def put_part_file_def confirm_part_cleanup_def prepare_abort_def Let_def owner_frame)

lemma upload_step_sound: "upload_step (env, x) db = Inr db' \<Longrightarrow> sound_step db db'"
  unfolding upload_step_def
  by (cases x) (auto simp: map_sum_snd_Inr intro: sound_frame cleanup_unbound_sound dest: upload_frames session_frames)

lemma worker_updates_sound:
  "sound_step db (snd (renew_lease env claim db))" "sound_step db (snd (record_media_failure env claim error db))"
  "sound_step db (snd (dispatch_once m pub stamp n db))" "sound_step db (snd (record_consumed env event_id consumer db))"
  by (rule renew_lease_sound record_media_failure_sound outbox_round_sound record_consumed_sound, rule prod.collapse [symmetric])+

lemma service_step_sound:
  assumes "service_step x db = Inr db'"
  shows "sound_step db db'"
proof -
  obtain env q where x: "x = (env, q)" by fastforce
  show ?thesis using assms unfolding x service_step_def
    by (cases q)
      (auto simp: map_sum_snd_Inr run_command_sound download_lease_updates_sound worker_updates_sound
          publish_with_reconciliation_sound qc_probe_sound process_qc_sound deletion_updates_sound
        intro: upload_step_sound claim_deletions_sound claim_task_sound discover_sound claim_technical_qc_tasks_sound qc_updates_sound claim_package_build_sound publish_prepared_package_sound record_package_build_failure_sound
          authorize_package_download_session_sound begin_package_download_sound mark_package_download_session_verified_sound)
qed

interpretation service: checked_machine service_step store_ok
  by unfold_locales (blast intro: sound_ok service_step_sound)

interpretation workflow: refined_machine service_step store_ok core_of review_step
  by unfold_locales (use service_step_sound in \<open>auto simp: sound_step_def\<close>)

text \<open>
  The service starts on a store without videos, versions, finalizations, issues and outbox events;
  projects, editors and files may already be there.
\<close>

definition no_reviews :: "db \<Rightarrow> bool" where
  "no_reviews db \<longleftrightarrow> db_items db = [] \<and> db_versions db = [] \<and> db_finalizations db = [] \<and> db_issues db = [] \<and> db_events db = []"

abbreviation reachable :: "db \<Rightarrow> bool" where
  "reachable db \<equiv> \<exists>start. no_reviews start \<and> reachable_by service_step start db"

lemma no_reviews_core: "no_reviews db \<Longrightarrow> core_of db = core_of empty_db"
  by (simp add: no_reviews_def core_of_def empty_db_def)

lemma no_reviews_ok: "no_reviews db \<Longrightarrow> store_ok db"
  by (simp add: no_reviews_def store_ok_def review_ok_def keys_ok_def current_ok_def numbering_ok_def authority_ok_def issues_ok_def
      ownership_ok_def outbox_ordered_def core_of_def)

lemma reachable_ok: "reachable db \<Longrightarrow> store_ok db"
  using service.reachable_invar no_reviews_ok by blast

lemma reachable_run: "no_reviews start \<Longrightarrow> reachable (run_ops service_step xs start)"
  using run_ops_reachable [of service_step start xs] by auto

end
