(* ===== verification/Spec2Isabelle.thy ===== *)
theory Spec2Isabelle
  imports Timecode Frame_Timing Service
begin

text \<open>
  A verification development of the video review service (\<open>src/backend/app\<close>): a team uploads
  cuts of a video, reviewers attach issues to exact frames, editors answer with new versions, a
  version is finalized, and the finalized originals are packed and downloaded. The service is a
  FastAPI application over one SQL database and a storage directory; background workers build
  packages, derive playback files and thumbnails, and remove what is no longer needed.

  \<^bold>\<open>State.\<close> One record \<open>db\<close> (theory Schema) has a list of rows for every table the
  modelled code reads or writes (\<open>infra/sqlalchemy_models.py\<close>). Store holds the row operations
  with their key and uniqueness checks, the environment of one request (clock, random identifiers,
  digests, what storage shows when a file is opened, the settings of \<open>settings.py\<close>), and the
  outbox. A handler maps a \<open>db\<close> to \<open>exn + answer * db\<close>: an error is a value and the
  state is returned only on success, which is the rollback of the surrounding transaction.

  \<^bold>\<open>Theories\<close>, in the order of their imports:
  \<^item> Prelude: errors as values, rows, sequences of operations; the locales
    \<open>checked_machine\<close> (an invariant kept by every operation), \<open>refined_machine\<close>
    (a machine that simulates an abstract one) and \<open>exclusive_lease\<close> (leases with a deadline).
  \<^item> Text, Json_Text, Timecode, Safe_Paths: Python strings, canonical JSON text
    (\<open>stable_hash\<close>), \<open>domain/timecode.py\<close>, path containment of
    \<open>safe_files.py\<close>.
  \<^item> Schema, Store, Samples: the database; a small concrete installation for the examples.
  \<^item> Union_Find, Thumbnails: \<open>thumbnail_similarity.py\<close>. The union-find loop is a
    \<open>partial_function\<close> that is shown to return on every forest the code builds.
  \<^item> Workflow: the abstract specification of the review process, an inductive step relation on
    videos, versions, finalizations and issues, and its invariant.
  \<^item> Views, Summary, Projects, Items, Issues, Finalization: the DTOs and command handlers of
    \<open>infra/repositories.py\<close>, each shown to refine the abstract steps.
  \<^item> Packages, Package_Builds, Downloads: packages of finalized originals, the leases of their
    builds and of their downloads.
  \<^item> Deletion, Deletion_Safety: \<open>infra/deletion.py\<close> and what its deletions keep.
  \<^item> Deletion_Cleanup: the removal of the deleted files afterwards (\<open>maintenance_cleanup.py\<close>): claims
    of intents, the identity checks before a file is removed, the outcome of artifacts and intents.
  \<^item> Access, Contracts, Frames, Commands, Transactions: from the request to the commit: the write
    guard and entry profiles (\<open>review_access/policies.py\<close>), the payload schemas
    (\<open>review_contracts/generated.py\<close>), the command bus with idempotency keys
    (\<open>application/command_handlers.py\<close>), and \<open>run_command\<close> with the operation log
    (\<open>review_http/command_routes.py\<close>).
  \<^item> Upload_Parts, Media_Files, Frame_Timing, Uploads, Upload_Safety: uploads in parts
    (\<open>upload_parts.py\<close>, \<open>review_media/service.py\<close>): admission, file names, file type
    check, constant frame rate check, sessions and their finalization leases.
  \<^item> Media_Containers, Derivatives: the media worker (\<open>media_derivatives.py\<close>): the walks
    over the boxes of an MP4 and the segments of a JPEG, the hash of a thumbnail; claims, leases,
    publication and failure of its tasks, and how it finds out what became of a commit.
  \<^item> Qc_Intervals, Qc_Tasks, Qc_Findings: the technical check (\<open>technical_qc.py\<close>): the
    intervals of a scan and their merging; discovery, sharing out and leases of its tasks; findings,
    the issues they become, and the end of a check.
  \<^item> Outbox: the dispatcher and the receipts of \<open>review_integration/outbox.py\<close>.
  \<^item> Service: every modelled request as one machine, and the states it can reach.

  \<^bold>\<open>What is shown.\<close> Below, of every reachable state: one current version per video,
  finalization and status agree with the rows that justify them, the outbox is ordered, and the
  whole service refines the abstract workflow. In the component theories: a retried command takes
  effect once, a failed one changes nothing but the log, every command is audited; deletions remove
  exactly their scope and never a file in use, and the cleaner then removes exactly the captured files
  and settles every intent; a published upload is the join of its parts; leases
  are exclusive and stale holders are ignored; quotas hold; the thumbnail grouping is the transitive
  closure of similarity, also when it is computed incrementally; canonical JSON texts coincide
  exactly for equal values; a video that passes the timing check has a constant frame rate; the
  container walks end on every file and accept exactly the intended layout; a published playback
  file is ready and linked; the technical check reports each finding once, shares its slots between
  the projects and ends all or nothing; the outbox drains.

  \<^bold>\<open>Bounds.\<close> Integers are unbounded as in Python; the widths of database columns are not
  modelled. The recursion of the timing check is on the length of the remaining stream. The container walks
  are \<open>partial_function\<close>s, shown to return on every file.

  \<^bold>\<open>Not modelled.\<close> Requests run one after the other (the service serialises them with
  row and advisory locks, which are not modelled), with one clock instant each. Database triggers
  and foreign keys that only reject what the code does not attempt are left out. Subprocesses
  (ffmpeg, ffprobe and the sandbox of the quality check), the bytes written to disk and the removal
  of files after a commit are operating system effects: what the code learns from them is part of
  the environment. The worker loops and the reading of the decoder's log, the
  periodic sweeps for stale uploads, expired packages, orphaned files and tombstones, the paginated
  queries, metrics, settings parsing, migrations and the web framework's routing are not modelled.
\<close>

section \<open>What holds in every state of the service\<close>

lemma reachable_review_ok: "reachable db \<Longrightarrow> review_ok (core_of db)"
  using reachable_ok by (simp add: store_ok_def)

lemma unique_filter:
  assumes "distinct xs" and "x \<in> set xs" and "P x" and "\<And>y. y \<in> set xs \<Longrightarrow> P y \<Longrightarrow> y = x"
  shows "filter P xs = [x]"
  using assms
proof (induction xs)
  case (Cons a xs)
  show ?case
  proof (cases "a = x")
    case True
    have "\<not> P y" if y: "y \<in> set xs" for y
    proof
      assume "P y"
      then have "y = x" using y by (intro Cons.prems(4)) simp_all
      then show False using Cons.prems(1) True y by simp
    qed
    then show ?thesis using True Cons.prems(3) by (simp add: filter_False)
  next
    case False
    then have "\<not> P a" using Cons.prems(4) [of a] by auto
    moreover have "filter P xs = [x]"
      by (rule Cons.IH) (use Cons.prems(1-3) False in simp_all, rule Cons.prems(4), simp_all)
    ultimately show ?thesis by simp
  qed
qed simp

text \<open>
  C1. In every reachable state each video has exactly one current version, it is the one the video
  points to, it belongs to the video's project, and every other version of the video has a smaller
  number.
\<close>

theorem one_current_version:
  assumes "reachable db" and "i \<in> set (db_items db)"
  shows "\<exists>v. filter (\<lambda>w. ver_review_item_id w = itm_id i \<and> ver_is_current w) (db_versions db) = [v]
    \<and> itm_current_version_id i = Some (ver_id v) \<and> ver_project_ref_id v = itm_project_ref_id i
    \<and> (\<forall>w \<in> set (db_versions db). ver_review_item_id w = itm_id i \<and> ver_id w \<noteq> ver_id v \<longrightarrow> ver_version_no w < ver_version_no v)"
proof -
  have ok: "keys_ok (core_of db)" "current_ok (core_of db)" "numbering_ok (core_of db)"
    using reachable_review_ok [OF assms(1)] by (simp_all add: review_ok_def)
  obtain v where v: "v \<in> set (db_versions db)" "points_to i (strip_assets v)"
    using current_okD [OF ok(2)] assms(2) by auto
  have d: "distinct (map ver_id (db_versions db))" "distinct (map itm_id (db_items db))"
    using ok(1) by (simp_all add: keys_ok_def comp_def)
  have uniq: "w = v" if w: "w \<in> set (db_versions db)" "ver_review_item_id w = itm_id i" "ver_is_current w" for w
  proof -
    obtain j where "j \<in> set (db_items db)" "itm_id i = itm_id j" "itm_current_version_id j = Some (ver_id w)"
      using ok(2) w by (auto simp: current_ok_def)
    then have "itm_current_version_id i = Some (ver_id w)" using key_inj [OF d(2)] assms(2) by metis
    then show ?thesis using v w(1) key_inj [OF d(1)] by (auto simp: points_to_def)
  qed
  have "filter (\<lambda>w. ver_review_item_id w = itm_id i \<and> ver_is_current w) (db_versions db) = [v]"
  proof (rule unique_filter)
    show "distinct (db_versions db)" using d(1) by (simp add: distinct_map)
    show "w = v" if "w \<in> set (db_versions db)" "ver_review_item_id w = itm_id i \<and> ver_is_current w" for w
      using uniq that by blast
  qed (use v in \<open>simp_all add: points_to_def\<close>)
  moreover have "ver_version_no w < ver_version_no v"
    if "w \<in> set (db_versions db)" "ver_review_item_id w = itm_id i" "ver_id w \<noteq> ver_id v" for w
  proof -
    have "strip_assets w \<noteq> strip_assets v" using that(3) by (metis strip_assets_sel(1))
    then have "ver_version_no (strip_assets w) < ver_version_no (strip_assets v)"
      using ok(3) that v unfolding numbering_ok_def points_to_def by auto
    then show ?thesis by simp
  qed
  ultimately show ?thesis using v(2) by (auto simp: points_to_def)
qed

text \<open>
  C2. In every reachable state a video is finalized exactly when it has an active finalization, that
  finalization is the only active one of the video, and it names the video's current version: no
  active finalization is left behind and none is missing.
\<close>

theorem finalized_exactly_when_authorised:
  assumes "reachable db" and "i \<in> set (db_items db)"
  shows "itm_workflow_status i = finalized \<longleftrightarrow>
      (\<exists>f. filter (\<lambda>g. fin_review_item_id g = itm_id i \<and> fin_status g = fin_active) (db_finalizations db) = [f]
        \<and> itm_active_finalization_id i = Some (fin_id f) \<and> itm_current_version_id i = Some (fin_version_id f))"
    (is "_ \<longleftrightarrow> (\<exists>f. filter ?P _ = [f] \<and> _ \<and> _)")
proof -
  have ok: "keys_ok (core_of db)" "authority_ok (core_of db)"
    using reachable_review_ok [OF assms(1)] by (simp_all add: review_ok_def)
  have d: "distinct (map fin_id (db_finalizations db))" "distinct (map itm_id (db_items db))"
    using ok(1) by (simp_all add: keys_ok_def)
  have auth: "(itm_workflow_status i = finalized) = (itm_active_finalization_id i \<noteq> None)"
    "itm_workflow_status i = finalized \<Longrightarrow> \<exists>f\<in>set (db_finalizations db). authorised i f"
    using ok(2) assms(2) by (auto simp: authority_ok_def)
  have own: "authorised i g" if g: "g \<in> set (db_finalizations db)" "?P g" for g
  proof -
    obtain j where "j \<in> set (db_items db)" "authorised j g" using ok(2) g by (auto simp: authority_ok_def)
    then show ?thesis using g assms(2) key_inj [OF d(2)] by (metis authorised_def)
  qed
  show ?thesis
  proof
    assume "itm_workflow_status i = finalized"
    then obtain f where f: "f \<in> set (db_finalizations db)" "authorised i f" using auth(2) by blast
    have "filter ?P (db_finalizations db) = [f]"
    proof (rule unique_filter)
      show "distinct (db_finalizations db)" using d(1) by (simp add: distinct_map)
      show "g = f" if "g \<in> set (db_finalizations db)" "?P g" for g
        using own [OF that] f that(1) key_inj [OF d(1)] by (auto simp: authorised_def)
    qed (use f in \<open>auto simp: authorised_def\<close>)
    then show "\<exists>f. filter ?P (db_finalizations db) = [f] \<and> itm_active_finalization_id i = Some (fin_id f)
        \<and> itm_current_version_id i = Some (fin_version_id f)" using f(2) by (auto simp: authorised_def)
  next
    assume "\<exists>f. filter ?P (db_finalizations db) = [f] \<and> itm_active_finalization_id i = Some (fin_id f)
        \<and> itm_current_version_id i = Some (fin_version_id f)"
    then show "itm_workflow_status i = finalized" using auth(1) by auto
  qed
qed

text \<open>
  C31. In every reachable state a video for which changes are requested has an open issue on its
  current version, a video that waits for review has none that counts, and every issue is attached
  to a version of the video it names.
\<close>

theorem status_matches_issues:
  assumes "reachable db" and "i \<in> set (db_items db)"
  shows "(itm_workflow_status i = changes_requested \<longrightarrow> (\<exists>s\<in>set (db_issues db). on_current i s \<and> open_issue s))
    \<and> (itm_workflow_status i = pending_review \<longrightarrow> \<not> (\<exists>s\<in>set (db_issues db). on_current i s \<and> open_issue s))
    \<and> (\<forall>s\<in>set (db_issues db). \<exists>v\<in>set (db_versions db). ver_id v = iss_version_id s \<and> ver_review_item_id v = iss_review_item_id s)"
proof -
  have "issues_ok (core_of db)" using reachable_review_ok [OF assms(1)] by (simp add: review_ok_def)
  then show ?thesis using assms(2) by (auto simp: issues_ok_def open_issue_def)
qed

text \<open>
  C3. The service refines the review workflow: whatever sequence of commands, worker steps and
  downloads leads to a state, seen through the rows of videos, versions, finalizations and issues it
  is a run of the abstract workflow from the empty store.
\<close>

theorem service_refines_workflow:
  assumes "reachable db"
  shows "review_step\<^sup>*\<^sup>* (core_of empty_db) (core_of db)"
  using assms workflow.reachable_refines no_reviews_ok no_reviews_core by metis

text \<open>
  In every reachable state the outbox is in strictly increasing order of sequence numbers, so a
  consumer that remembers the last number it has seen misses no event and sees none twice.
\<close>

theorem outbox_strictly_increasing:
  assumes "reachable db"
  shows "sorted_wrt (<) (map evt_sequence (db_events db))"
  using reachable_ok [OF assms] by (simp add: store_ok_def outbox_ordered_def)

text \<open>
  The consistency check over a project's finalizations, which guards every project-wide
  finalization and revocation, never refuses in a reachable state.
\<close>

lemma finalization_authority_never_refused:
  assumes "reachable db"
  shows "\<exists>active. locked_project_finalization_authority db p (locked_project_items db (prj_id p)) = Inr active"
  using authority_check_passes reachable_review_ok [OF assms] by blast

section \<open>A concrete run\<close>

text \<open>One video is created in a store that holds a project, an editor and an uploaded file.\<close>

definition ex_start :: db where
  "ex_start = empty_db\<lparr>db_projects := [ex_project],
     db_editors := [\<lparr>edt_id = ''e1'', edt_display_name = ''Ann'', edt_lock_version = 1, edt_created_at = 0, edt_updated_at = 0\<rparr>],
     db_files := [ex_file]\<rparr>"

definition ex_create_command :: envelope where
  "ex_create_command =
     \<lparr>cmd_command_id = ''k1'', cmd_command_type = ''CreateReviewItem'',
      cmd_payload = JObj [(''project_ref_id'', JStr ''p1''), (''original_file_id'', JStr ex_file_id), (''responsible_editor_id'', JStr ''e1''),
                          (''item_code'', JStr ''E01''), (''title'', JStr ''One'')]\<rparr>"

definition ex_create_item :: "env \<times> request" where
  "ex_create_item =
     (ex_env, Run_Command Commit_Ok ''CreateReviewItem'' ex_create_command [(''project_ref_id'', ''p1'')] ex_context (Some ''k1'') None)"

definition ex_created :: db where
  "ex_created =
     snd (run_command ex_env Commit_Ok ''CreateReviewItem'' ex_create_command [(''project_ref_id'', ''p1'')] ex_context (Some ''k1'') None ex_start)"

definition ex_run_state :: db where
  "ex_run_state = run_ops service_step [ex_create_item] ex_start"

lemma ex_run_state_reachable: "reachable ex_run_state"
  unfolding ex_run_state_def by (rule reachable_run) (simp add: no_reviews_def ex_start_def empty_db_def)

lemma ex_run_state_eq: "ex_run_state = ex_created"
  by (simp add: ex_run_state_def ex_create_item_def ex_created_def service_step_def run_ops_def apply_op_def)

lemma ex_created_rows:
  "map (\<lambda>i. (itm_id i, itm_workflow_status i, itm_current_version_id i)) (db_items ex_created) = [(''item_0'', pending_review, Some ''ver_1'')]
   \<and> map evt_sequence (db_events ex_created) = [1, 2] \<and> map ver_version_no (db_versions ex_created) = [1]"
  by code_simp

lemma ex_run_state_rows:
  "map (\<lambda>i. (itm_id i, itm_workflow_status i, itm_current_version_id i)) (db_items ex_run_state) = [(''item_0'', pending_review, Some ''ver_1'')]
   \<and> map evt_sequence (db_events ex_run_state) = [1, 2] \<and> map ver_version_no (db_versions ex_run_state) = [1]"
  unfolding ex_run_state_eq by (rule ex_created_rows)

lemma ex_run_item:
  obtains i where "i \<in> set (db_items ex_run_state)" "itm_id i = ''item_0''" "itm_workflow_status i = pending_review"
    "itm_current_version_id i = Some ''ver_1''"
  using ex_run_state_rows by auto

theorem one_current_version_witness:
  "\<exists>i v. i \<in> set (db_items ex_run_state)
     \<and> filter (\<lambda>w. ver_review_item_id w = itm_id i \<and> ver_is_current w) (db_versions ex_run_state) = [v] \<and> ver_id v = ''ver_1''"
proof -
  obtain i where "i \<in> set (db_items ex_run_state)" "itm_current_version_id i = Some ''ver_1''" by (rule ex_run_item)
  then show ?thesis using one_current_version [OF ex_run_state_reachable] by fastforce
qed

theorem finalized_exactly_when_authorised_witness:
  "\<exists>i. i \<in> set (db_items ex_run_state) \<and> itm_workflow_status i = pending_review \<and>
     \<not> (\<exists>f. filter (\<lambda>g. fin_review_item_id g = itm_id i \<and> fin_status g = fin_active) (db_finalizations ex_run_state) = [f]
        \<and> itm_active_finalization_id i = Some (fin_id f) \<and> itm_current_version_id i = Some (fin_version_id f))"
proof -
  obtain i where i: "i \<in> set (db_items ex_run_state)" "itm_workflow_status i = pending_review" by (rule ex_run_item)
  then show ?thesis using finalized_exactly_when_authorised [OF ex_run_state_reachable i(1)]
    by (metis workflow_status.distinct)
qed

theorem status_matches_issues_witness:
  "\<exists>i. i \<in> set (db_items ex_run_state) \<and> itm_workflow_status i = pending_review
     \<and> \<not> (\<exists>s\<in>set (db_issues ex_run_state). on_current i s \<and> open_issue s)"
proof -
  obtain i where "i \<in> set (db_items ex_run_state)" "itm_workflow_status i = pending_review" by (rule ex_run_item)
  then show ?thesis using status_matches_issues [OF ex_run_state_reachable] by blast
qed

theorem service_refines_workflow_witness:
  "review_step\<^sup>*\<^sup>* (core_of empty_db) (core_of ex_run_state) \<and> core_of ex_run_state \<noteq> core_of empty_db"
proof -
  have "db_items ex_run_state \<noteq> db_items empty_db" using ex_run_state_rows by (auto simp: empty_db_def)
  then have "core_of ex_run_state \<noteq> core_of empty_db" by (auto dest: arg_cong [where f = co_items])
  then show ?thesis using service_refines_workflow [OF ex_run_state_reachable] by blast
qed

theorem outbox_strictly_increasing_witness:
  "sorted_wrt (<) (map evt_sequence (db_events ex_run_state)) \<and> length (db_events ex_run_state) = 2"
  using outbox_strictly_increasing [OF ex_run_state_reachable] ex_run_state_rows by (auto dest: arg_cong [where f = length])

end
